(* ===== verification/Prelude.thy ===== *)
theory Prelude
  imports Complex_Main "HOL-Library.Sublist" "HOL-Library.Char_ord" "HOL-Library.List_Lexorder"
begin

text \<open>
  What every component of the model shares: the result type of a request handler, the
  Python idioms the backend and the daemon use (\<open>x or 0\<close>, truthiness of an optional
  string, \<open>dict.fromkeys\<close>, \<open>str.partition\<close>, \<open>str.split\<close>, ...), the operations on a
  database table (a list of rows with a key column) and their laws, stated once in the
  locale \<open>keyed_table\<close>.

  Conventions.
  \<^item> A handler returns \<open>http_error + 'a\<close>: \<open>Inl (HTTP code)\<close> is a raised
    \<open>HTTPException\<close> (the human-readable detail text is left out), \<open>Inr\<close> the answer.
    A handler that changes the database returns the new database beside its answer, so an
    error leaves the database as it was: the session is closed without a commit.
  \<^item> Gigabytes are rationals (\<open>gb\<close>): comparisons and sums of the code's floats are
    taken exactly, without their rounding.
  \<^item> Strings are lists of characters; \<open>lower\<close> and \<open>strip\<close> act on ASCII.
\<close>

named_theorems py_simps \<open>characteristic equations of the Python idioms\<close>
named_theorems table_simps \<open>laws of table lookups, updates and inserts\<close>

type_synonym gb = rat
type_synonym seconds = int

datatype http_error = HTTP (status_code: int)

type_synonym 'a api = "http_error + 'a"

definition ebind :: "'e + 'a \<Rightarrow> ('a \<Rightarrow> 'e + 'b) \<Rightarrow> 'e + 'b" where
  "ebind r k = (case r of Inl e \<Rightarrow> Inl e | Inr x \<Rightarrow> k x)"

definition require :: "bool \<Rightarrow> int \<Rightarrow> unit api" where
  "require b code = (if b then Inr () else Inl (HTTP code))"

lemma ebind_simps [simp, py_simps]:
  "ebind (Inl e) k = Inl e"
  "ebind (Inr x) k = k x"
  by (simp_all add: ebind_def)

lemma ebind_eq_Inr [simp]: "ebind r k = Inr y \<longleftrightarrow> (\<exists>x. r = Inr x \<and> k x = Inr y)"
  by (cases r) auto

lemma require_eq_Inr [simp]: "require b c = Inr u \<longleftrightarrow> b"
  by (simp add: require_def)

lemma require_simps [simp, py_simps]:
  "require True c = Inr ()"
  "require False c = Inl (HTTP c)"
  by (simp_all add: require_def)

definition get_or :: "int \<Rightarrow> 'a option \<Rightarrow> 'a api" where
  "get_or code x = (case x of None \<Rightarrow> Inl (HTTP code) | Some v \<Rightarrow> Inr v)"

lemma get_or_simps [simp, py_simps]:
  "get_or c None = Inl (HTTP c)"
  "get_or c (Some v) = Inr v"
  by (simp_all add: get_or_def)

lemma get_or_eq_Inr [simp]: "get_or c x = Inr v \<longleftrightarrow> x = Some v"
  by (cases x) auto

text \<open>The exceptions other than \<open>HTTPException\<close> that a branch of the code can raise.\<close>

datatype py_exn =
    IndexError | KeyError | ValueError | TypeError | AttributeError | UnboundLocalError

section \<open>Python idioms\<close>

text \<open>\<open>x or 0\<close> on an optional number, \<open>x or ''\<close> on an optional string.\<close>

definition or0 :: "'a::zero option \<Rightarrow> 'a" where
  "or0 x = (case x of None \<Rightarrow> 0 | Some v \<Rightarrow> v)"

lemma or0_simps [simp, py_simps]: "or0 None = 0" "or0 (Some v) = v"
  by (simp_all add: or0_def)

text \<open>Truth value of an optional string: neither \<open>None\<close> nor the empty string.\<close>

definition truthy :: "'a list option \<Rightarrow> bool" where
  "truthy x = (case x of None \<Rightarrow> False | Some s \<Rightarrow> s \<noteq> [])"

lemma truthy_simps [simp, py_simps]: "truthy None = False" "truthy (Some s) = (s \<noteq> [])"
  by (simp_all add: truthy_def)

text \<open>The dash in a text, as its UTF-8 bytes.\<close>

definition em_dash :: string where "em_dash = [CHR 0xE2, CHR 0x80, CHR 0x94]"

text \<open>\<open>list(dict.fromkeys(xs))\<close>: drop later duplicates, keep the first occurrence.\<close>

fun fromkeys :: "'a list \<Rightarrow> 'a list" where
  "fromkeys [] = []"
| "fromkeys (x # xs) = x # filter (\<lambda>y. y \<noteq> x) (fromkeys xs)"

lemma set_fromkeys [simp]: "set (fromkeys xs) = set xs"
  by (induction xs) auto

lemma distinct_fromkeys [simp]: "distinct (fromkeys xs)"
  by (induction xs) auto

text \<open>\<open>d[k] = v\<close> on an insertion-ordered dictionary: overwrite in place or append.\<close>

fun dict_set :: "'k \<Rightarrow> 'v \<Rightarrow> ('k \<times> 'v) list \<Rightarrow> ('k \<times> 'v) list" where
  "dict_set k v [] = [(k, v)]"
| "dict_set k v ((k', v') # d) = (if k = k' then (k, v) # d else (k', v') # dict_set k v d)"

text \<open>\<open>d.setdefault(k, v)\<close>: append only when the key is absent.\<close>

definition dict_setdefault :: "'k \<Rightarrow> 'v \<Rightarrow> ('k \<times> 'v) list \<Rightarrow> ('k \<times> 'v) list" where
  "dict_setdefault k v d = (if map_of d k = None then d @ [(k, v)] else d)"

lemma map_of_dict_set [simp]: "map_of (dict_set k v d) = (map_of d)(k \<mapsto> v)"
  by (induction d) (auto simp: fun_eq_iff)

lemma keys_dict_set: "fst ` set (dict_set k v d) = insert k (fst ` set d)"
  by (induction k v d rule: dict_set.induct) (simp_all add: insert_commute)

lemma distinct_dict_set: "distinct (map fst d) \<Longrightarrow> distinct (map fst (dict_set k v d))"
proof (induction d)
  case (Cons p d)
  moreover have "fst p \<in> fst ` set (dict_set k v d) \<longleftrightarrow> fst p = k \<or> fst p \<in> fst ` set d"
    by (auto simp: keys_dict_set)
  ultimately show ?case by (cases p) auto
qed simp

lemma map_of_append_None [simp]: "map_of d k = None \<Longrightarrow> map_of (d @ [(k, v)]) = (map_of d)(k \<mapsto> v)"
  by (rule ext) (simp add: map_add_def option.case_eq_if)

lemma map_of_dict_setdefault:
  "map_of (dict_setdefault k v d) = (if map_of d k = None then (map_of d)(k \<mapsto> v) else map_of d)"
  unfolding dict_setdefault_def by (auto simp del: map_of_append)

section \<open>Strings\<close>

definition lower_char :: "char \<Rightarrow> char" where
  "lower_char c = (let n = (of_char c :: nat) in
     if 65 \<le> n \<and> n \<le> 90 then char_of (n + 32) else c)"

definition lower :: "string \<Rightarrow> string" where
  "lower s = map lower_char s"

definition is_space :: "char \<Rightarrow> bool" where
  "is_space c \<longleftrightarrow> (let n = (of_char c :: nat) in n = 32 \<or> (9 \<le> n \<and> n \<le> 13) \<or> (28 \<le> n \<and> n \<le> 31))"

definition strip :: "string \<Rightarrow> string" where
  "strip s = rev (dropWhile is_space (rev (dropWhile is_space s)))"

lemma strip_no_space: "\<forall>c \<in> set s. \<not> is_space c \<Longrightarrow> strip s = s"
proof -
  assume ns: "\<forall>c \<in> set s. \<not> is_space c"
  have dw: "dropWhile is_space t = t" if "\<forall>c \<in> set t. \<not> is_space c" for t
    using that by (cases t) auto
  show ?thesis using ns dw [of s] dw [of "rev s"] by (simp add: strip_def)
qed

text \<open>\<open>s.partition(c)\<close> without the separator: the part before the first \<open>c\<close> and the
  part after it (empty when there is none).\<close>

definition partition_at :: "char \<Rightarrow> string \<Rightarrow> string \<times> string" where
  "partition_at c s = (takeWhile (\<lambda>x. x \<noteq> c) s, drop 1 (dropWhile (\<lambda>x. x \<noteq> c) s))"

text \<open>\<open>s.split(c)\<close>.\<close>

fun split_on :: "char \<Rightarrow> string \<Rightarrow> string list" where
  "split_on c [] = [[]]"
| "split_on c (x # xs) =
     (if x = c then [] # split_on c xs
      else (case split_on c xs of [] \<Rightarrow> [[x]] | w # ws \<Rightarrow> (x # w) # ws))"

fun join_with :: "string \<Rightarrow> string list \<Rightarrow> string" where
  "join_with sep [] = []"
| "join_with sep [w] = w"
| "join_with sep (w # ws) = w @ sep @ join_with sep ws"

lemma split_on_nonempty [simp]: "split_on c s \<noteq> []"
  by (induction s) (auto split: list.splits)

lemma split_on_no_sep: "w \<in> set (split_on c s) \<Longrightarrow> c \<notin> set w"
proof (induction s arbitrary: w)
  case (Cons x s)
  then show ?case by (cases "split_on c s") (auto split: if_splits)
qed simp

lemma split_on_single: "c \<notin> set s \<Longrightarrow> split_on c s = [s]"
  by (induction s) auto

lemma split_on_append: "c \<notin> set a \<Longrightarrow> split_on c (a @ c # s) = a # split_on c s"
  by (induction a) auto

lemma split_on_append_gen: "split_on c (a @ c # s) = split_on c a @ split_on c s"
proof (induction a)
  case (Cons x a)
  then show ?case by (cases "split_on c a") auto
qed simp

lemma partition_at_append: "c \<notin> set a \<Longrightarrow> partition_at c (a @ c # s) = (a, s)"
  by (induction a) (auto simp: partition_at_def)

lemma partition_at_none: "c \<notin> set a \<Longrightarrow> partition_at c a = (a, [])"
  by (induction a) (auto simp: partition_at_def)

lemma lower_char_idem [simp]: "lower_char (lower_char c) = lower_char c"
proof -
  have "65 \<le> (of_char c :: nat) \<Longrightarrow> (of_char c :: nat) \<le> 90 \<Longrightarrow>
      (of_char (char_of ((of_char c :: nat) + 32)) :: nat) = of_char c + 32"
    by simp
  then show ?thesis by (auto simp: lower_char_def Let_def)
qed

lemma lower_idem [simp]: "lower (lower s) = lower s"
  by (simp add: lower_def)

text \<open>\<open>str(n)\<close> for a natural number.\<close>

definition digit_char :: "nat \<Rightarrow> char" where
  "digit_char d = char_of (48 + d)"

fun str_of_nat :: "nat \<Rightarrow> string" where
  "str_of_nat n = (if n < 10 then [digit_char n] else str_of_nat (n div 10) @ [digit_char (n mod 10)])"

declare str_of_nat.simps [simp del]

lemma digit_char_inj: "a < 10 \<Longrightarrow> b < 10 \<Longrightarrow> digit_char a = digit_char b \<Longrightarrow> a = b"
proof -
  assume "a < 10" "b < 10" "digit_char a = digit_char b"
  moreover have "(of_char (digit_char a) :: nat) = 48 + a" if "a < 10" for a
    using that by (simp add: digit_char_def)
  ultimately show "a = b" by (metis add_left_cancel)
qed

lemma str_of_nat_nonempty: "str_of_nat n \<noteq> []" "[] \<noteq> str_of_nat n"
  by (subst str_of_nat.simps, simp)+

lemma str_of_nat_inj: "str_of_nat a = str_of_nat b \<Longrightarrow> a = b"
proof (induction a arbitrary: b rule: str_of_nat.induct)
  case (1 a)
  note eq = "1.prems"[unfolded str_of_nat.simps[of a] str_of_nat.simps[of b]]
  show ?case
  proof (cases "a < 10")
    case True
    then show ?thesis
      using eq by (cases "b < 10") (auto simp: str_of_nat_nonempty dest: digit_char_inj)
  next
    case False
    then have "\<not> b < 10" using eq by (auto simp: str_of_nat_nonempty)
    with False eq have "a div 10 = b div 10" and "digit_char (a mod 10) = digit_char (b mod 10)"
      using "1.IH" by auto
    then show ?thesis by (metis digit_char_inj div_mult_mod_eq mod_less_divisor zero_less_numeral)
  qed
qed

section \<open>Tables\<close>

text \<open>
  A table is the list of its rows. A query without \<open>order_by\<close> yields the rows in list
  order, \<open>.first()\<close> the first one. Assigning to the attributes of a loaded row updates
  the row with that primary key.
\<close>

definition tbl_get :: "('r \<Rightarrow> 'k) \<Rightarrow> 'k \<Rightarrow> 'r list \<Rightarrow> 'r option" where
  "tbl_get key k rows = find (\<lambda>r. key r = k) rows"

definition tbl_upd :: "('r \<Rightarrow> 'k) \<Rightarrow> 'k \<Rightarrow> ('r \<Rightarrow> 'r) \<Rightarrow> 'r list \<Rightarrow> 'r list" where
  "tbl_upd key k f rows = map (\<lambda>r. if key r = k then f r else r) rows"

definition tbl_add :: "'r \<Rightarrow> 'r list \<Rightarrow> 'r list" where
  "tbl_add r rows = rows @ [r]"

definition tbl_del :: "('r \<Rightarrow> 'k) \<Rightarrow> 'k \<Rightarrow> 'r list \<Rightarrow> 'r list" where
  "tbl_del key k rows = filter (\<lambda>r. key r \<noteq> k) rows"

text \<open>What the request handlers rely on.\<close>

locale keyed_table =
  fixes key :: "'r \<Rightarrow> 'k"
    and get :: "'k \<Rightarrow> 't \<Rightarrow> 'r option"
    and upd :: "'k \<Rightarrow> ('r \<Rightarrow> 'r) \<Rightarrow> 't \<Rightarrow> 't"
    and add :: "'r \<Rightarrow> 't \<Rightarrow> 't"
    and del :: "'k \<Rightarrow> 't \<Rightarrow> 't"
  assumes get_key: "get k t = Some r \<Longrightarrow> key r = k"
    and get_upd: "(\<And>r. key (f r) = key r) \<Longrightarrow>
        get k (upd k' f t) = (if k = k' then map_option f (get k t) else get k t)"
    and get_add: "get k (add r t) = (case get k t of Some r' \<Rightarrow> Some r' | None \<Rightarrow> if k = key r then Some r else None)"
    and get_del: "get k (del k' t) = (if k = k' then None else get k t)"
begin

lemma get_upd_same: "(\<And>r. key (f r) = key r) \<Longrightarrow> get k t = Some r \<Longrightarrow> get k (upd k f t) = Some (f r)"
  by (simp add: get_upd)

lemma get_upd_other: "(\<And>r. key (f r) = key r) \<Longrightarrow> k \<noteq> k' \<Longrightarrow> get k (upd k' f t) = get k t"
  by (simp add: get_upd)

lemma get_add_fresh: "get (key r) t = None \<Longrightarrow> get (key r) (add r t) = Some r"
  by (simp add: get_add)

lemma get_add_old: "get k t = Some r' \<Longrightarrow> get k (add r t) = Some r'"
  by (simp add: get_add)

lemma get_del_none: "get k (del k t) = None"
  by (simp add: get_del)

lemma upd_twice:
  assumes "\<And>r. key (f r) = key r" and "\<And>r. key (g r) = key r"
  shows "get k (upd k' g (upd k' f t)) = get k (upd k' (g \<circ> f) t)"
proof -
  have "\<And>r. key ((g \<circ> f) r) = key r" using assms by simp
  then show ?thesis using assms by (simp add: get_upd option.map_comp)
qed

end

lemma find_map_key:
  assumes "\<And>r. key (f r) = key r"
  shows "find (\<lambda>r. key r = k) (map f rows) = map_option f (find (\<lambda>r. key r = k) rows)"
  by (induction rows) (auto simp: assms)

lemma tbl_get_upd:
  assumes "\<And>r. key (f r) = key r"
  shows "tbl_get key k (tbl_upd key k' f rows) =
    (if k = k' then map_option f (tbl_get key k rows) else tbl_get key k rows)"
  unfolding tbl_get_def tbl_upd_def
  by (induction rows) (auto simp: assms)

lemma find_append: "find P (xs @ ys) = (case find P xs of Some x \<Rightarrow> Some x | None \<Rightarrow> find P ys)"
  by (induction xs) auto

lemma find_SomeD: "find P xs = Some x \<Longrightarrow> P x \<and> x \<in> set xs"
  by (induction xs) (auto split: if_splits)

lemma find_filter_key: "find (\<lambda>r. key r = k) (filter (\<lambda>r. key r \<noteq> k') rows)
    = (if k = k' then None else find (\<lambda>r. key r = k) rows)"
  by (induction rows) auto

lemma tbl_get_SomeD: "tbl_get key k rows = Some r \<Longrightarrow> key r = k \<and> r \<in> set rows"
  unfolding tbl_get_def by (drule find_SomeD) simp

lemma tbl_get_None: "tbl_get key k rows = None \<longleftrightarrow> k \<notin> key ` set rows"
  unfolding tbl_get_def by (induction rows) auto

lemma tbl_get_distinct:
  "distinct (map key rows) \<Longrightarrow> r \<in> set rows \<Longrightarrow> tbl_get key (key r) rows = Some r"
  unfolding tbl_get_def by (induction rows) force+

lemma distinct_key_eq:
  "distinct (map key rows) \<Longrightarrow> a \<in> set rows \<Longrightarrow> b \<in> set rows \<Longrightarrow> key a = key b \<Longrightarrow> a = b"
  by (auto simp: distinct_map inj_on_def)

lemma tbl_upd_keys [simp]: "(\<And>r. key (f r) = key r) \<Longrightarrow> map key (tbl_upd key k f rows) = map key rows"
  by (simp add: tbl_upd_def)

lemma keyed_table_lists: "keyed_table key (tbl_get key) (tbl_upd key) tbl_add (tbl_del key)"
proof unfold_locales
  show "tbl_get key k t = Some r \<Longrightarrow> key r = k" for k t r
    by (drule tbl_get_SomeD) simp
  show "(\<And>r. key (f r) = key r) \<Longrightarrow>
        tbl_get key k (tbl_upd key k' f t) = (if k = k' then map_option f (tbl_get key k t) else tbl_get key k t)" for k k' f t
    by (rule tbl_get_upd)
  show "tbl_get key k (tbl_add r t) = (case tbl_get key k t of Some r' \<Rightarrow> Some r' | None \<Rightarrow> if k = key r then Some r else None)" for k r t
    by (simp add: tbl_get_def tbl_add_def find_append split: option.splits)
  show "tbl_get key k (tbl_del key k' t) = (if k = k' then None else tbl_get key k t)" for k k' t
    by (simp add: tbl_get_def tbl_del_def find_filter_key)
qed

end
