(* ===== verification/Data_Model.thy ===== *)
theory Data_Model
  imports Prelude
begin

text \<open>
  The rows of the control plane's database (\<open>backend/models.py\<close>), JSON values, and the
  state record \<open>srv\<close> that every handler reads and updates: one list of rows per table
  and the files on disk. Child rows that the ORM loads through a relationship are nested
  in their parent (a worker's GPUs and runtimes, a runtime's models, a catalogue entry's
  profiles and artifact files); their order is the relationship's order. Status columns
  whose values the server alone writes are datatypes, free strings stay strings. A
  nullable column is an option.
\<close>

section \<open>JSON values\<close>

text \<open>What \<open>json.loads\<close> returns. Object keys are distinct (a later duplicate has
  already replaced an earlier one).\<close>

datatype json =
    JNull | JBool bool | JInt int | JFloat rat | JStr string
  | JArr "json list" | JObj "(string \<times> json) list"

type_synonym jdict = "(string \<times> json) list"

text \<open>\<open>d.get(k)\<close>: an absent key and an explicit null read alike.\<close>

definition jget :: "string \<Rightarrow> jdict \<Rightarrow> json" where
  "jget k d = (case map_of d k of None \<Rightarrow> JNull | Some v \<Rightarrow> v)"

definition jhas :: "string \<Rightarrow> jdict \<Rightarrow> bool" where
  "jhas k d \<longleftrightarrow> map_of d k \<noteq> None"

fun jtruthy :: "json \<Rightarrow> bool" where
  "jtruthy JNull = False"
| "jtruthy (JBool b) = b"
| "jtruthy (JInt n) = (n \<noteq> 0)"
| "jtruthy (JFloat r) = (r \<noteq> 0)"
| "jtruthy (JStr s) = (s \<noteq> [])"
| "jtruthy (JArr xs) = (xs \<noteq> [])"
| "jtruthy (JObj d) = (d \<noteq> [])"

fun jstr :: "json \<Rightarrow> string option" where
  "jstr (JStr s) = Some s"
| "jstr _ = None"

fun jdict_of :: "json \<Rightarrow> jdict option" where
  "jdict_of (JObj d) = Some d"
| "jdict_of _ = None"

lemma jstr_eq_Some [simp]: "jstr v = Some s \<longleftrightarrow> v = JStr s"
  by (cases v) auto

lemma jdict_of_eq_Some [simp]: "jdict_of v = Some d \<longleftrightarrow> v = JObj d"
  by (cases v) auto

section \<open>Identity and organizations\<close>

datatype platform_role = RoleUser | RoleAdmin | RoleSuperadmin
datatype org_role = Owner | Admin | Viewer
datatype key_type = WorkerKey | PersonalKey
datatype key_status = KeyActive | KeyRevoked

datatype auth_provider = LocalAuth | GoogleAuth | BothAuth

text \<open>\<open>platform_role\<close> and \<open>auth_provider\<close> are strings in the code; the server writes these values
  only. \<open>usr_password_hash\<close> is null for an account made by Google sign-in.\<close>

record user_row =
  usr_id :: string
  usr_email :: string
  usr_password_hash :: "string option"
  usr_full_name :: string
  usr_role :: platform_role
  usr_active :: bool
  usr_must_change :: bool
  usr_google_id :: "string option"
  usr_auth_provider :: auth_provider
  usr_created_at :: seconds

record allowed_domain_row =
  dom_id :: string
  dom_domain :: string
  dom_subdomains :: bool
  dom_note :: "string option"
  dom_created_by :: "string option"
  dom_created_at :: seconds

record org_row =
  org_id :: string
  org_name :: string
  org_created_at :: seconds

record membership_row =
  mb_id :: string
  mb_org_id :: string
  mb_user_id :: string
  mb_role :: org_role

record invite_row =
  inv_id :: string
  inv_org_id :: string
  inv_inviter_id :: string
  inv_email :: string
  inv_user_id :: "string option"
  inv_role :: org_role
  inv_token :: string
  inv_expires_at :: seconds
  inv_accepted :: bool
  inv_created_at :: seconds

record api_key_row =
  ak_id :: string
  ak_org_id :: "string option"
  ak_type :: key_type
  ak_user_id :: string
  ak_name :: string
  ak_prefix :: string
  ak_hash :: string
  ak_status :: key_status
  ak_last_used_at :: "seconds option"
  ak_expires_at :: "seconds option"
  ak_created_at :: seconds
  ak_revoked_at :: "seconds option"

record reset_token_row =
  prt_id :: string
  prt_user_id :: string
  prt_token :: string
  prt_expires_at :: seconds
  prt_used :: bool

section \<open>Workers\<close>

datatype worker_status = Online | Offline | Draining | WorkerError
datatype activity = Idle | Busy | DownloadingModel
datatype model_status =
    Available | Downloading | NotDownloaded | ModelError | Unregistered | Drift | Missing

record artifact_ref =
  af_file :: string
  af_sha256 :: "string option"
  af_size :: "int option"

record model_row =
  m_name :: string
  m_runtime_model_id :: "string option"
  m_digest :: "string option"
  m_catalog_id :: "string option"
  m_status :: model_status
  m_loaded :: bool
  m_details :: "jdict option"
  m_size_bytes :: "int option"
  m_files :: "artifact_ref list option"

text \<open>\<open>RuntimeModel.schedulable\<close>.\<close>

definition model_schedulable :: "model_row \<Rightarrow> bool" where
  "model_schedulable m \<longleftrightarrow> m_status m \<notin> {Unregistered, Drift, Missing}"

record runtime_row =
  rt_id :: string
  rt_engine :: string
  rt_base_url :: string
  rt_capabilities :: "(string \<times> bool) list option"
  rt_version :: "string option"
  rt_status :: string
  rt_empty_beats :: "int option"
  rt_position :: nat
  rt_models :: "model_row list"

text \<open>\<open>WorkerRuntime.schedulable\<close>: only a \<open>ready\<close> runtime is given work.\<close>

definition runtime_schedulable :: "runtime_row \<Rightarrow> bool" where
  "runtime_schedulable rt \<longleftrightarrow> rt_status rt = ''ready''"

record gpu_row =
  g_index :: int
  g_vendor :: "string option"
  g_name :: "string option"
  g_vram_gb :: "gb option"
  g_driver :: "string option"
  g_cuda :: "string option"
  g_rocm :: "string option"

record worker =
  w_id :: string
  w_org_id :: string
  w_api_key_id :: "string option"
  w_hostname :: string
  w_os :: "string option"
  w_cpu_cores :: "int option"
  w_ram_total_gb :: "gb option"
  w_ram_available_gb :: "gb option"
  w_status :: worker_status
  w_activity :: activity
  w_vram_total_gb :: "gb option"
  w_vram_available_gb :: "gb option"
  w_window_start :: "int option"
  w_window_end :: "int option"
  w_window_tz :: "string option"
  w_max_batch_prompts :: "int option"
  w_last_heartbeat :: seconds
  w_created_at :: seconds
  w_gpus :: "gpu_row list"
  w_runtimes :: "runtime_row list"

text \<open>The methods of \<open>Worker\<close>.\<close>

definition loaded_model_names :: "worker \<Rightarrow> string list" where
  "loaded_model_names w = [m_name m. rt \<leftarrow> w_runtimes w, m \<leftarrow> rt_models rt, m_loaded m]"

definition advertised_model_names :: "worker \<Rightarrow> string set" where
  "advertised_model_names w = set [m_name m. rt \<leftarrow> w_runtimes w, m \<leftarrow> rt_models rt]"

definition advertised_models :: "worker \<Rightarrow> (string \<times> string option) list" where
  "advertised_models w =
     [(m_name m, m_digest m). rt \<leftarrow> w_runtimes w, runtime_schedulable rt,
        m \<leftarrow> rt_models rt, model_schedulable m]"

definition loaded_models :: "worker \<Rightarrow> (string \<times> string option) list" where
  "loaded_models w =
     [(m_name m, m_digest m). rt \<leftarrow> w_runtimes w, runtime_schedulable rt,
        m \<leftarrow> rt_models rt, m_loaded m \<and> model_schedulable m]"

section \<open>Model catalogue\<close>

datatype catalog_status = CatActive | CatRequested | CatDeprecated | CatUnverified

record profile_row =
  p_runtime :: string
  p_runtime_model_id :: string
  p_extra_ids :: "string list option"
  p_params :: "json option"

record artifact_row =
  ca_file :: string
  ca_role :: string
  ca_sha256 :: "string option"
  ca_size :: "int option"

record catalog_entry =
  c_id :: string
  c_display_name :: string
  c_runtime :: string
  c_runtime_model_id :: string
  c_digest :: "string option"
  c_quantization :: "string option"
  c_vram_gb :: "gb option"
  c_size_gb :: "gb option"
  c_task_type :: "string option"
  c_parameter_size :: "string option"
  c_context_length :: "int option"
  c_capabilities :: "json option"
  c_lineage :: "string option"
  c_source_type :: "string option"
  c_source_ref :: "string option"
  c_source_revision :: "string option"
  c_homepage_url :: "string option"
  c_org_id :: "string option"
  c_status :: catalog_status
  c_enabled :: bool
  c_adopted_by :: "string option"
  c_profiles :: "profile_row list"
  c_files :: "artifact_row list"

definition selectable_statuses :: "catalog_status list" where
  "selectable_statuses = [CatActive, CatUnverified]"

text \<open>\<open>ModelCatalog.serving_targets\<close>: the profiles when there are any, each with its
  extra names, else the legacy pair.\<close>

definition profile_targets :: "profile_row \<Rightarrow> (string \<times> string) list" where
  "profile_targets p = (p_runtime p, p_runtime_model_id p)
     # map (\<lambda>extra. (p_runtime p, extra)) (case p_extra_ids p of None \<Rightarrow> [] | Some xs \<Rightarrow> xs)"

definition serving_targets :: "catalog_entry \<Rightarrow> (string \<times> string) list" where
  "serving_targets e =
     (if c_profiles e \<noteq> [] then concat (map profile_targets (c_profiles e))
      else [(c_runtime e, c_runtime_model_id e)])"

lemma serving_targets_nonempty [simp]: "serving_targets e \<noteq> []"
  by (cases "c_profiles e") (simp_all add: serving_targets_def profile_targets_def)

section \<open>Files and batches\<close>

datatype batch_status = Validating | Validated | InProgress | Completed | Failed

record file_row =
  f_id :: string
  f_user_id :: "string option"
  f_filename :: string
  f_purpose :: string
  f_bytes :: int
  f_filepath :: string
  f_created_at :: seconds

text \<open>What \<open>Batch.error_details\<close> holds: a worker's error text, or the validator's JSON
  report (the stored errors as (code, line, field) and the total count), or the note that
  the report could not be stored.\<close>

record verror =
  ve_code :: string
  ve_line :: "nat option"
  ve_field :: "string option"

datatype error_details = ErrText string | ErrReport "verror list" nat | ErrPersist

record batch =
  b_id :: string
  b_user_id :: "string option"
  b_api_key_id :: "string option"
  b_endpoint :: string
  b_model :: "string option"
  b_input_file_id :: string
  b_completion_window :: string
  b_status :: batch_status
  b_output_file_id :: "string option"
  b_created_at :: seconds
  b_expires_at :: "seconds option"
  b_requested_at :: "seconds option"
  b_completed_at :: "seconds option"
  b_total :: "int option"
  b_completed :: "int option"
  b_failed :: "int option"
  b_error_details :: "error_details option"
  b_attempts :: "int option"
  b_metadata :: "(string \<times> string) list option"
  b_required_capabilities :: "string list option"
  b_prompt_tokens :: "int option"
  b_completion_tokens :: "int option"
  b_total_tokens :: "int option"
  b_ingest_pending :: bool
  b_ingest_attempts :: "int option"

record usage_row =
  ur_id :: string
  ur_batch_id :: string
  ur_custom_id :: string
  ur_model :: "string option"
  ur_prompt :: int
  ur_completion :: int
  ur_total :: int
  ur_created_at :: seconds

record assignment =
  a_batch_id :: string
  a_worker_id :: string
  a_org_id :: string
  a_hostname :: "string option"
  a_assigned_at :: seconds

section \<open>The state\<close>

record srv =
  users :: "user_row list"
  orgs :: "org_row list"
  memberships :: "membership_row list"
  invites :: "invite_row list"
  api_keys :: "api_key_row list"
  workers :: "worker list"
  catalog :: "catalog_entry list"
  files :: "file_row list"
  batches :: "batch list"
  usage_rows :: "usage_row list"
  assignments :: "assignment list"
  disk :: "string \<rightharpoonup> string list"
  reset_tokens :: "reset_token_row list"
  allowed_domains :: "allowed_domain_row list"

definition empty_srv :: srv where
  "empty_srv = \<lparr>users = [], orgs = [], memberships = [], invites = [], api_keys = [],
     workers = [], catalog = [], files = [], batches = [], usage_rows = [],
     assignments = [], disk = Map.empty, reset_tokens = [], allowed_domains = []\<rparr>"

abbreviation get_batch_row :: "srv \<Rightarrow> string \<Rightarrow> batch option" where
  "get_batch_row db i \<equiv> tbl_get b_id i (batches db)"

abbreviation get_assignment :: "srv \<Rightarrow> string \<Rightarrow> assignment option" where
  "get_assignment db i \<equiv> tbl_get a_batch_id i (assignments db)"

abbreviation get_file_row :: "srv \<Rightarrow> string \<Rightarrow> file_row option" where
  "get_file_row db i \<equiv> tbl_get f_id i (files db)"

abbreviation get_worker_row :: "srv \<Rightarrow> string \<Rightarrow> worker option" where
  "get_worker_row db i \<equiv> tbl_get w_id i (workers db)"

definition upd_batch :: "string \<Rightarrow> (batch \<Rightarrow> batch) \<Rightarrow> srv \<Rightarrow> srv" where
  "upd_batch i f db = db\<lparr>batches := tbl_upd b_id i f (batches db)\<rparr>"

definition upd_worker :: "string \<Rightarrow> (worker \<Rightarrow> worker) \<Rightarrow> srv \<Rightarrow> srv" where
  "upd_worker i f db = db\<lparr>workers := tbl_upd w_id i f (workers db)\<rparr>"

text \<open>The tables keyed by a primary key satisfy the laws of \<open>keyed_table\<close>.\<close>

interpretation batch_table: keyed_table b_id "tbl_get b_id" "tbl_upd b_id" tbl_add "tbl_del b_id"
  by (rule keyed_table_lists)

interpretation assignment_table: keyed_table a_batch_id "tbl_get a_batch_id" "tbl_upd a_batch_id" tbl_add "tbl_del a_batch_id"
  by (rule keyed_table_lists)

interpretation file_table: keyed_table f_id "tbl_get f_id" "tbl_upd f_id" tbl_add "tbl_del f_id"
  by (rule keyed_table_lists)

interpretation worker_table: keyed_table w_id "tbl_get w_id" "tbl_upd w_id" tbl_add "tbl_del w_id"
  by (rule keyed_table_lists)

interpretation catalog_table: keyed_table c_id "tbl_get c_id" "tbl_upd c_id" tbl_add "tbl_del c_id"
  by (rule keyed_table_lists)

lemma upd_batch_get:
  "(\<And>b. b_id (f b) = b_id b) \<Longrightarrow> get_batch_row (upd_batch i f db) j =
    (if j = i then map_option f (get_batch_row db j) else get_batch_row db j)"
  by (simp add: upd_batch_def batch_table.get_upd)

lemma upd_batch_frame [simp]:
  "assignments (upd_batch i f db) = assignments db"
  "workers (upd_batch i f db) = workers db"
  "files (upd_batch i f db) = files db"
  "catalog (upd_batch i f db) = catalog db"
  "usage_rows (upd_batch i f db) = usage_rows db"
  "disk (upd_batch i f db) = disk db"
  by (simp_all add: upd_batch_def)

lemma upd_worker_frame [simp]:
  "assignments (upd_worker i f db) = assignments db"
  "batches (upd_worker i f db) = batches db"
  "files (upd_worker i f db) = files db"
  "catalog (upd_worker i f db) = catalog db"
  by (simp_all add: upd_worker_def)

section \<open>Organization owner\<close>

text \<open>\<open>get_org_owner\<close>.\<close>

definition get_org_owner :: "srv \<Rightarrow> string \<Rightarrow> string option" where
  "get_org_owner db oid = map_option mb_user_id
     (find (\<lambda>m. mb_org_id m = oid \<and> mb_role m = Owner) (memberships db))"

end
