(* ===== verification/Sample.thy ===== *)
theory Sample
  imports Data_Model
begin

text \<open>
  A small concrete installation: one organization with an owner and a viewer, one online
  worker with an Ollama runtime that holds one pinned model, the catalogue entry of that
  model, an uploaded file and one batch. The closed instances of the theorems evaluate the
  model's definitions on it.
\<close>

definition sample_user :: user_row where
  "sample_user = \<lparr>usr_id = ''u1'', usr_email = ''a@x.org'', usr_password_hash = Some ''h-u1'',
     usr_full_name = ''U'', usr_role = RoleUser, usr_active = True, usr_must_change = False,
     usr_google_id = None, usr_auth_provider = LocalAuth, usr_created_at = 800\<rparr>"

definition sample_viewer :: user_row where
  "sample_viewer = \<lparr>usr_id = ''u2'', usr_email = ''b@x.org'', usr_password_hash = Some ''h-u2'',
     usr_full_name = ''U'', usr_role = RoleUser, usr_active = True, usr_must_change = False,
     usr_google_id = None, usr_auth_provider = LocalAuth, usr_created_at = 800\<rparr>"

definition sample_super :: user_row where
  "sample_super = \<lparr>usr_id = ''u9'', usr_email = ''s@x.org'', usr_password_hash = Some ''h-u9'',
     usr_full_name = ''U'', usr_role = RoleSuperadmin, usr_active = True, usr_must_change = False,
     usr_google_id = None, usr_auth_provider = LocalAuth, usr_created_at = 800\<rparr>"

definition sample_model :: model_row where
  "sample_model = \<lparr>m_name = ''m:4b'', m_runtime_model_id = Some ''m:4b'', m_digest = Some ''abc'',
     m_catalog_id = Some ''m-4b'', m_status = Available, m_loaded = True, m_details = None,
     m_size_bytes = None, m_files = None\<rparr>"

definition sample_runtime :: runtime_row where
  "sample_runtime = \<lparr>rt_id = ''r1'', rt_engine = ''ollama'', rt_base_url = ''http://localhost'',
     rt_capabilities = Some [(''logprobs'', True)], rt_version = None, rt_status = ''ready'',
     rt_empty_beats = Some 0, rt_position = 0, rt_models = [sample_model]\<rparr>"

definition sample_gpu :: gpu_row where
  "sample_gpu = \<lparr>g_index = 0, g_vendor = None, g_name = None, g_vram_gb = Some 8, g_driver = None,
     g_cuda = None, g_rocm = None\<rparr>"

definition sample_worker :: worker where
  "sample_worker = \<lparr>w_id = ''w1'', w_org_id = ''o1'', w_api_key_id = Some ''k1'', w_hostname = ''host'',
     w_os = None, w_cpu_cores = None, w_ram_total_gb = Some 16, w_ram_available_gb = Some 10,
     w_status = Online, w_activity = Idle, w_vram_total_gb = Some 8, w_vram_available_gb = Some 8,
     w_window_start = None, w_window_end = None, w_window_tz = None, w_max_batch_prompts = None,
     w_last_heartbeat = 1000, w_created_at = 900, w_gpus = [sample_gpu], w_runtimes = [sample_runtime]\<rparr>"

definition sample_entry :: catalog_entry where
  "sample_entry = \<lparr>c_id = ''m-4b'', c_display_name = ''M'', c_runtime = ''ollama'',
     c_runtime_model_id = ''m:4b'', c_digest = Some ''abc'', c_quantization = None, c_vram_gb = Some 4,
     c_size_gb = None, c_task_type = None, c_parameter_size = None, c_context_length = None,
     c_capabilities = None, c_lineage = None, c_source_type = None, c_source_ref = None,
     c_source_revision = None, c_homepage_url = None, c_org_id = None, c_status = CatActive,
     c_enabled = True, c_adopted_by = None,
     c_profiles = [\<lparr>p_runtime = ''ollama'', p_runtime_model_id = ''m:4b'', p_extra_ids = None, p_params = None\<rparr>],
     c_files = []\<rparr>"

definition sample_file :: file_row where
  "sample_file = \<lparr>f_id = ''f1'', f_user_id = Some ''u1'', f_filename = ''in.jsonl'', f_purpose = ''batch'',
     f_bytes = 10, f_filepath = ''files/f1.jsonl'', f_created_at = 950\<rparr>"

definition sample_batch :: "batch_status \<Rightarrow> batch" where
  "sample_batch st = \<lparr>b_id = ''b1'', b_user_id = Some ''u1'', b_api_key_id = None,
     b_endpoint = ''/v1/chat/completions'', b_model = Some ''m-4b'', b_input_file_id = ''f1'',
     b_completion_window = ''24h'', b_status = st, b_output_file_id = None, b_created_at = 960,
     b_expires_at = None, b_requested_at = None, b_completed_at = None, b_total = Some 2,
     b_completed = Some 0, b_failed = Some 0, b_error_details = None, b_attempts = Some 0,
     b_metadata = None, b_required_capabilities = None, b_prompt_tokens = None,
     b_completion_tokens = None, b_total_tokens = None, b_ingest_pending = False,
     b_ingest_attempts = Some 0\<rparr>"

definition sample_assignment :: assignment where
  "sample_assignment = \<lparr>a_batch_id = ''b1'', a_worker_id = ''w1'', a_org_id = ''o1'',
     a_hostname = Some ''host'', a_assigned_at = 970\<rparr>"

definition sample_key :: "key_type \<Rightarrow> api_key_row" where
  "sample_key ty = \<lparr>ak_id = ''k1'', ak_org_id = (if ty = WorkerKey then Some ''o1'' else None), ak_type = ty,
     ak_user_id = ''u1'', ak_name = ''key'', ak_prefix = ''gk-aaaaa'', ak_hash = ''gk-aaaaa'',
     ak_status = KeyActive, ak_last_used_at = None, ak_expires_at = Some 2000, ak_created_at = 900,
     ak_revoked_at = None\<rparr>"

text \<open>The database without batches.\<close>

definition sample_base :: srv where
  "sample_base = empty_srv\<lparr>users := [sample_user, sample_viewer], orgs := [\<lparr>org_id = ''o1'', org_name = ''Org'', org_created_at = 800\<rparr>],
     memberships := [\<lparr>mb_id = ''mb1'', mb_org_id = ''o1'', mb_user_id = ''u1'', mb_role = Owner\<rparr>,
                     \<lparr>mb_id = ''mb2'', mb_org_id = ''o1'', mb_user_id = ''u2'', mb_role = Viewer\<rparr>],
     api_keys := [sample_key WorkerKey], workers := [sample_worker], catalog := [sample_entry],
     files := [sample_file], disk := [''files/f1.jsonl'' \<mapsto> [''row'']]\<rparr>"

text \<open>With one batch in the given status, assigned to the worker when it runs or is done.\<close>

definition sample_db :: "batch_status \<Rightarrow> srv" where
  "sample_db st = sample_base\<lparr>batches := [sample_batch st],
     assignments := (if st \<in> {InProgress, Completed} then [sample_assignment] else [])\<rparr>"

definition sample_wall :: "string option \<Rightarrow> seconds \<Rightarrow> int" where
  "sample_wall tz t = 600"

end
