(* ===== verification/Auth.thy ===== *)
theory Auth
  imports Sample
begin

text \<open>
  \<open>backend/auth.py\<close>: which principal does a bearer token stand for. Tokens with the prefix
  \<open>gk-\<close> are API keys, stored by their hash; all others are JWTs. Parameters: \<open>decode\<close> is
  \<open>jwt.decode\<close> with the server's secret (None when it raises \<open>JWTError\<close>), \<open>hash\<close> the hex
  digest of a key, \<open>bhash\<close> and \<open>bcheck\<close> the bcrypt library. A resolver that stamps a key's
  \<open>last_used_at\<close> sets an attribute of the request's session: what it returns is the database as that session
  sees it, which stays when the endpoint commits and is dropped when it does not (\<open>close_session\<close>).
\<close>

section \<open>Passwords\<close>

definition hash_password :: "(nat list \<Rightarrow> string) \<Rightarrow> nat list \<Rightarrow> string api" where
  "hash_password bhash p = (if length p > 72 then Inl (HTTP 400) else Inr (bhash p))"

definition verify_password :: "(nat list \<Rightarrow> string \<Rightarrow> bool) \<Rightarrow> nat list \<Rightarrow> string \<Rightarrow> bool" where
  "verify_password bcheck p hashed = (if length p > 72 then False else bcheck p hashed)"

section \<open>Resolvers\<close>

type_synonym jwt_decode = "string \<Rightarrow> jdict option"
type_synonym key_hash = "string \<Rightarrow> string"

definition is_api_key :: "string \<Rightarrow> bool" where
  "is_api_key token \<longleftrightarrow> prefix ''gk-'' token"

definition get_api_key_prefix :: "string \<Rightarrow> string" where
  "get_api_key_prefix raw_key = take 8 raw_key"

definition active_user :: "srv \<Rightarrow> string \<Rightarrow> user_row option" where
  "active_user db uid = find (\<lambda>u. usr_id u = uid \<and> usr_active u) (users db)"

definition resolve_jwt :: "jwt_decode \<Rightarrow> string \<Rightarrow> srv \<Rightarrow> user_row api" where
  "resolve_jwt decode token db =
     ebind (get_or 401 (decode token)) (\<lambda>payload.
     let sub = jget ''sub'' payload in
     ebind (require (jtruthy sub) 401) (\<lambda>_.
     get_or 401 (Option.bind (jstr sub) (active_user db))))"

definition key_expired :: "seconds \<Rightarrow> api_key_row \<Rightarrow> bool" where
  "key_expired now k = (case ak_expires_at k of None \<Rightarrow> False | Some e \<Rightarrow> e < now)"

definition touch_key :: "seconds \<Rightarrow> api_key_row \<Rightarrow> srv \<Rightarrow> srv" where
  "touch_key now k db = db\<lparr>api_keys :=
     tbl_upd ak_id (ak_id k) (\<lambda>k. k\<lparr>ak_last_used_at := Some now\<rparr>) (api_keys db)\<rparr>"

text \<open>The end of a request (\<open>get_db\<close> of \<open>backend/database.py\<close>): what was not committed is gone.\<close>

definition close_session :: "bool \<Rightarrow> srv \<Rightarrow> srv \<Rightarrow> srv" where
  "close_session committed session stored = (if committed then session else stored)"

definition resolve_personal_api_key :: "key_hash \<Rightarrow> seconds \<Rightarrow> string \<Rightarrow> srv \<Rightarrow>
    ((api_key_row \<times> user_row) \<times> srv) api" where
  "resolve_personal_api_key hash now token db =
     ebind (get_or 401 (find (\<lambda>k. ak_hash k = hash token \<and> ak_type k = PersonalKey
              \<and> ak_status k = KeyActive) (api_keys db))) (\<lambda>k.
     ebind (require (\<not> key_expired now k) 401) (\<lambda>_.
     ebind (get_or 401 (active_user db (ak_user_id k))) (\<lambda>user.
     Inr ((k, user), touch_key now k db))))"

definition get_current_user :: "jwt_decode \<Rightarrow> string \<Rightarrow> srv \<Rightarrow> user_row api" where
  "get_current_user decode token db =
     (if is_api_key token then Inl (HTTP 401) else resolve_jwt decode token db)"

definition get_org :: "srv \<Rightarrow> string option \<Rightarrow> org_row option" where
  "get_org db oid = find (\<lambda>g. Some (org_id g) = oid) (orgs db)"

definition get_worker_context :: "key_hash \<Rightarrow> seconds \<Rightarrow> string \<Rightarrow> srv \<Rightarrow>
    ((api_key_row \<times> org_row) \<times> srv) api" where
  "get_worker_context hash now token db =
     (if \<not> is_api_key token then Inl (HTTP 401)
      else ebind (get_or 401 (find (\<lambda>k. ak_hash k = hash token \<and> ak_type k = WorkerKey
              \<and> ak_status k = KeyActive) (api_keys db))) (\<lambda>k.
           ebind (require (\<not> key_expired now k) 401) (\<lambda>_.
           ebind (get_or 401 (get_org db (ak_org_id k))) (\<lambda>g.
           Inr ((k, g), touch_key now k db)))))"

datatype principal = AsUser user_row | AsWorker org_row

definition get_file_read_context :: "jwt_decode \<Rightarrow> key_hash \<Rightarrow> seconds \<Rightarrow> string \<Rightarrow> srv \<Rightarrow>
    (principal \<times> srv) api" where
  "get_file_read_context decode hash now token db =
     (if \<not> is_api_key token then ebind (resolve_jwt decode token db) (\<lambda>u. Inr (AsUser u, db))
      else ebind (get_or 401 (find (\<lambda>k. ak_hash k = hash token \<and> ak_status k = KeyActive) (api_keys db))) (\<lambda>k.
           ebind (require (\<not> key_expired now k) 401) (\<lambda>_.
           let db1 = touch_key now k db in
           if ak_type k = WorkerKey then
             ebind (get_or 401 (get_org db1 (ak_org_id k))) (\<lambda>g. Inr (AsWorker g, db1))
           else
             ebind (resolve_personal_api_key hash now token db1) (\<lambda>r. Inr (AsUser (snd (fst r)), snd r)))))"

definition get_personal_context :: "key_hash \<Rightarrow> seconds \<Rightarrow> string \<Rightarrow> srv \<Rightarrow>
    ((api_key_row \<times> user_row) \<times> srv) api" where
  "get_personal_context hash now token db =
     (if \<not> is_api_key token then Inl (HTTP 401) else resolve_personal_api_key hash now token db)"

type_synonym human = "user_row \<times> api_key_row option"

definition get_human_context :: "jwt_decode \<Rightarrow> key_hash \<Rightarrow> seconds \<Rightarrow> string \<Rightarrow> srv \<Rightarrow> (human \<times> srv) api" where
  "get_human_context decode hash now token db =
     (if is_api_key token then
        ebind (resolve_personal_api_key hash now token db) (\<lambda>r. case r of ((k, u), db') \<Rightarrow> Inr ((u, Some k), db'))
      else ebind (resolve_jwt decode token db) (\<lambda>u. Inr ((u, None), db)))"

text \<open>Absent, malformed, expired or revoked credentials degrade to anonymous.\<close>

definition get_optional_human_context :: "jwt_decode \<Rightarrow> key_hash \<Rightarrow> seconds \<Rightarrow> string option \<Rightarrow> srv \<Rightarrow>
    human option \<times> srv" where
  "get_optional_human_context decode hash now credentials db = (case credentials of
       None \<Rightarrow> (None, db)
     | Some token \<Rightarrow> (case get_human_context decode hash now token db of
           Inl _ \<Rightarrow> (None, db)
         | Inr (h, db') \<Rightarrow> (Some h, db')))"

text \<open>The legacy role \<open>admin\<close> counts as \<open>superadmin\<close>.\<close>

definition effective_role :: "user_row \<Rightarrow> platform_role" where
  "effective_role u = (if usr_role u = RoleAdmin then RoleSuperadmin else usr_role u)"

definition require_role :: "jwt_decode \<Rightarrow> platform_role list \<Rightarrow> string \<Rightarrow> srv \<Rightarrow> user_row api" where
  "require_role decode roles token db =
     ebind (get_current_user decode token db) (\<lambda>u.
     ebind (require (effective_role u \<in> set roles) 403) (\<lambda>_. Inr u))"

section \<open>Lemmas\<close>

interpretation api_key_table: keyed_table ak_id "tbl_get ak_id" "tbl_upd ak_id" tbl_add "tbl_del ak_id"
  by (rule keyed_table_lists)

lemma touch_key_frame [simp]:
  "users (touch_key now k db) = users db" "orgs (touch_key now k db) = orgs db"
  "workers (touch_key now k db) = workers db" "batches (touch_key now k db) = batches db"
  "files (touch_key now k db) = files db" "assignments (touch_key now k db) = assignments db"
  "memberships (touch_key now k db) = memberships db"
  by (simp_all add: touch_key_def)

lemma active_user_SomeD: "active_user db uid = Some u \<Longrightarrow> u \<in> set (users db) \<and> usr_id u = uid \<and> usr_active u"
  unfolding active_user_def by (drule find_SomeD) simp

text \<open>A key that authenticates: of the right type, active, unexpired, with the token's hash.\<close>

definition live_key :: "key_hash \<Rightarrow> seconds \<Rightarrow> string \<Rightarrow> key_type \<Rightarrow> srv \<Rightarrow> api_key_row \<Rightarrow> bool" where
  "live_key hash now token ty db k \<longleftrightarrow> k \<in> set (api_keys db) \<and> ak_hash k = hash token \<and> ak_type k = ty
     \<and> ak_status k = KeyActive \<and> (case ak_expires_at k of None \<Rightarrow> True | Some e \<Rightarrow> now \<le> e)"

lemma resolve_personal_live:
  assumes "resolve_personal_api_key hash now token db = Inr ((k, u), db')"
  shows "live_key hash now token PersonalKey db k" "active_user db (ak_user_id k) = Some u" "db' = touch_key now k db"
  using assms
  by (auto simp: resolve_personal_api_key_def live_key_def key_expired_def dest!: find_SomeD split: option.splits)

lemma worker_context_live:
  assumes "get_worker_context hash now token db = Inr ((k, g), db')"
  shows "is_api_key token" "live_key hash now token WorkerKey db k" "get_org db (ak_org_id k) = Some g"
    "db' = touch_key now k db"
  using assms
  by (auto simp: get_worker_context_def live_key_def key_expired_def dest!: find_SomeD
      split: option.splits if_splits)

text \<open>The stamp of a key is only kept by an endpoint that commits.\<close>

lemma stamp_needs_commit:
  assumes "get_worker_context hash now token db = Inr ((k, g), session)"
  shows "map_option ak_last_used_at (tbl_get ak_id (ak_id k) (api_keys (close_session committed session db))) =
    (if committed then Some (Some now) else map_option ak_last_used_at (tbl_get ak_id (ak_id k) (api_keys db)))"
proof -
  note k = worker_context_live(2,4) [OF assms]
  then have "tbl_get ak_id (ak_id k) (api_keys db) \<noteq> None" by (auto simp: live_key_def tbl_get_None)
  then show ?thesis using k(2) by (auto simp: close_session_def touch_key_def api_key_table.get_upd)
qed

lemma human_context_cases:
  assumes "get_human_context decode hash now token db = Inr ((u, k), db')"
  shows "(is_api_key token \<and> (\<exists>key. k = Some key \<and> live_key hash now token PersonalKey db key
            \<and> active_user db (ak_user_id key) = Some u)) \<or>
         (\<not> is_api_key token \<and> k = None \<and> resolve_jwt decode token db = Inr u)"
  using assms by (auto simp: get_human_context_def split: if_splits dest: resolve_personal_live)

lemma resolve_jwt_active:
  "resolve_jwt decode token db = Inr u \<Longrightarrow> u \<in> set (users db) \<and> usr_active u"
  by (auto simp: resolve_jwt_def Let_def Option.bind_eq_Some_conv dest: active_user_SomeD)

end
