(* ===== verification/Sse.thy ===== *)
theory Sse
  imports Prelude
begin

text \<open>
  \<open>backend/services/sse_manager.py\<close>: per-batch event queues with a replay buffer. A queue is
  an identifier (the caller's \<open>asyncio.Queue\<close> object), its contents are the events put and
  not yet taken. An event is its formatted payload; each method runs without interruption
  on the event loop (the queues are unbounded, so \<open>put\<close> never waits).
\<close>

type_synonym event = string

record sse =
  subs :: "string \<rightharpoonup> nat list"
  buf :: "string \<rightharpoonup> event list"
  queue :: "nat \<Rightarrow> event list"

definition init_sse :: sse where
  "init_sse = \<lparr>subs = Map.empty, buf = Map.empty, queue = (\<lambda>_. [])\<rparr>"

definition subs_of :: "sse \<Rightarrow> string \<Rightarrow> nat list" where
  "subs_of s bid = (case subs s bid of None \<Rightarrow> [] | Some qs \<Rightarrow> qs)"

definition buf_of :: "sse \<Rightarrow> string \<Rightarrow> event list" where
  "buf_of s bid = (case buf s bid of None \<Rightarrow> [] | Some es \<Rightarrow> es)"

text \<open>\<open>q\<close> is the new queue object.\<close>

definition subscribe :: "string \<Rightarrow> nat \<Rightarrow> sse \<Rightarrow> sse" where
  "subscribe bid q s = s\<lparr>subs := (subs s)(bid \<mapsto> subs_of s bid @ [q]),
     queue := (queue s)(q := buf_of s bid)\<rparr>"

definition unsubscribe :: "string \<Rightarrow> nat \<Rightarrow> sse \<Rightarrow> sse" where
  "unsubscribe bid q s = (case subs s bid of
       None \<Rightarrow> s
     | Some qs \<Rightarrow> s\<lparr>subs := (subs s)(bid \<mapsto> remove1 q qs)\<rparr>)"

definition put :: "event \<Rightarrow> nat \<Rightarrow> (nat \<Rightarrow> event list) \<Rightarrow> nat \<Rightarrow> event list" where
  "put ev q contents = contents(q := contents q @ [ev])"

definition buffer_cap :: nat where "buffer_cap = 50"
definition buffer_keep :: nat where "buffer_keep = 20"

definition push_buffer :: "event \<Rightarrow> event list \<Rightarrow> event list" where
  "push_buffer ev b = (let b' = b @ [ev] in
     if length b' > buffer_cap then drop (length b' - buffer_keep) b' else b')"

definition publish :: "string \<Rightarrow> event \<Rightarrow> sse \<Rightarrow> sse" where
  "publish bid ev s = s\<lparr>buf := (buf s)(bid \<mapsto> push_buffer ev (buf_of s bid)),
     queue := fold (put ev) (subs_of s bid) (queue s)\<rparr>"

definition cleanup :: "string \<Rightarrow> sse \<Rightarrow> sse" where
  "cleanup bid s = s\<lparr>subs := (subs s)(bid := None), buf := (buf s)(bid := None)\<rparr>"

section \<open>Histories\<close>

datatype sse_op = Subscribe string nat | Unsubscribe string nat | Publish string event | Cleanup string

fun sse_step :: "sse_op \<Rightarrow> sse \<Rightarrow> sse" where
  "sse_step (Subscribe bid q) = subscribe bid q"
| "sse_step (Unsubscribe bid q) = unsubscribe bid q"
| "sse_step (Publish bid ev) = publish bid ev"
| "sse_step (Cleanup bid) = cleanup bid"

definition sse_run :: "sse_op list \<Rightarrow> sse \<Rightarrow> sse" where
  "sse_run ops s = fold sse_step ops s"

definition published :: "string \<Rightarrow> sse_op list \<Rightarrow> event list" where
  "published bid ops = List.map_filter (\<lambda>op. case op of
     Publish b ev \<Rightarrow> if b = bid then Some ev else None | _ \<Rightarrow> None) ops"

section \<open>Lemmas\<close>

lemma push_buffer_bounded: "length b \<le> buffer_cap \<Longrightarrow> length (push_buffer ev b) \<le> buffer_cap"
  by (simp add: push_buffer_def Let_def buffer_cap_def buffer_keep_def)

lemma push_buffer_suffix:
  assumes "suffix b xs"
  shows "suffix (push_buffer ev b) (xs @ [ev])"
proof -
  from assms have s: "suffix (b @ [ev]) (xs @ [ev])" by (auto simp: suffix_def)
  show ?thesis
  proof (cases "length (b @ [ev]) > buffer_cap")
    case True
    have "push_buffer ev b = drop (length (b @ [ev]) - buffer_keep) (b @ [ev])"
      by (simp only: push_buffer_def Let_def True if_True)
    then show ?thesis by (simp only: suffix_order.trans [OF suffix_drop s])
  next
    case False
    have "push_buffer ev b = b @ [ev]" by (simp only: push_buffer_def Let_def False if_False)
    then show ?thesis using s by simp
  qed
qed

lemma push_buffer_last: "\<exists>xs. push_buffer ev b = xs @ [ev]"
  by (auto simp: push_buffer_def Let_def buffer_cap_def buffer_keep_def)

lemma buf_of_step:
  "buf_of (sse_step op s) bid = (case op of
     Publish b ev \<Rightarrow> if b = bid then push_buffer ev (buf_of s bid) else buf_of s bid
   | Cleanup b \<Rightarrow> if b = bid then [] else buf_of s bid
   | _ \<Rightarrow> buf_of s bid)"
  by (cases op) (auto simp: buf_of_def subscribe_def unsubscribe_def publish_def cleanup_def split: option.splits)

lemma published_snoc:
  "published bid (ops @ [op]) = published bid ops @ (case op of
     Publish b ev \<Rightarrow> if b = bid then [ev] else [] | _ \<Rightarrow> [])"
  by (cases op) (auto simp: published_def List.map_filter_def)

lemma fold_put_other: "q \<notin> set qs \<Longrightarrow> fold (put ev) qs c q = c q"
  by (induction qs arbitrary: c) (auto simp: put_def)

lemma fold_put_mem: "distinct qs \<Longrightarrow> q \<in> set qs \<Longrightarrow> fold (put ev) qs c q = c q @ [ev]"
proof (induction qs arbitrary: c)
  case (Cons a qs)
  then show ?case by (cases "q = a") (auto simp: fold_put_other, auto simp: put_def)
qed simp

lemma sse_run_snoc: "sse_run (ops @ [op]) s = sse_step op (sse_run ops s)"
  by (simp add: sse_run_def)

lemma buf_run_bounded: "length (buf_of (sse_run ops init_sse) bid) \<le> buffer_cap"
proof (induction ops rule: rev_induct)
  case Nil
  then show ?case by (simp add: sse_run_def init_sse_def buf_of_def)
next
  case (snoc op ops)
  then show ?case
    using push_buffer_bounded by (simp add: sse_run_snoc buf_of_step split: sse_op.split)
qed

lemma buf_run_suffix: "suffix (buf_of (sse_run ops init_sse) bid) (published bid ops)"
proof (induction ops rule: rev_induct)
  case Nil
  then show ?case by (simp add: sse_run_def init_sse_def buf_of_def)
next
  case (snoc op ops)
  then show ?case
    using push_buffer_suffix by (simp add: sse_run_snoc buf_of_step published_snoc split: sse_op.split)
qed

text \<open>A queue that stays subscribed to one batch only.\<close>

definition stays :: "string \<Rightarrow> nat \<Rightarrow> sse_op \<Rightarrow> bool" where
  "stays bid q op = (case op of
     Subscribe b q' \<Rightarrow> q' \<noteq> q | Unsubscribe b q' \<Rightarrow> q' \<noteq> q | Publish _ _ \<Rightarrow> True | Cleanup b \<Rightarrow> b \<noteq> bid)"

definition only_sub :: "string \<Rightarrow> nat \<Rightarrow> sse \<Rightarrow> bool" where
  "only_sub bid q s \<longleftrightarrow> count_list (subs_of s bid) q = 1 \<and> (\<forall>b. b \<noteq> bid \<longrightarrow> q \<notin> set (subs_of s b))"

lemma fold_put_count: "fold (put ev) qs c q = c q @ replicate (count_list qs q) ev"
proof (induction qs arbitrary: c)
  case (Cons a qs)
  then show ?case by (auto simp: put_def replicate_append_same)
qed simp

lemma count_remove1_other: "q' \<noteq> q \<Longrightarrow> count_list (remove1 q' qs) q = count_list qs q"
  by (induction qs) auto

lemma only_sub_step: "only_sub bid q s \<Longrightarrow> stays bid q op \<Longrightarrow> only_sub bid q (sse_step op s)"
  by (cases op) (auto simp: only_sub_def stays_def subs_of_def subscribe_def unsubscribe_def publish_def
      cleanup_def count_remove1_other split: option.splits if_splits dest: set_remove1_subset [THEN subsetD])

lemma queue_step:
  assumes "only_sub bid q s" "stays bid q op"
  shows "queue (sse_step op s) q = queue s q @ published bid [op]"
proof (cases op)
  case (Publish b ev)
  have "count_list (subs_of s b) q = (if b = bid then 1 else 0)"
    using assms(1) by (auto simp: only_sub_def count_notin)
  then show ?thesis using Publish by (auto simp: publish_def fold_put_count published_def List.map_filter_def)
qed (use assms in \<open>auto simp: stays_def subscribe_def unsubscribe_def cleanup_def published_def
      List.map_filter_def split: option.splits\<close>)

lemma queue_run:
  assumes "only_sub bid q s" "\<forall>op \<in> set ops. stays bid q op"
  shows "queue (sse_run ops s) q = queue s q @ published bid ops"
  using assms
proof (induction ops arbitrary: s)
  case Nil
  then show ?case by (simp add: sse_run_def published_def List.map_filter_def)
next
  case (Cons op ops)
  then have "queue (sse_run ops (sse_step op s)) q = queue (sse_step op s) q @ published bid ops"
    by (intro Cons.IH only_sub_step) auto
  also have "\<dots> = queue s q @ published bid [op] @ published bid ops"
    using Cons.prems queue_step by simp
  finally show ?case by (simp add: sse_run_def published_def List.map_filter_def)
qed

lemma buffer_bound: "length (buf_of (sse_run ops init_sse) bid) \<le> 50"
  using buf_run_bounded [of ops bid] by (simp add: buffer_cap_def)

text \<open>What a new subscriber is replayed, in closed form: all events since the last clean-up of the batch as long as they
  are at most fifty, and from then on between the last twenty and the last fifty of them.\<close>

definition recent :: "string \<Rightarrow> sse_op list \<Rightarrow> event list" where
  "recent bid ops = published bid (rev (takeWhile (\<lambda>op. op \<noteq> Cleanup bid) (rev ops)))"

definition kept :: "nat \<Rightarrow> nat" where
  "kept n = (if n \<le> 50 then n else 20 + (n - 51) mod 31)"

lemma recent_snoc: "recent bid (ops @ [op]) = (if op = Cleanup bid then [] else recent bid ops @ published bid [op])"
  by (simp add: recent_def published_def List.map_filter_def)

lemma kept_le: "kept n \<le> n" "kept n \<le> 50" "n \<le> 50 \<or> 20 \<le> kept n"
proof -
  have "(n - 51) mod 31 \<le> n - 51" "(n - 51) mod 31 < 31" by (simp_all add: mod_less_eq_dividend)
  then show "kept n \<le> n" "kept n \<le> 50" "n \<le> 50 \<or> 20 \<le> kept n" by (auto simp: kept_def)
qed

lemma kept_Suc: "kept (Suc n) = (if kept n = 50 then 20 else Suc (kept n))"
proof (cases "n \<le> 50")
  case False
  then have "Suc n - 51 = Suc (n - 51)" by simp
  then have "(Suc n - 51) mod 31 = (if Suc ((n - 51) mod 31) = 31 then 0 else Suc ((n - 51) mod 31))"
    by (simp only: mod_Suc)
  then show ?thesis using False by (simp add: kept_def)
qed (auto simp: kept_def)

lemma push_buffer_kept:
  assumes "b = drop (length r - kept (length r)) r"
  shows "push_buffer ev b = drop (length (r @ [ev]) - kept (length (r @ [ev]))) (r @ [ev])"
proof -
  have len: "length b = kept (length r)" using kept_le(1) [of "length r"] assms by simp
  have b: "b @ [ev] = drop (length r - kept (length r)) (r @ [ev])" using assms by simp
  show ?thesis
  proof (cases "kept (length r) = 50")
    case True
    then have "push_buffer ev b = drop 31 (drop (length r - kept (length r)) (r @ [ev]))"
      using len b by (simp add: push_buffer_def Let_def buffer_cap_def buffer_keep_def)
    also have "\<dots> = drop (length (r @ [ev]) - kept (length (r @ [ev]))) (r @ [ev])"
      using True kept_Suc [of "length r"] kept_le(1) [of "length r"] by (simp add: drop_drop algebra_simps)
    finally show ?thesis .
  next
    case False
    then have "push_buffer ev b = b @ [ev]"
      using len kept_le(2) [of "length r"] by (simp add: push_buffer_def Let_def buffer_cap_def)
    then show ?thesis using b False kept_Suc [of "length r"] by simp
  qed
qed

lemma buf_run_recent:
  "buf_of (sse_run ops init_sse) bid = drop (length (recent bid ops) - kept (length (recent bid ops))) (recent bid ops)"
proof (induction ops rule: rev_induct)
  case Nil
  then show ?case by (simp add: sse_run_def init_sse_def buf_of_def recent_def published_def List.map_filter_def)
next
  case (snoc op ops)
  show ?case
  proof (cases op)
    case (Publish b ev)
    then show ?thesis using snoc push_buffer_kept [OF snoc, of ev] buf_of_step [of op "sse_run ops init_sse" bid]
      by (simp add: sse_run_snoc buf_of_step recent_snoc published_def List.map_filter_def)
  qed (use snoc buf_of_step [of op "sse_run ops init_sse" bid] in
      \<open>auto simp: sse_run_snoc recent_snoc published_def List.map_filter_def\<close>)
qed

section \<open>Properties\<close>

text \<open>The replay buffer of a batch never holds more than fifty events, and what it holds is the
  most recent part of what was published, in order.\<close>

theorem buffer_recent:
  "length (buf_of (sse_run ops init_sse) bid) \<le> 50 \<and> suffix (buf_of (sse_run ops init_sse) bid) (published bid ops)"
  using buf_run_bounded [of ops bid] buf_run_suffix [of ops bid] by (simp add: buffer_cap_def)

lemma no_queue_step:
  assumes "\<forall>b. q \<notin> set (subs_of s b)" "\<forall>b. op \<noteq> Subscribe b q"
  shows "q \<notin> set (subs_of (sse_step op s) b)"
proof -
  have "q \<notin> set (remove1 q' qs)" if "q \<notin> set qs" for q' qs using that set_remove1_subset by fastforce
  moreover have "subs s b' = Some qs \<Longrightarrow> q \<notin> set qs" for b' qs
    using assms(1) [rule_format, of b'] by (simp add: subs_of_def)
  ultimately show ?thesis
    using assms by (cases op) (auto simp: subs_of_def subscribe_def unsubscribe_def publish_def cleanup_def split: option.split)
qed

lemma no_queue_run:
  "\<forall>op \<in> set ops. \<forall>b. op \<noteq> Subscribe b q \<Longrightarrow> \<forall>b. q \<notin> set (subs_of (sse_run ops init_sse) b)"
proof (induction ops rule: rev_induct)
  case (snoc op ops)
  then show ?case unfolding sse_run_snoc by (intro allI no_queue_step) auto
qed (simp add: sse_run_def init_sse_def subs_of_def)

text \<open>C36: A subscriber receives the buffered events of its batch - every event published since the batch was last
  cleaned up while these are at most fifty, otherwise the last twenty to fifty of them, exactly as many as
  \<open>kept\<close> says - followed by every event published while it stays subscribed, each once and in order, whatever
  happens to other batches and other subscribers in between.\<close>

theorem subscriber_stream:
  assumes "\<forall>op \<in> set before. \<forall>b. op \<noteq> Subscribe b q" "\<forall>op \<in> set after. stays bid q op"
    "n = length (recent bid before)"
  shows "queue (sse_run (before @ Subscribe bid q # after) init_sse) q =
      drop (n - kept n) (recent bid before) @ published bid after \<and>
    (n \<le> 50 \<longrightarrow> kept n = n) \<and> (50 < n \<longrightarrow> 20 \<le> kept n \<and> kept n \<le> 50)"
proof -
  let ?s = "sse_run before init_sse"
  have none: "q \<notin> set (subs_of ?s b)" for b using no_queue_run [OF assms(1)] by blast
  have "only_sub bid q (subscribe bid q ?s)"
    using none by (auto simp: only_sub_def subscribe_def subs_of_def count_notin split: option.splits)
  from queue_run [OF this assms(2)]
  have "queue (sse_run after (subscribe bid q ?s)) q = buf_of ?s bid @ published bid after"
    by (simp add: subscribe_def)
  moreover have "sse_run (before @ Subscribe bid q # after) init_sse = sse_run after (subscribe bid q ?s)"
    by (simp add: sse_run_def)
  moreover have "n \<le> 50 \<longrightarrow> kept n = n" by (simp add: kept_def)
  ultimately show ?thesis using kept_le [of n] by (auto simp: buf_run_recent assms(3))
qed

theorem subscriber_stream_witness:
  "queue (sse_run ([Publish ''b'' ''e0'', Cleanup ''b'', Publish ''b'' ''e1''] @ Subscribe ''b'' 0 #
      [Publish ''x'' ''e2'', Publish ''b'' ''e3'']) init_sse) 0 = [''e1'', ''e3'']"
  using subscriber_stream [of "[Publish ''b'' ''e0'', Cleanup ''b'', Publish ''b'' ''e1'']" 0
      "[Publish ''x'' ''e2'', Publish ''b'' ''e3'']" "''b''" 1]
  by (simp add: stays_def recent_def kept_def published_def List.map_filter_simps)

end
