(* ===== verification/Identity.thy ===== *)
theory Identity
  imports Sample
begin

text \<open>
  \<open>backend/identity_resolver.py\<close>: the digest normaliser that every component compares
  with, the names of artifacts, and the resolver that confirms a worker's
  \<open>(local_name, sha256)\<close> against its public source. The HTTP client is a parameter
  \<open>client\<close> from a URL and its query to a response; the clock is a reading passed in.
\<close>

section \<open>Digests and names\<close>

definition bare_digest :: "string option \<Rightarrow> string option" where
  "bare_digest d = (case d of
       None \<Rightarrow> None
     | Some raw \<Rightarrow>
         if raw = [] then None
         else let s = lower (strip raw) in
           Some (if CHR '':'' \<in> set s then snd (partition_at CHR '':'' s) else s))"

definition default_registry :: string where
  "default_registry = ''registry.ollama.ai''"

definition hf_hosts :: "string list" where
  "hf_hosts = [''hf.co'', ''huggingface.co'']"

definition manifest_model_name :: "string \<Rightarrow> string \<Rightarrow> string \<Rightarrow> string \<Rightarrow> string" where
  "manifest_model_name host namespace model tag =
     (if host = default_registry then
        (if namespace = ''library'' then model @ '':'' @ tag
         else namespace @ ''/'' @ model @ '':'' @ tag)
      else host @ ''/'' @ namespace @ ''/'' @ model @ '':'' @ tag)"

datatype parsed_name =
    OllamaName (on_namespace: string) (on_model: string) (on_tag: string)
  | HfName (hf_user: string) (hf_repo: string) (hf_tag: "string option")

fun library_path :: "parsed_name \<Rightarrow> string" where
  "library_path (OllamaName ns m t) = (if ns = ''library'' then m else ns @ ''/'' @ m)"
| "library_path (HfName u r t) = u @ ''/'' @ r"

fun manifest_url :: "parsed_name \<Rightarrow> string" where
  "manifest_url (OllamaName ns m t) =
     ''https://'' @ default_registry @ ''/v2/'' @ ns @ ''/'' @ m @ ''/manifests/'' @ t"
| "manifest_url (HfName u r t) = ''https://huggingface.co/api/models/'' @ u @ ''/'' @ r"

fun homepage_url :: "parsed_name \<Rightarrow> string" where
  "homepage_url (OllamaName ns m t) =
     (if ns = ''library'' then ''https://ollama.com/library/'' @ m
      else ''https://ollama.com/'' @ ns @ ''/'' @ m)"
| "homepage_url (HfName u r t) = ''https://huggingface.co/'' @ u @ ''/'' @ r"

definition nonempty_parts :: "string \<Rightarrow> string list" where
  "nonempty_parts s = filter (\<lambda>p. p \<noteq> []) (split_on CHR ''/'' s)"

definition hf_from_repo_id :: "string option \<Rightarrow> parsed_name option" where
  "hf_from_repo_id rid =
     (case nonempty_parts (strip (case rid of None \<Rightarrow> [] | Some s \<Rightarrow> s)) of
        [u, r] \<Rightarrow> Some (HfName u r None)
      | _ \<Rightarrow> None)"

definition parse_local_name :: "string \<Rightarrow> py_exn + parsed_name option" where
  "parse_local_name local_name =
     (if local_name = [] then Inr None
      else let (name, tag) = partition_at CHR '':'' (strip local_name);
               parts = nonempty_parts name
        in case parts of
             [] \<Rightarrow> Inr None
           | h # rest \<Rightarrow>
               if lower h \<in> set hf_hosts then
                 (case rest of
                    [u, r] \<Rightarrow> Inr (Some (HfName u r (if tag = [] then None else Some tag)))
                  | _ \<Rightarrow> Inr None)
               else
                 let ps = (if h = default_registry then rest else parts);
                     tg = (if tag = [] then ''latest'' else tag)
                 in case ps of
                      [] \<Rightarrow> Inl IndexError   \<comment> \<open>\<open>parts[0]\<close> of the bare registry host\<close>
                    | [m] \<Rightarrow> Inr (Some (OllamaName ''library'' m tg))
                    | [ns, m] \<Rightarrow> Inr (if CHR ''.'' \<in> set ns then None else Some (OllamaName ns m tg))
                    | _ \<Rightarrow> Inr None)"

section \<open>Manifests\<close>

text \<open>\<open>str(v)\<close> of a JSON value; \<open>repr\<close> stands for Python's rendering of floats, lists
  and dictionaries.\<close>

fun py_str :: "(json \<Rightarrow> string) \<Rightarrow> json \<Rightarrow> string" where
  "py_str repr (JStr s) = s"
| "py_str repr (JInt n) = (if n < 0 then ''-'' @ str_of_nat (nat (- n)) else str_of_nat (nat n))"
| "py_str repr JNull = ''None''"
| "py_str repr (JBool b) = (if b then ''True'' else ''False'')"
| "py_str repr v = repr v"

text \<open>\<open>bare_digest\<close> of a JSON value: falsy is no digest, anything else its \<open>str\<close>.\<close>

definition json_digest :: "(json \<Rightarrow> string) \<Rightarrow> json \<Rightarrow> string option" where
  "json_digest repr v = (if jtruthy v then bare_digest (Some (py_str repr v)) else None)"

definition model_media_suffix :: string where
  "model_media_suffix = ''image.model''"

text \<open>One layer: its digest when it is a weights layer. The \<open>str\<close> of a value that is no
  string never ends in the suffix.\<close>

definition layer_digest :: "(json \<Rightarrow> string) \<Rightarrow> jdict \<Rightarrow> string option" where
  "layer_digest repr layer =
     (case jstr (jget ''mediaType'' layer) of
        Some mt \<Rightarrow> if suffix model_media_suffix mt then
            (case json_digest repr (jget ''digest'' layer) of
               Some d \<Rightarrow> if d = [] then None else Some d
             | None \<Rightarrow> None)
          else None
      | None \<Rightarrow> None)"

text \<open>The loop over the layers; a layer that is no object has no \<open>.get\<close>.\<close>

fun layers_digests :: "(json \<Rightarrow> string) \<Rightarrow> json list \<Rightarrow> py_exn + string list" where
  "layers_digests repr [] = Inr []"
| "layers_digests repr (JObj layer # rest) =
     ebind (layers_digests repr rest) (\<lambda>ds. Inr (case layer_digest repr layer of
         Some d \<Rightarrow> d # ds | None \<Rightarrow> ds))"
| "layers_digests repr (_ # rest) = Inl AttributeError"

definition model_layer_digests :: "(json \<Rightarrow> string) \<Rightarrow> jdict \<Rightarrow> py_exn + string list" where
  "model_layer_digests repr manifest =
     (let ls = jget ''layers'' manifest in
      if \<not> jtruthy ls then Inr []
      else (case ls of
          JArr xs \<Rightarrow> layers_digests repr xs
        | JStr _ \<Rightarrow> Inl AttributeError
        | JObj _ \<Rightarrow> Inl AttributeError
        | _ \<Rightarrow> Inl TypeError))"

definition model_layer_digest :: "(json \<Rightarrow> string) \<Rightarrow> jdict \<Rightarrow> py_exn + string option" where
  "model_layer_digest repr manifest = ebind (model_layer_digests repr manifest)
     (\<lambda>ds. Inr (case ds of [] \<Rightarrow> None | d # _ \<Rightarrow> Some d))"

section \<open>Resolver\<close>

record confirmed =
  cf_source_type :: string
  cf_source_ref :: string
  cf_source_revision :: "string option"
  cf_digest :: string
  cf_homepage_url :: string
  cf_source_file :: "string option"

datatype resolution = Confirmed confirmed | Unconfirmed string

datatype http_response =
    NetworkError string                      \<comment> \<open>\<open>httpx.HTTPError\<close>: its class name\<close>
  | Response int "json option" "string option"  \<comment> \<open>status, JSON body if it parses, next link\<close>

type_synonym client = "string \<Rightarrow> (string \<times> string) list option \<Rightarrow> http_response"

definition get_json :: "client \<Rightarrow> string \<Rightarrow> (string \<times> string) list option \<Rightarrow>
    resolution + json \<times> string option" where
  "get_json client url params = (case client url params of
       NetworkError cls \<Rightarrow> Inl (Unconfirmed (''network-error: '' @ cls))
     | Response code body nxt \<Rightarrow>
         if code \<noteq> 200 then Inl (Unconfirmed (''http-'' @ py_str (\<lambda>_. []) (JInt code)))
         else (case body of
             None \<Rightarrow> Inl (Unconfirmed ''bad-json'')
           | Some v \<Rightarrow> Inr (v, nxt)))"

definition resolve_ollama :: "(json \<Rightarrow> string) \<Rightarrow> client \<Rightarrow> parsed_name \<Rightarrow> string \<Rightarrow>
    py_exn + resolution" where
  "resolve_ollama repr client name digest =
     (case get_json client (manifest_url name) None of
        Inl err \<Rightarrow> Inr err
      | Inr (JObj m, _) \<Rightarrow> ebind (model_layer_digests repr m) (\<lambda>served. Inr (
          if served = [] then Unconfirmed ''no-model-layer''
          else if digest \<notin> set served then Unconfirmed ''digest-mismatch''
          else Confirmed \<lparr>cf_source_type = ''ollama-library'',
                 cf_source_ref = library_path name, cf_source_revision = None,
                 cf_digest = digest, cf_homepage_url = homepage_url name,
                 cf_source_file = None\<rparr>))
      | Inr _ \<Rightarrow> Inr (Unconfirmed ''bad-json''))"

text \<open>\<open>registry_file_digest\<close>: the hash of a model of the default registry, None with any reason; only
  the name is parsed outside the \<open>try\<close>. \<open>raise_for_status\<close> lets every status of success through.\<close>

definition raise_for_status :: "http_response \<Rightarrow> json option" where
  "raise_for_status r = (case r of Response code body _ \<Rightarrow> if 200 \<le> code \<and> code \<le> 299 then body else None | _ \<Rightarrow> None)"

definition registry_file_digest :: "(json \<Rightarrow> string) \<Rightarrow> client \<Rightarrow> string \<Rightarrow> py_exn + string option" where
  "registry_file_digest repr client runtime_model_id =
     ebind (parse_local_name runtime_model_id) (\<lambda>parsed. case parsed of
         Some (OllamaName ns m t) \<Rightarrow> (case raise_for_status (client (manifest_url (OllamaName ns m t)) None) of
             Some (JObj manifest) \<Rightarrow> (case model_layer_digest repr manifest of Inl _ \<Rightarrow> Inr None | Inr d \<Rightarrow> Inr d)
           | _ \<Rightarrow> Inr None)
       | _ \<Rightarrow> Inr None)"

text \<open>One page of the repository tree: the LFS digests seen so far with the path first
  seen for each (\<open>Inr\<close>), or the verdict that the repository is an adapter (\<open>Inl\<close>).\<close>

definition entry_oid :: "(json \<Rightarrow> string) \<Rightarrow> jdict \<Rightarrow> py_exn + string option" where
  "entry_oid repr entry =
     (let lfs = jget ''lfs'' entry in
      if \<not> jtruthy lfs then Inr None
      else (case lfs of
          JObj l \<Rightarrow> Inr (case json_digest repr (jget ''oid'' l) of
              Some d \<Rightarrow> if d = [] then None else Some d | None \<Rightarrow> None)
        | _ \<Rightarrow> Inl AttributeError))"

type_synonym paths = "(string \<times> json) list"

fun scan_tree :: "(json \<Rightarrow> string) \<Rightarrow> json list \<Rightarrow> paths \<Rightarrow> py_exn + resolution + paths" where
  "scan_tree repr [] paths = Inr (Inr paths)"
| "scan_tree repr (JObj entry # rest) paths =
     (if jget ''path'' entry = JStr ''adapter_config.json''
      then Inr (Inl (Unconfirmed ''lora-adapter''))
      else ebind (entry_oid repr entry) (\<lambda>oid. scan_tree repr rest
             (case oid of
                Some d \<Rightarrow> dict_setdefault d (jget ''path'' entry) paths
              | None \<Rightarrow> paths)))"
| "scan_tree repr (_ # rest) paths = scan_tree repr rest paths"

definition covers :: "string list \<Rightarrow> (string \<times> 'a) list \<Rightarrow> bool" where
  "covers required paths \<longleftrightarrow> (\<forall>d \<in> set required. map_of paths d \<noteq> None)"

text \<open>The page loop, \<open>for _page in range(100)\<close>: the counter is the number of pages left.\<close>

fun hf_pages :: "(json \<Rightarrow> string) \<Rightarrow> client \<Rightarrow> string list \<Rightarrow> nat \<Rightarrow> string \<Rightarrow>
    (string \<times> string) list option \<Rightarrow> paths \<Rightarrow> py_exn + resolution + paths" where
  "hf_pages repr client required 0 url params paths = Inr (Inr paths)"
| "hf_pages repr client required (Suc n) url params paths =
     (case get_json client url params of
        Inl err \<Rightarrow> Inr (Inl err)
      | Inr (JArr entries, nxt) \<Rightarrow> ebind (scan_tree repr entries paths) (\<lambda>out.
          case out of
            Inl v \<Rightarrow> Inr (Inl v)
          | Inr paths' \<Rightarrow>
              if covers required paths' then Inr (Inr paths')
              else (case nxt of
                  Some u \<Rightarrow> if prefix ''http'' u
                    then hf_pages repr client required n u None paths' else Inr (Inr paths')
                | None \<Rightarrow> Inr (Inr paths')))
      | Inr _ \<Rightarrow> Inr (Inl (Unconfirmed ''bad-json'')))"

definition max_pages :: nat where
  "max_pages = 100"

definition hf_tree_url :: "parsed_name \<Rightarrow> string option \<Rightarrow> string" where
  "hf_tree_url name revision = manifest_url name @ ''/tree/''
     @ (if truthy revision then the revision else ''main'')"

definition hf_revision :: "client \<Rightarrow> parsed_name \<Rightarrow> string option \<Rightarrow> resolution + string option" where
  "hf_revision client name revision =
     (if truthy revision then Inr revision
      else (case get_json client (manifest_url name) None of
          Inl err \<Rightarrow> Inl err
        | Inr (JObj info, _) \<Rightarrow> Inr (jstr (jget ''sha'' info))
        | Inr _ \<Rightarrow> Inr None))"

definition resolve_hf :: "(json \<Rightarrow> string) \<Rightarrow> client \<Rightarrow> parsed_name \<Rightarrow> string \<Rightarrow> string list \<Rightarrow>
    string option \<Rightarrow> py_exn + resolution" where
  "resolve_hf repr client name digest digests revision =
     (case hf_revision client name revision of
        Inl err \<Rightarrow> Inr err
      | Inr sha \<Rightarrow>
          ebind (hf_pages repr client digests max_pages (hf_tree_url name sha)
                  (Some [(''recursive'', ''true'')]) []) (\<lambda>out. Inr (case out of
             Inl v \<Rightarrow> v
           | Inr paths \<Rightarrow>
               if \<not> covers digests paths then Unconfirmed ''digest-mismatch''
               else Confirmed \<lparr>cf_source_type = ''huggingface'',
                      cf_source_ref = library_path name, cf_source_revision = sha,
                      cf_digest = digest, cf_homepage_url = homepage_url name,
                      cf_source_file = (case map_of paths digest of None \<Rightarrow> None | Some p \<Rightarrow> jstr p)\<rparr>)))"

section \<open>Resolver cache\<close>

type_synonym resolver_key = "string \<times> string list \<times> string option \<times> string option"

record resolver =
  rs_confirmed :: "resolver_key \<rightharpoonup> confirmed"
  rs_unconfirmed :: "resolver_key \<rightharpoonup> string \<times> rat"

definition negative_ttl :: rat where "negative_ttl = 15 * 60"
definition transient_ttl :: rat where "transient_ttl = 60"

definition is_transient :: "string \<Rightarrow> bool" where
  "is_transient reason \<longleftrightarrow>
     (\<exists>p \<in> set [''network-error'', ''http-429'', ''http-5'', ''bad-json'']. prefix p reason)"

definition cached :: "rat \<Rightarrow> resolver_key \<Rightarrow> resolver \<Rightarrow> resolution option \<times> resolver" where
  "cached now key r = (case rs_confirmed r key of
       Some c \<Rightarrow> (Some (Confirmed c), r)
     | None \<Rightarrow> (case rs_unconfirmed r key of
           None \<Rightarrow> (None, r)
         | Some (reason, expires_at) \<Rightarrow>
             if now < expires_at then (Some (Unconfirmed reason), r)
             else (None, r\<lparr>rs_unconfirmed := (rs_unconfirmed r)(key := None)\<rparr>)))"

definition remember :: "rat \<Rightarrow> resolver_key \<Rightarrow> resolution \<Rightarrow> resolver \<Rightarrow> resolver" where
  "remember now key result r = (case result of
       Confirmed c \<Rightarrow> r\<lparr>rs_confirmed := (rs_confirmed r)(key \<mapsto> c),
                        rs_unconfirmed := (rs_unconfirmed r)(key := None)\<rparr>
     | Unconfirmed reason \<Rightarrow>
         r\<lparr>rs_unconfirmed := (rs_unconfirmed r)(key \<mapsto>
              (reason, now + (if is_transient reason then transient_ttl else negative_ttl)))\<rparr>)"

definition wanted_digests :: "string \<Rightarrow> string list \<Rightarrow> string list" where
  "wanted_digests digest hashes =
     fromkeys (sort (List.map_filter (\<lambda>f. case bare_digest (Some f) of
         Some d \<Rightarrow> if d = [] then None else Some d | None \<Rightarrow> None) hashes @ [digest]))"

definition resolve_fresh :: "(json \<Rightarrow> string) \<Rightarrow> client \<Rightarrow> string \<Rightarrow> string \<Rightarrow> string option \<Rightarrow>
    string option \<Rightarrow> string list \<Rightarrow> py_exn + resolution" where
  "resolve_fresh repr client local_name digest source_ref source_revision digests =
     (if truthy source_ref then
        (case hf_from_repo_id source_ref of
           None \<Rightarrow> Inr (Unconfirmed ''unsupported-registry'')
         | Some p \<Rightarrow> resolve_hf repr client p digest digests source_revision)
      else ebind (parse_local_name local_name) (\<lambda>parsed. case parsed of
          Some (OllamaName ns m t) \<Rightarrow> resolve_ollama repr client (OllamaName ns m t) digest
        | Some (HfName u r t) \<Rightarrow> resolve_hf repr client (HfName u r t) digest digests None
        | None \<Rightarrow> Inr (Unconfirmed ''unsupported-registry'')))"

text \<open>\<open>IdentityResolver.resolve\<close>: \<open>t0\<close> is the clock when the cache is read, \<open>t1\<close> when
  the answer is stored. A raised exception leaves only the eviction of an expired entry.\<close>

definition resolve :: "(json \<Rightarrow> string) \<Rightarrow> client \<Rightarrow> rat \<Rightarrow> rat \<Rightarrow> string \<Rightarrow> string option \<Rightarrow>
    string option \<Rightarrow> string option \<Rightarrow> string list \<Rightarrow> resolver \<Rightarrow> (py_exn + resolution) \<times> resolver" where
  "resolve repr client t0 t1 local_name sha256 source_ref source_revision file_hashes r =
     (case bare_digest sha256 of
        None \<Rightarrow> (Inr (Unconfirmed ''no-hash''), r)
      | Some digest \<Rightarrow>
          if digest = [] then (Inr (Unconfirmed ''no-hash''), r)
          else let digests = wanted_digests digest file_hashes;
                   key = (if truthy source_ref then the source_ref else local_name,
                          digests, source_ref, source_revision)
            in case cached t0 key r of
                 (Some answer, r') \<Rightarrow> (Inr answer, r')
               | (None, r') \<Rightarrow>
                   (case resolve_fresh repr client local_name digest source_ref
                           source_revision digests of
                      Inl e \<Rightarrow> (Inl e, r')
                    | Inr result \<Rightarrow> (Inr result, remember t1 key result r')))"

section \<open>Lemmas\<close>

lemma get_json_InrD: "get_json client url q = Inr (v, nxt) \<Longrightarrow> client url q = Response 200 (Some v) nxt"
  by (auto simp: get_json_def split: http_response.splits if_splits option.splits)

text \<open>Every answer that ends a lookup early is negative.\<close>

lemma get_json_InlD: "get_json client url q = Inl v \<Longrightarrow> \<exists>why. v = Unconfirmed why"
  by (auto simp: get_json_def split: http_response.splits if_splits option.splits)

lemma hf_revision_InlD: "hf_revision client name revision = Inl v \<Longrightarrow> \<exists>why. v = Unconfirmed why"
  by (auto simp: hf_revision_def dest: get_json_InlD split: if_splits sum.splits prod.splits json.splits)

lemma scan_tree_InlD: "scan_tree repr es paths = Inr (Inl v) \<Longrightarrow> \<exists>why. v = Unconfirmed why"
  by (induction repr es paths rule: scan_tree.induct) (auto split: if_splits)

lemma hf_pages_InlD: "hf_pages repr client required n url q paths = Inr (Inl v) \<Longrightarrow> \<exists>why. v = Unconfirmed why"
proof (induction n arbitrary: url q paths)
  case (Suc n)
  show ?case
  proof (cases "get_json client url q")
    case (Inl err)
    with Suc.prems show ?thesis by (auto dest: get_json_InlD)
  next
    case (Inr r)
    obtain body nxt where r: "r = (body, nxt)" by fastforce
    show ?thesis
    proof (cases "\<exists>entries. body = JArr entries")
      case True
      then obtain entries where b: "body = JArr entries" by auto
      from Suc.prems Inr r b obtain out where out: "scan_tree repr entries paths = Inr out" by auto
      with Suc.prems Inr r b Suc.IH scan_tree_InlD show ?thesis
        by (cases out) (auto split: if_splits option.splits)
    next
      case False
      with Suc.prems Inr r show ?thesis by (cases body) auto
    qed
  qed
qed simp

text \<open>The pages of a repository's tree: the first at its URL, each other at the link of the one before.\<close>

inductive tree_page :: "client \<Rightarrow> string \<Rightarrow> json list \<Rightarrow> string option \<Rightarrow> bool" for client first where
  first_page: "client first (Some [(''recursive'', ''true'')]) = Response 200 (Some (JArr entries)) nxt \<Longrightarrow>
      tree_page client first entries nxt"
| next_page: "tree_page client first entries (Some u) \<Longrightarrow> prefix ''http'' u \<Longrightarrow>
      client u None = Response 200 (Some (JArr entries')) nxt \<Longrightarrow> tree_page client first entries' nxt"

definition lfs_served :: "(json \<Rightarrow> string) \<Rightarrow> client \<Rightarrow> string \<Rightarrow> string \<Rightarrow> bool" where
  "lfs_served repr client first d \<longleftrightarrow> (\<exists>entries nxt entry lfs. tree_page client first entries nxt \<and>
     JObj entry \<in> set entries \<and> jget ''lfs'' entry = JObj lfs \<and> json_digest repr (jget ''oid'' lfs) = Some d)"

lemma entry_oid_SomeD: "entry_oid repr entry = Inr (Some d) \<Longrightarrow>
   \<exists>lfs. jget ''lfs'' entry = JObj lfs \<and> json_digest repr (jget ''oid'' lfs) = Some d"
  by (auto simp: entry_oid_def Let_def split: if_splits json.splits option.splits)

lemma scan_tree_served:
  assumes "scan_tree repr es paths = Inr (Inr paths')" "map_of paths' d \<noteq> None"
  shows "map_of paths d \<noteq> None \<or> (\<exists>entry. JObj entry \<in> set es \<and> entry_oid repr entry = Inr (Some d))"
  using assms
proof (induction repr es paths rule: scan_tree.induct)
  case (2 repr entry rest paths)
  then obtain oid where oid: "entry_oid repr entry = Inr oid"
    and rec: "scan_tree repr rest (case oid of Some d \<Rightarrow> dict_setdefault d (jget ''path'' entry) paths | None \<Rightarrow> paths) = Inr (Inr paths')"
    and no: "jget ''path'' entry \<noteq> JStr ''adapter_config.json''"
    by (auto split: if_splits)
  from "2.IH" [OF no rec "2.prems"(2)] oid show ?case
    by (cases oid) (auto simp: map_of_dict_setdefault split: if_splits)
qed auto

text \<open>Where the loop stands: before the first page, or at the link of a page it has seen.\<close>

definition page_due :: "client \<Rightarrow> string \<Rightarrow> string \<Rightarrow> (string \<times> string) list option \<Rightarrow> bool" where
  "page_due client first url q \<longleftrightarrow> url = first \<and> q = Some [(''recursive'', ''true'')] \<or>
     q = None \<and> prefix ''http'' url \<and> (\<exists>entries. tree_page client first entries (Some url))"

lemma page_due_page: "page_due client first url q \<Longrightarrow> client url q = Response 200 (Some (JArr entries)) nxt \<Longrightarrow>
   tree_page client first entries nxt"
  by (auto simp: page_due_def intro: tree_page.intros)

lemma hf_pages_served:
  assumes "hf_pages repr client required n url q paths = Inr (Inr paths')" "page_due client first url q"
    "\<forall>d. map_of paths d \<noteq> None \<longrightarrow> lfs_served repr client first d" "map_of paths' d \<noteq> None"
  shows "lfs_served repr client first d"
  using assms
proof (induction n arbitrary: url q paths)
  case (Suc n)
  obtain entries nxt where g: "get_json client url q = Inr (JArr entries, nxt)"
    using Suc.prems(1) by (auto split: sum.splits json.splits)
  from Suc.prems(1) g obtain out where out: "scan_tree repr entries paths = Inr out" by auto
  from Suc.prems(1) g out obtain paths1 where p1: "out = Inr paths1" by (cases out) auto
  have page: "tree_page client first entries nxt" by (rule page_due_page [OF Suc.prems(2) get_json_InrD [OF g]])
  have served: "\<forall>d. map_of paths1 d \<noteq> None \<longrightarrow> lfs_served repr client first d"
    using scan_tree_served [OF out [unfolded p1]] Suc.prems(3) page
    unfolding lfs_served_def by (fast dest: entry_oid_SomeD)
  have "hf_pages repr client required (Suc n) url q paths =
      (if covers required paths1 then Inr (Inr paths1)
       else (case nxt of Some u \<Rightarrow> if prefix ''http'' u then hf_pages repr client required n u None paths1
               else Inr (Inr paths1) | None \<Rightarrow> Inr (Inr paths1)))"
    by (simp add: g out p1)
  with Suc.prems(1) have "paths' = paths1 \<or> (\<exists>u. nxt = Some u \<and> prefix ''http'' u \<and>
      hf_pages repr client required n u None paths1 = Inr (Inr paths'))"
    by (auto split: if_splits option.splits)
  then show ?case
  proof (elim disjE exE conjE)
    assume "paths' = paths1"
    then show ?thesis using served Suc.prems(4) by simp
  next
    fix u assume u: "nxt = Some u" "prefix ''http'' u" "hf_pages repr client required n u None paths1 = Inr (Inr paths')"
    then have "page_due client first u None" using page by (auto simp: page_due_def)
    then show ?thesis by (rule Suc.IH [OF u(3) _ served Suc.prems(4)])
  qed
qed simp

section \<open>Properties\<close>

text \<open>An Ollama artifact is confirmed only by its hash: the registry answered the manifest
  URL with a manifest one of whose model layers has exactly the worker's digest, and the
  confirmation carries that digest.\<close>

theorem ollama_confirmed_by_hash:
  assumes "resolve_ollama repr client name digest = Inr (Confirmed c)"
  shows "cf_digest c = digest \<and> (\<exists>m nxt ds. client (manifest_url name) None = Response 200 (Some (JObj m)) nxt
    \<and> model_layer_digests repr m = Inr ds \<and> digest \<in> set ds)"
  using assms
  by (auto simp: resolve_ollama_def split: sum.splits prod.splits json.splits if_splits dest!: get_json_InrD dest: get_json_InlD)

definition sample_manifest :: jdict where
  "sample_manifest = [(''layers'', JArr [JObj [(''mediaType'', JStr ''application/vnd.ollama.image.model''),
     (''digest'', JStr ''sha256:abc'')]])]"

theorem ollama_confirmed_by_hash_witness:
  "\<exists>c. resolve_ollama (\<lambda>_. []) (\<lambda>_ _. Response 200 (Some (JObj sample_manifest)) None)
     (OllamaName ''library'' ''m'' ''4b'') ''abc'' = Inr (Confirmed c) \<and> cf_digest c = ''abc''"
proof -
  have "isl (case resolve_ollama (\<lambda>_. []) (\<lambda>_ _. Response 200 (Some (JObj sample_manifest)) None)
     (OllamaName ''library'' ''m'' ''4b'') ''abc'' of Inr (Confirmed c) \<Rightarrow> Inl c | _ \<Rightarrow> Inr ())" by code_simp
  then obtain c where c: "resolve_ollama (\<lambda>_. []) (\<lambda>_ _. Response 200 (Some (JObj sample_manifest)) None)
     (OllamaName ''library'' ''m'' ''4b'') ''abc'' = Inr (Confirmed c)"
    by (auto split: sum.splits resolution.splits)
  from ollama_confirmed_by_hash [OF c] c show ?thesis by blast
qed

text \<open>C31: A Hugging Face artifact is confirmed only when every one of its hashes was served by the hub as an LFS
  object id in the tree of that repository at that revision: on the page that the hub answers at the tree's URL, or
  on one that its links lead to. The confirmation names the repository, the digest and the revision: the one the
  worker gave, else the current commit that the hub's model page answered.\<close>

theorem hf_confirmed_by_hashes:
  assumes "resolve_hf repr client (HfName user repo tag) digest digests revision = Inr (Confirmed c)" "d \<in> set digests"
  shows "cf_digest c = digest \<and> cf_source_type c = ''huggingface'' \<and> cf_source_ref c = user @ ''/'' @ repo \<and>
    (if truthy revision then cf_source_revision c = revision
     else (\<exists>info nxt. client (''https://huggingface.co/api/models/'' @ user @ ''/'' @ repo) None = Response 200 (Some info) nxt \<and>
       cf_source_revision c = (case info of JObj i \<Rightarrow> jstr (jget ''sha'' i) | _ \<Rightarrow> None))) \<and>
    (\<exists>rev. rev = (if truthy (cf_source_revision c) then the (cf_source_revision c) else ''main'') \<and>
       lfs_served repr client (''https://huggingface.co/api/models/'' @ user @ ''/'' @ repo @ ''/tree/'' @ rev) d)"
proof -
  let ?name = "HfName user repo tag"
  obtain sha where sha: "hf_revision client ?name revision = Inr sha"
    using assms(1) by (cases "hf_revision client ?name revision") (auto simp: resolve_hf_def dest: hf_revision_InlD)
  let ?pages = "hf_pages repr client digests max_pages (hf_tree_url ?name sha) (Some [(''recursive'', ''true'')]) []"
  obtain out where out: "?pages = Inr out"
    using assms(1) sha by (cases ?pages) (auto simp: resolve_hf_def)
  obtain paths where paths: "out = Inr paths"
    using assms(1) sha out hf_pages_InlD by (cases out) (fastforce simp: resolve_hf_def)+
  have p: "?pages = Inr (Inr paths)" using out paths by simp
  have cov: "covers digests paths" and c: "cf_digest c = digest" "cf_source_type c = ''huggingface''"
      "cf_source_ref c = user @ ''/'' @ repo" "cf_source_revision c = sha"
    using assms(1) sha p by (auto simp: resolve_hf_def split: if_splits)
  have "map_of paths d \<noteq> None" using cov assms(2) by (simp add: covers_def)
  moreover have "page_due client (hf_tree_url ?name sha) (hf_tree_url ?name sha) (Some [(''recursive'', ''true'')])"
    by (simp add: page_due_def)
  ultimately have "lfs_served repr client (hf_tree_url ?name sha) d" using hf_pages_served [OF p, of "hf_tree_url ?name sha" d] by simp
  then have "lfs_served repr client (''https://huggingface.co/api/models/'' @ user @ ''/'' @ repo @ ''/tree/'' @
      (if truthy sha then the sha else ''main'')) d"
    unfolding hf_tree_url_def manifest_url.simps append_assoc .
  moreover have "if truthy revision then sha = revision
     else (\<exists>info nxt. client (''https://huggingface.co/api/models/'' @ user @ ''/'' @ repo) None = Response 200 (Some info) nxt \<and>
       sha = (case info of JObj i \<Rightarrow> jstr (jget ''sha'' i) | _ \<Rightarrow> None))"
    using sha by (auto simp: hf_revision_def dest!: get_json_InrD split: if_splits sum.splits prod.splits json.splits)
  ultimately show ?thesis unfolding c by blast
qed

text \<open>A hub with one repository at one revision, whose tree comes in two pages.\<close>

definition sample_hub :: client where
  "sample_hub url q =
     (if url = ''https://huggingface.co/api/models/Org/M/tree/rev''
      then Response 200 (Some (JArr [JObj [(''path'', JStr ''README.md'')]])) (Some ''https://huggingface.co/next'')
      else if url = ''https://huggingface.co/next''
      then Response 200 (Some (JArr [JObj [(''path'', JStr ''model.safetensors''), (''lfs'', JObj [(''oid'', JStr ''abc'')])]])) None
      else Response 404 None None)"

theorem hf_confirmed_by_hashes_witness:
  "\<exists>c. resolve_hf (\<lambda>_. []) sample_hub (HfName ''Org'' ''M'' None) ''abc'' [''abc''] (Some ''rev'') = Inr (Confirmed c)
     \<and> cf_source_revision c = Some ''rev''
     \<and> lfs_served (\<lambda>_. []) sample_hub ''https://huggingface.co/api/models/Org/M/tree/rev'' ''abc''"
proof -
  have "isl (case resolve_hf (\<lambda>_. []) sample_hub (HfName ''Org'' ''M'' None) ''abc'' [''abc''] (Some ''rev'') of
      Inr (Confirmed c) \<Rightarrow> Inl c | _ \<Rightarrow> Inr ())" by code_simp
  then obtain c where c: "resolve_hf (\<lambda>_. []) sample_hub (HfName ''Org'' ''M'' None) ''abc'' [''abc''] (Some ''rev'') = Inr (Confirmed c)"
    by (auto split: sum.splits resolution.splits)
  from hf_confirmed_by_hashes [OF c, of "''abc''"] c show ?thesis by (auto simp: truthy_def)
qed

text \<open>A confirmation is remembered for good, at any later time; a negative answer is replayed
  until its time to live has passed (a minute for transient reasons, fifteen minutes for the
  rest) and then forgotten.\<close>

theorem resolver_cache:
  assumes "rs_confirmed r key = None"
  shows "fst (cached t key (remember t1 key (Confirmed c) r)) = Some (Confirmed c) \<and>
    fst (cached t key (remember t1 key (Unconfirmed why) r)) =
      (if t < t1 + (if is_transient why then 60 else 900) then Some (Unconfirmed why) else None)"
  using assms by (simp add: cached_def remember_def transient_ttl_def negative_ttl_def)

theorem resolver_cache_witness:
  "fst (cached 10 (''n'', [], None, None) (remember 0 (''n'', [], None, None) (Unconfirmed ''http-503'')
     \<lparr>rs_confirmed = Map.empty, rs_unconfirmed = Map.empty\<rparr>)) = Some (Unconfirmed ''http-503'')"
proof -
  have "is_transient ''http-503''" by code_simp
  then show ?thesis
    using resolver_cache [of "\<lparr>rs_confirmed = Map.empty, rs_unconfirmed = Map.empty\<rparr>" "(''n'', [], None, None)" 10 0 _ "''http-503''"]
    by simp
qed

text \<open>The bare registry host is a name that the parser fails on.\<close>

lemma parse_registry_host_raises: "parse_local_name default_registry = Inl IndexError"
  by code_simp

end
