(* ===== verification/Scheduler.thy ===== *)
theory Scheduler
  imports Identity
begin

text \<open>
  \<open>backend/scheduler.py\<close>: does a worker host a catalogue artifact (\<open>hosts\<close>), may it be
  given a batch for it (\<open>can_serve\<close>), which queued batch does a polling worker get
  (\<open>find_best_batch\<close>), and under which name is the job dispatched
  (\<open>resolve_runtime_model_id\<close>). Warnings that the code logs are left out. The time-zone
  database is the parameter \<open>wall\<close>: minutes after local midnight in a zone at a time.
\<close>

section \<open>Catalogue lookup\<close>

definition selectable :: "catalog_entry \<Rightarrow> bool" where
  "selectable e \<longleftrightarrow> c_enabled e \<and> c_status e \<in> set selectable_statuses"

definition get_catalog_entry :: "srv \<Rightarrow> string option \<Rightarrow> catalog_entry option" where
  "get_catalog_entry db model_id =
     (if \<not> truthy model_id then None
      else find (\<lambda>e. Some (c_id e) = model_id \<and> selectable e) (catalog db))"

definition is_model_supported :: "srv \<Rightarrow> string option \<Rightarrow> bool" where
  "is_model_supported db model_id \<longleftrightarrow> get_catalog_entry db model_id \<noteq> None"

definition get_model_vram :: "srv \<Rightarrow> string option \<Rightarrow> gb option" where
  "get_model_vram db model_id = Option.bind (get_catalog_entry db model_id) c_vram_gb"

section \<open>Hosting\<close>

type_synonym offer = "string \<times> string option"

text \<open>The loop of \<open>_hosts\<close>, with the catalogue's digest already normalised.\<close>

fun hosts_loop :: "offer list \<Rightarrow> string list \<Rightarrow> string option \<Rightarrow> bool" where
  "hosts_loop [] ids cat = False"
| "hosts_loop ((name, digest) # rest) ids cat =
     (let wd = bare_digest digest in
      if name \<notin> set ids then
        (if truthy cat \<and> truthy wd \<and> cat = wd then True else hosts_loop rest ids cat)
      else if truthy cat \<and> truthy wd \<and> cat \<noteq> wd then hosts_loop rest ids cat
      else True)"

definition hosts :: "offer list \<Rightarrow> string list \<Rightarrow> string option \<Rightarrow> bool" where
  "hosts worker_models runtime_model_ids catalog_digest =
     hosts_loop worker_models runtime_model_ids (bare_digest catalog_digest)"

definition target_ids :: "catalog_entry \<Rightarrow> string list" where
  "target_ids e = map snd (serving_targets e)"

definition is_bare :: "string \<Rightarrow> bool" where
  "is_bare name \<longleftrightarrow> name \<noteq> [] \<and> CHR ''/'' \<notin> set name"

text \<open>Called on non-empty lists only.\<close>

definition prefer_bare :: "string list \<Rightarrow> string" where
  "prefer_bare names = (case find is_bare names of Some n \<Rightarrow> n | None \<Rightarrow> hd names)"

definition profiled_names :: "catalog_entry \<Rightarrow> offer list \<Rightarrow> string list" where
  "profiled_names e worker_models =
     (let cat = bare_digest (c_digest e); ids = target_ids e in
      [name. (name, digest) \<leftarrow> worker_models, name \<in> set ids,
         \<not> (truthy cat \<and> truthy (bare_digest digest) \<and> cat \<noteq> bare_digest digest)])"

definition exact_names :: "catalog_entry \<Rightarrow> offer list \<Rightarrow> string list" where
  "exact_names e worker_models =
     [name. (name, digest) \<leftarrow> worker_models, bare_digest digest = bare_digest (c_digest e)]"

definition resolve_runtime_model_id :: "catalog_entry option \<Rightarrow> offer list \<Rightarrow> string option" where
  "resolve_runtime_model_id entry worker_models = (case entry of
       None \<Rightarrow> None
     | Some e \<Rightarrow> Some (
         if profiled_names e worker_models \<noteq> [] then prefer_bare (profiled_names e worker_models)
         else if truthy (bare_digest (c_digest e)) \<and> exact_names e worker_models \<noteq> []
              then prefer_bare (exact_names e worker_models)
         else c_runtime_model_id e))"

section \<open>Capacity\<close>

record capacity =
  vram_by_gpu :: "gb list"
  cap_vram_total :: "gb option"
  cap_ram_total :: "gb option"
  cap_ram_available :: "gb option"

definition capacity_of :: "worker \<Rightarrow> capacity" where
  "capacity_of w = \<lparr>
     vram_by_gpu = rev (sort (List.map_filter
        (\<lambda>g. case g_vram_gb g of Some v \<Rightarrow> if v = 0 then None else Some v | None \<Rightarrow> None) (w_gpus w))),
     cap_vram_total = w_vram_total_gb w,
     cap_ram_total = w_ram_total_gb w,
     cap_ram_available = w_ram_available_gb w\<rparr>"

definition ram_reserve_floor_gb :: gb where "ram_reserve_floor_gb = 4"
definition ram_reserve_fraction :: gb where "ram_reserve_fraction = 1 / 5"

definition largest_gpu_gb :: "capacity \<Rightarrow> gb option" where
  "largest_gpu_gb cap = (case vram_by_gpu cap of [] \<Rightarrow> None | v # vs \<Rightarrow> Some (fold max vs v))"

definition usable_ram_gb :: "capacity \<Rightarrow> gb" where
  "usable_ram_gb cap = (case cap_ram_available cap of
       None \<Rightarrow> 0
     | Some avail \<Rightarrow>
         let reserve = max ram_reserve_floor_gb (ram_reserve_fraction * or0 (cap_ram_total cap))
         in max (avail - reserve) 0)"

definition fit_vram_only :: "gb \<Rightarrow> capacity \<Rightarrow> bool" where
  "fit_vram_only required cap = (case largest_gpu_gb cap of
       Some largest \<Rightarrow> largest \<ge> required
     | None \<Rightarrow> (case cap_vram_total cap of Some v \<Rightarrow> v \<ge> required | None \<Rightarrow> False))"

definition fit_vram_plus_ram :: "gb \<Rightarrow> capacity \<Rightarrow> bool" where
  "fit_vram_plus_ram required cap =
     (case (case largest_gpu_gb cap of Some v \<Rightarrow> Some v | None \<Rightarrow> cap_vram_total cap) of
        None \<Rightarrow> False
      | Some largest \<Rightarrow> largest + usable_ram_gb cap \<ge> required)"

definition fit_rules :: "(string \<times> (gb \<Rightarrow> capacity \<Rightarrow> bool)) list" where
  "fit_rules = [(''ollama'', fit_vram_only), (''vllm'', fit_vram_only),
                (''llamacpp'', fit_vram_plus_ram)]"

definition fit_rule :: "string \<Rightarrow> gb \<Rightarrow> capacity \<Rightarrow> bool" where
  "fit_rule engine = (case map_of fit_rules engine of Some rule \<Rightarrow> rule | None \<Rightarrow> fit_vram_only)"

section \<open>Eligibility\<close>

definition dispatchable_models :: "runtime_row \<Rightarrow> offer list" where
  "dispatchable_models rt = [(m_name m, m_digest m). m \<leftarrow> rt_models rt, model_schedulable m]"

definition hosting_runtime :: "worker \<Rightarrow> string list \<Rightarrow> string option \<Rightarrow> runtime_row option" where
  "hosting_runtime w ids digest =
     find (\<lambda>rt. runtime_schedulable rt \<and> hosts (dispatchable_models rt) ids digest) (w_runtimes w)"

definition runtime_has :: "runtime_row \<Rightarrow> string list option \<Rightarrow> bool" where
  "runtime_has rt needs \<longleftrightarrow>
     (if \<not> truthy needs then True
      else let caps = (case rt_capabilities rt of None \<Rightarrow> [] | Some c \<Rightarrow> c)
        in \<forall>k \<in> set (the needs). map_of caps k = Some True)"

type_synonym wall_clock = "string option \<Rightarrow> seconds \<Rightarrow> int"

definition in_window :: "wall_clock \<Rightarrow> worker \<Rightarrow> seconds \<Rightarrow> bool" where
  "in_window wall w now_s = (case (w_window_start w, w_window_end w) of
       (Some start, Some end_) \<Rightarrow>
         let now = wall (w_window_tz w) now_s in
         if start < end_ then start \<le> now \<and> now < end_
         else now \<ge> start \<or> now < end_
     | _ \<Rightarrow> True)"

definition accepts_size :: "worker \<Rightarrow> int option \<Rightarrow> bool" where
  "accepts_size w prompts = (case (w_max_batch_prompts w, prompts) of
       (Some limit, Some p) \<Rightarrow> p \<le> limit
     | _ \<Rightarrow> True)"

definition can_serve :: "wall_clock \<Rightarrow> seconds \<Rightarrow> catalog_entry \<Rightarrow> worker \<Rightarrow> string list option \<Rightarrow>
    int option \<Rightarrow> bool \<Rightarrow> bool" where
  "can_serve wall now e w needs prompts window =
     (if window \<and> \<not> in_window wall w now then False
      else if \<not> accepts_size w prompts then False
      else (case hosting_runtime w (target_ids e) (c_digest e) of
          None \<Rightarrow> False
        | Some rt \<Rightarrow>
            if \<not> runtime_has rt needs then False
            else fit_rule (rt_engine rt) (or0 (c_vram_gb e)) (capacity_of w)))"

definition serving_runtimes :: "wall_clock \<Rightarrow> seconds \<Rightarrow> catalog_entry \<Rightarrow> worker list \<Rightarrow>
    string list option \<Rightarrow> string list" where
  "serving_runtimes wall now e ws needs = sort (fromkeys
     [rt_engine rt. w \<leftarrow> ws, can_serve wall now e w needs None True,
        rt \<leftarrow> (case hosting_runtime w (target_ids e) (c_digest e) of None \<Rightarrow> [] | Some rt \<Rightarrow> [rt]),
        rt_engine rt \<noteq> []])"

section \<open>The scheduler\<close>

definition eligible :: "wall_clock \<Rightarrow> seconds \<Rightarrow> srv \<Rightarrow> worker \<Rightarrow> batch \<Rightarrow> bool" where
  "eligible wall now db w b = (case get_catalog_entry db (b_model b) of
       None \<Rightarrow> False
     | Some e \<Rightarrow> can_serve wall now e w (b_required_capabilities b) (b_total b) True)"

definition loaded_here :: "srv \<Rightarrow> worker \<Rightarrow> batch \<Rightarrow> bool" where
  "loaded_here db w b = (case get_catalog_entry db (b_model b) of
       None \<Rightarrow> False
     | Some e \<Rightarrow> hosts (loaded_models w) (target_ids e) (c_digest e))"

text \<open>The loop collects the eligible batches in two lists, in queue order.\<close>

fun collect_matches :: "wall_clock \<Rightarrow> seconds \<Rightarrow> srv \<Rightarrow> worker \<Rightarrow> batch list \<Rightarrow> batch list \<times> batch list" where
  "collect_matches wall now db w [] = ([], [])"
| "collect_matches wall now db w (b # bs) =
     (let (loaded_matches, other_matches) = collect_matches wall now db w bs in
      if \<not> eligible wall now db w b then (loaded_matches, other_matches)
      else if loaded_here db w b then (b # loaded_matches, other_matches)
      else (loaded_matches, b # other_matches))"

definition find_best_batch :: "wall_clock \<Rightarrow> seconds \<Rightarrow> srv \<Rightarrow> worker \<Rightarrow> batch list \<Rightarrow> batch option" where
  "find_best_batch wall now db w available =
     (case collect_matches wall now db w available of
        (b # _, _) \<Rightarrow> Some b
      | ([], b # _) \<Rightarrow> Some b
      | ([], []) \<Rightarrow> None)"

section \<open>Lemmas\<close>

lemma get_catalog_entry_SomeD:
  "get_catalog_entry db m = Some e \<Longrightarrow> e \<in> set (catalog db) \<and> m = Some (c_id e) \<and> selectable e"
  by (auto simp: get_catalog_entry_def split: if_splits dest: find_SomeD)

text \<open>What \<open>_hosts\<close> promises for one advertised artifact: identity is the digest when both
  sides carry one, the name otherwise.\<close>

definition artifact_matches :: "string list \<Rightarrow> string option \<Rightarrow> offer \<Rightarrow> bool" where
  "artifact_matches ids digest = (\<lambda>(name, d).
     if truthy (bare_digest digest) \<and> truthy (bare_digest d) then bare_digest d = bare_digest digest
     else name \<in> set ids)"

lemma hosts_iff_matches: "hosts ms ids digest \<longleftrightarrow> (\<exists>m \<in> set ms. artifact_matches ids digest m)"
proof -
  have "hosts_loop ms ids (bare_digest digest) \<longleftrightarrow> (\<exists>m \<in> set ms. artifact_matches ids digest m)"
    by (induction ms ids "bare_digest digest" rule: hosts_loop.induct)
      (auto simp: artifact_matches_def Let_def)
  then show ?thesis by (simp add: hosts_def)
qed

lemma hosting_runtime_SomeD:
  assumes "hosting_runtime w ids digest = Some rt"
  shows "rt \<in> set (w_runtimes w)" "runtime_schedulable rt"
    "\<exists>m \<in> set (rt_models rt). model_schedulable m \<and> artifact_matches ids digest (m_name m, m_digest m)"
proof -
  have "runtime_schedulable rt \<and> hosts (dispatchable_models rt) ids digest \<and> rt \<in> set (w_runtimes w)"
    using find_SomeD [OF assms [unfolded hosting_runtime_def]] by blast
  then show "rt \<in> set (w_runtimes w)" "runtime_schedulable rt"
    "\<exists>m \<in> set (rt_models rt). model_schedulable m \<and> artifact_matches ids digest (m_name m, m_digest m)"
    by (auto simp: hosts_iff_matches dispatchable_models_def)
qed

lemma can_serve_hosts:
  assumes "can_serve wall now e w needs prompts window"
  obtains rt where "hosting_runtime w (target_ids e) (c_digest e) = Some rt" "runtime_has rt needs"
    "fit_rule (rt_engine rt) (or0 (c_vram_gb e)) (capacity_of w)"
    "accepts_size w prompts" "window \<longrightarrow> in_window wall w now"
  using assms by (auto simp: can_serve_def split: if_splits option.splits)

lemma advertised_matches:
  assumes "rt \<in> set (w_runtimes w)" "runtime_schedulable rt" "m \<in> set (rt_models rt)" "model_schedulable m"
  shows "(m_name m, m_digest m) \<in> set (advertised_models w)"
  using assms by (force simp: advertised_models_def)

lemma prefer_bare_mem: "names \<noteq> [] \<Longrightarrow> prefer_bare names \<in> set names"
  by (auto simp: prefer_bare_def split: option.splits dest: find_SomeD)

lemma profiled_names_filter:
  "profiled_names e ms = map fst (filter (\<lambda>m. fst m \<in> set (target_ids e) \<and>
     artifact_matches (target_ids e) (c_digest e) m) ms)"
proof -
  have "concat (map (\<lambda>(name, digest). if name \<in> set ids then
          (if \<not> (truthy cat \<and> truthy (bare_digest digest) \<and> cat \<noteq> bare_digest digest) then [name] else []) else []) ms)
      = map fst (filter (\<lambda>m. fst m \<in> set ids \<and> artifact_matches ids (c_digest e) m) ms)"
    if "cat = bare_digest (c_digest e)" for ids cat
    using that by (induction ms) (auto simp: artifact_matches_def split: if_splits)
  then show ?thesis by (simp add: profiled_names_def Let_def)
qed

lemma profiled_names_iff:
  "n \<in> set (profiled_names e ms) \<longleftrightarrow>
    (\<exists>d. (n, d) \<in> set ms \<and> n \<in> set (target_ids e) \<and> artifact_matches (target_ids e) (c_digest e) (n, d))"
  by (force simp: profiled_names_filter)

lemma exact_names_iff: "n \<in> set (exact_names e ms) \<longleftrightarrow>
    (\<exists>d. (n, d) \<in> set ms \<and> bare_digest d = bare_digest (c_digest e))"
  by (auto simp: exact_names_def)

lemma resolve_runtime_model_id_hosted:
  assumes "hosts ms (target_ids e) (c_digest e)"
  shows "\<exists>n d. resolve_runtime_model_id (Some e) ms = Some n \<and> (n, d) \<in> set ms \<and>
    artifact_matches (target_ids e) (c_digest e) (n, d)"
proof (cases "profiled_names e ms = []")
  case False
  from prefer_bare_mem [OF this] False show ?thesis
    by (auto simp: resolve_runtime_model_id_def profiled_names_iff)
next
  case True
  from assms obtain n d where nd: "(n, d) \<in> set ms" "artifact_matches (target_ids e) (c_digest e) (n, d)"
    by (auto simp: hosts_iff_matches)
  have no_profiled: "\<not> n \<in> set (profiled_names e ms)" using True by simp
  with nd have "n \<notin> set (target_ids e)" by (auto simp: profiled_names_iff)
  with nd have digests: "truthy (bare_digest (c_digest e))" "bare_digest d = bare_digest (c_digest e)"
    by (auto simp: artifact_matches_def split: if_splits)
  with nd have "exact_names e ms \<noteq> []"
    using exact_names_iff [of n e ms] by force
  moreover from prefer_bare_mem [OF this] obtain d' where
    "(prefer_bare (exact_names e ms), d') \<in> set ms" "bare_digest d' = bare_digest (c_digest e)"
    by (auto simp: exact_names_iff)
  ultimately show ?thesis
    using True digests by (auto simp: resolve_runtime_model_id_def artifact_matches_def)
qed

lemma collect_matches_filter:
  "collect_matches wall now db w bs =
    (filter (\<lambda>b. eligible wall now db w b \<and> loaded_here db w b) bs,
     filter (\<lambda>b. eligible wall now db w b \<and> \<not> loaded_here db w b) bs)"
  by (induction bs) auto

lemma find_best_batch_eq:
  "find_best_batch wall now db w bs =
    (case find (\<lambda>b. eligible wall now db w b \<and> loaded_here db w b) bs of
       Some b \<Rightarrow> Some b
     | None \<Rightarrow> find (eligible wall now db w) bs)"
proof -
  have head: "find P bs = (case filter P bs of [] \<Rightarrow> None | b # _ \<Rightarrow> Some b)" for P :: "batch \<Rightarrow> bool"
    by (induction bs) auto
  have none: "filter (\<lambda>b. P b \<and> Q b) bs = [] \<Longrightarrow> filter (\<lambda>b. P b \<and> \<not> Q b) bs = filter P bs"
    for P Q :: "batch \<Rightarrow> bool"
    by (induction bs) (auto split: if_splits)
  show ?thesis
    unfolding find_best_batch_def collect_matches_filter head
    by (auto split: list.splits simp: none)
qed

lemma find_best_batch_SomeD:
  "find_best_batch wall now db w bs = Some b \<Longrightarrow> b \<in> set bs \<and> eligible wall now db w b"
  by (auto simp: find_best_batch_eq split: option.splits dest: find_SomeD)

lemma fold_max_ge: "(x::gb) \<le> fold max xs x \<and> (\<forall>y \<in> set xs. y \<le> fold max xs x) \<and> fold max xs x \<in> insert x (set xs)"
proof (induction xs arbitrary: x)
  case (Cons a xs)
  from Cons.IH [of "max a x"] show ?case by (auto simp: max_def split: if_splits)
qed simp

lemma largest_gpu_mem:
  "largest_gpu_gb cap = Some v \<Longrightarrow> v \<in> set (vram_by_gpu cap) \<and> (\<forall>u \<in> set (vram_by_gpu cap). u \<le> v)"
  using fold_max_ge by (fastforce simp: largest_gpu_gb_def split: list.splits)

lemma usable_ram_nonneg: "0 \<le> usable_ram_gb cap"
  by (simp add: usable_ram_gb_def Let_def split: option.splits)

lemma fit_plus_ram_weaker: "fit_vram_only r cap \<Longrightarrow> fit_vram_plus_ram r cap"
  using usable_ram_nonneg [of cap]
  by (auto simp: fit_vram_only_def fit_vram_plus_ram_def split: option.splits)

lemma fit_rule_cases: "fit_rule engine = (if engine = ''llamacpp'' then fit_vram_plus_ram else fit_vram_only)"
  by (simp add: fit_rule_def fit_rules_def)

section \<open>Properties\<close>

text \<open>C38: A worker hosts a catalogue artifact exactly when one of its offers is that artifact:
  when both sides carry a digest the normalised digests decide (whatever the name), otherwise
  the offered name must be one the entry answers to.\<close>

theorem hosts_identity:
  "hosts ms ids dg \<longleftrightarrow> (\<exists>n d. (n, d) \<in> set ms \<and>
     (if truthy (bare_digest dg) \<and> truthy (bare_digest d) then bare_digest d = bare_digest dg
      else n \<in> set ids))"
  by (force simp: hosts_iff_matches artifact_matches_def)

text \<open>A worker that may be given a batch holds, on a ready runtime, a model that is neither
  quarantined, drifted nor missing and that is the entry's artifact by digest or by name; that
  runtime honours every capability asked for, the model fits by the runtime's rule, and the
  provider's window and size limit are respected.\<close>

theorem can_serve_sound:
  assumes "can_serve wall now e w needs prompts window"
  shows "\<exists>rt m. rt \<in> set (w_runtimes w) \<and> rt_status rt = ''ready'' \<and> m \<in> set (rt_models rt) \<and>
    m_status m \<notin> {Unregistered, Drift, Missing} \<and>
    (if truthy (bare_digest (c_digest e)) \<and> truthy (bare_digest (m_digest m))
     then bare_digest (m_digest m) = bare_digest (c_digest e) else m_name m \<in> set (target_ids e)) \<and>
    runtime_has rt needs \<and> fit_rule (rt_engine rt) (or0 (c_vram_gb e)) (capacity_of w) \<and>
    accepts_size w prompts \<and> (\<not> window \<or> in_window wall w now)"
proof -
  from assms obtain rt where rt: "hosting_runtime w (target_ids e) (c_digest e) = Some rt"
    "runtime_has rt needs" "fit_rule (rt_engine rt) (or0 (c_vram_gb e)) (capacity_of w)"
    "accepts_size w prompts" "window \<longrightarrow> in_window wall w now" by (rule can_serve_hosts)
  from hosting_runtime_SomeD [OF rt(1)] obtain m
    where m: "rt \<in> set (w_runtimes w)" "runtime_schedulable rt" "m \<in> set (rt_models rt)"
      "model_schedulable m" "artifact_matches (target_ids e) (c_digest e) (m_name m, m_digest m)"
    by blast
  show ?thesis
    by (intro exI [of _ rt] exI [of _ m] conjI)
      (use m rt in \<open>simp_all add: runtime_schedulable_def model_schedulable_def artifact_matches_def\<close>)
qed

theorem can_serve_sound_witness:
  "can_serve sample_wall 1000 sample_entry sample_worker (Some [''logprobs'']) (Some 2) True \<and>
   (\<exists>rt m. rt \<in> set (w_runtimes sample_worker) \<and> m \<in> set (rt_models rt) \<and> m_status m \<notin> {Unregistered, Drift, Missing})"
proof -
  have c: "can_serve sample_wall 1000 sample_entry sample_worker (Some [''logprobs'']) (Some 2) True" by code_simp
  from can_serve_sound [OF c] c show ?thesis by blast
qed

text \<open>The batch a worker gets is the first in queue order among the eligible ones whose model
  it already has loaded, else the first eligible one; no batch only when none is eligible.\<close>

theorem find_best_batch_order:
  "find_best_batch wall now db w bs =
    (case find (\<lambda>b. eligible wall now db w b \<and> loaded_here db w b) bs of
       Some b \<Rightarrow> Some b | None \<Rightarrow> find (eligible wall now db w) bs)"
  by (rule find_best_batch_eq)

text \<open>On a host with GPUs the VRAM rule compares with a single card, never with the sum; and
  every model that passes it also passes the rule that adds free system RAM.\<close>

theorem fit_single_card:
  assumes "vram_by_gpu cap \<noteq> []"
  shows "(fit_vram_only r cap \<longleftrightarrow> (\<exists>v. v \<in> set (vram_by_gpu cap) \<and> r \<le> v)) \<and>
    (\<not> fit_vram_only r cap \<or> fit_vram_plus_ram r cap)"
proof -
  obtain v where v: "largest_gpu_gb cap = Some v" using assms by (cases "vram_by_gpu cap") (auto simp: largest_gpu_gb_def)
  from largest_gpu_mem [OF v] v fit_plus_ram_weaker show ?thesis
    by (auto simp: fit_vram_only_def intro: order_trans)
qed

theorem fit_single_card_witness:
  "vram_by_gpu (capacity_of sample_worker) \<noteq> [] \<and> fit_vram_only 8 (capacity_of sample_worker)"
proof -
  have ne: "vram_by_gpu (capacity_of sample_worker) \<noteq> []" by code_simp
  have "8 \<in> set (vram_by_gpu (capacity_of sample_worker))" by code_simp
  with fit_single_card [OF ne, of 8] ne show ?thesis by auto
qed

section \<open>A gap between eligibility and dispatch\<close>

text \<open>The capability gate asks the first runtime that hosts the artifact, but the name a job is
  dispatched under may belong to another runtime of the worker, which lacks the capability.\<close>

definition mixed_entry :: catalog_entry where
  "mixed_entry = sample_entry\<lparr>c_profiles :=
     [\<lparr>p_runtime = ''vllm'', p_runtime_model_id = ''Org/M'', p_extra_ids = None, p_params = None\<rparr>,
      \<lparr>p_runtime = ''ollama'', p_runtime_model_id = ''m:4b'', p_extra_ids = None, p_params = None\<rparr>]\<rparr>"

definition mixed_worker :: worker where
  "mixed_worker = sample_worker\<lparr>w_runtimes :=
     [sample_runtime\<lparr>rt_id := ''r0'', rt_engine := ''vllm'', rt_capabilities := Some [(''completions'', True)],
        rt_models := [sample_model\<lparr>m_name := ''Org/M''\<rparr>]\<rparr>, sample_runtime]\<rparr>"

lemma capability_gate_mismatch:
  "can_serve sample_wall 1000 mixed_entry mixed_worker (Some [''completions'']) None True \<and>
   resolve_runtime_model_id (Some mixed_entry) (advertised_models mixed_worker) = Some ''m:4b'' \<and>
   map rt_engine (filter (\<lambda>rt. ''m:4b'' \<in> set (map m_name (rt_models rt))) (w_runtimes mixed_worker)) = [''ollama''] \<and>
   \<not> runtime_has sample_runtime (Some [''completions''])"
  by code_simp

end
