(* ===== verification/Reconciliation.thy ===== *)
theory Reconciliation
  imports Scheduler
begin

text \<open>
  \<open>backend/reconciliation.py\<close>: every artifact a worker reports is classified against the
  catalogue by its hash (\<open>classify_entry\<close>), a hash-verified row may teach its entry a new
  serving name (\<open>ensure_serving_name\<close>, \<open>set_state\<close>), a full inventory report updates a
  worker's rows runtime by runtime (\<open>apply_inventory\<close>), and an adoption re-classifies every
  row that carries the hash (\<open>reclassify_hash\<close>). Logging and \<open>updated_at\<close> stamps are left
  out.
\<close>

section \<open>Classification\<close>

definition sha_forms :: "string \<Rightarrow> string option set" where
  "sha_forms d = {Some d, Some (''sha256:'' @ d)}"

definition find_entry_by_hash :: "catalog_entry list \<Rightarrow> string option \<Rightarrow> catalog_entry option" where
  "find_entry_by_hash cat sha = (case bare_digest sha of
       None \<Rightarrow> None
     | Some d \<Rightarrow>
         if d = [] then None
         else (case find (\<lambda>e. c_digest e \<in> sha_forms d) cat of
             Some e \<Rightarrow> Some e
           | None \<Rightarrow> find (\<lambda>e. \<exists>f \<in> set (c_files e). ca_sha256 f \<in> sha_forms d) cat))"

definition answers_to :: "catalog_entry \<Rightarrow> string \<Rightarrow> bool" where
  "answers_to e name \<longleftrightarrow>
     c_runtime_model_id e = name \<or> (\<exists>p \<in> set (c_profiles e). p_runtime_model_id p = name)"

definition find_entries_by_name :: "catalog_entry list \<Rightarrow> string \<Rightarrow> catalog_entry list" where
  "find_entries_by_name cat name = filter (\<lambda>e. answers_to e name) cat"

definition classify_entry :: "catalog_entry list \<Rightarrow> string \<Rightarrow> string option \<Rightarrow>
    model_status \<times> catalog_entry option" where
  "classify_entry cat name sha =
     (if \<not> truthy sha then (Available, None)
      else (case find_entry_by_hash cat sha of
          Some e \<Rightarrow> (Available, Some e)
        | None \<Rightarrow>
            let by_name = find_entries_by_name cat name in
            if by_name = [] then (Unregistered, None)
            else if (\<forall>e \<in> set by_name. truthy (bare_digest (c_digest e))) then (Drift, None)
            else (Available, None)))"

definition classify :: "catalog_entry list \<Rightarrow> string \<Rightarrow> string option \<Rightarrow>
    model_status \<times> string option" where
  "classify cat name sha =
     (case classify_entry cat name sha of (status, entry) \<Rightarrow> (status, map_option c_id entry))"

definition all_model_rows :: "srv \<Rightarrow> model_row list" where
  "all_model_rows db = [m. w \<leftarrow> workers db, rt \<leftarrow> w_runtimes w, m \<leftarrow> rt_models rt]"

definition local_names_for_hash :: "srv \<Rightarrow> string option \<Rightarrow> string list" where
  "local_names_for_hash db sha = (case bare_digest sha of
       None \<Rightarrow> []
     | Some d \<Rightarrow> if d = [] then []
         else fromkeys [m_name m. m \<leftarrow> all_model_rows db, m_digest m \<in> sha_forms d])"

section \<open>Applying a verdict to a row\<close>

fun upd_first :: "('a \<Rightarrow> bool) \<Rightarrow> ('a \<Rightarrow> 'a) \<Rightarrow> 'a list \<Rightarrow> 'a list" where
  "upd_first P f [] = []"
| "upd_first P f (x # xs) = (if P x then f x # xs else x # upd_first P f xs)"

definition ensure_serving_name :: "catalog_entry list \<Rightarrow> catalog_entry \<Rightarrow> string \<Rightarrow> string \<Rightarrow>
    catalog_entry list \<times> bool" where
  "ensure_serving_name cat e name engine =
     (case find (\<lambda>p. p_runtime p = engine) (c_profiles e) of
        None \<Rightarrow> (cat, False)
      | Some p \<Rightarrow>
          let extras = (case p_extra_ids p of None \<Rightarrow> [] | Some xs \<Rightarrow> xs) in
          if name \<in> set extras then (cat, False)
          else (tbl_upd c_id (c_id e) (\<lambda>e. e\<lparr>c_profiles :=
                   upd_first (\<lambda>p. p_runtime p = engine)
                     (\<lambda>p. p\<lparr>p_extra_ids := Some (extras @ [name])\<rparr>) (c_profiles e)\<rparr>) cat, True))"

text \<open>The row's new state, the catalogue (a serving name may have been added), and whether
  the row changed.\<close>

definition set_state :: "catalog_entry list \<Rightarrow> string \<Rightarrow> model_row \<Rightarrow> model_status \<Rightarrow>
    catalog_entry option \<Rightarrow> catalog_entry list \<times> model_row \<times> bool" where
  "set_state cat engine row status entry =
     (let catalog_id = map_option c_id entry;
          transitioning = \<not> (m_status row = status \<and> m_catalog_id row = catalog_id);
          cat' = (case entry of
              None \<Rightarrow> cat
            | Some e \<Rightarrow> if m_name row \<in> set (target_ids e) then cat
                        else fst (ensure_serving_name cat e (m_name row) engine))
      in if \<not> transitioning then (cat', row, False)
         else (cat', row\<lparr>m_status := status, m_catalog_id := catalog_id\<rparr>, True))"

section \<open>Inventory reports\<close>

record inventory_item =
  it_name :: string
  it_sha256 :: "string option"
  it_size :: "int option"
  it_loaded :: bool
  it_runtime :: "string option"
  it_details :: "jdict option"
  it_files :: "artifact_ref list option"

definition files_payload :: "inventory_item \<Rightarrow> artifact_ref list option" where
  "files_payload it = (if truthy (it_files it) then it_files it else None)"

text \<open>\<open>by_engine.get(item.runtime) or default_rt\<close>: of two runtimes with one engine the
  later one is in the dictionary.\<close>

definition target_runtime :: "runtime_row list \<Rightarrow> inventory_item \<Rightarrow> runtime_row" where
  "target_runtime rts it =
     (case find (\<lambda>rt. Some (rt_engine rt) = it_runtime it) (rev rts) of
        Some rt \<Rightarrow> rt
      | None \<Rightarrow> hd rts)"

definition new_model_row :: "inventory_item \<Rightarrow> model_row" where
  "new_model_row it = \<lparr>m_name = it_name it, m_runtime_model_id = Some (it_name it),
     m_digest = it_sha256 it, m_catalog_id = None, m_status = Available,
     m_loaded = it_loaded it, m_details = it_details it, m_size_bytes = it_size it,
     m_files = files_payload it\<rparr>"

text \<open>The attribute updates of one reported item on its row.\<close>

definition refresh_row :: "inventory_item \<Rightarrow> model_row \<Rightarrow> model_row" where
  "refresh_row it row = row\<lparr>
     m_digest := (if truthy (it_sha256 it) then it_sha256 it else m_digest row),
     m_loaded := it_loaded it,
     m_details := (if truthy (it_details it) then it_details it else m_details row),
     m_size_bytes := (if it_size it \<noteq> None \<and> it_size it \<noteq> Some 0 then it_size it else m_size_bytes row),
     m_files := (case files_payload it of None \<Rightarrow> m_files row | Some fs \<Rightarrow> Some fs)\<rparr>"

definition upsert_model :: "model_row \<Rightarrow> model_row list \<Rightarrow> model_row list" where
  "upsert_model row rows =
     (if (\<exists>m \<in> set rows. m_name m = m_name row) then tbl_upd m_name (m_name row) (\<lambda>_. row) rows
      else rows @ [row])"

definition apply_item :: "string \<Rightarrow> inventory_item \<Rightarrow> catalog_entry list \<times> model_row list \<Rightarrow>
    catalog_entry list \<times> model_row list" where
  "apply_item engine it = (\<lambda>(cat, rows).
     let row = refresh_row it (case tbl_get m_name (it_name it) rows of
                   Some m \<Rightarrow> m | None \<Rightarrow> new_model_row it);
         (status, entry) = classify_entry cat (it_name it) (m_digest row);
         (cat', row', _) = set_state cat engine row status entry
     in (cat', upsert_model row' rows))"

text \<open>The loop over the items; each lands on its runtime's rows.\<close>

fun apply_items :: "inventory_item list \<Rightarrow> catalog_entry list \<Rightarrow> runtime_row list \<Rightarrow>
    catalog_entry list \<times> runtime_row list" where
  "apply_items [] cat rts = (cat, rts)"
| "apply_items (it # rest) cat rts =
     (let rt = target_runtime rts it;
          (cat', rows') = apply_item (rt_engine rt) it (cat, rt_models rt)
      in apply_items rest cat' (tbl_upd rt_id (rt_id rt) (\<lambda>r. r\<lparr>rt_models := rows'\<rparr>) rts))"

definition mark_missing :: "string list \<Rightarrow> (string \<times> string) list \<Rightarrow> runtime_row \<Rightarrow> runtime_row" where
  "mark_missing reported seen rt =
     (if rt_id rt \<notin> set reported then rt
      else rt\<lparr>rt_models := map (\<lambda>m.
          if (rt_id rt, m_name m) \<notin> set seen \<and> m_status m \<noteq> Missing
          then m\<lparr>m_status := Missing, m_catalog_id := None, m_loaded := False\<rparr> else m) (rt_models rt)\<rparr>)"

definition apply_inventory :: "catalog_entry list \<Rightarrow> worker \<Rightarrow> inventory_item list \<Rightarrow>
    catalog_entry list \<times> worker" where
  "apply_inventory cat w items =
     (if items = [] \<or> w_runtimes w = [] then (cat, w)
      else let reported = map (\<lambda>it. rt_id (target_runtime (w_runtimes w) it)) items;
               seen = map (\<lambda>it. (rt_id (target_runtime (w_runtimes w) it), it_name it)) items;
               (cat', rts') = apply_items items cat (w_runtimes w)
        in (cat', w\<lparr>w_runtimes := map (mark_missing reported seen) rts'\<rparr>))"

section \<open>Re-classification after an adoption\<close>

fun reclassify_rows :: "string \<Rightarrow> string \<Rightarrow> model_row list \<Rightarrow> catalog_entry list \<Rightarrow>
    catalog_entry list \<times> model_row list \<times> nat" where
  "reclassify_rows d engine [] cat = (cat, [], 0)"
| "reclassify_rows d engine (m # ms) cat =
     (if m_digest m \<in> sha_forms d then
        let (status, entry) = classify_entry cat (m_name m) (m_digest m);
            (cat1, m', changed) = set_state cat engine m status entry;
            (cat2, ms', n) = reclassify_rows d engine ms cat1
        in (cat2, m' # ms', if changed then Suc n else n)
      else let (cat2, ms', n) = reclassify_rows d engine ms cat in (cat2, m # ms', n))"

fun reclassify_runtimes :: "string \<Rightarrow> runtime_row list \<Rightarrow> catalog_entry list \<Rightarrow>
    catalog_entry list \<times> runtime_row list \<times> nat" where
  "reclassify_runtimes d [] cat = (cat, [], 0)"
| "reclassify_runtimes d (rt # rts) cat =
     (let (cat1, ms, n1) = reclassify_rows d (rt_engine rt) (rt_models rt) cat;
          (cat2, rts', n2) = reclassify_runtimes d rts cat1
      in (cat2, rt\<lparr>rt_models := ms\<rparr> # rts', n1 + n2))"

fun reclassify_workers :: "string \<Rightarrow> worker list \<Rightarrow> catalog_entry list \<Rightarrow>
    catalog_entry list \<times> worker list \<times> nat" where
  "reclassify_workers d [] cat = (cat, [], 0)"
| "reclassify_workers d (w # ws) cat =
     (let (cat1, rts, n1) = reclassify_runtimes d (w_runtimes w) cat;
          (cat2, ws', n2) = reclassify_workers d ws cat1
      in (cat2, w\<lparr>w_runtimes := rts\<rparr> # ws', n1 + n2))"

definition reclassify_hash :: "srv \<Rightarrow> string \<Rightarrow> srv \<times> nat" where
  "reclassify_hash db sha =
     (let d = (case bare_digest (Some sha) of None \<Rightarrow> ''None'' | Some x \<Rightarrow> x);
          (cat, ws, n) = reclassify_workers d (workers db) (catalog db)
      in (db\<lparr>catalog := cat, workers := ws\<rparr>, n))"

section \<open>Lemmas\<close>

lemma find_entry_by_hash_SomeD:
  assumes "find_entry_by_hash cat sha = Some e"
  shows "e \<in> set cat" "\<exists>d. bare_digest sha = Some d \<and> d \<noteq> [] \<and>
    (c_digest e \<in> sha_forms d \<or> (\<exists>f \<in> set (c_files e). ca_sha256 f \<in> sha_forms d))"
  using assms by (auto simp: find_entry_by_hash_def split: option.splits if_splits dest!: find_SomeD)

lemma set_state_row:
  "set_state cat engine row status entry = (cat', row', ch) \<Longrightarrow>
    row' = row\<lparr>m_status := status, m_catalog_id := map_option c_id entry\<rparr>"
  by (auto simp: set_state_def Let_def split: if_splits)

lemma set_state_changed:
  "set_state cat engine row status entry = (cat', row', ch) \<Longrightarrow> ch \<longleftrightarrow> row' \<noteq> row"
proof -
  assume h: "set_state cat engine row status entry = (cat', row', ch)"
  have "row\<lparr>m_status := status, m_catalog_id := c\<rparr> = row \<longleftrightarrow> m_status row = status \<and> m_catalog_id row = c" for c
    by (cases row) auto
  with h show ?thesis by (auto simp: set_state_def Let_def split: if_splits)
qed

lemma ensure_serving_name_ids:
  "map c_id (fst (ensure_serving_name cat e name engine)) = map c_id cat"
  by (simp add: ensure_serving_name_def Let_def split: option.splits)

lemma set_state_ids:
  "set_state cat engine row status entry = (cat', row', ch) \<Longrightarrow> map c_id cat' = map c_id cat"
  by (auto simp: set_state_def Let_def ensure_serving_name_ids split: if_splits option.splits)

lemma apply_item_spec:
  assumes "apply_item engine it (cat, rows) = (cat', rows')"
  shows "\<exists>row. rows' = upsert_model row rows \<and> m_name row = it_name it \<and> m_loaded row = it_loaded it \<and>
    (m_status row, m_catalog_id row) = classify cat (it_name it) (m_digest row) \<and>
    (truthy (it_sha256 it) \<longrightarrow> m_digest row = it_sha256 it)"
proof -
  let ?base = "case tbl_get m_name (it_name it) rows of Some m \<Rightarrow> m | None \<Rightarrow> new_model_row it"
  let ?row = "refresh_row it ?base"
  obtain status entry where c: "classify_entry cat (it_name it) (m_digest ?row) = (status, entry)"
    by fastforce
  obtain cat1 row1 ch where s: "set_state cat engine ?row status entry = (cat1, row1, ch)"
    using prod_cases3 by blast
  have name: "m_name ?row = it_name it"
    by (auto simp: refresh_row_def new_model_row_def split: option.splits dest: tbl_get_SomeD)
  have "rows' = upsert_model row1 rows" using assms c s by (simp add: apply_item_def Let_def)
  moreover note set_state_row [OF s]
  ultimately show ?thesis using name c by (auto simp: classify_def refresh_row_def)
qed

lemma tbl_upd_other_rows:
  "(\<And>r. key (f r) = key r) \<Longrightarrow> r \<in> set (tbl_upd key k f rows) \<Longrightarrow> key r \<noteq> k \<Longrightarrow> r \<in> set rows"
  by (auto simp: tbl_upd_def split: if_splits)

lemma tbl_upd_keeps_other:
  "r \<in> set rows \<Longrightarrow> key r \<noteq> k \<Longrightarrow> r \<in> set (tbl_upd key k f rows)"
  by (force simp: tbl_upd_def)

text \<open>Only models change: the runtimes keep their ids and engines, hence the targets.\<close>

definition runtime_frame :: "runtime_row list \<Rightarrow> runtime_row list \<Rightarrow> bool" where
  "runtime_frame rts rts' \<longleftrightarrow> map (\<lambda>r. r\<lparr>rt_models := []\<rparr>) rts = map (\<lambda>r. r\<lparr>rt_models := []\<rparr>) rts'"

lemma rt_models_upd_eq:
  "r\<lparr>rt_models := []\<rparr> = r'\<lparr>rt_models := []\<rparr> \<Longrightarrow> rt_engine r = rt_engine r' \<and> rt_id r = rt_id r'"
  by (cases r; cases r') simp

lemma runtime_frame_refl [simp]: "runtime_frame rts rts"
  by (simp add: runtime_frame_def)

lemma runtime_frame_trans: "runtime_frame a b \<Longrightarrow> runtime_frame b c \<Longrightarrow> runtime_frame a c"
  by (simp add: runtime_frame_def)

lemma runtime_frame_upd: "runtime_frame rts (tbl_upd rt_id i (\<lambda>r. r\<lparr>rt_models := f r\<rparr>) rts)"
  by (simp add: runtime_frame_def tbl_upd_def)

lemma find_engine_frame:
  assumes "map (\<lambda>r. r\<lparr>rt_models := []\<rparr>) rts = map (\<lambda>r. r\<lparr>rt_models := []\<rparr>) rts'"
  shows "map_option rt_id (find (\<lambda>rt. Some (rt_engine rt) = e) rts) =
         map_option rt_id (find (\<lambda>rt. Some (rt_engine rt) = e) rts')"
  using assms
proof (induction rts arbitrary: rts')
  case (Cons r rts)
  then obtain r' rest where r': "rts' = r' # rest" "r\<lparr>rt_models := []\<rparr> = r'\<lparr>rt_models := []\<rparr>"
    "map (\<lambda>r. r\<lparr>rt_models := []\<rparr>) rts = map (\<lambda>r. r\<lparr>rt_models := []\<rparr>) rest" by (cases rts') auto
  with rt_models_upd_eq [OF r'(2)] Cons.IH [OF r'(3)] show ?case by simp
qed simp

lemma target_runtime_frame:
  assumes "runtime_frame rts rts'" "rts \<noteq> []"
  shows "rt_id (target_runtime rts' it) = rt_id (target_runtime rts it)"
proof -
  from assms have "map (\<lambda>r. r\<lparr>rt_models := []\<rparr>) (rev rts) = map (\<lambda>r. r\<lparr>rt_models := []\<rparr>) (rev rts')"
    by (simp add: runtime_frame_def rev_map [symmetric])
  note find = find_engine_frame [OF this, of "it_runtime it"]
  from assms have "rts' \<noteq> []" "(hd rts)\<lparr>rt_models := []\<rparr> = (hd rts')\<lparr>rt_models := []\<rparr>"
    by (cases rts; cases rts'; simp add: runtime_frame_def)+
  then have hd: "rt_id (hd rts) = rt_id (hd rts')" by (auto dest: rt_models_upd_eq)
  show ?thesis using find hd by (auto simp: target_runtime_def split: option.splits)
qed

lemma apply_items_frame: "runtime_frame rts (snd (apply_items items cat rts))"
proof (induction items arbitrary: cat rts)
  case (Cons it items)
  obtain cat' rows' where
    ap: "apply_item (rt_engine (target_runtime rts it)) it (cat, rt_models (target_runtime rts it)) = (cat', rows')"
    by fastforce
  let ?rts' = "tbl_upd rt_id (rt_id (target_runtime rts it)) (\<lambda>r. r\<lparr>rt_models := rows'\<rparr>) rts"
  have "runtime_frame rts ?rts'" by (rule runtime_frame_upd)
  moreover have "runtime_frame ?rts' (snd (apply_items items cat' ?rts'))" by (rule Cons.IH)
  ultimately show ?case using ap by (auto simp: Let_def intro: runtime_frame_trans)
qed simp

lemma apply_items_untouched:
  assumes "rts \<noteq> []" "rt \<in> set rts" "\<forall>it \<in> set items. rt_id (target_runtime rts it) \<noteq> rt_id rt"
  shows "rt \<in> set (snd (apply_items items cat rts))"
  using assms
proof (induction items arbitrary: cat rts)
  case (Cons it items)
  obtain cat' rows' where
    ap: "apply_item (rt_engine (target_runtime rts it)) it (cat, rt_models (target_runtime rts it)) = (cat', rows')"
    by fastforce
  let ?rts' = "tbl_upd rt_id (rt_id (target_runtime rts it)) (\<lambda>r. r\<lparr>rt_models := rows'\<rparr>) rts"
  have fr: "runtime_frame rts ?rts'" by (rule runtime_frame_upd)
  have "rt \<in> set ?rts'" using Cons.prems by (intro tbl_upd_keeps_other) auto
  moreover have "?rts' \<noteq> []" using Cons.prems(1) by (simp add: tbl_upd_def)
  moreover have "\<forall>it \<in> set items. rt_id (target_runtime ?rts' it) \<noteq> rt_id rt"
    using Cons.prems(3) target_runtime_frame [OF fr Cons.prems(1)] by simp
  ultimately have "rt \<in> set (snd (apply_items items cat' ?rts'))" using Cons.IH by blast
  with ap show ?case by (simp add: Let_def)
qed simp

lemma mark_missing_id [simp]: "rt_id (mark_missing reported seen rt) = rt_id rt"
  by (simp add: mark_missing_def)

lemma mark_missing_unreported: "rt_id rt \<notin> set reported \<Longrightarrow> mark_missing reported seen rt = rt"
  by (simp add: mark_missing_def)

lemma mark_missing_rows:
  assumes "rt_id rt \<in> set reported" "m \<in> set (rt_models (mark_missing reported seen rt))"
    "(rt_id rt, m_name m) \<notin> set seen"
  shows "m_status m = Missing \<and> \<not> model_schedulable m"
  using assms by (auto simp: mark_missing_def model_schedulable_def split: if_splits)

text \<open>A re-classification touches nothing of a worker but its models.\<close>

lemma reclassify_workers_frame:
  "map (\<lambda>w. w\<lparr>w_runtimes := []\<rparr>) (fst (snd (reclassify_workers d ws cat))) = map (\<lambda>w. w\<lparr>w_runtimes := []\<rparr>) ws"
  by (induction ws arbitrary: cat) (auto simp: split_beta Let_def)

section \<open>Properties\<close>

text \<open>An entry that identifies a digest: its own digest or that of one of its files, bare or with the prefix.\<close>

definition identifies :: "string \<Rightarrow> catalog_entry \<Rightarrow> bool" where
  "identifies d e \<longleftrightarrow> c_digest e = Some d \<or> c_digest e = Some (''sha256:'' @ d) \<or>
     (\<exists>f \<in> set (c_files e). ca_sha256 f = Some d \<or> ca_sha256 f = Some (''sha256:'' @ d))"

definition known :: "catalog_entry list \<Rightarrow> string option \<Rightarrow> bool" where
  "known cat sha \<longleftrightarrow> (case bare_digest sha of None \<Rightarrow> False | Some d \<Rightarrow> d \<noteq> [] \<and> (\<exists>e \<in> set cat. identifies d e))"

lemma find_entry_by_hash_cases:
  "(case find_entry_by_hash cat sha of
      None \<Rightarrow> \<not> known cat sha
    | Some e \<Rightarrow> e \<in> set cat \<and> (\<exists>d. bare_digest sha = Some d \<and> d \<noteq> [] \<and> identifies d e \<and>
        ((\<exists>e' \<in> set cat. c_digest e' \<in> sha_forms d) \<longrightarrow> c_digest e \<in> sha_forms d)))"
  by (auto simp: find_entry_by_hash_def known_def identifies_def sha_forms_def find_None_iff split: option.split dest!: find_SomeD)

text \<open>C37: The four answers of the classification, each exactly when it is due. A reported digest that some
  entry identifies, by its own digest or by one of its files, makes the row available and links it to such an
  entry, to one with that very digest if there is any; nothing else links a row. Without such an entry a reported
  digest is unregistered when no entry answers to the name, drift when entries do and all of them are pinned, and
  available, unlinked, otherwise; so is a row with no digest.\<close>

theorem classify_by_hash:
  assumes "classify cat name sha = (st, cid)"
  shows "(cid \<noteq> None \<longleftrightarrow> truthy sha \<and> known cat sha) \<and>
    (\<forall>c d. cid = Some c \<longrightarrow> bare_digest sha = Some d \<longrightarrow> st = Available \<and> (\<exists>e \<in> set cat. c_id e = c \<and> identifies d e \<and>
      ((\<exists>e' \<in> set cat. c_digest e' \<in> {Some d, Some (''sha256:'' @ d)}) \<longrightarrow> c_digest e \<in> {Some d, Some (''sha256:'' @ d)}))) \<and>
    (st = Unregistered \<longleftrightarrow> truthy sha \<and> \<not> known cat sha \<and> (\<forall>e \<in> set cat. \<not> answers_to e name)) \<and>
    (st = Drift \<longleftrightarrow> truthy sha \<and> \<not> known cat sha \<and> (\<exists>e \<in> set cat. answers_to e name) \<and>
      (\<forall>e \<in> set cat. answers_to e name \<longrightarrow> truthy (bare_digest (c_digest e)))) \<and>
    (st = Available \<longleftrightarrow> st \<noteq> Unregistered \<and> st \<noteq> Drift)"
proof (cases "truthy sha \<and> find_entry_by_hash cat sha \<noteq> None")
  case True
  then obtain e where e: "find_entry_by_hash cat sha = Some e" "truthy sha" by auto
  then have "st = Available" "cid = Some (c_id e)" using assms by (auto simp: classify_def classify_entry_def)
  then show ?thesis using find_entry_by_hash_cases [of cat sha] e by (fastforce simp: known_def sha_forms_def)
next
  case False
  have "\<not> known cat sha" if "truthy sha"
    using find_entry_by_hash_cases [of cat sha] False that by (auto split: option.splits)
  then show ?thesis using assms False
    by (auto simp: classify_def classify_entry_def Let_def find_entries_by_name_def filter_empty_conv
        split: if_splits option.splits)
qed

theorem classify_by_hash_witness:
  "classify [sample_entry] ''m:4b'' (Some ''xyz'') = (Drift, None) \<and> answers_to sample_entry ''m:4b'' \<and>
   classify [sample_entry] ''other'' (Some ''sha256:abc'') = (Available, Some ''m-4b'')"
proof -
  have d: "classify [sample_entry] ''m:4b'' (Some ''xyz'') = (Drift, None)" by code_simp
  have a: "classify [sample_entry] ''other'' (Some ''sha256:abc'') = (Available, Some ''m-4b'')" by code_simp
  from classify_by_hash [OF d] d a show ?thesis by auto
qed

text \<open>A non-empty inventory report withdraws exactly what it leaves out: on a runtime that
  some item names, every model the report does not list becomes missing, hence not
  schedulable; a runtime that no item names keeps its row unchanged.\<close>

theorem inventory_marks_missing:
  assumes "apply_inventory cat w items = (cat', w')" "w_runtimes w \<noteq> []" "items \<noteq> []"
  shows "(\<forall>rt \<in> set (w_runtimes w). (\<forall>it \<in> set items. rt_id (target_runtime (w_runtimes w) it) \<noteq> rt_id rt)
      \<longrightarrow> rt \<in> set (w_runtimes w')) \<and>
    (\<forall>rt \<in> set (w_runtimes w'). \<forall>m \<in> set (rt_models rt).
      (\<exists>it \<in> set items. rt_id (target_runtime (w_runtimes w) it) = rt_id rt) \<and>
      (\<forall>it \<in> set items. rt_id (target_runtime (w_runtimes w) it) = rt_id rt \<longrightarrow> it_name it \<noteq> m_name m)
      \<longrightarrow> m_status m = Missing \<and> \<not> model_schedulable m)"
proof -
  let ?tgt = "\<lambda>it. rt_id (target_runtime (w_runtimes w) it)"
  let ?rts = "snd (apply_items items cat (w_runtimes w))"
  have w': "w_runtimes w' = map (mark_missing (map ?tgt items) (map (\<lambda>it. (?tgt it, it_name it)) items)) ?rts"
    using assms by (auto simp: apply_inventory_def Let_def split: prod.splits)
  show ?thesis
  proof (intro conjI ballI impI)
    fix rt assume rt: "rt \<in> set (w_runtimes w)" and no: "\<forall>it \<in> set items. ?tgt it \<noteq> rt_id rt"
    have mem: "rt \<in> set ?rts" by (rule apply_items_untouched [OF assms(2) rt no])
    have "rt_id rt \<notin> set (map ?tgt items)" using no by auto
    then have "rt = mark_missing (map ?tgt items) (map (\<lambda>it. (?tgt it, it_name it)) items) rt"
      by (rule mark_missing_unreported [symmetric])
    then show "rt \<in> set (w_runtimes w')" unfolding w' set_map using mem by (rule image_eqI)
  next
    fix rt m assume rt: "rt \<in> set (w_runtimes w')" and m: "m \<in> set (rt_models rt)"
      and h: "(\<exists>it \<in> set items. ?tgt it = rt_id rt) \<and> (\<forall>it \<in> set items. ?tgt it = rt_id rt \<longrightarrow> it_name it \<noteq> m_name m)"
    from rt obtain rt0 where rt0: "rt = mark_missing (map ?tgt items) (map (\<lambda>it. (?tgt it, it_name it)) items) rt0"
      unfolding w' by auto
    have "m_status m = Missing \<and> \<not> model_schedulable m"
      by (rule mark_missing_rows [OF _ m [unfolded rt0]]) (use h rt0 in \<open>force+\<close>)
    then show "m_status m = Missing" "\<not> model_schedulable m" by auto
  qed
qed

definition sample_item :: inventory_item where
  "sample_item = \<lparr>it_name = ''other'', it_sha256 = None, it_size = None, it_loaded = False,
     it_runtime = Some ''ollama'', it_details = None, it_files = None\<rparr>"

theorem inventory_marks_missing_witness:
  "\<exists>rt \<in> set (w_runtimes (snd (apply_inventory [sample_entry] sample_worker [sample_item]))).
     \<exists>m \<in> set (rt_models rt). m_name m = ''m:4b'' \<and> m_status m = Missing"
proof -
  let ?r = "apply_inventory [sample_entry] sample_worker [sample_item]"
  have ne: "w_runtimes sample_worker \<noteq> []" by code_simp
  have ex: "\<exists>rt \<in> set (w_runtimes (snd ?r)). \<exists>m \<in> set (rt_models rt). m_name m = ''m:4b'' \<and>
      rt_id (target_runtime (w_runtimes sample_worker) sample_item) = rt_id rt \<and> it_name sample_item \<noteq> m_name m"
    by code_simp
  have "?r = (fst ?r, snd ?r)" by simp
  from inventory_marks_missing [OF this ne] ex show ?thesis by fastforce
qed

end
