(* ===== verification/Sweeper.thy ===== *)
theory Sweeper
  imports Reconciliation
begin

text \<open>
  \<open>backend/sweeper.py\<close>: a batch whose execution failed goes back to the queue until its
  third attempt (\<open>requeue_or_fail_batch\<close>); workers whose heartbeats stopped are marked
  offline and their running batches reclaimed (\<open>sweep_stale_workers\<close>). The ingestion sweep
  is in \<open>Usage_Ingest\<close>. The clock is read once per call, as \<open>now\<close>.
\<close>

definition max_batch_attempts :: int where "max_batch_attempts = 3"
definition heartbeat_timeout_seconds :: seconds where "heartbeat_timeout_seconds = 120"

definition next_attempt :: "batch \<Rightarrow> int" where
  "next_attempt b = or0 (b_attempts b) + 1"

text \<open>The attribute updates of \<open>requeue_or_fail_batch\<close> on the batch row.\<close>

definition requeue_row :: "seconds \<Rightarrow> string option \<Rightarrow> batch \<Rightarrow> batch" where
  "requeue_row now err b =
     (let b1 = b\<lparr>b_attempts := Some (next_attempt b),
                 b_error_details := (if truthy err then Some (ErrText (take 2000 (the err)))
                                     else b_error_details b)\<rparr>
      in if next_attempt b \<ge> max_batch_attempts
         then b1\<lparr>b_status := Failed, b_completed_at := Some now,
                 b_failed := b_total b, b_completed := Some 0\<rparr>
         else b1\<lparr>b_status := Validated, b_completed := Some 0, b_failed := Some 0\<rparr>)"

definition requeue_or_fail_batch :: "seconds \<Rightarrow> batch \<Rightarrow> string option \<Rightarrow> srv \<Rightarrow> srv \<times> batch_status" where
  "requeue_or_fail_batch now b err db =
     ((upd_batch (b_id b) (requeue_row now err) db)
        \<lparr>assignments := tbl_del a_batch_id (b_id b) (assignments db)\<rparr>,
      b_status (requeue_row now err b))"

definition is_stale :: "seconds \<Rightarrow> worker \<Rightarrow> bool" where
  "is_stale now w \<longleftrightarrow> w_status w \<in> {Online, Draining} \<and>
     w_last_heartbeat w < now - heartbeat_timeout_seconds"

definition offline_error :: "string \<Rightarrow> string" where
  "offline_error wid = ''Worker '' @ wid @ '' went offline mid-job''"

fun reclaim :: "seconds \<Rightarrow> string \<Rightarrow> assignment list \<Rightarrow> srv \<Rightarrow> srv \<times> nat" where
  "reclaim now wid [] db = (db, 0)"
| "reclaim now wid (a # rest) db =
     (case get_batch_row db (a_batch_id a) of
        Some b \<Rightarrow>
          if b_status b = InProgress then
            let (db', n) = reclaim now wid rest
                  (fst (requeue_or_fail_batch now b (Some (offline_error wid)) db))
            in (db', Suc n)
          else reclaim now wid rest db
      | None \<Rightarrow> reclaim now wid rest db)"

definition sweep_worker :: "seconds \<Rightarrow> worker \<Rightarrow> srv \<Rightarrow> srv \<times> nat" where
  "sweep_worker now w db =
     (let db1 = upd_worker (w_id w) (\<lambda>w. w\<lparr>w_status := Offline\<rparr>) db
      in reclaim now (w_id w) (filter (\<lambda>a. a_worker_id a = w_id w) (assignments db1)) db1)"

fun sweep_workers :: "seconds \<Rightarrow> worker list \<Rightarrow> srv \<Rightarrow> srv \<times> nat" where
  "sweep_workers now [] db = (db, 0)"
| "sweep_workers now (w # ws) db =
     (let (db1, n1) = sweep_worker now w db; (db2, n2) = sweep_workers now ws db1
      in (db2, n1 + n2))"

definition sweep_stale_workers :: "seconds \<Rightarrow> srv \<Rightarrow> srv \<times> nat \<times> nat" where
  "sweep_stale_workers now db =
     (let stale = filter (is_stale now) (workers db);
          (db', requeued) = sweep_workers now stale db
      in (db', length stale, requeued))"

section \<open>Lemmas\<close>

lemma requeue_row_frame [simp]:
  "b_id (requeue_row now err b) = b_id b"
  "b_total (requeue_row now err b) = b_total b"
  "b_model (requeue_row now err b) = b_model b"
  "b_output_file_id (requeue_row now err b) = b_output_file_id b"
  "b_ingest_pending (requeue_row now err b) = b_ingest_pending b"
  by (simp_all add: requeue_row_def Let_def)

lemma requeue_row_status:
  "b_status (requeue_row now err b) = (if next_attempt b \<ge> max_batch_attempts then Failed else Validated)"
  by (simp add: requeue_row_def Let_def)

lemma requeue_row_attempts [simp]: "b_attempts (requeue_row now err b) = Some (next_attempt b)"
  by (simp add: requeue_row_def Let_def)

lemma requeue_batch_rows:
  "get_batch_row (fst (requeue_or_fail_batch now b err db)) j =
    (if j = b_id b then map_option (requeue_row now err) (get_batch_row db j) else get_batch_row db j)"
  by (simp add: requeue_or_fail_batch_def upd_batch_def batch_table.get_upd)

lemma requeue_assignments:
  "get_assignment (fst (requeue_or_fail_batch now b err db)) j =
    (if j = b_id b then None else get_assignment db j)"
  by (simp add: requeue_or_fail_batch_def upd_batch_def assignment_table.get_del)

lemma requeue_frame [simp]:
  "workers (fst (requeue_or_fail_batch now b err db)) = workers db"
  "catalog (fst (requeue_or_fail_batch now b err db)) = catalog db"
  "files (fst (requeue_or_fail_batch now b err db)) = files db"
  by (simp_all add: requeue_or_fail_batch_def)

lemma batch_row_id: "get_batch_row db i = Some b \<Longrightarrow> b_id b = i"
  by (rule batch_table.get_key)

text \<open>A batch row after a reclaim: reclaimed once if it was running and assigned, else
  untouched. A batch loses its \<open>InProgress\<close> status with the first reclaim, so a second
  assignment row for it would find nothing to do.\<close>

lemma reclaim_batch:
  "get_batch_row (fst (reclaim now wid as db)) j =
    (case get_batch_row db j of
       None \<Rightarrow> None
     | Some b \<Rightarrow> Some (if b_status b = InProgress \<and> j \<in> a_batch_id ` set as
                       then requeue_row now (Some (offline_error wid)) b else b))"
proof (induction as arbitrary: db)
  case Nil
  then show ?case by (simp split: option.split)
next
  case (Cons a as)
  show ?case
  proof (cases "get_batch_row db (a_batch_id a)")
    case None
    then show ?thesis by (auto simp: Cons.IH split: option.split)
  next
    case (Some b)
    then have id: "b_id b = a_batch_id a" by (rule batch_row_id)
    show ?thesis
    proof (cases "b_status b = InProgress")
      case True
      with Some id show ?thesis
        by (auto simp: Cons.IH requeue_batch_rows split_beta requeue_row_status split: option.split)
    next
      case False
      with Some show ?thesis by (auto simp: Cons.IH split: option.split)
    qed
  qed
qed

lemma reclaim_assignment:
  "get_assignment (fst (reclaim now wid as db)) j =
    (case get_batch_row db j of
       Some b \<Rightarrow> if b_status b = InProgress \<and> j \<in> a_batch_id ` set as then None else get_assignment db j
     | None \<Rightarrow> get_assignment db j)"
proof (induction as arbitrary: db)
  case Nil
  then show ?case by (simp split: option.split)
next
  case (Cons a as)
  show ?case
  proof (cases "get_batch_row db (a_batch_id a)")
    case None
    then show ?thesis by (auto simp: Cons.IH split: option.split)
  next
    case (Some b)
    then have id: "b_id b = a_batch_id a" by (rule batch_row_id)
    show ?thesis
    proof (cases "b_status b = InProgress")
      case True
      with Some id show ?thesis
        by (auto simp: Cons.IH requeue_batch_rows requeue_assignments split_beta requeue_row_status
            split: option.split)
    next
      case False
      with Some show ?thesis by (auto simp: Cons.IH split: option.split)
    qed
  qed
qed

lemma reclaim_workers [simp]: "workers (fst (reclaim now wid as db)) = workers db"
  by (induction as arbitrary: db) (auto simp: split_beta split: option.split)

lemma sweep_worker_workers:
  "workers (fst (sweep_worker now w db)) = tbl_upd w_id (w_id w) (\<lambda>w. w\<lparr>w_status := Offline\<rparr>) (workers db)"
  by (simp add: sweep_worker_def upd_worker_def)

text \<open>What one sweep does to a batch: nothing, or one reclaim on behalf of a stale worker.\<close>

definition assigned_to :: "srv \<Rightarrow> string \<Rightarrow> string \<Rightarrow> bool" where
  "assigned_to db j wid \<longleftrightarrow> (\<exists>a \<in> set (assignments db). a_batch_id a = j \<and> a_worker_id a = wid)"

lemma sweep_worker_batch:
  "get_batch_row (fst (sweep_worker now w db)) j =
    (case get_batch_row db j of
       None \<Rightarrow> None
     | Some b \<Rightarrow> Some (if b_status b = InProgress \<and> assigned_to db j (w_id w)
                       then requeue_row now (Some (offline_error (w_id w))) b else b))"
proof -
  have "j \<in> a_batch_id ` set (filter (\<lambda>a. a_worker_id a = w_id w) (assignments db)) \<longleftrightarrow> assigned_to db j (w_id w)"
    by (auto simp: assigned_to_def)
  then show ?thesis by (simp add: sweep_worker_def reclaim_batch upd_worker_def split: option.split)
qed

lemma sweep_worker_assignment:
  "get_assignment (fst (sweep_worker now w db)) j =
    (case get_batch_row db j of
       Some b \<Rightarrow> if b_status b = InProgress \<and> assigned_to db j (w_id w) then None else get_assignment db j
     | None \<Rightarrow> get_assignment db j)"
proof -
  have "j \<in> a_batch_id ` set (filter (\<lambda>a. a_worker_id a = w_id w) (assignments db)) \<longleftrightarrow> assigned_to db j (w_id w)"
    by (auto simp: assigned_to_def)
  then show ?thesis by (simp add: sweep_worker_def reclaim_assignment upd_worker_def split: option.split)
qed

lemma sweep_workers_rule:
  assumes "P db" and "\<And>w db. w \<in> set ws \<Longrightarrow> P db \<Longrightarrow> P (fst (sweep_worker now w db))"
  shows "P (fst (sweep_workers now ws db))"
  using assms
proof (induction ws arbitrary: db)
  case (Cons w ws)
  have "P (fst (sweep_worker now w db))" using Cons.prems by simp
  then have "P (fst (sweep_workers now ws (fst (sweep_worker now w db))))"
    using Cons.prems(2) by (intro Cons.IH) auto
  then show ?case by (simp add: split_beta)
qed simp

lemma sweep_stale_fst:
  "fst (sweep_stale_workers now db) = fst (sweep_workers now (filter (is_stale now) (workers db)) db)"
  by (simp add: sweep_stale_workers_def split_beta Let_def)

lemma sweep_workers_mono_status:
  "workers (fst (sweep_workers now ws db)) =
     map (\<lambda>w. if w_id w \<in> w_id ` set ws then w\<lparr>w_status := Offline\<rparr> else w) (workers db)"
proof (induction ws arbitrary: db)
  case (Cons w ws)
  have "workers (fst (sweep_workers now (w # ws) db)) =
      map (\<lambda>u. if w_id u \<in> w_id ` set ws then u\<lparr>w_status := Offline\<rparr> else u)
        (tbl_upd w_id (w_id w) (\<lambda>w. w\<lparr>w_status := Offline\<rparr>) (workers db))"
    using Cons.IH by (simp add: split_beta sweep_worker_workers)
  also have "\<dots> = map (\<lambda>u. if w_id u \<in> w_id ` set (w # ws) then u\<lparr>w_status := Offline\<rparr> else u) (workers db)"
    by (auto simp: tbl_upd_def)
  finally show ?case .
qed simp

subsection \<open>The whole sweep\<close>

definition one_assignment :: "srv \<Rightarrow> bool" where
  "one_assignment db \<longleftrightarrow> distinct (map a_batch_id (assignments db))"

lemma assigned_to_get:
  "one_assignment db \<Longrightarrow> assigned_to db j wid \<longleftrightarrow> (\<exists>a. get_assignment db j = Some a \<and> a_worker_id a = wid)"
  unfolding one_assignment_def assigned_to_def by (auto dest: tbl_get_distinct tbl_get_SomeD)

lemma reclaim_one: "one_assignment db \<Longrightarrow> one_assignment (fst (reclaim now wid as db))"
proof (induction as arbitrary: db)
  case (Cons a as)
  have "one_assignment (fst (requeue_or_fail_batch now b err db))" for b err
    using Cons.prems by (simp add: one_assignment_def requeue_or_fail_batch_def upd_batch_def tbl_del_def distinct_map_filter)
  with Cons show ?case by (auto simp: split_beta split: option.split)
qed simp

lemma sweep_worker_one: "one_assignment db \<Longrightarrow> one_assignment (fst (sweep_worker now w db))"
  unfolding sweep_worker_def Let_def by (rule reclaim_one) (simp add: one_assignment_def)

lemma sweep_workers_row:
  assumes "one_assignment db" "get_batch_row db j = Some b"
  shows "get_batch_row (fst (sweep_workers now ws db)) j = Some (case get_assignment db j of
      Some a \<Rightarrow> if b_status b = InProgress \<and> a_worker_id a \<in> w_id ` set ws
                then requeue_row now (Some (offline_error (a_worker_id a))) b else b
    | None \<Rightarrow> b)"
  using assms
proof (induction ws arbitrary: db b)
  case Nil
  then show ?case by (simp split: option.split)
next
  case (Cons w ws)
  let ?db = "fst (sweep_worker now w db)"
  have one: "one_assignment ?db" by (rule sweep_worker_one [OF Cons.prems(1)])
  show ?case
  proof (cases "b_status b = InProgress \<and> (\<exists>a. get_assignment db j = Some a \<and> a_worker_id a = w_id w)")
    case True
    then have hit: "assigned_to db j (w_id w)" using assigned_to_get [OF Cons.prems(1)] by blast
    have "get_batch_row ?db j = Some (requeue_row now (Some (offline_error (w_id w))) b)"
      "get_assignment ?db j = None"
      using True Cons.prems(2) hit by (auto simp: sweep_worker_batch sweep_worker_assignment)
    from Cons.IH [OF one this(1)] this(2) True show ?thesis by (auto simp: split_beta)
  next
    case False
    then have "get_batch_row ?db j = Some b" "get_assignment ?db j = get_assignment db j"
      using Cons.prems(2) assigned_to_get [OF Cons.prems(1)]
      by (auto simp: sweep_worker_batch sweep_worker_assignment)
    from Cons.IH [OF one this(1)] this(2) False show ?thesis by (auto simp: split_beta split: option.split)
  qed
qed

text \<open>A running batch whose worker is not stale is left alone.\<close>

lemma sweep_spares:
  "one_assignment db \<Longrightarrow> get_batch_row db j = Some b \<Longrightarrow> get_assignment db j = Some a \<Longrightarrow> a_worker_id a \<notin> w_id ` set ws \<Longrightarrow>
   get_batch_row (fst (sweep_workers now ws db)) j = Some b \<and> get_assignment (fst (sweep_workers now ws db)) j = Some a"
proof (induction ws arbitrary: db)
  case (Cons w ws)
  have "\<not> assigned_to db j (w_id w)" using assigned_to_get [OF Cons.prems(1)] Cons.prems(3,4) by auto
  then have "get_batch_row (fst (sweep_worker now w db)) j = Some b" "get_assignment (fst (sweep_worker now w db)) j = Some a"
    using Cons.prems(2,3) by (auto simp: sweep_worker_batch sweep_worker_assignment)
  then show ?case using Cons.IH [OF sweep_worker_one [OF Cons.prems(1)]] Cons.prems(4) by (simp add: split_beta)
qed simp

lemma sweep_running_row:
  assumes "distinct (map a_batch_id (assignments db))" "get_batch_row db j = Some b" "get_assignment db j = Some a"
    "\<forall>w \<in> set (workers db). w_id w = a_worker_id a \<longrightarrow> \<not> is_stale now w"
  shows "get_batch_row (fst (sweep_stale_workers now db)) j = Some b \<and>
    get_assignment (fst (sweep_stale_workers now db)) j = Some a"
proof -
  have "a_worker_id a \<notin> w_id ` set (filter (is_stale now) (workers db))" using assms(4) by auto
  then show ?thesis using sweep_spares [OF _ assms(2,3)] assms(1) by (simp add: one_assignment_def sweep_stale_fst)
qed

text \<open>C19: A sweep takes back exactly the running batches whose worker has missed its heartbeat
  for more than 120 seconds: each is requeued, or failed when it has used its last attempt, and
  every other batch row is unchanged; exactly the workers with a stale heartbeat that were not
  already offline become offline.\<close>

theorem sweep_outcome:
  assumes "distinct (map a_batch_id (assignments db))" "get_batch_row db j = Some b"
  shows "get_batch_row (fst (sweep_stale_workers now db)) j = Some (case get_assignment db j of
      Some a \<Rightarrow> if b_status b = InProgress \<and> (\<exists>w \<in> set (workers db). is_stale now w \<and> w_id w = a_worker_id a)
                then requeue_row now (Some (offline_error (a_worker_id a))) b else b
    | None \<Rightarrow> b) \<and>
    workers (fst (sweep_stale_workers now db)) = map (\<lambda>w.
      if \<exists>u \<in> set (workers db). is_stale now u \<and> w_id u = w_id w then w\<lparr>w_status := Offline\<rparr> else w) (workers db)"
proof -
  let ?stale = "filter (is_stale now) (workers db)"
  have mem: "k \<in> w_id ` set ?stale \<longleftrightarrow> (\<exists>w \<in> set (workers db). is_stale now w \<and> w_id w = k)" for k by auto
  have "one_assignment db" using assms(1) by (simp add: one_assignment_def)
  from sweep_workers_row [OF this assms(2), of now ?stale]
  have "get_batch_row (fst (sweep_stale_workers now db)) j = Some (case get_assignment db j of
      Some a \<Rightarrow> if b_status b = InProgress \<and> (\<exists>w \<in> set (workers db). is_stale now w \<and> w_id w = a_worker_id a)
                then requeue_row now (Some (offline_error (a_worker_id a))) b else b
    | None \<Rightarrow> b)"
    unfolding sweep_stale_fst mem .
  moreover have "workers (fst (sweep_stale_workers now db)) = map (\<lambda>w.
      if \<exists>u \<in> set (workers db). is_stale now u \<and> w_id u = w_id w then w\<lparr>w_status := Offline\<rparr> else w) (workers db)"
    unfolding sweep_stale_fst sweep_workers_mono_status mem ..
  ultimately show ?thesis ..
qed

theorem sweep_outcome_witness:
  "\<exists>b. get_batch_row (fst (sweep_stale_workers 1121 (sample_db InProgress))) ''b1'' = Some b \<and> b_status b = Validated"
proof -
  have d: "distinct (map a_batch_id (assignments (sample_db InProgress)))" by code_simp
  have g: "get_batch_row (sample_db InProgress) ''b1'' = Some (sample_batch InProgress)" by code_simp
  have a: "get_assignment (sample_db InProgress) ''b1'' = Some sample_assignment" by code_simp
  have s: "\<exists>w \<in> set (workers (sample_db InProgress)). is_stale 1121 w \<and> w_id w = a_worker_id sample_assignment" by code_simp
  have r: "b_status (sample_batch InProgress) = InProgress" "\<not> next_attempt (sample_batch InProgress) \<ge> max_batch_attempts"
    by code_simp+
  from sweep_outcome [OF d g, of 1121] a s r show ?thesis by (simp add: requeue_row_status)
qed

end
