(* ===== verification/Workers_Api.thy ===== *)
theory Workers_Api
  imports Sweeper
begin

text \<open>
  \<open>backend/routers/workers.py\<close>: the endpoints a daemon calls. Authentication has
  resolved the caller's key and organization (theory \<open>Auth\<close>), so a handler takes their
  ids. Every handler resolves the worker within that organization first. Identifiers made
  by \<open>uuid4\<close> are arguments; the file upload is its lines and size in bytes; scheduling
  a background task is part of the answer.
\<close>

section \<open>Batch transitions\<close>

fun valid_transitions :: "batch_status \<Rightarrow> batch_status list" where
  "valid_transitions Validating = [Validated, Failed]"
| "valid_transitions Validated = [InProgress]"
| "valid_transitions InProgress = [Completed, Failed, Validated]"
| "valid_transitions Completed = []"
| "valid_transitions Failed = []"

definition validate_transition :: "batch_status \<Rightarrow> batch_status \<Rightarrow> unit api" where
  "validate_transition current target = require (target \<in> set (valid_transitions current)) 409"

definition get_org_worker :: "srv \<Rightarrow> string \<Rightarrow> string \<Rightarrow> worker api" where
  "get_org_worker db oid wid = get_or 404 (find (\<lambda>w. w_id w = wid \<and> w_org_id w = oid) (workers db))"

definition get_assigned_batch :: "srv \<Rightarrow> string \<Rightarrow> string \<Rightarrow> batch api" where
  "get_assigned_batch db job_id wid =
     ebind (get_or 404 (get_batch_row db job_id)) (\<lambda>b.
     ebind (require (case get_assignment db job_id of
                       None \<Rightarrow> False | Some a \<Rightarrow> a_worker_id a = wid) 403) (\<lambda>_.
     Inr b))"

section \<open>Registration\<close>

record runtime_info =
  ri_type :: string
  ri_endpoint :: string
  ri_status :: string
  ri_models :: "string list"
  ri_inventory :: "inventory_item list"
  ri_capabilities :: "(string \<times> bool) list option"
  ri_version :: "string option"

record register_request =
  rr_hostname :: string
  rr_os :: "string option"
  rr_cpu_cores :: "int option"
  rr_ram_gb :: "gb option"
  rr_gpus :: "gpu_row list"
  rr_runtimes :: "runtime_info list"

definition register_model :: "catalog_entry list \<Rightarrow> inventory_item list \<Rightarrow> string \<Rightarrow> model_row" where
  "register_model cat inventory m =
     (let inv = find (\<lambda>i. it_name i = m) (rev inventory);
          sha = Option.bind inv it_sha256;
          (status, catalog_id) = classify cat m sha
      in \<lparr>m_name = m, m_runtime_model_id = Some m, m_digest = sha,
          m_catalog_id = catalog_id, m_status = status,
          m_loaded = (case inv of Some i \<Rightarrow> it_loaded i | None \<Rightarrow> False),
          m_details = Option.bind inv it_details,
          m_size_bytes = Option.bind inv it_size,
          m_files = Option.bind inv files_payload\<rparr>)"

definition register_runtime :: "catalog_entry list \<Rightarrow> (nat \<Rightarrow> string) \<Rightarrow> nat \<Rightarrow> runtime_info \<Rightarrow> runtime_row" where
  "register_runtime cat new_id position r =
     \<lparr>rt_id = new_id position, rt_engine = ri_type r, rt_base_url = ri_endpoint r,
      rt_capabilities = Some (case ri_capabilities r of None \<Rightarrow> [] | Some c \<Rightarrow> c),
      rt_version = ri_version r, rt_status = ri_status r, rt_empty_beats = Some 0,
      rt_position = position,
      rt_models = map (register_model cat (ri_inventory r))
        (fromkeys (ri_models r @ map it_name (ri_inventory r)))\<rparr>"

definition runtime_rows :: "catalog_entry list \<Rightarrow> (nat \<Rightarrow> string) \<Rightarrow> runtime_info list \<Rightarrow> runtime_row list" where
  "runtime_rows cat new_id rs = map (\<lambda>(i, r). register_runtime cat new_id i r) (enumerate 0 rs)"

definition register_worker :: "string \<Rightarrow> string \<Rightarrow> register_request \<Rightarrow> string \<Rightarrow> (nat \<Rightarrow> string) \<Rightarrow>
    seconds \<Rightarrow> srv \<Rightarrow> (string \<times> bool) \<times> srv" where
  "register_worker key_id oid req new_wid new_rid now db =
     (let rts = runtime_rows (catalog db) new_rid (rr_runtimes req) in
      case find (\<lambda>w. w_org_id w = oid \<and> w_hostname w = rr_hostname req) (workers db) of
        Some w \<Rightarrow> ((w_id w, False), upd_worker (w_id w) (\<lambda>w. w\<lparr>
            w_api_key_id := Some key_id, w_os := rr_os req, w_cpu_cores := rr_cpu_cores req,
            w_ram_total_gb := rr_ram_gb req, w_gpus := sort_key g_index (rr_gpus req), w_runtimes := rts,
            w_status := Online, w_last_heartbeat := now\<rparr>) db)
      | None \<Rightarrow> ((new_wid, True), db\<lparr>workers := tbl_add
            \<lparr>w_id = new_wid, w_org_id = oid, w_api_key_id = Some key_id,
             w_hostname = rr_hostname req, w_os = rr_os req, w_cpu_cores = rr_cpu_cores req,
             w_ram_total_gb = rr_ram_gb req, w_ram_available_gb = None, w_status = Online,
             w_activity = Idle, w_vram_total_gb = None, w_vram_available_gb = None,
             w_window_start = None, w_window_end = None, w_window_tz = None,
             w_max_batch_prompts = None, w_last_heartbeat = now, w_created_at = now,
             w_gpus = sort_key g_index (rr_gpus req), w_runtimes = rts\<rparr> (workers db)\<rparr>))"

section \<open>Heartbeat\<close>

record heartbeat_request =
  hb_activity :: activity
  hb_vram_total_gb :: gb
  hb_vram_available_gb :: "gb option"
  hb_ram_available_gb :: "gb option"
  hb_loaded_models :: "string list"
  hb_inventory :: "inventory_item list"
  hb_runtimes :: "(string \<times> string) list"

definition empty_beats_before_delisting :: int where "empty_beats_before_delisting = 2"

definition beat_worker :: "seconds \<Rightarrow> heartbeat_request \<Rightarrow> worker \<Rightarrow> worker" where
  "beat_worker now req w = w\<lparr>
     w_status := (if w_status w \<noteq> Draining then Online else Draining),
     w_activity := hb_activity req,
     w_last_heartbeat := now,
     w_vram_total_gb := Some (hb_vram_total_gb req),
     w_vram_available_gb := hb_vram_available_gb req,
     w_ram_available_gb := (case hb_ram_available_gb req of
         None \<Rightarrow> w_ram_available_gb w | Some r \<Rightarrow> Some r)\<rparr>"

text \<open>One reported runtime status; of two rows with one engine the later is in the
  dictionary \<open>by_engine\<close>.\<close>

definition set_liveness :: "string \<times> string \<Rightarrow> runtime_row list \<Rightarrow> runtime_row list" where
  "set_liveness report rts =
     (case find (\<lambda>rt. rt_engine rt = fst report) (rev rts) of
        None \<Rightarrow> rts
      | Some row \<Rightarrow> if rt_status row = ''draining'' then rts
          else tbl_upd rt_id (rt_id row) (\<lambda>r. r\<lparr>rt_status := snd report\<rparr>) rts)"

definition apply_liveness :: "(string \<times> string) list \<Rightarrow> runtime_row list \<Rightarrow> runtime_row list" where
  "apply_liveness reports rts = fold set_liveness reports rts"

definition map_models :: "(model_row \<Rightarrow> model_row) \<Rightarrow> runtime_row \<Rightarrow> runtime_row" where
  "map_models f rt = rt\<lparr>rt_models := map f (rt_models rt)\<rparr>"

definition flag_loaded :: "string list \<Rightarrow> runtime_row list \<Rightarrow> runtime_row list" where
  "flag_loaded reported rts = map (map_models (\<lambda>m. m\<lparr>m_loaded := (m_name m \<in> set reported)\<rparr>)) rts"

definition known_names :: "runtime_row list \<Rightarrow> string list" where
  "known_names rts = [m_name m. rt \<leftarrow> rts, m \<leftarrow> rt_models rt]"

text \<open>The row an unseen loaded model is attached to: on a mixed worker the runtime that the
  same beat's inventory tags it with, else the first.\<close>

definition loaded_target :: "inventory_item list \<Rightarrow> runtime_row list \<Rightarrow> string \<Rightarrow> runtime_row" where
  "loaded_target inventory rts name =
     (if length rts > 1 then
        (case find (\<lambda>i. it_name i = name \<and> truthy (it_runtime i)) (rev inventory) of
           None \<Rightarrow> hd rts
         | Some i \<Rightarrow> (case find (\<lambda>rt. Some (rt_engine rt) = it_runtime i) rts of
               None \<Rightarrow> hd rts | Some rt \<Rightarrow> rt))
      else hd rts)"

definition loaded_row :: "catalog_entry list \<Rightarrow> string \<Rightarrow> model_row" where
  "loaded_row cat name = (case classify cat name None of (status, catalog_id) \<Rightarrow>
     \<lparr>m_name = name, m_runtime_model_id = Some name, m_digest = None, m_catalog_id = catalog_id,
      m_status = status, m_loaded = True, m_details = None, m_size_bytes = None, m_files = None\<rparr>)"

text \<open>\<open>missing\<close> is a set in the code; here its names come in the order of the report.\<close>

definition add_unseen :: "catalog_entry list \<Rightarrow> heartbeat_request \<Rightarrow> runtime_row list \<Rightarrow> runtime_row list" where
  "add_unseen cat req rts =
     (let missing = filter (\<lambda>n. n \<notin> set (known_names rts)) (fromkeys (hb_loaded_models req)) in
      if missing = [] \<or> rts = [] then rts
      else fold (\<lambda>name rts. tbl_upd rt_id (rt_id (loaded_target (hb_inventory req) rts name))
                   (\<lambda>r. r\<lparr>rt_models := rt_models r @ [loaded_row cat name]\<rparr>) rts) missing rts)"

text \<open>Counting beats without inventory, runtime by runtime.\<close>

definition delist_runtime :: "(string \<times> string) list \<Rightarrow> inventory_item list \<Rightarrow> runtime_row \<Rightarrow> runtime_row" where
  "delist_runtime liveness inventory rt =
     (let reported_engines = [the (it_runtime i). i \<leftarrow> inventory, truthy (it_runtime i)] in
      if rt_engine rt \<notin> set (map fst liveness) \<or> reported_engines = [] then rt
      else if rt_engine rt \<in> set reported_engines then
        (if or0 (rt_empty_beats rt) \<noteq> 0 then rt\<lparr>rt_empty_beats := Some 0\<rparr> else rt)
      else let beats = or0 (rt_empty_beats rt) + 1;
               rt1 = rt\<lparr>rt_empty_beats := Some beats\<rparr>
        in if beats < empty_beats_before_delisting then rt1
           else map_models (\<lambda>m. if m_status m = Available then m\<lparr>m_status := Missing\<rparr> else m) rt1)"

definition heartbeat_update :: "seconds \<Rightarrow> heartbeat_request \<Rightarrow> catalog_entry list \<Rightarrow> worker \<Rightarrow>
    catalog_entry list \<times> worker" where
  "heartbeat_update now req cat w =
     (let rts1 = apply_liveness (hb_runtimes req) (w_runtimes w);
          rts2 = flag_loaded (hb_loaded_models req) rts1;
          rts3 = add_unseen cat req rts2;
          (cat', w') = apply_inventory cat ((beat_worker now req w)\<lparr>w_runtimes := rts3\<rparr>) (hb_inventory req)
      in (cat', w'\<lparr>w_runtimes := map (delist_runtime (hb_runtimes req) (hb_inventory req)) (w_runtimes w')\<rparr>))"

definition worker_heartbeat :: "string \<Rightarrow> string \<Rightarrow> heartbeat_request \<Rightarrow> seconds \<Rightarrow> srv \<Rightarrow>
    (string \<times> srv) api" where
  "worker_heartbeat oid wid req now db =
     ebind (get_org_worker db oid wid) (\<lambda>w.
       let (cat', w') = heartbeat_update now req (catalog db) w
       in Inr (wid, (upd_worker wid (\<lambda>_. w') db)\<lparr>catalog := cat'\<rparr>))"

section \<open>Polling and results\<close>

record job =
  j_job_id :: string
  j_input_file_id :: string
  j_input_path :: string
  j_model :: "string option"

definition available_batches :: "srv \<Rightarrow> batch list" where
  "available_batches db = sort_key b_created_at (filter (\<lambda>b. b_status b = Validated) (batches db))"

definition dispatch :: "string \<Rightarrow> seconds \<Rightarrow> worker \<Rightarrow> batch \<Rightarrow> srv \<Rightarrow> srv" where
  "dispatch oid now w b db = (upd_batch (b_id b) (\<lambda>b. b\<lparr>b_status := InProgress\<rparr>) db)
     \<lparr>assignments := tbl_add \<lparr>a_batch_id = b_id b, a_worker_id = w_id w, a_org_id = oid,
        a_hostname = Some (w_hostname w), a_assigned_at = now\<rparr> (assignments db)\<rparr>"

definition job_for :: "srv \<Rightarrow> worker \<Rightarrow> batch \<Rightarrow> job" where
  "job_for db w b = \<lparr>j_job_id = b_id b, j_input_file_id = b_input_file_id b,
     j_input_path = ''/v1/files/'' @ b_input_file_id b @ ''/content'',
     j_model = (case get_catalog_entry db (b_model b) of
         Some e \<Rightarrow> resolve_runtime_model_id (Some e) (advertised_models w)
       | None \<Rightarrow> b_model b)\<rparr>"

text \<open>A poll has two ends: what it reads and chooses, and the commit of the assignment and the status. Between them
  another request may commit: a second assignment row for a batch then violates the table's primary key, a 500. The
  status is written by the batch's id, whatever it is by then.\<close>

definition poll_pick :: "wall_clock \<Rightarrow> string \<Rightarrow> string \<Rightarrow> seconds \<Rightarrow> srv \<Rightarrow> (worker \<times> batch) option api" where
  "poll_pick wall oid wid now db =
     ebind (get_org_worker db oid wid) (\<lambda>w.
       if w_status w = Draining then Inr None
       else if available_batches db = [] then Inr None
       else (case find_best_batch wall now db w (available_batches db) of
           None \<Rightarrow> Inr None
         | Some b \<Rightarrow> ebind (validate_transition (b_status b) InProgress) (\<lambda>_. Inr (Some (w, b)))))"

definition poll_commit :: "string \<Rightarrow> seconds \<Rightarrow> worker \<Rightarrow> batch \<Rightarrow> srv \<Rightarrow> srv api" where
  "poll_commit oid now w b db =
     ebind (require (get_assignment db (b_id b) = None) 500) (\<lambda>_. Inr (dispatch oid now w b db))"

text \<open>The request with nothing in between.\<close>

definition poll_job :: "wall_clock \<Rightarrow> string \<Rightarrow> string \<Rightarrow> seconds \<Rightarrow> srv \<Rightarrow> (job option \<times> srv) api" where
  "poll_job wall oid wid now db = ebind (poll_pick wall oid wid now db) (\<lambda>pick. case pick of
       None \<Rightarrow> Inr (None, db)
     | Some (w, b) \<Rightarrow> ebind (poll_commit oid now w b db) (\<lambda>db'. Inr (Some (job_for db w b), db')))"

definition max_count :: "int option \<Rightarrow> int \<Rightarrow> int option" where
  "max_count old new = Some (max (or0 old) new)"

definition report_progress :: "string \<Rightarrow> string \<Rightarrow> string \<Rightarrow> int \<Rightarrow> int \<Rightarrow> srv \<Rightarrow> (string \<times> srv) api" where
  "report_progress oid wid job_id completed failed db =
     ebind (get_org_worker db oid wid) (\<lambda>_.
     ebind (get_assigned_batch db job_id wid) (\<lambda>b.
     Inr (b_id b, upd_batch (b_id b) (\<lambda>b. b\<lparr>
        b_completed := max_count (b_completed b) completed,
        b_failed := max_count (b_failed b) failed\<rparr>) db)))"

definition report_model_download :: "string \<Rightarrow> string \<Rightarrow> seconds \<Rightarrow> srv \<Rightarrow> (string \<times> srv) api" where
  "report_model_download oid wid now db =
     ebind (get_org_worker db oid wid) (\<lambda>w.
     Inr (wid, upd_worker (w_id w) (\<lambda>w. w\<lparr>w_last_heartbeat := now\<rparr>) db))"

record upload_answer =
  ua_batch_id :: string
  ua_output_file_id :: "string option"
  ua_task :: "(string \<times> string) option"   \<comment> \<open>the ingestion scheduled: batch id, path\<close>

definition output_path :: "string \<Rightarrow> string" where
  "output_path file_id = ''files/'' @ file_id @ ''.jsonl''"

definition replay_answer :: "srv \<Rightarrow> batch \<Rightarrow> upload_answer" where
  "replay_answer db b = \<lparr>ua_batch_id = b_id b, ua_output_file_id = b_output_file_id b,
     ua_task = (if b_ingest_pending b then
        (case find (\<lambda>f. Some (f_id f) = b_output_file_id b) (files db) of
           Some f \<Rightarrow> Some (b_id b, f_filepath f) | None \<Rightarrow> None)
      else None)\<rparr>"

definition complete_row :: "string \<Rightarrow> seconds \<Rightarrow> int option \<Rightarrow> int option \<Rightarrow> batch \<Rightarrow> batch" where
  "complete_row file_id now completed failed b = b\<lparr>
     b_output_file_id := Some file_id, b_status := Completed, b_completed_at := Some now,
     b_ingest_pending := True,
     b_completed := (case completed of None \<Rightarrow> b_completed b | Some c \<Rightarrow> Some c),
     b_failed := (case failed of None \<Rightarrow> b_failed b | Some c \<Rightarrow> Some c)\<rparr>"

definition store_upload :: "string \<Rightarrow> string list \<Rightarrow> int \<Rightarrow> seconds \<Rightarrow> batch \<Rightarrow> srv \<Rightarrow> srv" where
  "store_upload file_id content nbytes now b db = db\<lparr>
     files := tbl_add \<lparr>f_id = file_id, f_user_id = b_user_id b,
        f_filename = b_id b @ ''_output.jsonl'', f_purpose = ''batch_output'', f_bytes = nbytes,
        f_filepath = output_path file_id, f_created_at = now\<rparr> (files db),
     disk := (disk db)(output_path file_id \<mapsto> content)\<rparr>"

definition upload_results :: "string \<Rightarrow> string \<Rightarrow> string \<Rightarrow> string list \<Rightarrow> int \<Rightarrow> int option \<Rightarrow> int option \<Rightarrow>
    string \<Rightarrow> seconds \<Rightarrow> srv \<Rightarrow> (upload_answer \<times> srv) api" where
  "upload_results oid wid job_id content nbytes completed failed new_fid now db =
     ebind (get_org_worker db oid wid) (\<lambda>_.
     ebind (get_assigned_batch db job_id wid) (\<lambda>b.
       if b_status b = Completed then Inr (replay_answer db b, db)
       else ebind (validate_transition (b_status b) Completed) (\<lambda>_.
         Inr (\<lparr>ua_batch_id = b_id b, ua_output_file_id = Some new_fid,
               ua_task = Some (b_id b, output_path new_fid)\<rparr>,
              upd_batch (b_id b) (complete_row new_fid now completed failed)
                (store_upload new_fid content nbytes now b db)))))"

definition report_failure :: "string \<Rightarrow> string \<Rightarrow> string \<Rightarrow> string option \<Rightarrow> seconds \<Rightarrow> srv \<Rightarrow>
    ((batch_status \<times> int) \<times> srv) api" where
  "report_failure oid wid job_id err now db =
     ebind (get_org_worker db oid wid) (\<lambda>_.
     ebind (get_assigned_batch db job_id wid) (\<lambda>b.
       let target = (if next_attempt b \<ge> max_batch_attempts then Failed else Validated) in
       ebind (validate_transition (b_status b) target) (\<lambda>_.
         let (db', outcome) = requeue_or_fail_batch now b err db
         in Inr ((outcome, next_attempt b), db'))))"

section \<open>Lemmas\<close>

lemma get_org_worker_iff:
  "get_org_worker db oid wid = Inr w \<longleftrightarrow> find (\<lambda>w. w_id w = wid \<and> w_org_id w = oid) (workers db) = Some w"
  by (simp add: get_org_worker_def)

lemma get_assigned_batch_iff:
  "get_assigned_batch db jid wid = Inr b \<longleftrightarrow>
    get_batch_row db jid = Some b \<and> (\<exists>a. get_assignment db jid = Some a \<and> a_worker_id a = wid)"
  by (auto simp: get_assigned_batch_def split: option.splits)

lemma get_assigned_batch_refused:
  assumes "\<forall>a. get_assignment db jid = Some a \<longrightarrow> a_worker_id a \<noteq> wid"
  shows "\<exists>c \<in> {403, 404}. get_assigned_batch db jid wid = Inl (HTTP c)"
  using assms by (cases "get_batch_row db jid") (auto simp: get_assigned_batch_def split: option.split)

lemma apply_inventory_worker:
  "apply_inventory cat w items = (cat', w') \<Longrightarrow> w' = w\<lparr>w_runtimes := w_runtimes w'\<rparr>"
  by (auto simp: apply_inventory_def Let_def split: if_splits prod.splits)

lemma heartbeat_update_worker:
  assumes "heartbeat_update now req cat w = (cat', w')"
  shows "w_id w' = w_id w \<and> w_org_id w' = w_org_id w \<and> w_last_heartbeat w' = now \<and>
    w_status w' = (if w_status w = Draining then Draining else Online) \<and>
    w_activity w' = hb_activity req \<and> w_api_key_id w' = w_api_key_id w"
proof -
  let ?b = "(beat_worker now req w)\<lparr>w_runtimes := add_unseen cat req
      (flag_loaded (hb_loaded_models req) (apply_liveness (hb_runtimes req) (w_runtimes w)))\<rparr>"
  obtain cat1 w1 where i: "apply_inventory cat ?b (hb_inventory req) = (cat1, w1)" by fastforce
  obtain rts where "w1 = ?b\<lparr>w_runtimes := rts\<rparr>" using apply_inventory_worker [OF i] by blast
  moreover have "w' = w1\<lparr>w_runtimes := map (delist_runtime (hb_runtimes req) (hb_inventory req)) (w_runtimes w1)\<rparr>"
    using assms i by (simp add: heartbeat_update_def)
  ultimately show ?thesis by (simp add: beat_worker_def)
qed

lemma find_upd_row:
  assumes "find P rows = Some r" "\<And>x. P x \<Longrightarrow> key x = k" "P r'"
  shows "find P (tbl_upd key k (\<lambda>_. r') rows) = Some r'"
  using assms(1) unfolding tbl_upd_def by (induction rows) (auto simp: assms(2,3) split: if_splits)

text \<open>An undisturbed poll in one piece.\<close>

lemma poll_job_eq:
  "poll_job wall oid wid now db =
     ebind (get_org_worker db oid wid) (\<lambda>w.
       if w_status w = Draining then Inr (None, db)
       else if available_batches db = [] then Inr (None, db)
       else (case find_best_batch wall now db w (available_batches db) of
           None \<Rightarrow> Inr (None, db)
         | Some b \<Rightarrow>
             ebind (validate_transition (b_status b) InProgress) (\<lambda>_.
             ebind (require (get_assignment db (b_id b) = None) 500) (\<lambda>_.
             Inr (Some (job_for db w b), dispatch oid now w b db)))))"
  by (cases "get_org_worker db oid wid")
    (auto simp: poll_job_def poll_pick_def poll_commit_def require_def validate_transition_def split: option.split)

section \<open>Properties\<close>

text \<open>C9: A job handed to a worker is sound: the worker is the caller's and not draining; the batch
  is validated and the worker may serve it; the job's model name is one that the worker itself
  advertises for that artifact (same digest when both sides carry one), so it is never a name
  of a drifted copy; and the only changes are the batch's status and one assignment row.\<close>

theorem poll_dispatch_sound:
  assumes "poll_job wall oid wid now db = Inr (Some j, db')"
  shows "\<exists>w b e n d. w \<in> set (workers db) \<and> w_id w = wid \<and> w_org_id w = oid \<and> w_status w \<noteq> Draining \<and>
    b \<in> set (batches db) \<and> b_status b = Validated \<and> j_job_id j = b_id b \<and>
    get_catalog_entry db (b_model b) = Some e \<and>
    can_serve wall now e w (b_required_capabilities b) (b_total b) True \<and>
    j_model j = Some n \<and> (n, d) \<in> set (advertised_models w) \<and>
    (if truthy (bare_digest (c_digest e)) \<and> truthy (bare_digest d)
     then bare_digest d = bare_digest (c_digest e) else n \<in> set (target_ids e)) \<and>
    db' = dispatch oid now w b db"
proof -
  from assms obtain w b where w: "find (\<lambda>w. w_id w = wid \<and> w_org_id w = oid) (workers db) = Some w"
      "w_status w \<noteq> Draining"
    and b: "find_best_batch wall now db w (available_batches db) = Some b"
    and j: "j = job_for db w b" "db' = dispatch oid now w b db"
    by (auto simp: poll_job_eq get_org_worker_iff split: if_splits option.splits)
  from find_best_batch_SomeD [OF b] have mem: "b \<in> set (batches db)" "b_status b = Validated"
    and el: "eligible wall now db w b" by (auto simp: available_batches_def)
  from el obtain e where e: "get_catalog_entry db (b_model b) = Some e"
    and serve: "can_serve wall now e w (b_required_capabilities b) (b_total b) True"
    by (auto simp: eligible_def split: option.splits)
  from serve obtain rt where "hosting_runtime w (target_ids e) (c_digest e) = Some rt" by (rule can_serve_hosts)
  from hosting_runtime_SomeD [OF this] have "hosts (advertised_models w) (target_ids e) (c_digest e)"
    unfolding hosts_iff_matches by (blast intro: advertised_matches)
  from resolve_runtime_model_id_hosted [OF this] obtain n d where n: "j_model j = Some n"
      "(n, d) \<in> set (advertised_models w)" "artifact_matches (target_ids e) (c_digest e) (n, d)"
    using e j(1) by (auto simp: job_for_def)
  have id: "j_job_id j = b_id b" using j(1) by (simp add: job_for_def)
  note art = n(3) [unfolded artifact_matches_def prod.case]
  from find_SomeD [OF w(1)] w(2) mem e serve n(1,2) art id j(2) show ?thesis by blast
qed

theorem poll_dispatch_sound_witness:
  "\<exists>j db'. poll_job sample_wall ''o1'' ''w1'' 1000 (sample_db Validated) = Inr (Some j, db') \<and> j_job_id j = ''b1'' \<and>
     j_model j = Some ''m:4b''"
proof -
  let ?r = "poll_job sample_wall ''o1'' ''w1'' 1000 (sample_db Validated)"
  have "\<not> isl ?r" "fst (projr ?r) \<noteq> None" "j_model (the (fst (projr ?r))) = Some ''m:4b''" by code_simp+
  then obtain j db' where r: "?r = Inr (Some j, db')" and m: "j_model j = Some ''m:4b''" by (cases ?r) auto
  have one: "\<forall>b \<in> set (batches (sample_db Validated)). b_id b = ''b1''" by code_simp
  from poll_dispatch_sound [OF r] one r m show ?thesis by fastforce
qed

text \<open>A draining worker is left to drain: its heartbeat keeps the status, and the next poll,
  whatever is queued, answers no job and changes nothing.\<close>

theorem draining_gets_no_job:
  assumes "get_org_worker db oid wid = Inr w" "w_status w = Draining"
    "worker_heartbeat oid wid req now db = Inr (i, db')"
  shows "(\<exists>w'. get_org_worker db' oid wid = Inr w' \<and> w_status w' = Draining \<and> w_last_heartbeat w' = now) \<and>
    poll_job wall oid wid now' db' = Inr (None, db')"
proof -
  obtain cat' w' where h: "heartbeat_update now req (catalog db) w = (cat', w')" by fastforce
  from heartbeat_update_worker [OF h] find_SomeD [OF assms(1) [unfolded get_org_worker_iff]] assms(2)
  have w': "w_id w' = wid" "w_org_id w' = oid" "w_status w' = Draining" "w_last_heartbeat w' = now" by auto
  have "workers db' = tbl_upd w_id wid (\<lambda>_. w') (workers db)"
    using assms(1,3) h by (auto simp: worker_heartbeat_def upd_worker_def)
  then have "find (\<lambda>w. w_id w = wid \<and> w_org_id w = oid) (workers db') = Some w'"
    using find_upd_row [OF assms(1) [unfolded get_org_worker_iff], of w_id wid w'] w' by auto
  then have "get_org_worker db' oid wid = Inr w'" by (simp add: get_org_worker_iff)
  then show ?thesis using w' by (simp add: poll_job_eq)
qed

definition sample_beat :: heartbeat_request where
  "sample_beat = \<lparr>hb_activity = Idle, hb_vram_total_gb = 8, hb_vram_available_gb = None, hb_ram_available_gb = None,
     hb_loaded_models = [''m:4b''], hb_inventory = [], hb_runtimes = [(''ollama'', ''ready'')]\<rparr>"

definition draining_db :: srv where
  "draining_db = (sample_db Validated)\<lparr>workers := [sample_worker\<lparr>w_status := Draining\<rparr>]\<rparr>"

theorem draining_gets_no_job_witness:
  "\<exists>i db'. worker_heartbeat ''o1'' ''w1'' sample_beat 1030 draining_db = Inr (i, db') \<and>
     poll_job sample_wall ''o1'' ''w1'' 1040 db' = Inr (None, db')"
proof -
  let ?r = "worker_heartbeat ''o1'' ''w1'' sample_beat 1030 draining_db"
  have "\<not> isl ?r" by code_simp
  then obtain i db' where r: "?r = Inr (i, db')" by (cases ?r) auto
  have w: "get_org_worker draining_db ''o1'' ''w1'' = Inr (sample_worker\<lparr>w_status := Draining\<rparr>)" by code_simp
  from draining_gets_no_job [OF w _ r] r show ?thesis by auto
qed

text \<open>Only the worker that holds a batch's assignment can touch it: for any other caller the
  upload of results, the progress report and the failure report are all refused with 403 or
  404. So a worker whose batch the sweeper took back cannot complete it.\<close>

theorem results_need_assignment:
  assumes "\<forall>a. get_assignment db jid = Some a \<longrightarrow> a_worker_id a \<noteq> wid"
  shows "\<exists>c \<in> {403, 404}. upload_results oid wid jid content n nc nf fid now db = Inl (HTTP c) \<and>
    report_progress oid wid jid c1 c2 db = Inl (HTTP c) \<and> report_failure oid wid jid err now db = Inl (HTTP c)"
proof (cases "get_org_worker db oid wid")
  case (Inl e)
  then have "e = HTTP 404" by (auto simp: get_org_worker_def get_or_def split: option.splits)
  with Inl show ?thesis by (simp add: upload_results_def report_progress_def report_failure_def)
next
  case (Inr w)
  with get_assigned_batch_refused [OF assms] show ?thesis
    by (auto simp: upload_results_def report_progress_def report_failure_def)
qed

theorem results_need_assignment_witness:
  "\<exists>c. report_failure ''o1'' ''w1'' ''b1'' None 1000 (sample_db Validated) = Inl (HTTP c)"
proof -
  have "get_assignment (sample_db Validated) ''b1'' = None" by code_simp
  then have "\<forall>a. get_assignment (sample_db Validated) ''b1'' = Some a \<longrightarrow> a_worker_id a \<noteq> ''w1''" by simp
  from results_need_assignment [OF this] show ?thesis by blast
qed

text \<open>Uploading results is idempotent: after a successful upload, a repeated one (a retry after
  a lost answer), whatever it carries, is accepted, changes nothing and answers the same output
  file.\<close>

theorem upload_replay:
  assumes "upload_results oid wid jid content n nc nf fid now db = Inr (a, db1)"
  shows "\<exists>a2. upload_results oid wid jid content2 n2 nc2 nf2 fid2 now2 db1 = Inr (a2, db1) \<and>
    ua_output_file_id a2 = ua_output_file_id a \<and> ua_batch_id a2 = ua_batch_id a"
proof -
  from assms obtain w b where w: "get_org_worker db oid wid = Inr w" and b: "get_assigned_batch db jid wid = Inr b"
    by (auto simp: upload_results_def)
  show ?thesis
  proof (cases "b_status b = Completed")
    case True
    with assms w b show ?thesis by (auto simp: upload_results_def replay_answer_def)
  next
    case False
    from b have row: "get_batch_row db jid = Some b" and asg: "\<exists>x. get_assignment db jid = Some x \<and> a_worker_id x = wid"
      by (auto simp: get_assigned_batch_iff)
    have id: "b_id b = jid" by (rule batch_row_id [OF row])
    let ?b = "complete_row fid now nc nf b"
    from assms w b False have db1: "db1 = upd_batch jid (complete_row fid now nc nf) (store_upload fid content n now b db)"
      and a: "ua_output_file_id a = Some fid" "ua_batch_id a = jid" by (auto simp: upload_results_def id)
    have "get_batch_row db1 jid = Some ?b"
      unfolding db1 using row by (subst upd_batch_get) (simp_all add: complete_row_def store_upload_def)
    then have b1: "get_assigned_batch db1 jid wid = Inr ?b"
      using asg by (simp add: get_assigned_batch_iff db1 store_upload_def)
    have w1: "get_org_worker db1 oid wid = Inr w" using w by (simp add: db1 get_org_worker_def store_upload_def)
    have "b_status ?b = Completed" "b_output_file_id ?b = Some fid" "b_id ?b = jid"
      by (simp_all add: complete_row_def id)
    with w1 b1 a show ?thesis by (simp add: upload_results_def replay_answer_def)
  qed
qed

theorem upload_replay_witness:
  "\<exists>a db1. upload_results ''o1'' ''w1'' ''b1'' [''row''] 3 None None ''f2'' 1000 (sample_db InProgress) = Inr (a, db1) \<and>
    (\<exists>a2. upload_results ''o1'' ''w1'' ''b1'' [] 0 None None ''f3'' 1001 db1 = Inr (a2, db1) \<and>
      ua_output_file_id a2 = ua_output_file_id a)"
proof -
  let ?r = "upload_results ''o1'' ''w1'' ''b1'' [''row''] 3 None None ''f2'' 1000 (sample_db InProgress)"
  have "\<not> isl ?r" by code_simp
  then obtain a db1 where r: "?r = Inr (a, db1)" by (cases ?r) auto
  from upload_replay [OF r] r show ?thesis by blast
qed

text \<open>A failure report releases the batch: it counts one more attempt, requeues the batch or
  fails it at the third attempt with all its requests counted as failed, deletes its
  assignment, and touches no other batch.\<close>

theorem failure_releases:
  assumes "report_failure oid wid jid err now db = Inr ((st, n), db')"
  shows "\<exists>b b'. get_batch_row db jid = Some b \<and> get_batch_row db' jid = Some b' \<and>
    n = or0 (b_attempts b) + 1 \<and> b_attempts b' = Some n \<and> b_status b' = st \<and>
    st = (if n \<ge> 3 then Failed else Validated) \<and> b_failed b' = (if n \<ge> 3 then b_total b else Some 0) \<and>
    get_assignment db' jid = None \<and>
    (\<forall>k. k \<noteq> jid \<longrightarrow> get_batch_row db' k = get_batch_row db k \<and> get_assignment db' k = get_assignment db k)"
proof -
  from assms obtain b where gb: "get_assigned_batch db jid wid = Inr b" and n: "n = next_attempt b"
    and st: "st = b_status (requeue_row now err b)" and db': "db' = fst (requeue_or_fail_batch now b err db)"
    by (auto simp: report_failure_def Let_def requeue_or_fail_batch_def)
  have row: "get_batch_row db jid = Some b" using gb by (simp add: get_assigned_batch_iff)
  have id: "b_id b = jid" by (rule batch_row_id [OF row])
  have "get_batch_row db' jid = Some (requeue_row now err b)" using row by (simp add: db' requeue_batch_rows id)
  moreover have "get_assignment db' jid = None" by (simp add: db' requeue_assignments id)
  moreover have "b_failed (requeue_row now err b) = (if n \<ge> 3 then b_total b else Some 0)"
    by (simp add: requeue_row_def Let_def n max_batch_attempts_def)
  ultimately show ?thesis
    using row n st by (auto simp: requeue_row_status max_batch_attempts_def next_attempt_def db' requeue_batch_rows requeue_assignments id)
qed

theorem failure_releases_witness:
  "\<exists>st n db'. report_failure ''o1'' ''w1'' ''b1'' (Some ''oom'') 1000 (sample_db InProgress) = Inr ((st, n), db') \<and>
     get_assignment db' ''b1'' = None"
proof -
  let ?r = "report_failure ''o1'' ''w1'' ''b1'' (Some ''oom'') 1000 (sample_db InProgress)"
  have "\<not> isl ?r" by code_simp
  then obtain st n db' where r: "?r = Inr ((st, n), db')" by (cases ?r) auto
  from failure_releases [OF r] r show ?thesis by blast
qed

text \<open>A live runtime whose models vanish from a tagged inventory loses them only at the second
  consecutive beat: the first leaves its model rows as they are, the second leaves none of them
  available, and a beat that lists the runtime starts the count again.\<close>

theorem delisting_takes_two_beats:
  assumes "rt_engine rt \<in> set (map fst live)" "or0 (rt_empty_beats rt) = 0"
    "\<exists>it \<in> set gone. truthy (it_runtime it)" "\<forall>it \<in> set gone. it_runtime it \<noteq> Some (rt_engine rt)"
    "rt_engine rt \<noteq> []" "\<exists>it \<in> set again. it_runtime it = Some (rt_engine rt)"
  shows "rt_models (delist_runtime live gone rt) = rt_models rt \<and>
    (\<forall>m \<in> set (rt_models (delist_runtime live gone (delist_runtime live gone rt))). m_status m \<noteq> Available) \<and>
    or0 (rt_empty_beats (delist_runtime live again (delist_runtime live gone rt))) = 0"
proof -
  let ?tags = "\<lambda>gone. concat (map (\<lambda>i. if truthy (it_runtime i) then [the (it_runtime i)] else []) gone)"
  have some: "it_runtime x = Some (the (it_runtime x))" if "truthy (it_runtime x)" for x
    using that by (cases "it_runtime x") auto
  have tags: "?tags gone \<noteq> []" "rt_engine rt \<notin> set (?tags gone)"
  proof -
    show "?tags gone \<noteq> []" using assms(3) by auto
    show "rt_engine rt \<notin> set (?tags gone)"
    proof
      assume "rt_engine rt \<in> set (?tags gone)"
      then obtain x where "x \<in> set gone" "truthy (it_runtime x)" "the (it_runtime x) = rt_engine rt"
        by (auto split: if_splits)
      with some [of x] assms(4) show False by auto
    qed
  qed
  have tags': "rt_engine rt \<in> set (?tags again)" using assms(5,6) by force
  then have ne': "?tags again \<noteq> []" by (metis empty_iff empty_set)
  have first: "delist_runtime live gone rt = rt\<lparr>rt_empty_beats := Some 1\<rparr>"
    using assms(1,2) tags
    by (simp add: delist_runtime_def Let_def empty_beats_before_delisting_def del: concat_eq_Nil_conv set_concat)
  show ?thesis
    unfolding first using assms(1) tags tags' ne'
    by (auto simp: delist_runtime_def Let_def empty_beats_before_delisting_def map_models_def
        simp del: concat_eq_Nil_conv set_concat)
qed

theorem delisting_takes_two_beats_witness:
  "Available \<notin> m_status ` set (rt_models (delist_runtime [(''ollama'', ''ready'')] [sample_item\<lparr>it_runtime := Some ''vllm''\<rparr>]
      (delist_runtime [(''ollama'', ''ready'')] [sample_item\<lparr>it_runtime := Some ''vllm''\<rparr>] sample_runtime)))"
proof -
  note two_beats = delisting_takes_two_beats [of sample_runtime "[(''ollama'', ''ready'')]"
      "[sample_item\<lparr>it_runtime := Some ''vllm''\<rparr>]" "[sample_item]", THEN conjunct2, THEN conjunct1]
  show ?thesis using two_beats by (auto simp: sample_runtime_def sample_item_def)
qed

end
