(* ===== verification/Batch_Validator.thy ===== *)
theory Batch_Validator
  imports Workers_Api
begin

text \<open>
  \<open>backend/services/batch_validator.py\<close>: the checks an uploaded batch file goes through,
  phase by phase in the code's order, and the transaction that stores the verdict.
  \<open>json.loads\<close> is the parameter \<open>loads\<close>: a value, a \<open>JSONDecodeError\<close>, or another
  exception (an integer too long to convert, nesting too deep). The float arithmetic that
  turns a window in minutes into seconds is the parameter \<open>m2s\<close>. The human-readable text
  of an error is left out; its code, line and field are kept.
\<close>

section \<open>Constants and results\<close>

definition max_lines :: nat where "max_lines = 50000"
definition max_file_bytes :: int where "max_file_bytes = 100 * 1024 * 1024"
definition max_stored_errors :: nat where "max_stored_errors = 100"

definition supported_endpoints :: "string list" where
  "supported_endpoints = [''/v1/chat/completions'', ''/v1/completions'', ''/v1/embeddings'']"

definition capability_fields :: "(string \<times> string) list" where
  "capability_fields = [(''logprobs'', ''body.logprobs''), (''completions'', ''url''),
     (''prompt_scoring'', ''body.echo'')]"

definition allowed_top_level_keys :: "string list" where
  "allowed_top_level_keys = [''custom_id'', ''method'', ''url'', ''body'']"

definition verr :: "string \<Rightarrow> nat option \<Rightarrow> string option \<Rightarrow> verror" where
  "verr code line field = \<lparr>ve_code = code, ve_line = line, ve_field = field\<rparr>"

record vresult =
  vr_valid :: bool
  vr_model :: "string option"
  vr_caps :: "string list"
  vr_total :: nat
  vr_errors :: "verror list"
  vr_error_count :: nat

definition new_result :: vresult where
  "new_result = \<lparr>vr_valid = True, vr_model = None, vr_caps = [], vr_total = 0,
     vr_errors = [], vr_error_count = 0\<rparr>"

definition add_error :: "verror \<Rightarrow> vresult \<Rightarrow> vresult" where
  "add_error err r = r\<lparr>vr_valid := False, vr_error_count := Suc (vr_error_count r),
     vr_errors := (if length (vr_errors r) < max_stored_errors then vr_errors r @ [err]
                   else vr_errors r)\<rparr>"

definition add_errors :: "verror list \<Rightarrow> vresult \<Rightarrow> vresult" where
  "add_errors errs r = fold add_error errs r"

definition stored_errors :: "vresult \<Rightarrow> verror list" where
  "stored_errors r = take max_stored_errors (vr_errors r)"

text \<open>Phase 1; the size is None when the path does not exist.\<close>

definition file_preconditions :: "int option \<Rightarrow> vresult" where
  "file_preconditions fsize = (case fsize of
       None \<Rightarrow> add_error (verr ''file_not_found'' None None) new_result
     | Some n \<Rightarrow> if n > max_file_bytes then add_error (verr ''file_too_large'' None None) new_result
                 else new_result)"

section \<open>Lines\<close>

datatype loads_result = Loaded json | DecodeError | LoadsRaises py_exn

type_synonym loads = "string \<Rightarrow> loads_result"

definition parse_line :: "loads \<Rightarrow> nat \<Rightarrow> string \<Rightarrow> py_exn + verror + jdict" where
  "parse_line loads i raw = (case loads raw of
       LoadsRaises e \<Rightarrow> Inl e
     | DecodeError \<Rightarrow> Inr (Inl (verr ''invalid_json'' (Some i) None))
     | Loaded v \<Rightarrow> Inr (case v of
         JObj d \<Rightarrow> Inr d
       | _ \<Rightarrow> Inl (verr ''not_object'' (Some i) None)))"

section \<open>Schema\<close>

definition nonempty_str :: "json \<Rightarrow> bool" where
  "nonempty_str v = (case v of JStr s \<Rightarrow> s \<noteq> [] | _ \<Rightarrow> False)"

definition validate_no_extra_keys :: "jdict \<Rightarrow> nat \<Rightarrow> verror list" where
  "validate_no_extra_keys entry i =
     (if set (map fst entry) - set allowed_top_level_keys \<noteq> {}
      then [verr ''unknown_fields'' (Some i) None] else [])"

definition validate_custom_id :: "jdict \<Rightarrow> nat \<Rightarrow> verror list" where
  "validate_custom_id entry i =
     (if \<not> nonempty_str (jget ''custom_id'' entry)
      then [verr ''missing_field'' (Some i) (Some ''custom_id'')] else [])"

definition validate_method :: "jdict \<Rightarrow> nat \<Rightarrow> verror list" where
  "validate_method entry i =
     (let v = jget ''method'' entry in
      if \<not> nonempty_str v then [verr ''missing_field'' (Some i) (Some ''method'')]
      else if v \<noteq> JStr ''POST'' then [verr ''invalid_method'' (Some i) (Some ''method'')]
      else [])"

definition validate_url :: "jdict \<Rightarrow> nat \<Rightarrow> verror list" where
  "validate_url entry i =
     (let v = jget ''url'' entry in
      if \<not> nonempty_str v then [verr ''missing_field'' (Some i) (Some ''url'')]
      else if v \<notin> JStr ` set supported_endpoints
        then [verr ''unsupported_endpoint'' (Some i) (Some ''url'')]
      else [])"

definition validate_body :: "jdict \<Rightarrow> nat \<Rightarrow> verror list" where
  "validate_body entry i = (case jget ''body'' entry of
       JObj body \<Rightarrow> if \<not> jhas ''model'' body
                    then [verr ''missing_field'' (Some i) (Some ''body.model'')] else []
     | _ \<Rightarrow> [verr ''missing_field'' (Some i) (Some ''body'')])"

definition validate_model_type :: "jdict \<Rightarrow> nat \<Rightarrow> verror list" where
  "validate_model_type entry i = (case jget ''body'' entry of
       JObj body \<Rightarrow> (case jget ''model'' body of
           JNull \<Rightarrow> []
         | JStr _ \<Rightarrow> []
         | _ \<Rightarrow> [verr ''invalid_type'' (Some i) (Some ''body.model'')])
     | _ \<Rightarrow> [])"

definition schema_validators :: "(jdict \<Rightarrow> nat \<Rightarrow> verror list) list" where
  "schema_validators = [validate_no_extra_keys, validate_custom_id, validate_method,
     validate_url, validate_body, validate_model_type]"

definition validate_schema :: "jdict \<Rightarrow> nat \<Rightarrow> verror list" where
  "validate_schema entry i = concat (map (\<lambda>v. v entry i) schema_validators)"

section \<open>Endpoint bodies\<close>

text \<open>\<open>isinstance(v, int)\<close> holds of booleans too; \<open>small_int\<close> is
  \<open>isinstance(v, int) and not isinstance(v, bool) and 0 <= v <= 20\<close>.\<close>

definition small_int :: "json \<Rightarrow> bool" where
  "small_int v = (case v of JInt n \<Rightarrow> 0 \<le> n \<and> n \<le> 20 | _ \<Rightarrow> False)"

definition is_jbool :: "json \<Rightarrow> bool" where
  "is_jbool v = (case v of JBool _ \<Rightarrow> True | _ \<Rightarrow> False)"

definition validate_logprob_fields :: "jdict \<Rightarrow> nat \<Rightarrow> bool \<Rightarrow> verror list" where
  "validate_logprob_fields body i chat =
     (let lp = jget ''logprobs'' body; top = jget ''top_logprobs'' body; echo = jget ''echo'' body in
      (if lp \<noteq> JNull \<and> chat \<and> \<not> is_jbool lp
       then [verr ''invalid_type'' (Some i) (Some ''body.logprobs'')] else [])
      @ (if lp \<noteq> JNull \<and> \<not> chat \<and> \<not> (is_jbool lp \<or> small_int lp)
         then [verr ''invalid_type'' (Some i) (Some ''body.logprobs'')] else [])
      @ (if top \<noteq> JNull \<and> \<not> small_int top
         then [verr ''invalid_type'' (Some i) (Some ''body.top_logprobs'')] else [])
      @ (if \<not> chat \<and> echo \<noteq> JNull \<and> \<not> is_jbool echo
         then [verr ''invalid_type'' (Some i) (Some ''body.echo'')] else []))"

definition message_field :: "nat \<Rightarrow> string \<Rightarrow> string" where
  "message_field k sub = ''body.messages['' @ str_of_nat k @ '']'' @ sub"

definition validate_message :: "nat \<Rightarrow> nat \<Rightarrow> json \<Rightarrow> verror list" where
  "validate_message i k msg = (case msg of
       JObj m \<Rightarrow>
         (if \<not> nonempty_str (jget ''role'' m)
          then [verr ''missing_field'' (Some i) (Some (message_field k ''.role''))] else [])
         @ (case jget ''content'' m of
              JStr _ \<Rightarrow> []
            | _ \<Rightarrow> [verr ''missing_field'' (Some i) (Some (message_field k ''.content''))])
     | _ \<Rightarrow> [verr ''invalid_type'' (Some i) (Some (message_field k []))])"

definition validate_chat_body :: "jdict \<Rightarrow> nat \<Rightarrow> verror list" where
  "validate_chat_body body i =
     (case jget ''messages'' body of
        JArr (m # ms) \<Rightarrow> concat (map (\<lambda>(k, msg). validate_message i k msg) (enumerate 0 (m # ms)))
      | _ \<Rightarrow> [verr ''invalid_type'' (Some i) (Some ''body.messages'')])
     @ (if jhas ''echo'' body then [verr ''unsupported_parameter'' (Some i) (Some ''body.echo'')] else [])
     @ validate_logprob_fields body i True"

definition prompt_ok :: "json \<Rightarrow> bool" where
  "prompt_ok v = (case v of
       JStr s \<Rightarrow> s \<noteq> []
     | JArr ps \<Rightarrow> ps \<noteq> [] \<and> (\<forall>p \<in> set ps. jstr p \<noteq> None)
     | _ \<Rightarrow> False)"

definition validate_completions_body :: "jdict \<Rightarrow> nat \<Rightarrow> verror list" where
  "validate_completions_body body i =
     (if \<not> prompt_ok (jget ''prompt'' body)
      then [verr ''invalid_type'' (Some i) (Some ''body.prompt'')] else [])
     @ validate_logprob_fields body i False"

definition wanted_capabilities :: "json \<Rightarrow> jdict \<Rightarrow> string list" where
  "wanted_capabilities url body =
     (let top_wanted = (case jget ''top_logprobs'' body of JInt n \<Rightarrow> n > 0 | _ \<Rightarrow> False) in
      (if jtruthy (jget ''logprobs'' body) \<or> top_wanted then [''logprobs''] else [])
      @ (if url = JStr ''/v1/completions''
         then ''completions'' # (if jtruthy (jget ''echo'' body) then [''prompt_scoring''] else [])
         else []))"

definition validate_endpoint_specific :: "jdict \<Rightarrow> nat \<Rightarrow> verror list" where
  "validate_endpoint_specific entry i = (case jget ''body'' entry of
       JObj body \<Rightarrow>
         (if jget ''url'' entry = JStr ''/v1/chat/completions'' then validate_chat_body body i
          else if jget ''url'' entry = JStr ''/v1/completions'' then validate_completions_body body i
          else [])
     | _ \<Rightarrow> [])"

section \<open>Cross-line checks\<close>

record cross =
  cx_seen :: "string list"
  cx_first_model :: "string option"
  cx_n_rows :: "(nat \<times> json) list"
  cx_caps :: "(string \<times> nat) list"

definition new_cross :: cross where
  "new_cross = \<lparr>cx_seen = [], cx_first_model = None, cx_n_rows = [], cx_caps = []\<rparr>"

definition note_capabilities :: "nat \<Rightarrow> json \<Rightarrow> jdict \<Rightarrow> cross \<Rightarrow> cross" where
  "note_capabilities i url body cx =
     (if jstr url = None then cx
      else cx\<lparr>cx_caps := fold (\<lambda>cap. dict_setdefault cap i) (wanted_capabilities url body) (cx_caps cx)\<rparr>)"

definition check_custom_id :: "nat \<Rightarrow> json \<Rightarrow> cross \<Rightarrow> verror list \<times> cross" where
  "check_custom_id i custom_id cx = (case jstr custom_id of
       None \<Rightarrow> ([], cx)
     | Some s \<Rightarrow>
         if s = [] then ([], cx)
         else if s \<in> set (cx_seen cx) then ([verr ''duplicate_custom_id'' (Some i) (Some ''custom_id'')], cx)
         else ([], cx\<lparr>cx_seen := s # cx_seen cx\<rparr>))"

definition check_model_consistency :: "nat \<Rightarrow> string \<Rightarrow> cross \<Rightarrow> verror list \<times> cross" where
  "check_model_consistency i model cx = (case cx_first_model cx of
       None \<Rightarrow> ([], cx\<lparr>cx_first_model := Some model\<rparr>)
     | Some m \<Rightarrow> if model \<noteq> m then ([verr ''model_mismatch'' (Some i) (Some ''body.model'')], cx)
                 else ([], cx))"

text \<open>\<open>n is not None and n != 1\<close>; True and 1.0 equal 1.\<close>

definition n_not_one :: "json \<Rightarrow> bool" where
  "n_not_one v = (case v of
       JNull \<Rightarrow> False | JInt n \<Rightarrow> n \<noteq> 1 | JBool b \<Rightarrow> \<not> b | JFloat r \<Rightarrow> r \<noteq> 1 | _ \<Rightarrow> True)"

section \<open>The file loop\<close>

text \<open>The local variable \<open>model\<close> of the loop survives an iteration and is unbound until
  the first non-empty object has been read.\<close>

record vstate =
  vs_result :: vresult
  vs_cross :: cross
  vs_model :: "json option"

definition cross_line :: "nat \<Rightarrow> jdict \<Rightarrow> vstate \<Rightarrow> vstate" where
  "cross_line i entry st =
     (let body = jget ''body'' entry;
          model = (case body of JObj b \<Rightarrow> jget ''model'' b | _ \<Rightarrow> JNull);
          (cid_errors, cx1) = check_custom_id i (jget ''custom_id'' entry) (vs_cross st);
          (model_errors, cx2) = (case model of
              JStr m \<Rightarrow> if m \<noteq> [] then check_model_consistency i m cx1 else ([], cx1)
            | _ \<Rightarrow> ([], cx1));
          cx3 = (case body of
              JObj b \<Rightarrow> note_capabilities i (jget ''url'' entry) b
                (if n_not_one (jget ''n'' b) then cx2\<lparr>cx_n_rows := cx_n_rows cx2 @ [(i, jget ''n'' b)]\<rparr> else cx2)
            | _ \<Rightarrow> cx2)
      in st\<lparr>vs_result := add_errors model_errors (add_errors cid_errors (vs_result st)),
            vs_cross := cx3, vs_model := Some model\<rparr>)"

definition track_model :: "vstate \<Rightarrow> py_exn + vstate" where
  "track_model st =
     (if vr_model (vs_result st) \<noteq> None then Inr st
      else (case vs_model st of
          None \<Rightarrow> Inl UnboundLocalError
        | Some (JStr m) \<Rightarrow> Inr (if m \<noteq> [] then st\<lparr>vs_result := (vs_result st)\<lparr>vr_model := Some m\<rparr>\<rparr> else st)
        | Some _ \<Rightarrow> Inr st))"

definition validate_entry :: "nat \<Rightarrow> jdict \<Rightarrow> vstate \<Rightarrow> py_exn + vstate" where
  "validate_entry i entry st =
     (let errors = validate_schema entry i;
          ep_errors = (if errors = [] then validate_endpoint_specific entry i else []);
          st1 = st\<lparr>vs_result := add_errors ep_errors (add_errors errors (vs_result st))\<rparr>;
          st2 = (if entry \<noteq> [] then cross_line i entry st1 else st1)
      in track_model st2)"

fun validate_lines :: "loads \<Rightarrow> nat \<Rightarrow> string list \<Rightarrow> vstate \<Rightarrow> py_exn + vstate" where
  "validate_lines loads i [] st = Inr st"
| "validate_lines loads i (line # rest) st =
     (let stripped = strip line in
      if stripped = [] then validate_lines loads (Suc i) rest st
      else let r = vs_result st; r1 = r\<lparr>vr_total := Suc (vr_total r)\<rparr> in
        if vr_total r1 > max_lines then
          Inr (st\<lparr>vs_result := add_error (verr ''too_many_requests'' (Some i) None) r1\<rparr>)
        else ebind (parse_line loads i stripped) (\<lambda>parsed. case parsed of
            Inl err \<Rightarrow> validate_lines loads (Suc i) rest (st\<lparr>vs_result := add_error err r1\<rparr>)
          | Inr entry \<Rightarrow> ebind (validate_entry i entry (st\<lparr>vs_result := r1\<rparr>))
              (validate_lines loads (Suc i) rest)))"

section \<open>Catalogue gates\<close>

definition online_hosts :: "wall_clock \<Rightarrow> seconds \<Rightarrow> srv \<Rightarrow> catalog_entry \<Rightarrow> worker list" where
  "online_hosts wall now db e =
     filter (\<lambda>w. w_status w = Online \<and> w_last_heartbeat w \<ge> now - heartbeat_timeout_seconds
                 \<and> can_serve wall now e w None None False) (workers db)"

definition capability_gate :: "wall_clock \<Rightarrow> seconds \<Rightarrow> srv \<Rightarrow> catalog_entry \<Rightarrow> (string \<times> nat) list \<Rightarrow>
    vresult \<Rightarrow> vresult" where
  "capability_gate wall now db e caps r =
     (let needs = map fst caps in
      if vr_valid r \<and> needs \<noteq> [] then
        let hs = online_hosts wall now db e in
        if hs \<noteq> [] \<and> \<not> (\<exists>w \<in> set hs. can_serve wall now e w (Some needs) None False) then
          let missing = filter (\<lambda>c. \<not> (\<exists>w \<in> set hs. can_serve wall now e w (Some [c]) None False)) needs;
              first = hd (if missing \<noteq> [] then missing else needs)
          in add_error (verr ''unsupported_capability'' (map_of caps first)
               (map_of capability_fields first)) r
        else r
      else r)"

definition size_gate :: "wall_clock \<Rightarrow> seconds \<Rightarrow> srv \<Rightarrow> catalog_entry \<Rightarrow> string list \<Rightarrow>
    vresult \<Rightarrow> vresult" where
  "size_gate wall now db e needs r =
     (if vr_valid r then
        let capable = filter (\<lambda>w. can_serve wall now e w (Some needs) None False)
                        (online_hosts wall now db e);
            limits = map w_max_batch_prompts capable
        in if capable \<noteq> [] \<and> None \<notin> set limits
              \<and> int (vr_total r) > Max (the ` set limits)
           then add_error (verr ''batch_too_large'' None None) r else r
      else r)"

definition model_gates :: "wall_clock \<Rightarrow> seconds \<Rightarrow> srv \<Rightarrow> cross \<Rightarrow> vresult \<Rightarrow> vresult" where
  "model_gates wall now db cx r =
     (if vr_valid r \<and> truthy (vr_model r) then
        (case get_catalog_entry db (vr_model r) of
           None \<Rightarrow> add_error (verr ''unsupported_model'' None (Some ''body.model'')) r
         | Some e \<Rightarrow>
             let needs = map fst (cx_caps cx);
                 r1 = (if c_runtime e = ''ollama'' \<and> cx_n_rows cx \<noteq> []
                       then add_error (verr ''unsupported_parameter'' None (Some ''body.n'')) r else r);
                 r2 = size_gate wall now db e needs (capability_gate wall now db e (cx_caps cx) r1)
             in if vr_valid r2 then r2\<lparr>vr_caps := needs\<rparr> else r2)
      else r)"

section \<open>Storing the verdict\<close>

text \<open>\<open>int(s)\<close> on ASCII: surrounding space, a sign, digits with single underscores.\<close>

fun digits_value :: "nat \<Rightarrow> bool \<Rightarrow> string \<Rightarrow> nat option" where
  "digits_value acc ok [] = (if ok then Some acc else None)"
| "digits_value acc ok (c # cs) =
     (let n = (of_char c :: nat) in
      if 48 \<le> n \<and> n \<le> 57 then digits_value (10 * acc + (n - 48)) True cs
      else if c = CHR ''_'' \<and> ok then digits_value acc False cs
      else None)"

definition py_int :: "string \<Rightarrow> int option" where
  "py_int s = (case strip s of
       [] \<Rightarrow> None
     | c # cs \<Rightarrow>
         if c = CHR ''-'' then map_option (\<lambda>n. - int n) (digits_value 0 False cs)
         else if c = CHR ''+'' then map_option int (digits_value 0 False cs)
         else map_option int (digits_value 0 False (c # cs)))"

text \<open>\<open>m2s v\<close> is \<open>int(round(v / 60, 1) * 3600)\<close> in floating point.\<close>

definition window_seconds :: "(int \<Rightarrow> int) \<Rightarrow> string \<Rightarrow> seconds" where
  "window_seconds m2s completion_window =
     (let window = (if completion_window = [] then ''24h'' else completion_window) in
      case py_int (filter (\<lambda>c. c \<noteq> CHR ''h'' \<and> c \<noteq> CHR ''m'') window) of
        None \<Rightarrow> 24 * 3600
      | Some v \<Rightarrow> if suffix ''m'' window then m2s v else v * 3600)"

definition set_expires_at :: "(int \<Rightarrow> int) \<Rightarrow> seconds \<Rightarrow> batch \<Rightarrow> batch" where
  "set_expires_at m2s now b = b\<lparr>b_expires_at := Some (now + window_seconds m2s (b_completion_window b))\<rparr>"

definition verdict_row :: "(int \<Rightarrow> int) \<Rightarrow> seconds \<Rightarrow> vresult \<Rightarrow> batch \<Rightarrow> batch" where
  "verdict_row m2s now r b =
     (let b1 = b\<lparr>b_total := Some (int (vr_total r))\<rparr> in
      if \<not> vr_valid r then
        b1\<lparr>b_status := Failed, b_completed_at := Some now,
           b_error_details := Some (ErrReport (stored_errors r) (vr_error_count r))\<rparr>
      else set_expires_at m2s now (b1\<lparr>b_status := Validated,
           b_model := (if truthy (vr_model r) then vr_model r else b_model b1),
           b_required_capabilities := (if vr_caps r = [] then None else Some (vr_caps r)),
           b_requested_at := Some now\<rparr>))"

definition persist_failed_row :: "seconds \<Rightarrow> batch \<Rightarrow> batch" where
  "persist_failed_row now b = b\<lparr>b_status := Failed, b_error_details := Some ErrPersist,
     b_completed_at := Some now\<rparr>"

text \<open>\<open>commit_ok\<close>: does the database accept the row? If not the transaction is rolled back
  and the batch marked failed in a second one.\<close>

definition persist_result :: "(batch \<Rightarrow> bool) \<Rightarrow> (int \<Rightarrow> int) \<Rightarrow> seconds \<Rightarrow> string \<Rightarrow> vresult \<Rightarrow>
    srv \<Rightarrow> bool \<times> srv" where
  "persist_result commit_ok m2s now bid r db = (case get_batch_row db bid of
       None \<Rightarrow> (False, db)
     | Some b \<Rightarrow>
         if commit_ok (verdict_row m2s now r b)
         then (vr_valid r, upd_batch bid (verdict_row m2s now r) db)
         else if commit_ok (persist_failed_row now b)
         then (False, upd_batch bid (persist_failed_row now) db)
         else (False, db))"

text \<open>The whole validation: an exception that no handler catches leaves the database as it
  was. \<open>fsize\<close> is the file's size, if the file exists.\<close>

definition validate_content :: "wall_clock \<Rightarrow> loads \<Rightarrow> seconds \<Rightarrow> srv \<Rightarrow> int option \<Rightarrow> string list \<Rightarrow>
    py_exn + vresult" where
  "validate_content wall loads now db fsize content =
     (let r0 = file_preconditions fsize in
      if \<not> vr_valid r0 then Inr r0
      else ebind (validate_lines loads 1 content
              \<lparr>vs_result = r0, vs_cross = new_cross, vs_model = None\<rparr>) (\<lambda>st.
        let r1 = vs_result st;
            r2 = (if vr_total r1 = 0 then add_error (verr ''empty_file'' None None) r1 else r1)
        in Inr (model_gates wall now db (vs_cross st) r2)))"

definition validate_batch_file :: "wall_clock \<Rightarrow> loads \<Rightarrow> (batch \<Rightarrow> bool) \<Rightarrow> (int \<Rightarrow> int) \<Rightarrow> seconds \<Rightarrow>
    string \<Rightarrow> string \<Rightarrow> (string \<Rightarrow> int option) \<Rightarrow> srv \<Rightarrow> (py_exn + bool) \<times> srv" where
  "validate_batch_file wall loads commit_ok m2s now bid filepath size_of db =
     (case validate_content wall loads now db (size_of filepath)
             (case disk db filepath of None \<Rightarrow> [] | Some ls \<Rightarrow> ls) of
        Inl e \<Rightarrow> (Inl e, db)
      | Inr r \<Rightarrow> (case persist_result commit_ok m2s now bid r db of (ok, db') \<Rightarrow> (Inr ok, db')))"

section \<open>Backfill at startup\<close>

fun file_needs :: "loads \<Rightarrow> string list \<Rightarrow> string list \<Rightarrow> py_exn + string list" where
  "file_needs loads [] needs = Inr needs"
| "file_needs loads (line # rest) needs =
     (if strip line = [] then file_needs loads rest needs
      else (case loads (strip line) of
          LoadsRaises e \<Rightarrow> Inl e
        | DecodeError \<Rightarrow> file_needs loads rest needs
        | Loaded (JObj entry) \<Rightarrow> file_needs loads rest
            (case jget ''body'' entry of
               JObj body \<Rightarrow> fromkeys (needs @ wanted_capabilities (jget ''url'' entry) body)
             | _ \<Rightarrow> needs)
        | Loaded _ \<Rightarrow> file_needs loads rest needs))"

fun backfill_rows :: "loads \<Rightarrow> batch list \<Rightarrow> srv \<Rightarrow> (py_exn + srv) \<times> nat" where
  "backfill_rows loads [] db = (Inr db, 0)"
| "backfill_rows loads (b # bs) db =
     (case get_file_row db (b_input_file_id b) of
        None \<Rightarrow> backfill_rows loads bs db
      | Some f \<Rightarrow>
          if f_filepath f = [] then backfill_rows loads bs db
          else (case disk db (f_filepath f) of
              None \<Rightarrow> backfill_rows loads bs db
            | Some ls \<Rightarrow> (case file_needs loads ls [] of
                  Inl e \<Rightarrow> (Inl e, 0)
                | Inr needs \<Rightarrow>
                    (case backfill_rows loads bs
                        (upd_batch (b_id b) (\<lambda>b. b\<lparr>b_required_capabilities := Some needs\<rparr>) db) of
                       (res, n) \<Rightarrow> (res, Suc n)))))"

text \<open>Any exception but \<open>OSError\<close> rolls the whole pass back; the count is returned as it
  stood.\<close>

definition backfill_required_capabilities :: "loads \<Rightarrow> srv \<Rightarrow> nat \<times> srv" where
  "backfill_required_capabilities loads db =
     (case backfill_rows loads
         (filter (\<lambda>b. b_status b = Validated \<and> b_required_capabilities b = None) (batches db)) db of
        (Inl _, n) \<Rightarrow> (n, db)
      | (Inr db', n) \<Rightarrow> (n, db'))"

section \<open>Lemmas\<close>

text \<open>What every result keeps: it is valid exactly when nothing was counted, and the stored
  errors are the first hundred.\<close>

definition report_ok :: "vresult \<Rightarrow> bool" where
  "report_ok r \<longleftrightarrow> (vr_valid r \<longleftrightarrow> vr_error_count r = 0) \<and> length (vr_errors r) = min max_stored_errors (vr_error_count r)"

lemma report_ok_add [simp]: "report_ok r \<Longrightarrow> report_ok (add_error e r)"
  by (auto simp: report_ok_def add_error_def)

lemma report_ok_adds [simp]: "report_ok r \<Longrightarrow> report_ok (add_errors es r)"
  unfolding add_errors_def by (induction es arbitrary: r) auto

lemma report_ok_upd [simp]:
  "report_ok (r\<lparr>vr_total := n\<rparr>) = report_ok r" "report_ok (r\<lparr>vr_model := m\<rparr>) = report_ok r"
  "report_ok (r\<lparr>vr_caps := c\<rparr>) = report_ok r"
  by (simp_all add: report_ok_def)

lemma cross_line_result: "\<exists>es. vs_result (cross_line i entry st) = add_errors es (vs_result st)"
proof -
  have "add_errors b (add_errors a r) = add_errors (a @ b) r" for a b r by (simp add: add_errors_def)
  then show ?thesis by (auto simp: cross_line_def Let_def split: prod.split)
qed

lemma report_ok_entry: "report_ok (vs_result st) \<Longrightarrow> validate_entry i entry st = Inr st' \<Longrightarrow> report_ok (vs_result st')"
proof -
  assume h: "report_ok (vs_result st)" "validate_entry i entry st = Inr st'"
  have c: "report_ok (vs_result s) \<Longrightarrow> report_ok (vs_result (cross_line i entry s))" for s
    using cross_line_result [of i entry s] by auto
  have t: "track_model s = Inr st' \<Longrightarrow> report_ok (vs_result s) \<Longrightarrow> report_ok (vs_result st')" for s
    by (auto simp: track_model_def split: if_splits option.splits json.splits)
  show ?thesis using h unfolding validate_entry_def Let_def by (elim t) (auto intro!: c)
qed

text \<open>One non-blank line: the count goes up, then the file is over-long, or the line is no
  object, or it is checked.\<close>

abbreviation count_line :: "vstate \<Rightarrow> vstate" where
  "count_line st \<equiv> st\<lparr>vs_result := (vs_result st)\<lparr>vr_total := Suc (vr_total (vs_result st))\<rparr>\<rparr>"

lemma validate_lines_cases:
  assumes "validate_lines loads i (line # rest) st = Inr st'"
  obtains (blank) "strip line = []" "validate_lines loads (Suc i) rest st = Inr st'"
  | (full) e where "strip line \<noteq> []" "max_lines \<le> vr_total (vs_result st)"
      "vs_result st' = add_error e (vs_result (count_line st))"
  | (bad) e where "strip line \<noteq> []"
      "validate_lines loads (Suc i) rest (st\<lparr>vs_result := add_error e (vs_result (count_line st))\<rparr>) = Inr st'"
  | (entry) d st1 where "strip line \<noteq> []" "vr_total (vs_result st) < max_lines" "loads (strip line) = Loaded (JObj d)"
      "validate_entry i d (count_line st) = Inr st1" "validate_lines loads (Suc i) rest st1 = Inr st'"
proof (cases "strip line = []")
  case True
  then show ?thesis using assms by (intro blank) auto
next
  case ne: False
  show ?thesis
  proof (cases "max_lines \<le> vr_total (vs_result st)")
    case True
    then show ?thesis using assms ne by (intro full [of "verr ''too_many_requests'' (Some i) None"]) (auto simp: Let_def)
  next
    case False
    then obtain x where x: "parse_line loads i (strip line) = Inr x" using assms ne by (auto simp: Let_def)
    show ?thesis
    proof (cases x)
      case (Inl e)
      then show ?thesis using assms ne False x by (intro bad [of e]) (auto simp: Let_def)
    next
      case (Inr d)
      then have "loads (strip line) = Loaded (JObj d)" using x
        by (auto simp: parse_line_def split: loads_result.splits json.splits)
      moreover obtain st1 where "validate_entry i d (count_line st) = Inr st1" "validate_lines loads (Suc i) rest st1 = Inr st'"
        using assms ne False x Inr by (auto simp: Let_def)
      ultimately show ?thesis using ne False by (intro entry) auto
    qed
  qed
qed

lemma report_ok_lines: "report_ok (vs_result st) \<Longrightarrow> validate_lines loads i ls st = Inr st' \<Longrightarrow> report_ok (vs_result st')"
proof (induction ls arbitrary: i st)
  case (Cons line rest)
  from Cons.prems(2) show ?case
  proof (cases rule: validate_lines_cases)
    case (entry d st1)
    from entry(4) have "report_ok (vs_result st1)" using Cons.prems(1) by (intro report_ok_entry [OF _ entry(4)]) simp
    then show ?thesis using entry Cons.IH by blast
  next
    case blank
    then show ?thesis using Cons.IH Cons.prems(1) by blast
  next
    case (full e)
    then show ?thesis using Cons.prems(1) by simp
  next
    case (bad e)
    have "report_ok (vs_result (st\<lparr>vs_result := add_error e (vs_result (count_line st))\<rparr>))"
      using Cons.prems(1) by simp
    then show ?thesis using bad(2) Cons.IH by blast
  qed
qed simp

lemma report_ok_gates: "report_ok r \<Longrightarrow> report_ok (model_gates wall now db cx r)"
proof -
  have c: "report_ok (capability_gate wall now db e caps r)" if "report_ok r" for e caps r
    using that by (auto simp: capability_gate_def Let_def)
  have s: "report_ok (size_gate wall now db e needs r)" if "report_ok r" for e needs r
    using that by (auto simp: size_gate_def Let_def)
  assume "report_ok r"
  then show ?thesis
    by (auto simp: model_gates_def Let_def intro!: c s split: option.split)
qed

section \<open>Properties\<close>

text \<open>The report of a validation is honest: the file is valid exactly when no error was counted,
  every error is counted, and the first hundred are the ones stored.\<close>

theorem report_counts_errors:
  assumes "validate_content wall loads now db fsize content = Inr r"
  shows "(vr_valid r \<longleftrightarrow> vr_error_count r = 0) \<and> length (stored_errors r) = min 100 (vr_error_count r) \<and>
    stored_errors r = vr_errors r"
proof -
  have pre: "report_ok (file_preconditions fsize)"
    by (auto simp: file_preconditions_def report_ok_def new_result_def add_error_def max_stored_errors_def split: option.split)
  have "report_ok r"
  proof (cases "vr_valid (file_preconditions fsize)")
    case True
    then obtain st where st: "validate_lines loads 1 content
        \<lparr>vs_result = file_preconditions fsize, vs_cross = new_cross, vs_model = None\<rparr> = Inr st"
      and r: "r = model_gates wall now db (vs_cross st) (if vr_total (vs_result st) = 0
          then add_error (verr ''empty_file'' None None) (vs_result st) else vs_result st)"
      using assms by (auto simp: validate_content_def Let_def)
    from report_ok_lines [OF _ st] pre have "report_ok (vs_result st)" by simp
    then show ?thesis unfolding r by (intro report_ok_gates) auto
  qed (use assms pre in \<open>simp add: validate_content_def Let_def\<close>)
  then show ?thesis by (simp add: report_ok_def stored_errors_def max_stored_errors_def)
qed

text \<open>How the line limit is evaluated.\<close>

lemma max_lines_less [code_unfold]: "max_lines < n \<longleftrightarrow> 50000 < int n"
  by (simp add: max_lines_def)

text \<open>A parser for the examples: two well-formed requests and a malformed line.\<close>

definition sample_request :: "string \<Rightarrow> json \<Rightarrow> json" where
  "sample_request cid model = JObj [(''custom_id'', JStr cid), (''method'', JStr ''POST''),
     (''url'', JStr ''/v1/chat/completions''), (''body'', JObj [(''model'', model),
       (''messages'', JArr [JObj [(''role'', JStr ''user''), (''content'', JStr ''hi'')]])])]"

definition sample_loads :: loads where
  "sample_loads s = (if s = ''a'' then Loaded (sample_request ''a'' (JStr ''m-4b''))
     else if s = ''b'' then Loaded (sample_request ''b'' (JStr ''m-4b''))
     else if s = ''null'' then Loaded (sample_request ''n'' JNull)
     else if s = ''{}'' then Loaded (JObj [])
     else DecodeError)"

theorem report_counts_errors_witness:
  "\<exists>r. validate_content sample_wall sample_loads 1000 sample_base (Some 10) [''a'', ''?'', ''a''] = Inr r \<and>
     \<not> vr_valid r \<and> vr_error_count r = 2 \<and> length (stored_errors r) = 2"
proof -
  let ?r = "validate_content sample_wall sample_loads 1000 sample_base (Some 10) [''a'', ''?'', ''a'']"
  have "\<not> isl ?r" "vr_error_count (projr ?r) = 2" by code_simp+
  then obtain r where r: "?r = Inr r" "vr_error_count r = 2" by (cases ?r) auto
  from report_counts_errors [OF r(1)] r show ?thesis by auto
qed

end
