(* ===== verification/Usage_Ingest.thy ===== *)
theory Usage_Ingest
  imports Batch_Validator
begin

text \<open>
  \<open>backend/services/usage_ingest.py\<close> and the ingestion sweep of \<open>backend/sweeper.py\<close>:
  reading the per-prompt token counts of an output file, upserting them on
  (batch, custom_id) in chunks, and the batch's totals. An unexpected exception is the
  argument \<open>crash\<close>: the number of chunks committed before it, if it happens.
\<close>

section \<open>Reading records\<close>

definition py_trunc :: "rat \<Rightarrow> int" where
  "py_trunc r = (if r < 0 then - \<lfloor>- r\<rfloor> else \<lfloor>r\<rfloor>)"

text \<open>\<open>int(v)\<close> of a JSON value; None is a \<open>TypeError\<close> or \<open>ValueError\<close>.\<close>

definition json_int :: "json \<Rightarrow> int option" where
  "json_int v = (case v of
       JInt n \<Rightarrow> Some n
     | JBool b \<Rightarrow> Some (if b then 1 else 0)
     | JFloat r \<Rightarrow> Some (py_trunc r)
     | JStr s \<Rightarrow> py_int s
     | _ \<Rightarrow> None)"

definition int_or_zero :: "json \<Rightarrow> int option" where
  "int_or_zero v = (if jtruthy v then json_int v else Some 0)"

definition coerce_usage :: "jdict \<Rightarrow> (int \<times> int \<times> int) option" where
  "coerce_usage usage = (case (int_or_zero (jget ''prompt_tokens'' usage),
                                int_or_zero (jget ''completion_tokens'' usage)) of
       (Some p, Some c) \<Rightarrow>
         (case jget ''total_tokens'' usage of
            JNull \<Rightarrow> Some (p, c, p + c)
          | raw \<Rightarrow> map_option (\<lambda>t. (p, c, t)) (json_int raw))
     | _ \<Rightarrow> None)"

text \<open>One line of the output file; \<open>json.loads\<close> failing in any way skips the line.\<close>

definition usage_record :: "loads \<Rightarrow> (json \<Rightarrow> string) \<Rightarrow> string \<Rightarrow> string option \<Rightarrow> seconds \<Rightarrow> string \<Rightarrow>
    string \<Rightarrow> usage_row option" where
  "usage_record loads repr bid model now new_id line =
     (if strip line = [] then None
      else (case loads (strip line) of
          Loaded (JObj raw) \<Rightarrow>
            if \<not> jtruthy (jget ''custom_id'' raw) then None
            else if jget ''error'' raw \<noteq> JNull then None
            else (case jget ''response'' raw of
                JObj response \<Rightarrow> (case jget ''usage'' response of
                    JObj usage \<Rightarrow> map_option (\<lambda>(p, c, t).
                        \<lparr>ur_id = new_id, ur_batch_id = bid,
                         ur_custom_id = py_str repr (jget ''custom_id'' raw), ur_model = model,
                         ur_prompt = p, ur_completion = c, ur_total = t, ur_created_at = now\<rparr>)
                        (coerce_usage usage)
                  | _ \<Rightarrow> None)
              | _ \<Rightarrow> None)
        | _ \<Rightarrow> None))"

definition usage_records :: "loads \<Rightarrow> (json \<Rightarrow> string) \<Rightarrow> string \<Rightarrow> string option \<Rightarrow> seconds \<Rightarrow>
    (nat \<Rightarrow> string) \<Rightarrow> string list \<Rightarrow> usage_row list" where
  "usage_records loads repr bid model now new_id content =
     List.map_filter (\<lambda>(i, line). usage_record loads repr bid model now (new_id i) line)
       (enumerate 1 content)"

section \<open>Upsert\<close>

definition chunk_size :: nat where "chunk_size = 500"
definition max_usage_ingestion_attempts :: int where "max_usage_ingestion_attempts = 5"

definition ur_key :: "usage_row \<Rightarrow> string \<times> string" where
  "ur_key r = (ur_batch_id r, ur_custom_id r)"

definition collapse :: "usage_row list \<Rightarrow> usage_row list" where
  "collapse chunk = map snd (fold (\<lambda>r. dict_set (ur_custom_id r) r) chunk [])"

definition overwrite :: "usage_row \<Rightarrow> usage_row \<Rightarrow> usage_row" where
  "overwrite new old = old\<lparr>ur_model := ur_model new, ur_prompt := ur_prompt new,
     ur_completion := ur_completion new, ur_total := ur_total new\<rparr>"

text \<open>\<open>INSERT ... ON CONFLICT (batch_id, custom_id) DO UPDATE\<close>, row by row.\<close>

definition upsert_row :: "usage_row \<Rightarrow> usage_row list \<Rightarrow> usage_row list" where
  "upsert_row r rows =
     (if tbl_get ur_key (ur_key r) rows = None then tbl_add r rows
      else tbl_upd ur_key (ur_key r) (overwrite r) rows)"

definition upsert_chunk :: "usage_row list \<Rightarrow> usage_row list \<Rightarrow> usage_row list" where
  "upsert_chunk chunk rows = fold upsert_row (collapse chunk) rows"

text \<open>The records in runs of \<open>CHUNK_SIZE\<close>.\<close>

function chunks :: "usage_row list \<Rightarrow> usage_row list list" where
  "chunks rs = (if rs = [] then [] else take chunk_size rs # chunks (drop chunk_size rs))"
  by pat_completeness auto
termination
  by (relation "measure length") (auto simp: chunk_size_def)

declare chunks.simps [simp del]

section \<open>Ingestion\<close>

definition mark_ingestion_done :: "string \<Rightarrow> srv \<Rightarrow> srv" where
  "mark_ingestion_done bid db = upd_batch bid (\<lambda>b. b\<lparr>b_ingest_pending := False\<rparr>) db"

definition record_failed_attempt :: "string \<Rightarrow> srv \<Rightarrow> srv" where
  "record_failed_attempt bid db =
     upd_batch bid (\<lambda>b. b\<lparr>b_ingest_attempts := Some (or0 (b_ingest_attempts b) + 1)\<rparr>) db"

definition batch_usage :: "srv \<Rightarrow> string \<Rightarrow> usage_row list" where
  "batch_usage db bid = filter (\<lambda>r. ur_batch_id r = bid) (usage_rows db)"

definition write_rollups :: "string \<Rightarrow> srv \<Rightarrow> srv" where
  "write_rollups bid db =
     (let rows = batch_usage db bid in
      if rows = [] then db
      else upd_batch bid (\<lambda>b. b\<lparr>
             b_prompt_tokens := Some (sum_list (map ur_prompt rows)),
             b_completion_tokens := Some (sum_list (map ur_completion rows)),
             b_total_tokens := Some (sum_list (map ur_total rows))\<rparr>) db)"

definition write_chunks :: "usage_row list list \<Rightarrow> srv \<Rightarrow> srv" where
  "write_chunks cs db = db\<lparr>usage_rows := fold upsert_chunk cs (usage_rows db)\<rparr>"

definition ingest_usage_records :: "loads \<Rightarrow> (json \<Rightarrow> string) \<Rightarrow> seconds \<Rightarrow> (nat \<Rightarrow> string) \<Rightarrow>
    nat option \<Rightarrow> string \<Rightarrow> string \<Rightarrow> srv \<Rightarrow> srv" where
  "ingest_usage_records loads repr now new_id crash bid filepath db = (case get_batch_row db bid of
       None \<Rightarrow> db
     | Some b \<Rightarrow> (case disk db filepath of
           None \<Rightarrow> mark_ingestion_done bid db
         | Some content \<Rightarrow>
             let cs = chunks (usage_records loads repr bid (b_model b) now new_id content) in
             (case crash of
                Some k \<Rightarrow> record_failed_attempt bid (write_chunks (take k cs) db)
              | None \<Rightarrow>
                  if cs = [] then mark_ingestion_done bid db
                  else mark_ingestion_done bid (write_rollups bid (write_chunks cs db)))))"

section \<open>Retry sweep\<close>

definition max_ingestions_per_sweep :: nat where "max_ingestions_per_sweep = 5"

definition pending_batches :: "srv \<Rightarrow> batch list" where
  "pending_batches db = sort_key (\<lambda>b. or0 (b_completed_at b))
     (filter (\<lambda>b. b_status b = Completed \<and> b_ingest_pending b
        \<and> or0 (b_ingest_attempts b) < max_usage_ingestion_attempts) (batches db))"

fun retry_ingestions :: "loads \<Rightarrow> (json \<Rightarrow> string) \<Rightarrow> seconds \<Rightarrow> (string \<Rightarrow> nat \<Rightarrow> string) \<Rightarrow>
    (string \<Rightarrow> nat option) \<Rightarrow> batch list \<Rightarrow> srv \<Rightarrow> srv \<times> nat" where
  "retry_ingestions loads repr now new_id crash [] db = (db, 0)"
| "retry_ingestions loads repr now new_id crash (b # bs) db =
     (case find (\<lambda>f. Some (f_id f) = b_output_file_id b) (files db) of
        None \<Rightarrow> retry_ingestions loads repr now new_id crash bs (mark_ingestion_done (b_id b) db)
      | Some f \<Rightarrow>
          (case retry_ingestions loads repr now new_id crash bs
              (ingest_usage_records loads repr now (new_id (b_id b)) (crash (b_id b)) (b_id b)
                 (f_filepath f) db) of
             (db', n) \<Rightarrow> (db', Suc n)))"

definition sweep_pending_ingestions :: "loads \<Rightarrow> (json \<Rightarrow> string) \<Rightarrow> seconds \<Rightarrow>
    (string \<Rightarrow> nat \<Rightarrow> string) \<Rightarrow> (string \<Rightarrow> nat option) \<Rightarrow> srv \<Rightarrow> srv \<times> nat" where
  "sweep_pending_ingestions loads repr now new_id crash db =
     retry_ingestions loads repr now new_id crash
       (take max_ingestions_per_sweep (pending_batches db)) db"

section \<open>Lemmas\<close>

interpretation usage_table: keyed_table ur_key "tbl_get ur_key" "tbl_upd ur_key" tbl_add "tbl_del ur_key"
  by (rule keyed_table_lists)

lemma overwrite_key [simp]: "ur_key (overwrite r old) = ur_key old"
  by (simp add: overwrite_def ur_key_def)

text \<open>What is kept about a prompt: everything but the row id and the time of insertion.\<close>

definition usage_facts :: "usage_row \<Rightarrow> string option \<times> int \<times> int \<times> int" where
  "usage_facts r = (ur_model r, ur_prompt r, ur_completion r, ur_total r)"

definition usage_map :: "usage_row list \<Rightarrow> string \<times> string \<Rightarrow> (string option \<times> int \<times> int \<times> int) option" where
  "usage_map rows k = map_option usage_facts (tbl_get ur_key k rows)"

lemma usage_facts_overwrite [simp]: "usage_facts (overwrite r old) = usage_facts r"
  by (simp add: usage_facts_def overwrite_def)

lemma usage_map_upsert_row: "usage_map (upsert_row r rows) = (usage_map rows)(ur_key r \<mapsto> usage_facts r)"
  by (rule ext) (auto simp: usage_map_def upsert_row_def usage_table.get_add usage_table.get_upd
      split: option.splits)

lemma usage_map_fold_upsert:
  "usage_map (fold upsert_row rs rows) = usage_map rows ++ map_of (rev (map (\<lambda>r. (ur_key r, usage_facts r)) rs))"
proof (induction rs arbitrary: rows)
  case (Cons r rs)
  show ?case
    by (simp add: Cons.IH usage_map_upsert_row map_add_upd_left) (simp add: map_add_def fun_eq_iff split: option.split)
qed simp

lemma distinct_upsert_row: "distinct (map ur_key rows) \<Longrightarrow> distinct (map ur_key (upsert_row r rows))"
  by (auto simp: upsert_row_def tbl_add_def tbl_get_None)

lemma distinct_fold_upsert: "distinct (map ur_key rows) \<Longrightarrow> distinct (map ur_key (fold upsert_row rs rows))"
  by (induction rs arbitrary: rows) (auto simp: distinct_upsert_row)

lemma distinct_write_chunks:
  "distinct (map ur_key rows) \<Longrightarrow> distinct (map ur_key (fold upsert_chunk cs rows))"
  by (induction cs arbitrary: rows) (auto simp: upsert_chunk_def distinct_fold_upsert)

lemma map_of_fold_dict_set:
  "map_of (fold (\<lambda>r. dict_set (f r) r) rs d) = map_of d ++ map_of (rev (map (\<lambda>r. (f r, r)) rs))"
proof (induction rs arbitrary: d)
  case (Cons r rs)
  show ?case by (simp add: Cons.IH) (simp add: map_add_def fun_eq_iff split: option.split)
qed simp

lemma collapse_keys:
  assumes "\<forall>r \<in> set chunk. ur_batch_id r = bid"
  shows "map_of (map (\<lambda>r. (ur_key r, usage_facts r)) (collapse chunk)) =
         map_of (rev (map (\<lambda>r. (ur_key r, usage_facts r)) chunk))"
    and "distinct (map ur_key (collapse chunk))"
    and "set (collapse chunk) \<subseteq> set chunk"
proof -
  let ?d = "fold (\<lambda>r. dict_set (ur_custom_id r) r) chunk []"
  have dist: "distinct (map fst ?d)"
  proof -
    have "distinct (map fst d) \<Longrightarrow> distinct (map fst (fold (\<lambda>r. dict_set (ur_custom_id r) r) rs d))" for rs d
      by (induction rs arbitrary: d) (auto simp: distinct_dict_set)
    from this [of "[]" chunk] show ?thesis by simp
  qed
  have mem: "map_of ?d k = Some r \<longleftrightarrow> (k, r) \<in> set ?d" for k r using dist by (simp add: map_of_eq_Some_iff)
  have md: "map_of ?d = map_of (rev (map (\<lambda>r. (ur_custom_id r, r)) chunk))"
    by (simp add: map_of_fold_dict_set)
  have in_chunk: "(k, r) \<in> set ?d \<Longrightarrow> r \<in> set chunk \<and> k = ur_custom_id r" for k r
    using mem [of k r] unfolding md by (auto dest: map_of_SomeD)
  then have fst_eq: "map fst ?d = map ur_custom_id (collapse chunk)"
    unfolding collapse_def by (auto simp: in_chunk)
  show sub: "set (collapse chunk) \<subseteq> set chunk"
    unfolding collapse_def using in_chunk by fastforce
  then have key: "r \<in> set (collapse chunk) \<Longrightarrow> ur_key r = (bid, ur_custom_id r)" for r
    using assms by (auto simp: ur_key_def)
  have keys: "map ur_key (collapse chunk) = map (Pair bid) (map ur_custom_id (collapse chunk))"
    using key by simp
  show "distinct (map ur_key (collapse chunk))"
    using dist unfolding keys fst_eq by (simp add: distinct_map inj_on_def)
  have mk: "map_of (map (\<lambda>r. (ur_key r, usage_facts r)) rs) (b, c) =
     (if b = bid then map_option usage_facts (map_of (map (\<lambda>r. (ur_custom_id r, r)) rs) c) else None)"
    if "\<forall>r \<in> set rs. ur_batch_id r = bid" for rs b c
    using that by (induction rs) (auto simp: ur_key_def)
  have pairs: "map (\<lambda>r. (ur_custom_id r, r)) (collapse chunk) = ?d"
    unfolding collapse_def map_map by (rule map_idI) (use in_chunk in auto)
  show "map_of (map (\<lambda>r. (ur_key r, usage_facts r)) (collapse chunk)) =
         map_of (rev (map (\<lambda>r. (ur_key r, usage_facts r)) chunk))"
  proof (rule ext)
    fix k :: "string \<times> string"
    obtain b c where k: "k = (b, c)" by fastforce
    have "\<forall>r \<in> set (collapse chunk). ur_batch_id r = bid" using sub assms by auto
    note l = mk [OF this, of b c]
    have "\<forall>r \<in> set (rev chunk). ur_batch_id r = bid" using assms by simp
    note r = mk [OF this, of b c]
    show "map_of (map (\<lambda>r. (ur_key r, usage_facts r)) (collapse chunk)) k =
         map_of (rev (map (\<lambda>r. (ur_key r, usage_facts r)) chunk)) k"
      unfolding k l using r md by (simp add: pairs rev_map)
  qed
qed

lemma map_of_rev_distinct: "distinct (map fst xs) \<Longrightarrow> map_of (rev xs) = map_of xs"
proof (rule ext)
  fix k
  assume d: "distinct (map fst xs)"
  then have d': "distinct (map fst (rev xs))" by (simp add: rev_map [symmetric])
  show "map_of (rev xs) k = map_of xs k"
  proof (cases "map_of xs k")
    case None
    then have "k \<notin> fst ` set (rev xs)" by (simp add: map_of_eq_None_iff)
    then have "map_of (rev xs) k = None" unfolding map_of_eq_None_iff .
    with None show ?thesis by simp
  next
    case (Some v)
    then have "(k, v) \<in> set (rev xs)" using map_of_eq_Some_iff [OF d] by simp
    then have "map_of (rev xs) k = Some v" using map_of_eq_Some_iff [OF d'] by simp
    with Some show ?thesis by simp
  qed
qed

lemma usage_map_upsert_chunk:
  assumes "\<forall>r \<in> set chunk. ur_batch_id r = bid"
  shows "usage_map (upsert_chunk chunk rows) = usage_map (fold upsert_row chunk rows)"
proof -
  have d: "distinct (map fst (map (\<lambda>r. (ur_key r, usage_facts r)) (collapse chunk)))"
    using collapse_keys(2) [OF assms] by (simp add: comp_def)
  show ?thesis
    unfolding upsert_chunk_def usage_map_fold_upsert map_of_rev_distinct [OF d] collapse_keys(1) [OF assms] ..
qed

lemma usage_map_fold_upsert_cong:
  "usage_map rows = usage_map rows' \<Longrightarrow> usage_map (fold upsert_row rs rows) = usage_map (fold upsert_row rs rows')"
  by (simp add: usage_map_fold_upsert)

lemma chunks_concat: "concat (chunks rs) = rs"
proof (induction rs rule: chunks.induct)
  case (1 rs)
  then show ?case by (subst chunks.simps) auto
qed

lemma chunks_eq_Nil [simp]: "chunks rs = [] \<longleftrightarrow> rs = []"
  by (subst chunks.simps) simp

lemma chunks_bounded: "c \<in> set (chunks rs) \<Longrightarrow> c \<noteq> [] \<and> length c \<le> chunk_size"
proof (induction rs rule: chunks.induct)
  case (1 rs)
  then show ?case by (subst (asm) (2) chunks.simps) (auto simp: chunk_size_def split: if_splits)
qed

lemma usage_map_write_chunks:
  assumes "\<forall>c \<in> set cs. \<forall>r \<in> set c. ur_batch_id r = bid"
  shows "usage_map (fold upsert_chunk cs rows) = usage_map (fold upsert_row (concat cs) rows)"
  using assms
proof (induction cs arbitrary: rows)
  case (Cons c cs)
  then have "usage_map (fold upsert_chunk cs (upsert_chunk c rows)) =
      usage_map (fold upsert_row (concat cs) (upsert_chunk c rows))" by simp
  also have "\<dots> = usage_map (fold upsert_row (concat cs) (fold upsert_row c rows))"
    using Cons.prems by (intro usage_map_fold_upsert_cong usage_map_upsert_chunk) auto
  finally show ?case by simp
qed simp

lemma usage_record_batch: "usage_record loads repr bid model now nid line = Some r \<Longrightarrow> ur_batch_id r = bid"
  by (auto simp: usage_record_def split: if_splits loads_result.splits json.splits)

lemma usage_records_batch: "r \<in> set (usage_records loads repr bid model now nid content) \<Longrightarrow> ur_batch_id r = bid"
proof -
  have ex: "r \<in> set (List.map_filter f xs) \<Longrightarrow> \<exists>x. f x = Some r" for f :: "nat \<times> string \<Rightarrow> usage_row option" and xs
    by (induction xs) (auto simp: List.map_filter_simps split: option.splits)
  assume "r \<in> set (usage_records loads repr bid model now nid content)"
  from ex [OF this [unfolded usage_records_def]] show ?thesis by (auto dest: usage_record_batch)
qed

lemma chunks_usage_batch:
  "\<forall>c \<in> set (chunks (usage_records loads repr bid model now nid content)). \<forall>r \<in> set c. ur_batch_id r = bid"
proof (intro ballI)
  fix c r
  assume "c \<in> set (chunks (usage_records loads repr bid model now nid content))" "r \<in> set c"
  then have "r \<in> set (concat (chunks (usage_records loads repr bid model now nid content)))" by auto
  then show "ur_batch_id r = bid" unfolding chunks_concat by (rule usage_records_batch)
qed

text \<open>Ingestion leaves the workers alone.\<close>

lemma workers_ingest [simp]:
  "workers (mark_ingestion_done i db) = workers db" "workers (record_failed_attempt i db) = workers db"
  "workers (write_rollups i db) = workers db" "workers (write_chunks cs db) = workers db"
  by (simp_all add: mark_ingestion_done_def record_failed_attempt_def write_rollups_def write_chunks_def upd_batch_def Let_def)

lemma workers_ingest_usage [simp]:
  "workers (ingest_usage_records loads repr t new_id crash bid path db) = workers db"
  by (simp add: ingest_usage_records_def Let_def split: option.split)

lemma workers_retry [simp]: "workers (fst (retry_ingestions loads repr t new_ids crashes bs db)) = workers db"
  by (induction bs arbitrary: db) (auto split: option.split prod.split simp: case_prod_beta)

end
