(* ===== verification/Batches_Api.thy ===== *)
theory Batches_Api
  imports Auth Sse Usage_Ingest
begin

text \<open>
  \<open>backend/routers/batches.py\<close> and \<open>backend/routers/files.py\<close>: what a submitting client
  can do. The caller is resolved by \<open>Auth\<close> before a handler runs, so a handler takes the
  user row and, for a personal API key, the key. The answer of \<open>create_batch\<close> carries the
  background validation it schedules. \<open>BatchOut\<close> is the record \<open>batch_out\<close>.
\<close>

section \<open>Views\<close>

record usage_stats =
  us_prompt :: "int option"
  us_completion :: "int option"
  us_total :: "int option"

record batch_out =
  bo_id :: string
  bo_endpoint :: string
  bo_model :: "string option"
  bo_input_file_id :: string
  bo_status :: batch_status
  bo_output_file_id :: "string option"
  bo_error_details :: "error_details option"
  bo_created_at :: seconds
  bo_in_progress_at :: "seconds option"
  bo_worker_id :: "string option"
  bo_completed_at :: "seconds option"
  bo_counts :: "int \<times> int \<times> int"
  bo_usage :: "usage_stats option"

definition has_usage :: "batch \<Rightarrow> bool" where
  "has_usage b \<longleftrightarrow> b_prompt_tokens b \<noteq> None \<or> b_completion_tokens b \<noteq> None \<or> b_total_tokens b \<noteq> None"

definition usage_of :: "batch \<Rightarrow> usage_stats option" where
  "usage_of b = (if has_usage b then Some \<lparr>us_prompt = b_prompt_tokens b,
       us_completion = b_completion_tokens b, us_total = b_total_tokens b\<rparr> else None)"

definition batch_out_of :: "batch \<Rightarrow> seconds option \<Rightarrow> string option \<Rightarrow> batch_out" where
  "batch_out_of b in_progress_at wid = \<lparr>bo_id = b_id b, bo_endpoint = b_endpoint b, bo_model = b_model b,
     bo_input_file_id = b_input_file_id b, bo_status = b_status b,
     bo_output_file_id = b_output_file_id b, bo_error_details = b_error_details b,
     bo_created_at = b_created_at b, bo_in_progress_at = in_progress_at, bo_worker_id = wid,
     bo_completed_at = b_completed_at b,
     bo_counts = (or0 (b_total b), or0 (b_completed b), or0 (b_failed b)),
     bo_usage = usage_of b\<rparr>"

text \<open>The provider's view: no input file, no prompt content.\<close>

record batch_summary =
  bs_id :: string
  bs_endpoint :: string
  bs_model :: "string option"
  bs_status :: batch_status
  bs_created_at :: seconds
  bs_completed_at :: "seconds option"
  bs_counts :: "int \<times> int \<times> int"
  bs_usage :: "usage_stats option"

definition batch_summary_of :: "batch \<Rightarrow> batch_summary" where
  "batch_summary_of b = \<lparr>bs_id = b_id b, bs_endpoint = b_endpoint b, bs_model = b_model b, bs_status = b_status b,
     bs_created_at = b_created_at b, bs_completed_at = b_completed_at b,
     bs_counts = (or0 (b_total b), or0 (b_completed b), or0 (b_failed b)), bs_usage = usage_of b\<rparr>"

text \<open>\<open>_assignments\<close>: one query for the ids of a page.\<close>

definition page_assignments :: "srv \<Rightarrow> string list \<Rightarrow> (string \<times> seconds \<times> string) list" where
  "page_assignments db ids = (if ids = [] then []
     else fold (\<lambda>a. dict_set (a_batch_id a) (a_assigned_at a, a_worker_id a))
            (filter (\<lambda>a. a_batch_id a \<in> set ids) (assignments db)) [])"

definition view_batch :: "(string \<times> seconds \<times> string) list \<Rightarrow> batch \<Rightarrow> batch_out" where
  "view_batch assigned b = (case map_of assigned (b_id b) of
       None \<Rightarrow> batch_out_of b None None
     | Some (since, wid) \<Rightarrow> batch_out_of b (Some since) (Some wid))"

section \<open>Batches\<close>

record batch_create =
  bc_input_file_id :: string
  bc_endpoint :: string
  bc_completion_window :: string
  bc_metadata :: "(string \<times> string) list option"

definition metadata_ok :: "(string \<times> string) list option \<Rightarrow> bool" where
  "metadata_ok m = (case m of
       None \<Rightarrow> True
     | Some kvs \<Rightarrow> length kvs \<le> 16 \<and> (\<forall>kv \<in> set kvs. length (fst kv) \<le> 64 \<and> length (snd kv) \<le> 512))"

definition new_batch :: "string \<Rightarrow> human \<Rightarrow> batch_create \<Rightarrow> seconds \<Rightarrow> batch" where
  "new_batch bid ctx req now = \<lparr>b_id = bid, b_user_id = Some (usr_id (fst ctx)),
     b_api_key_id = map_option ak_id (snd ctx), b_endpoint = bc_endpoint req, b_model = None,
     b_input_file_id = bc_input_file_id req, b_completion_window = bc_completion_window req,
     b_status = Validating, b_output_file_id = None, b_created_at = now, b_expires_at = None,
     b_requested_at = None, b_completed_at = None, b_total = Some 0, b_completed = Some 0,
     b_failed = Some 0, b_error_details = None, b_attempts = Some 0,
     b_metadata = bc_metadata req, b_required_capabilities = None, b_prompt_tokens = None,
     b_completion_tokens = None, b_total_tokens = None, b_ingest_pending = False,
     b_ingest_attempts = Some 0\<rparr>"

text \<open>Answer: the batch's view and the validation task \<open>(batch id, path)\<close>.\<close>

definition create_batch :: "human \<Rightarrow> batch_create \<Rightarrow> string \<Rightarrow> seconds \<Rightarrow> srv \<Rightarrow>
    ((batch_out \<times> string \<times> string) \<times> srv) api" where
  "create_batch ctx req new_bid now db =
     ebind (require (metadata_ok (bc_metadata req)) 422) (\<lambda>_.
     ebind (get_or 400 (get_file_row db (bc_input_file_id req))) (\<lambda>f.
     ebind (require (\<not> (usr_role (fst ctx) = RoleUser \<and> f_user_id f \<noteq> Some (usr_id (fst ctx)))) 403) (\<lambda>_.
     let b = new_batch new_bid ctx req now in
     Inr ((batch_out_of b None None, new_bid, f_filepath f), db\<lparr>batches := tbl_add b (batches db)\<rparr>))))"

definition may_read_batch :: "user_row \<Rightarrow> batch \<Rightarrow> bool" where
  "may_read_batch user b \<longleftrightarrow> \<not> (usr_role user = RoleUser \<and> b_user_id b \<noteq> Some (usr_id user))"

definition get_batch :: "human \<Rightarrow> string \<Rightarrow> srv \<Rightarrow> batch_out api" where
  "get_batch ctx bid db =
     ebind (get_or 404 (get_batch_row db bid)) (\<lambda>b.
     ebind (require (may_read_batch (fst ctx) b) 403) (\<lambda>_.
     Inr (view_batch (page_assignments db [b_id b]) b)))"

definition get_batch_usage :: "human \<Rightarrow> string \<Rightarrow> srv \<Rightarrow> usage_row list api" where
  "get_batch_usage ctx bid db =
     ebind (get_or 404 (get_batch_row db bid)) (\<lambda>b.
     ebind (require (may_read_batch (fst ctx) b) 403) (\<lambda>_.
     Inr (sort_key ur_created_at (sort_key ur_custom_id (batch_usage db bid)))))"

definition list_batches :: "human \<Rightarrow> srv \<Rightarrow> batch_out list" where
  "list_batches ctx db =
     (let rows = filter (may_read_batch (fst ctx)) (batches db);
          sorted_rows = sort_key (\<lambda>b. - b_created_at b) rows;
          assigned = page_assignments db (map b_id sorted_rows)
      in map (view_batch assigned) sorted_rows)"

text \<open>The event stream: any caller may open one; \<open>q\<close> is the new queue. The generator takes
  events until one reports a final validation status.\<close>

definition batch_events :: "human \<Rightarrow> string \<Rightarrow> nat \<Rightarrow> srv \<Rightarrow> sse \<Rightarrow> sse api" where
  "batch_events ctx bid q db s =
     ebind (get_or 404 (get_batch_row db bid)) (\<lambda>_. Inr (subscribe bid q s))"

fun deliver :: "(event \<Rightarrow> bool) \<Rightarrow> event list \<Rightarrow> event list \<times> bool" where
  "deliver terminal [] = ([], False)"
| "deliver terminal (ev # evs) = (if terminal ev then ([ev], True)
     else case deliver terminal evs of (out, finished) \<Rightarrow> (ev # out, finished))"

section \<open>Files\<close>

definition upload_file :: "human \<Rightarrow> string \<Rightarrow> string \<Rightarrow> string \<Rightarrow> string list \<Rightarrow> int \<Rightarrow> seconds \<Rightarrow> srv \<Rightarrow>
    file_row \<times> srv" where
  "upload_file ctx new_fid filename purpose content nbytes now db =
     (let f = \<lparr>f_id = new_fid, f_user_id = Some (usr_id (fst ctx)),
               f_filename = (if filename = [] then ''upload.jsonl'' else filename),
               f_purpose = purpose, f_bytes = nbytes, f_filepath = output_path new_fid,
               f_created_at = now\<rparr>
      in (f, db\<lparr>files := tbl_add f (files db), disk := (disk db)(output_path new_fid \<mapsto> content)\<rparr>))"

definition file_assigned_worker_org :: "srv \<Rightarrow> string \<Rightarrow> string option" where
  "file_assigned_worker_org db fid =
     Option.bind (find (\<lambda>b. b_input_file_id b = fid) (batches db)) (\<lambda>b.
     Option.bind (get_assignment db (b_id b)) (\<lambda>a.
     map_option w_org_id (get_worker_row db (a_worker_id a))))"

definition list_files :: "human \<Rightarrow> srv \<Rightarrow> file_row list" where
  "list_files ctx db = sort_key (\<lambda>f. - f_created_at f)
     (filter (\<lambda>f. usr_role (fst ctx) = RoleSuperadmin \<or> f_user_id f = Some (usr_id (fst ctx))) (files db))"

definition active_statuses :: "batch_status list" where
  "active_statuses = [Validating, Validated, InProgress]"

text \<open>\<open>removed\<close>: whether the file could be removed from disk.\<close>

definition delete_file :: "human \<Rightarrow> string \<Rightarrow> bool \<Rightarrow> srv \<Rightarrow> (string \<times> srv) api" where
  "delete_file ctx fid removed db =
     ebind (get_or 404 (get_file_row db fid)) (\<lambda>f.
     ebind (require (usr_role (fst ctx) = RoleSuperadmin \<or> f_user_id f = Some (usr_id (fst ctx))) 403) (\<lambda>_.
     ebind (require (find (\<lambda>b. b_input_file_id b = fid \<and> b_status b \<in> set active_statuses) (batches db) = None) 409) (\<lambda>_.
     Inr (fid, db\<lparr>disk := (if f_filepath f \<noteq> [] \<and> removed then (disk db)(f_filepath f := None) else disk db),
                   files := tbl_del f_id fid (files db)\<rparr>))))"

definition may_read_file :: "srv \<Rightarrow> principal \<Rightarrow> file_row \<Rightarrow> bool" where
  "may_read_file db p f = (case p of
       AsWorker g \<Rightarrow> file_assigned_worker_org db (f_id f) = Some (org_id g)
     | AsUser u \<Rightarrow>
         if usr_role u = RoleSuperadmin \<or> f_user_id f = Some (usr_id u) then True
         else (case file_assigned_worker_org db (f_id f) of
             None \<Rightarrow> False
           | Some oid \<Rightarrow> oid \<noteq> [] \<and>
               find (\<lambda>m. mb_org_id m = oid \<and> mb_user_id m = usr_id u) (memberships db) \<noteq> None))"

definition download_file_content :: "principal \<Rightarrow> string \<Rightarrow> srv \<Rightarrow> (string \<times> string list) api" where
  "download_file_content p fid db =
     ebind (get_or 404 (get_file_row db fid)) (\<lambda>f.
     ebind (require (may_read_file db p f) 403) (\<lambda>_.
     ebind (get_or 404 (disk db (f_filepath f))) (\<lambda>content.
     Inr (f_filename f, content))))"

section \<open>Lemmas\<close>

lemma map_of_fold_assignments:
  "map_of (fold (\<lambda>a. dict_set (a_batch_id a) (g a)) as d) k =
    (case find (\<lambda>a. a_batch_id a = k) (rev as) of Some a \<Rightarrow> Some (g a) | None \<Rightarrow> map_of d k)"
  by (induction as arbitrary: d) (auto simp: find_append split: option.splits)

lemma find_filter_weaker: "(\<And>x. P x \<Longrightarrow> Q x) \<Longrightarrow> find P (filter Q xs) = find P xs"
  by (induction xs) auto

lemma find_rev_distinct:
  "distinct (map key xs) \<Longrightarrow> find (\<lambda>x. key x = k) (rev xs) = find (\<lambda>x. key x = k) xs"
proof (induction xs)
  case (Cons x xs)
  have "key x = k \<Longrightarrow> find (\<lambda>x. key x = k) xs = None"
    using Cons.prems by (auto simp: find_None_iff) (metis image_eqI)
  with Cons show ?case by (auto simp: find_append split: option.splits)
qed simp

lemma page_assignments_lookup:
  assumes "distinct (map a_batch_id (assignments db))" "i \<in> set ids"
  shows "map_of (page_assignments db ids) i =
    map_option (\<lambda>a. (a_assigned_at a, a_worker_id a)) (get_assignment db i)"
proof -
  have "find (\<lambda>a. a_batch_id a = i) (rev (filter (\<lambda>a. a_batch_id a \<in> set ids) (assignments db))) =
      find (\<lambda>a. a_batch_id a = i) (filter (\<lambda>a. a_batch_id a \<in> set ids) (assignments db))"
    using assms(1) by (intro find_rev_distinct) (simp add: distinct_map_filter)
  also have "\<dots> = get_assignment db i"
    unfolding tbl_get_def by (rule find_filter_weaker) (use assms(2) in simp)
  finally show ?thesis
    using assms(2) by (auto simp: page_assignments_def map_of_fold_assignments split: option.splits)
qed

lemma deliver_prefix: "prefix (fst (deliver terminal evs)) evs"
  by (induction evs) (auto split: prod.splits)

lemma deliver_stops:
  "deliver terminal evs = (out, finished) \<Longrightarrow>
    (finished \<longleftrightarrow> (\<exists>ev \<in> set evs. terminal ev)) \<and> (\<forall>ev \<in> set (butlast out). \<not> terminal ev)"
  by (induction evs arbitrary: out) (auto split: if_splits prod.splits)

end
