(* ===== verification/Catalog_Service.thy ===== *)
theory Catalog_Service
  imports Reconciliation Auth
begin

text \<open>
  \<open>backend/catalog_service.py\<close> and the naming rules of \<open>backend/catalog_seed.py\<close>: turning a
  worker-reported hash into a catalogue entry, by hand (\<open>adopt\<close>, which the endpoint of theory
  Catalog_Admin calls) or by the pass that trusts the identity resolver (\<open>auto_adopt_pass\<close>, which the
  sweeper's turn of theory Startup runs).
  \<open>rnd1\<close> and \<open>rnd2\<close> are the rounding of a float to one and two digits. The text fields of a
  row's \<open>details\<close> are read as strings: that is how the daemons report them.
\<close>

section \<open>Slugs\<close>

definition is_alnum :: "char \<Rightarrow> bool" where
  "is_alnum c = (let n = (of_char c :: nat) in (48 \<le> n \<and> n \<le> 57) \<or> (97 \<le> n \<and> n \<le> 122))"

text \<open>\<open>re.sub("[^a-z0-9]", "", s.lower())\<close>, which is both \<open>_norm\<close> and \<open>quant_slug\<close>.\<close>

definition norm_word :: "string \<Rightarrow> string" where
  "norm_word s = filter is_alnum (lower s)"

definition quant_slug :: "string option \<Rightarrow> string" where
  "quant_slug q = norm_word (case q of None \<Rightarrow> [] | Some s \<Rightarrow> s)"

text \<open>\<open>re.sub("[^a-z0-9]+", "-", s)\<close>: each maximal run of other characters becomes one dash;
  the flag says that a dash has just been written for the current run.\<close>

fun sub_runs :: "bool \<Rightarrow> string \<Rightarrow> string" where
  "sub_runs in_run [] = []"
| "sub_runs in_run (c # cs) =
     (if is_alnum c then c # sub_runs False cs
      else if in_run then sub_runs True cs else CHR ''-'' # sub_runs True cs)"

definition strip_dashes :: "string \<Rightarrow> string" where
  "strip_dashes s = rev (dropWhile (\<lambda>c. c = CHR ''-'') (rev (dropWhile (\<lambda>c. c = CHR ''-'') s)))"

definition slugify :: "string \<Rightarrow> string" where
  "slugify s = strip_dashes (sub_runs False (lower s))"

definition draft_slug :: "string \<Rightarrow> string option \<Rightarrow> string" where
  "draft_slug local_name quantization =
     (let (repo, tag) = partition_at CHR '':'' local_name;
          q = quant_slug quantization;
          parts = [slugify repo]
            @ (if tag \<noteq> [] \<and> \<not> (q \<noteq> [] \<and> quant_slug (Some tag) = q) then [slugify tag] else [])
            @ (if q \<noteq> [] then [q] else [])
      in join_with ''-'' (filter (\<lambda>p. p \<noteq> []) parts))"

definition slug_stem :: "string \<Rightarrow> string \<Rightarrow> string" where
  "slug_stem slug q = (if q \<noteq> [] \<and> suffix (CHR ''-'' # q) slug
     then take (length slug - (length q + 1)) slug else slug)"

definition numbered_slug :: "string \<Rightarrow> string \<Rightarrow> nat \<Rightarrow> string" where
  "numbered_slug stem q n = stem @ ''-'' @ str_of_nat n @ (if q \<noteq> [] then CHR ''-'' # q else [])"

text \<open>The loop of \<open>unique_slug\<close> over the ids in use; \<open>n\<close> is the counter before the next
  candidate.\<close>

lemma numbered_slug_inj: "numbered_slug stem q a = numbered_slug stem q b \<longleftrightarrow> a = b"
  by (auto simp: numbered_slug_def dest: str_of_nat_inj)

lemma finite_numbers_used: "finite {m. n < m \<and> numbered_slug stem q m \<in> set ids}"
proof -
  have "{m. n < m \<and> numbered_slug stem q m \<in> set ids} \<subseteq> numbered_slug stem q -` set ids" by auto
  moreover have "finite (numbered_slug stem q -` set ids)"
    by (rule finite_vimageI) (auto simp: inj_def numbered_slug_inj)
  ultimately show ?thesis by (rule finite_subset)
qed

function next_slug :: "string list \<Rightarrow> string \<Rightarrow> string \<Rightarrow> string \<Rightarrow> nat \<Rightarrow> string" where
  "next_slug ids stem q candidate n =
     (if candidate \<in> set ids then next_slug ids stem q (numbered_slug stem q (Suc n)) (Suc n)
      else candidate)"
  by pat_completeness auto
termination
proof (relation "measure (\<lambda>(ids, stem, q, candidate, n).
    card {m. n < m \<and> numbered_slug stem q m \<in> set ids}
    + (if candidate \<in> set ids then 1 else 0))", goal_cases)
  case 1
  show ?case by simp
next
  case (2 ids stem q candidate n)
  let ?U = "\<lambda>n. {m. n < m \<and> numbered_slug stem q m \<in> set ids}"
  have sub: "?U (Suc n) = ?U n - {Suc n}" by auto
  show ?case
  proof (cases "numbered_slug stem q (Suc n) \<in> set ids")
    case True
    then have "Suc n \<in> ?U n" by simp
    then have "card (?U (Suc n)) < card (?U n)"
      unfolding sub using finite_numbers_used [of n] by (intro card_Diff1_less) auto
    with 2 True show ?thesis by simp
  next
    case False
    then have "?U (Suc n) = ?U n" unfolding sub by auto
    with 2 False show ?thesis by simp
  qed
qed

declare next_slug.simps [simp del]

definition unique_slug :: "srv \<Rightarrow> string \<Rightarrow> string option \<Rightarrow> string" where
  "unique_slug db slug quantization =
     next_slug (map c_id (catalog db)) (slug_stem slug (quant_slug quantization))
       (quant_slug quantization) slug 1"

section \<open>Naming rules\<close>

definition runtime_segments :: "string list" where
  "runtime_segments = [''ollama'', ''vllm'', ''llamacpp'', ''tgi'']"

text \<open>\<open>^[a-z0-9]+(-[a-z0-9]+)*$\<close>: the dollar also matches before a final newline.\<close>

definition slug_segments_ok :: "string \<Rightarrow> bool" where
  "slug_segments_ok s \<longleftrightarrow> (\<forall>w \<in> set (split_on CHR ''-'' s). w \<noteq> [] \<and> list_all is_alnum w)"

definition id_re_match :: "string \<Rightarrow> bool" where
  "id_re_match s \<longleftrightarrow> slug_segments_ok s \<or>
     (s \<noteq> [] \<and> last s = CHR 0x0A \<and> slug_segments_ok (butlast s))"

definition validate_entry_id :: "string \<Rightarrow> string option \<Rightarrow> string list" where
  "validate_entry_id mid quant =
     (if \<not> id_re_match mid then [''format''] else [])
     @ (if set (split_on CHR ''-'' mid) \<inter> set runtime_segments \<noteq> {} then [''runtime name''] else [])
     @ (if truthy quant \<and> \<not> suffix (CHR ''-'' # quant_slug quant) mid then [''quant suffix''] else [])"

section \<open>Drafting an entry\<close>

definition embedding_families :: "string list" where
  "embedding_families = map norm_word [''nomic-bert'', ''bert'', ''xlm-roberta'', ''bge'']"

definition vision_families :: "string list" where
  "vision_families = map norm_word [''gemma3'', ''gemma3n'', ''gemma4'', ''qwen2_vl'', ''qwen2_5_vl'',
     ''qwen3_vl'', ''llava'', ''mllama'', ''mistral3'', ''mistral3vision'', ''pixtral'']"

definition capabilities_json :: "bool \<Rightarrow> bool \<Rightarrow> json" where
  "capabilities_json embeddings vision = JObj [(''embeddings'', JBool embeddings),
     (''json_mode'', JBool (\<not> embeddings)), (''vision'', JBool vision)]"

definition detail :: "string \<Rightarrow> jdict \<Rightarrow> string option" where
  "detail k d = jstr (jget k d)"

definition infer_task_and_capabilities :: "string \<Rightarrow> jdict \<Rightarrow> string \<times> json" where
  "infer_task_and_capabilities local_name details =
     (let family = norm_word (case detail ''family'' details of None \<Rightarrow> [] | Some f \<Rightarrow> f);
          name = lower local_name in
      if family \<in> set embedding_families \<or> sublist ''embed'' name
      then (''embedding'', capabilities_json True False)
      else (''chat'', capabilities_json False (family \<in> set vision_families
              \<or> ''vl'' \<in> set (split_on CHR ''-'' (hd (split_on CHR '':'' name)))
              \<or> sublist ''llava'' name)))"

definition estimate_vram_gb :: "(gb \<Rightarrow> gb) \<Rightarrow> int option \<Rightarrow> gb option" where
  "estimate_vram_gb rnd1 size_bytes =
     (if or0 size_bytes = 0 then None
      else Some (rnd1 (of_int (or0 size_bytes) / 1024 ^ 3 * (12 / 10) + 1 / 2)))"

section \<open>Adoption\<close>

record adopt_request =
  ad_sha256 :: string
  ad_id :: string
  ad_display_name :: string
  ad_runtime :: string
  ad_runtime_model_id :: string
  ad_vram_gb :: "gb option"
  ad_extra_names :: "string list"
  ad_quantization :: "string option"
  ad_task_type :: string
  ad_capabilities :: "json option"
  ad_lineage :: "string option"
  ad_size_gb :: "gb option"
  ad_parameter_size :: "string option"
  ad_context_length :: "int option"
  ad_org_id :: "string option"
  ad_source_type :: string
  ad_source_ref :: "string option"
  ad_source_revision :: "string option"
  ad_homepage_url :: "string option"
  ad_adopted_by :: "string option"
  ad_enabled :: bool

text \<open>\<open>sha256.strip().lower().split(":", 1)[-1]\<close>.\<close>

definition adopt_digest :: "string \<Rightarrow> string" where
  "adopt_digest sha = (let s = lower (strip sha) in
     if CHR '':'' \<in> set s then snd (partition_at CHR '':'' s) else s)"

definition ad_extras :: "adopt_request \<Rightarrow> string list" where
  "ad_extras req = filter (\<lambda>n. n \<noteq> ad_runtime_model_id req) (ad_extra_names req)"

definition adopted_entry :: "adopt_request \<Rightarrow> catalog_entry" where
  "adopted_entry req = \<lparr>c_id = ad_id req, c_display_name = ad_display_name req,
     c_runtime = ad_runtime req, c_runtime_model_id = ad_runtime_model_id req,
     c_digest = Some (adopt_digest (ad_sha256 req)), c_quantization = ad_quantization req,
     c_vram_gb = ad_vram_gb req, c_size_gb = ad_size_gb req, c_task_type = Some (ad_task_type req),
     c_parameter_size = ad_parameter_size req, c_context_length = ad_context_length req,
     c_capabilities = ad_capabilities req, c_lineage = ad_lineage req,
     c_source_type = Some (ad_source_type req), c_source_ref = ad_source_ref req,
     c_source_revision = ad_source_revision req, c_homepage_url = ad_homepage_url req,
     c_org_id = ad_org_id req, c_status = CatUnverified, c_enabled = ad_enabled req,
     c_adopted_by = ad_adopted_by req,
     c_profiles = [\<lparr>p_runtime = ad_runtime req, p_runtime_model_id = ad_runtime_model_id req,
        p_extra_ids = (if ad_extras req = [] then None else Some (ad_extras req)), p_params = None\<rparr>],
     c_files = []\<rparr>"

definition adopt :: "adopt_request \<Rightarrow> srv \<Rightarrow> ((string \<times> nat) \<times> srv) api" where
  "adopt req db =
     ebind (require (validate_entry_id (ad_id req) (ad_quantization req) = []) 400) (\<lambda>_.
     ebind (require (tbl_get c_id (ad_id req) (catalog db) = None) 409) (\<lambda>_.
     ebind (require (find_entry_by_hash (catalog db) (Some (ad_sha256 req)) = None) 409) (\<lambda>_.
     let names = local_names_for_hash db (Some (ad_sha256 req)) in
     ebind (require (names = [] \<or> (\<forall>n \<in> set (ad_runtime_model_id req # ad_extras req). n \<in> set names)) 400) (\<lambda>_.
     ebind (require (case ad_org_id req of None \<Rightarrow> True
              | Some oid \<Rightarrow> find (\<lambda>g. org_id g = oid) (orgs db) \<noteq> None) 400) (\<lambda>_.
     let db1 = db\<lparr>catalog := tbl_add (adopted_entry req) (catalog db)\<rparr>;
         (db2, verified) = reclassify_hash db1 (adopt_digest (ad_sha256 req))
     in Inr ((ad_id req, verified), db2))))))"

section \<open>The auto-adopt pass\<close>

record candidate =
  cd_digest :: string
  cd_names :: "string list"
  cd_runtime :: string
  cd_details :: "jdict option"
  cd_size :: "int option"
  cd_files :: "artifact_ref list option"

definition first_some :: "('a \<Rightarrow> bool) \<Rightarrow> 'a option \<Rightarrow> 'a option \<Rightarrow> 'a option" where
  "first_some good old new = (case old of Some v \<Rightarrow> Some v
     | None \<Rightarrow> (case new of Some v \<Rightarrow> if good v then Some v else None | None \<Rightarrow> None))"

definition row_digest :: "string \<Rightarrow> string" where
  "row_digest s = (let t = lower s in if CHR '':'' \<in> set t then snd (partition_at CHR '':'' t) else t)"

definition merge_row :: "model_row \<Rightarrow> candidate \<Rightarrow> candidate" where
  "merge_row m c = c\<lparr>
     cd_names := (if m_name m \<in> set (cd_names c) then cd_names c else cd_names c @ [m_name m]),
     cd_details := first_some (\<lambda>d. d \<noteq> []) (cd_details c) (m_details m),
     cd_size := first_some (\<lambda>n. n \<noteq> 0) (cd_size c) (m_size_bytes m),
     cd_files := first_some (\<lambda>fs. fs \<noteq> []) (cd_files c) (m_files m)\<rparr>"

definition add_candidate :: "model_row \<times> string \<Rightarrow> (string \<times> candidate) list \<Rightarrow> (string \<times> candidate) list" where
  "add_candidate row by_digest = (case row of (m, engine) \<Rightarrow>
     (let d = row_digest (the (m_digest m));
          c = (case map_of by_digest d of Some c \<Rightarrow> c
               | None \<Rightarrow> \<lparr>cd_digest = d, cd_names = [], cd_runtime = engine, cd_details = None,
                          cd_size = None, cd_files = None\<rparr>)
      in dict_set d (merge_row m c) by_digest))"

definition quarantined_rows :: "srv \<Rightarrow> (model_row \<times> string) list" where
  "quarantined_rows db = [(m, rt_engine rt). w \<leftarrow> workers db, rt \<leftarrow> w_runtimes w, m \<leftarrow> rt_models rt,
     m_status m = Unregistered \<and> m_digest m \<noteq> None]"

definition candidates :: "srv \<Rightarrow> candidate list" where
  "candidates db = map snd (fold add_candidate (quarantined_rows db) [])"

definition pick_served_alias :: "string list \<Rightarrow> string option \<Rightarrow> string option" where
  "pick_served_alias names source_ref =
     (let short = filter (\<lambda>n. n \<noteq> [] \<and> CHR ''/'' \<notin> set n) (sort (fromkeys names)) in
      if short \<noteq> [] then Some (hd (sort_key length short))
      else if truthy source_ref \<and> the source_ref \<in> set names then source_ref
      else None)"

definition lineage_for :: "confirmed \<Rightarrow> jdict \<Rightarrow> string option" where
  "lineage_for res details =
     (if cf_source_ref res = [] then None
      else if cf_source_type res = ''huggingface'' then Some (cf_source_ref res)
      else (case detail ''parameter_size'' details of
          None \<Rightarrow> None
        | Some p \<Rightarrow> if p = [] then None else Some (cf_source_ref res @ '':'' @ p)))"

text \<open>The resolver object: a name, a digest, and the hints (repository, commit, shard hashes).\<close>

type_synonym 'r resolve_fn = "string \<Rightarrow> string option \<Rightarrow> string option \<Rightarrow> string option \<Rightarrow>
  string list \<Rightarrow> 'r \<Rightarrow> (py_exn + resolution) \<times> 'r"

definition shard_hashes :: "candidate \<Rightarrow> string list" where
  "shard_hashes c = List.map_filter (\<lambda>f. case af_sha256 f of
       Some s \<Rightarrow> if s = [] then None else Some s | None \<Rightarrow> None)
     (case cd_files c of None \<Rightarrow> [] | Some fs \<Rightarrow> fs)"

text \<open>One name: a mismatch at a hinted commit is retried at the repository's current one.\<close>

definition resolve_name :: "'r resolve_fn \<Rightarrow> candidate \<Rightarrow> jdict \<Rightarrow> string \<Rightarrow> 'r \<Rightarrow> (py_exn + resolution) \<times> 'r" where
  "resolve_name res c details name r =
     (let source_ref = detail ''source_ref'' details; revision = detail ''source_revision'' details in
      case res name (Some (cd_digest c)) source_ref revision (shard_hashes c) r of
        (Inl e, r1) \<Rightarrow> (Inl e, r1)
      | (Inr v, r1) \<Rightarrow>
          if v = Unconfirmed ''digest-mismatch'' \<and> truthy revision
          then res name (Some (cd_digest c)) source_ref None (shard_hashes c) r1
          else (Inr v, r1))"

fun confirm_names :: "'r resolve_fn \<Rightarrow> candidate \<Rightarrow> jdict \<Rightarrow> string list \<Rightarrow> 'r \<Rightarrow>
    (py_exn + (string \<times> confirmed) option) \<times> 'r" where
  "confirm_names res c details [] r = (Inr None, r)"
| "confirm_names res c details (name # names) r =
     (case resolve_name res c details name r of
        (Inl e, r1) \<Rightarrow> (Inl e, r1)
      | (Inr (Confirmed cf), r1) \<Rightarrow> (Inr (Some (name, cf)), r1)
      | (Inr (Unconfirmed _), r1) \<Rightarrow> confirm_names res c details names r1)"

definition is_path :: "string \<Rightarrow> bool" where
  "is_path n \<longleftrightarrow> prefix ''/'' n \<or> prefix ''./'' n \<or> prefix ''~'' n"

definition artifact_files :: "candidate \<Rightarrow> confirmed \<Rightarrow> artifact_row list" where
  "artifact_files c cf =
     (if truthy (cd_files c) then
        map (\<lambda>(i, f). \<lparr>ca_file = af_file f, ca_role = (if i = 0 then ''weights'' else ''shard''),
                       ca_sha256 = af_sha256 f, ca_size = af_size f\<rparr>) (enumerate 0 (the (cd_files c)))
      else if truthy (cf_source_file cf) then
        [\<lparr>ca_file = the (cf_source_file cf), ca_role = ''weights'',
          ca_sha256 = Some (cd_digest c), ca_size = cd_size c\<rparr>]
      else [])"

definition served_name :: "candidate \<Rightarrow> string \<Rightarrow> confirmed \<Rightarrow> string option" where
  "served_name c name cf =
     (if cd_runtime c = ''vllm'' then pick_served_alias (cd_names c) (Some (cf_source_ref cf)) else Some name)"

definition auto_request :: "(gb \<Rightarrow> gb) \<Rightarrow> (gb \<Rightarrow> gb) \<Rightarrow> bool \<Rightarrow> srv \<Rightarrow> candidate \<Rightarrow> confirmed \<Rightarrow> string \<Rightarrow>
    adopt_request" where
  "auto_request rnd1 rnd2 enabled db c cf served =
     (let details = (case cd_details c of None \<Rightarrow> [] | Some d \<Rightarrow> d);
          quant = detail ''quantization'' details;
          (task_type, caps) = infer_task_and_capabilities served details;
          slug_base = (if cd_runtime c = ''vllm'' \<and> cf_source_type cf = ''huggingface''
                       then cf_source_ref cf else served)
      in \<lparr>ad_sha256 = cd_digest c, ad_id = unique_slug db (draft_slug slug_base quant) quant,
          ad_display_name = served, ad_runtime = cd_runtime c, ad_runtime_model_id = served,
          ad_vram_gb = estimate_vram_gb rnd1 (cd_size c),
          ad_extra_names = (if cd_runtime c = ''vllm''
             then filter (\<lambda>n. n \<noteq> served \<and> \<not> is_path n) (sort (fromkeys (cd_names c))) else []),
          ad_quantization = quant, ad_task_type = task_type, ad_capabilities = Some caps,
          ad_lineage = lineage_for cf details,
          ad_size_gb = (if or0 (cd_size c) = 0 then None
                        else Some (rnd2 (of_int (or0 (cd_size c)) / 1024 ^ 3))),
          ad_parameter_size = detail ''parameter_size'' details,
          ad_context_length = (case jget ''context_length'' details of JInt n \<Rightarrow> Some n | _ \<Rightarrow> None),
          ad_org_id = None, ad_source_type = cf_source_type cf, ad_source_ref = Some (cf_source_ref cf),
          ad_source_revision = cf_source_revision cf, ad_homepage_url = Some (cf_homepage_url cf),
          ad_adopted_by = Some ''auto'', ad_enabled = enabled\<rparr>)"

text \<open>One confirmed candidate: the database after the commit (or the rollback), and whether it
  was adopted.\<close>

definition adopt_candidate :: "(gb \<Rightarrow> gb) \<Rightarrow> (gb \<Rightarrow> gb) \<Rightarrow> bool \<Rightarrow> candidate \<Rightarrow> string \<Rightarrow> confirmed \<Rightarrow>
    srv \<Rightarrow> srv \<times> bool" where
  "adopt_candidate rnd1 rnd2 enabled c name cf db = (case served_name c name cf of
       None \<Rightarrow> (db, False)
     | Some served \<Rightarrow> (case adopt (auto_request rnd1 rnd2 enabled db c cf served) db of
           Inl _ \<Rightarrow> (db, False)
         | Inr ((eid, _), db') \<Rightarrow> (db'\<lparr>catalog := tbl_upd c_id eid
               (\<lambda>e. e\<lparr>c_files := c_files e @ artifact_files c cf\<rparr>) (catalog db')\<rparr>, True)))"

text \<open>The pass over the candidates: an exception of the resolver ends it, with the adoptions so
  far already committed.\<close>

fun adopt_all :: "'r resolve_fn \<Rightarrow> (gb \<Rightarrow> gb) \<Rightarrow> (gb \<Rightarrow> gb) \<Rightarrow> bool \<Rightarrow> candidate list \<Rightarrow> srv \<times> 'r \<Rightarrow>
    (py_exn + nat) \<times> srv \<times> 'r" where
  "adopt_all res rnd1 rnd2 enabled [] (db, r) = (Inr 0, db, r)"
| "adopt_all res rnd1 rnd2 enabled (c # cs) (db, r) =
     (case confirm_names res c (case cd_details c of None \<Rightarrow> [] | Some d \<Rightarrow> d) (cd_names c) r of
        (Inl e, r1) \<Rightarrow> (Inl e, db, r1)
      | (Inr None, r1) \<Rightarrow> adopt_all res rnd1 rnd2 enabled cs (db, r1)
      | (Inr (Some (name, cf)), r1) \<Rightarrow>
          (case adopt_candidate rnd1 rnd2 enabled c name cf db of
             (db1, did) \<Rightarrow> (case adopt_all res rnd1 rnd2 enabled cs (db1, r1) of
                 (Inl e, out) \<Rightarrow> (Inl e, out)
               | (Inr n, out) \<Rightarrow> (Inr (if did then Suc n else n), out))))"

definition auto_adopt_pass :: "'r resolve_fn \<Rightarrow> (gb \<Rightarrow> gb) \<Rightarrow> (gb \<Rightarrow> gb) \<Rightarrow> bool \<Rightarrow> srv \<times> 'r \<Rightarrow>
    (py_exn + nat) \<times> srv \<times> 'r" where
  "auto_adopt_pass res rnd1 rnd2 enabled s = adopt_all res rnd1 rnd2 enabled (candidates (fst s)) s"

end
