(* ===== verification/Org_Members.thy ===== *)
theory Org_Members
  imports Auth
begin

text \<open>
  \<open>backend/routers/organizations.py\<close>, the membership half: who may act in an organization,
  invitations, roles, ownership. The caller is the user resolved from a JWT. A role or a key
  type arrives as a string and is parsed by the same check as in the code. Sending the
  invitation mail is best effort and left out.
\<close>

definition parse_role :: "string \<Rightarrow> org_role option" where
  "parse_role r = map_of [(''owner'', Owner), (''admin'', Admin), (''viewer'', Viewer)] r"

definition find_membership :: "srv \<Rightarrow> string \<Rightarrow> string \<Rightarrow> membership_row option" where
  "find_membership db oid uid = find (\<lambda>m. mb_org_id m = oid \<and> mb_user_id m = uid) (memberships db)"

text \<open>An empty list of roles asks for any membership. A superadmin passes without one.\<close>

definition require_membership :: "srv \<Rightarrow> user_row \<Rightarrow> string \<Rightarrow> org_role list \<Rightarrow> membership_row option api" where
  "require_membership db user oid roles =
     (let m = find (\<lambda>m. mb_org_id m = oid \<and> mb_user_id m = usr_id user
                \<and> (roles \<noteq> [] \<longrightarrow> mb_role m \<in> set roles)) (memberships db)
      in if m = None \<and> usr_role user \<noteq> RoleSuperadmin then Inl (HTTP 403) else Inr m)"

definition validate_role :: "string \<Rightarrow> org_role api" where
  "validate_role r = get_or 400 (parse_role r)"

definition count_owners :: "srv \<Rightarrow> string \<Rightarrow> nat" where
  "count_owners db oid = length (filter (\<lambda>m. mb_org_id m = oid \<and> mb_role m = Owner) (memberships db))"

definition add_membership :: "string \<Rightarrow> string \<Rightarrow> string \<Rightarrow> org_role \<Rightarrow> srv \<Rightarrow> srv" where
  "add_membership mid oid uid r db = db\<lparr>memberships :=
     tbl_add \<lparr>mb_id = mid, mb_org_id = oid, mb_user_id = uid, mb_role = r\<rparr> (memberships db)\<rparr>"

definition del_membership :: "string \<Rightarrow> srv \<Rightarrow> srv" where
  "del_membership mid db = db\<lparr>memberships := tbl_del mb_id mid (memberships db)\<rparr>"

definition set_role :: "string \<Rightarrow> org_role \<Rightarrow> srv \<Rightarrow> srv" where
  "set_role mid r db = db\<lparr>memberships := tbl_upd mb_id mid (\<lambda>m. m\<lparr>mb_role := r\<rparr>) (memberships db)\<rparr>"

section \<open>Listing\<close>

definition list_user_organizations :: "user_row \<Rightarrow> srv \<Rightarrow> (string \<times> string \<times> org_role \<times> string option) list" where
  "list_user_organizations user db =
     [(org_id g, org_name g, mb_role m, get_org_owner db (org_id g)).
        m \<leftarrow> memberships db, mb_user_id m = usr_id user,
        g \<leftarrow> (case get_org db (Some (mb_org_id m)) of None \<Rightarrow> [] | Some g \<Rightarrow> [g])]"

text \<open>\<open>GET /me/organizations\<close>, with the creation time besides.\<close>

definition my_organizations :: "user_row \<Rightarrow> srv \<Rightarrow> (string \<times> string \<times> org_role \<times> string option \<times> seconds) list" where
  "my_organizations user db =
     [(org_id g, org_name g, mb_role m, get_org_owner db (org_id g), org_created_at g).
        m \<leftarrow> memberships db, mb_user_id m = usr_id user,
        g \<leftarrow> (case get_org db (Some (mb_org_id m)) of None \<Rightarrow> [] | Some g \<Rightarrow> [g])]"

definition list_members :: "user_row \<Rightarrow> string \<Rightarrow> srv \<Rightarrow> (string \<times> string \<times> org_role \<times> string) list api" where
  "list_members user oid db = ebind (require_membership db user oid []) (\<lambda>_.
     Inr [(usr_id u, usr_email u, mb_role m, mb_id m).
        m \<leftarrow> memberships db, mb_org_id m = oid, u \<leftarrow> users db, usr_id u = mb_user_id m])"

definition list_invites :: "user_row \<Rightarrow> string \<Rightarrow> seconds \<Rightarrow> srv \<Rightarrow> (invite_row \<times> bool) list api" where
  "list_invites user oid now db = ebind (require_membership db user oid [Owner, Admin]) (\<lambda>_.
     Inr (map (\<lambda>i. (i, inv_expires_at i < now))
       (sort_key (\<lambda>i. - inv_created_at i) (filter (\<lambda>i. inv_org_id i = oid \<and> \<not> inv_accepted i) (invites db)))))"

definition my_invites :: "user_row \<Rightarrow> seconds \<Rightarrow> srv \<Rightarrow> (invite_row \<times> string \<times> bool) list" where
  "my_invites user now db =
     [(i, org_name g, inv_expires_at i < now).
        i \<leftarrow> sort_key (\<lambda>i. - inv_created_at i) (invites db), inv_email i = usr_email user,
        g \<leftarrow> orgs db, org_id g = inv_org_id i]"

section \<open>Inviting and joining\<close>

definition invite_expiry_seconds :: seconds where "invite_expiry_seconds = 7 * 24 * 3600"

datatype invite_outcome = MemberAdded string org_role | InviteSent string string org_role seconds

definition fresh_invite :: "string \<Rightarrow> string \<Rightarrow> user_row \<Rightarrow> string \<Rightarrow> org_role \<Rightarrow> string \<Rightarrow> seconds \<Rightarrow> invite_row" where
  "fresh_invite iid oid user email r token now = \<lparr>inv_id = iid, inv_org_id = oid,
     inv_inviter_id = usr_id user, inv_email = email, inv_user_id = None, inv_role = r, inv_token = token,
     inv_expires_at = now + invite_expiry_seconds, inv_accepted = False, inv_created_at = now\<rparr>"

definition invite_member :: "user_row \<Rightarrow> string \<Rightarrow> string \<Rightarrow> string \<Rightarrow> string \<Rightarrow> string \<Rightarrow> string \<Rightarrow>
    seconds \<Rightarrow> srv \<Rightarrow> (invite_outcome \<times> srv) api" where
  "invite_member user oid raw_email role_name new_mid new_iid token now db =
     ebind (require_membership db user oid [Owner, Admin]) (\<lambda>_.
     ebind (validate_role role_name) (\<lambda>r.
     ebind (if r = Owner then require_membership db user oid [Owner] else Inr None) (\<lambda>_.
     let email = lower (strip raw_email) in
     (case find (\<lambda>u. usr_email u = email) (users db) of
        Some u \<Rightarrow>
          ebind (require (find_membership db oid (usr_id u) = None) 409) (\<lambda>_.
          Inr (MemberAdded (usr_id u) r, add_membership new_mid oid (usr_id u) r db))
      | None \<Rightarrow>
          ebind (require (find (\<lambda>i. inv_org_id i = oid \<and> inv_email i = email \<and> \<not> inv_accepted i
                    \<and> inv_expires_at i > now) (invites db) = None) 409) (\<lambda>_.
          let i = fresh_invite new_iid oid user email r token now in
          Inr (InviteSent new_iid token r (inv_expires_at i),
               db\<lparr>invites := tbl_add i (invites db)\<rparr>))))))"

definition revoke_invite :: "user_row \<Rightarrow> string \<Rightarrow> string \<Rightarrow> srv \<Rightarrow> (unit \<times> srv) api" where
  "revoke_invite user oid token db =
     ebind (require_membership db user oid [Owner, Admin]) (\<lambda>_.
     ebind (get_or 404 (find (\<lambda>i. inv_org_id i = oid \<and> inv_token i = token \<and> \<not> inv_accepted i) (invites db))) (\<lambda>i.
     Inr ((), db\<lparr>invites := tbl_del inv_id (inv_id i) (invites db)\<rparr>)))"

definition upd_invite :: "string \<Rightarrow> (invite_row \<Rightarrow> invite_row) \<Rightarrow> srv \<Rightarrow> srv" where
  "upd_invite iid f db = db\<lparr>invites := tbl_upd inv_id iid f (invites db)\<rparr>"

text \<open>Joining: the one handler that commits a change (the invitation is used up) and then
  raises, when the caller is a member already. The state is therefore beside the answer.\<close>

definition accept_invite :: "user_row \<Rightarrow> string \<Rightarrow> string \<Rightarrow> seconds \<Rightarrow> srv \<Rightarrow> (string \<times> org_role) api \<times> srv" where
  "accept_invite user token new_mid now db =
     (case find (\<lambda>i. inv_token i = token \<and> \<not> inv_accepted i) (invites db) of
        None \<Rightarrow> (Inl (HTTP 404), db)
      | Some i \<Rightarrow>
          if inv_expires_at i < now then (Inl (HTTP 410), db)
          else if lower (inv_email i) \<noteq> lower (usr_email user) then (Inl (HTTP 403), db)
          else if find_membership db (inv_org_id i) (usr_id user) \<noteq> None
          then (Inl (HTTP 409), upd_invite (inv_id i) (\<lambda>i. i\<lparr>inv_accepted := True\<rparr>) db)
          else (Inr (inv_org_id i, inv_role i),
                upd_invite (inv_id i) (\<lambda>i. i\<lparr>inv_accepted := True, inv_user_id := Some (usr_id user)\<rparr>)
                  (add_membership new_mid (inv_org_id i) (usr_id user) (inv_role i) db)))"

section \<open>Roles and ownership\<close>

definition leave_organization :: "user_row \<Rightarrow> string \<Rightarrow> srv \<Rightarrow> (unit \<times> srv) api" where
  "leave_organization user oid db =
     ebind (get_or 404 (find_membership db oid (usr_id user))) (\<lambda>m.
     ebind (require (\<not> (mb_role m = Owner \<and> count_owners db oid \<le> 1)) 409) (\<lambda>_.
     Inr ((), del_membership (mb_id m) db)))"

text \<open>A superadmin who is no owner passes the check with no membership of his own; assigning
  its role then raises, which is a 500.\<close>

definition transfer_ownership :: "user_row \<Rightarrow> string \<Rightarrow> string \<Rightarrow> srv \<Rightarrow> (string \<times> srv) api" where
  "transfer_ownership user oid new_owner db =
     ebind (require_membership db user oid [Owner]) (\<lambda>caller.
     ebind (require (new_owner \<noteq> usr_id user) 400) (\<lambda>_.
     ebind (get_or 404 (find_membership db oid new_owner)) (\<lambda>target.
     ebind (get_or 500 caller) (\<lambda>c.
     Inr (new_owner, set_role (mb_id c) Admin (set_role (mb_id target) Owner db))))))"

definition update_member_role :: "user_row \<Rightarrow> string \<Rightarrow> string \<Rightarrow> string \<Rightarrow> srv \<Rightarrow> (org_role \<times> srv) api" where
  "update_member_role user oid uid role_name db =
     ebind (require_membership db user oid [Owner]) (\<lambda>_.
     ebind (validate_role role_name) (\<lambda>r.
     ebind (get_or 404 (find_membership db oid uid)) (\<lambda>m.
     ebind (require (\<not> (mb_role m = Owner \<and> r \<noteq> Owner \<and> count_owners db oid \<le> 1)) 409) (\<lambda>_.
     Inr (r, set_role (mb_id m) r db)))))"

definition remove_member :: "user_row \<Rightarrow> string \<Rightarrow> string \<Rightarrow> srv \<Rightarrow> (string \<times> srv) api" where
  "remove_member user oid uid db =
     ebind (require_membership db user oid [Owner, Admin]) (\<lambda>_.
     ebind (get_or 404 (find_membership db oid uid)) (\<lambda>m.
     ebind (require (\<not> (mb_role m = Owner \<and> count_owners db oid \<le> 1)) 409) (\<lambda>_.
     ebind (require (case find_membership db oid (usr_id user) of
              None \<Rightarrow> True | Some c \<Rightarrow> \<not> (mb_role c = Admin \<and> mb_role m = Owner)) 403) (\<lambda>_.
     Inr (uid, del_membership (mb_id m) db)))))"

definition create_organization :: "user_row \<Rightarrow> string \<Rightarrow> string \<Rightarrow> string \<Rightarrow> seconds \<Rightarrow> srv \<Rightarrow> string \<times> srv" where
  "create_organization user name new_oid new_mid now db =
     (new_oid, add_membership new_mid new_oid (usr_id user) Owner
        (db\<lparr>orgs := tbl_add \<lparr>org_id = new_oid, org_name = name, org_created_at = now\<rparr> (orgs db)\<rparr>))"

definition rename_org :: "user_row \<Rightarrow> string \<Rightarrow> string \<Rightarrow> srv \<Rightarrow> (string \<times> srv) api" where
  "rename_org user oid raw_name db =
     ebind (require_membership db user oid [Owner, Admin]) (\<lambda>_.
     let name = strip raw_name in
     ebind (require (name \<noteq> []) 400) (\<lambda>_.
     ebind (get_or 404 (get_org db (Some oid))) (\<lambda>g.
     Inr (name, db\<lparr>orgs := tbl_upd org_id oid (\<lambda>g. g\<lparr>org_name := name\<rparr>) (orgs db)\<rparr>))))"

section \<open>Lemmas\<close>

interpretation membership_table: keyed_table mb_id "tbl_get mb_id" "tbl_upd mb_id" tbl_add "tbl_del mb_id"
  by (rule keyed_table_lists)

lemma find_membership_SomeD:
  "find_membership db oid uid = Some m \<Longrightarrow> m \<in> set (memberships db) \<and> mb_org_id m = oid \<and> mb_user_id m = uid"
  unfolding find_membership_def by (drule find_SomeD) simp

lemma require_membership_Some:
  "require_membership db user oid roles = Inr (Some m) \<Longrightarrow>
    m \<in> set (memberships db) \<and> mb_org_id m = oid \<and> mb_user_id m = usr_id user \<and> (roles \<noteq> [] \<longrightarrow> mb_role m \<in> set roles)"
  by (auto simp: require_membership_def Let_def split: if_splits dest!: find_SomeD)

lemma require_membership_None: "require_membership db user oid roles = Inr None \<Longrightarrow> usr_role user = RoleSuperadmin"
  by (auto simp: require_membership_def Let_def split: if_splits)

text \<open>Every organization keeps an owner.\<close>

definition owned :: "srv \<Rightarrow> bool" where
  "owned db \<longleftrightarrow> distinct (map mb_id (memberships db)) \<and>
     (\<forall>g \<in> set (orgs db). \<exists>m \<in> set (memberships db). mb_org_id m = org_id g \<and> mb_role m = Owner)"

lemma count_owners_two:
  assumes "\<not> count_owners db oid \<le> 1" "distinct (map mb_id (memberships db))"
  shows "\<exists>m \<in> set (memberships db). mb_org_id m = oid \<and> mb_role m = Owner \<and> mb_id m \<noteq> mid"
proof (rule ccontr)
  let ?own = "filter (\<lambda>m. mb_org_id m = oid \<and> mb_role m = Owner) (memberships db)"
  assume "\<not> ?thesis"
  then have "mb_id ` set ?own \<subseteq> {mid}" by auto
  then have "card (mb_id ` set ?own) \<le> 1" by (metis card_mono card.empty card_insert_disjoint empty_iff finite.emptyI finite_insert One_nat_def)
  moreover have "card (mb_id ` set ?own) = length ?own"
    using distinct_card [OF distinct_map_filter [OF assms(2), of "\<lambda>m. mb_org_id m = oid \<and> mb_role m = Owner"]]
    by simp
  ultimately show False using assms(1) by (simp add: count_owners_def)
qed

lemma owned_mono:
  assumes "owned db" "distinct (map mb_id (memberships db'))" "orgs db' = orgs db"
    "\<And>g m. g \<in> set (orgs db) \<Longrightarrow> m \<in> set (memberships db) \<Longrightarrow> mb_org_id m = org_id g \<Longrightarrow> mb_role m = Owner \<Longrightarrow>
       \<exists>m' \<in> set (memberships db'). mb_org_id m' = org_id g \<and> mb_role m' = Owner"
  shows "owned db'"
  unfolding owned_def
proof (intro conjI ballI)
  show "distinct (map mb_id (memberships db'))" by (rule assms(2))
  fix g
  assume "g \<in> set (orgs db')"
  then have g: "g \<in> set (orgs db)" using assms(3) by simp
  then obtain m where "m \<in> set (memberships db)" "mb_org_id m = org_id g" "mb_role m = Owner"
    using assms(1) unfolding owned_def by blast
  then show "\<exists>m \<in> set (memberships db'). mb_org_id m = org_id g \<and> mb_role m = Owner"
    using assms(4) [OF g] by blast
qed

lemma owned_add_membership:
  "owned db \<Longrightarrow> mid \<notin> mb_id ` set (memberships db) \<Longrightarrow> owned (add_membership mid oid uid r db)"
  by (auto simp: owned_def add_membership_def tbl_add_def)

lemma owned_del_membership:
  assumes "owned db" "m \<in> set (memberships db)" "\<not> (mb_role m = Owner \<and> count_owners db (mb_org_id m) \<le> 1)"
  shows "owned (del_membership (mb_id m) db)"
proof (rule owned_mono [OF assms(1)])
  have dist: "distinct (map mb_id (memberships db))" using assms(1) by (simp add: owned_def)
  show "distinct (map mb_id (memberships (del_membership (mb_id m) db)))"
    using dist by (simp add: del_membership_def tbl_del_def distinct_map_filter)
  show "orgs (del_membership (mb_id m) db) = orgs db" by (simp add: del_membership_def)
  fix g m0
  assume g: "g \<in> set (orgs db)" "m0 \<in> set (memberships db)" "mb_org_id m0 = org_id g" "mb_role m0 = Owner"
  have "\<exists>m' \<in> set (memberships db). mb_org_id m' = org_id g \<and> mb_role m' = Owner \<and> mb_id m' \<noteq> mb_id m"
  proof (cases "mb_id m0 = mb_id m")
    case True
    then have "m0 = m" using distinct_key_eq [OF dist g(2) assms(2)] by simp
    then show ?thesis using count_owners_two [OF _ dist] assms(3) g by auto
  next
    case False
    then show ?thesis using g by blast
  qed
  then show "\<exists>m' \<in> set (memberships (del_membership (mb_id m) db)). mb_org_id m' = org_id g \<and> mb_role m' = Owner"
    by (auto simp: del_membership_def tbl_del_def)
qed

lemma owned_set_role:
  assumes "owned db" "m \<in> set (memberships db)"
    "\<not> (mb_role m = Owner \<and> r \<noteq> Owner \<and> count_owners db (mb_org_id m) \<le> 1)"
  shows "owned (set_role (mb_id m) r db)"
proof (rule owned_mono [OF assms(1)])
  have dist: "distinct (map mb_id (memberships db))" using assms(1) by (simp add: owned_def)
  show "distinct (map mb_id (memberships (set_role (mb_id m) r db)))"
    using dist by (simp add: set_role_def)
  show "orgs (set_role (mb_id m) r db) = orgs db" by (simp add: set_role_def)
  fix g m0
  assume g: "g \<in> set (orgs db)" "m0 \<in> set (memberships db)" "mb_org_id m0 = org_id g" "mb_role m0 = Owner"
  have "(\<exists>m' \<in> set (memberships db). mb_org_id m' = org_id g \<and> mb_role m' = Owner \<and> mb_id m' \<noteq> mb_id m)
      \<or> (mb_id m0 = mb_id m \<and> r = Owner)"
  proof (cases "mb_id m0 = mb_id m")
    case True
    then have "m0 = m" using distinct_key_eq [OF dist g(2) assms(2)] by simp
    show ?thesis
    proof (cases "r = Owner")
      case False
      with \<open>m0 = m\<close> assms(3) g have "\<not> count_owners db (org_id g) \<le> 1" by auto
      then show ?thesis using count_owners_two [OF _ dist] by blast
    qed (use True in simp)
  next
    case False
    then show ?thesis using g by blast
  qed
  then show "\<exists>m' \<in> set (memberships (set_role (mb_id m) r db)). mb_org_id m' = org_id g \<and> mb_role m' = Owner"
  proof (elim disjE bexE conjE)
    fix m' assume "m' \<in> set (memberships db)" "mb_id m' \<noteq> mb_id m" "mb_org_id m' = org_id g" "mb_role m' = Owner"
    then show ?thesis unfolding set_role_def by (force simp: tbl_upd_def)
  next
    assume "mb_id m0 = mb_id m" "r = Owner"
    then show ?thesis using g unfolding set_role_def by (force simp: tbl_upd_def)
  qed
qed

end
