(* ===== verification/Org_Workers.thy ===== *)
theory Org_Workers
  imports Org_Members Scheduler "HOL-Library.Multiset"
begin

text \<open>
  The provider portal of \<open>backend/routers/organizations.py\<close>: draining and removing workers,
  their policy, the batches they served and the contribution statistics. \<open>known_tz\<close> says
  which names the time-zone database knows. A field of the policy request is doubly
  optional: not sent, sent as null, or a value.
\<close>

section \<open>Draining and removal\<close>

definition find_org_worker :: "srv \<Rightarrow> string \<Rightarrow> string \<Rightarrow> worker option" where
  "find_org_worker db oid wid = find (\<lambda>w. w_id w = wid \<and> w_org_id w = oid) (workers db)"

definition drain_worker :: "user_row \<Rightarrow> string \<Rightarrow> string \<Rightarrow> srv \<Rightarrow> (worker_status \<times> srv) api" where
  "drain_worker user oid wid db =
     ebind (require_membership db user oid [Owner, Admin]) (\<lambda>_.
     ebind (get_or 404 (find_org_worker db oid wid)) (\<lambda>w.
     ebind (require (w_status w \<noteq> Offline) 409) (\<lambda>_.
     Inr (Draining, upd_worker (w_id w) (\<lambda>w. w\<lparr>w_status := Draining\<rparr>) db))))"

definition undrain_worker :: "user_row \<Rightarrow> string \<Rightarrow> string \<Rightarrow> srv \<Rightarrow> (worker_status \<times> srv) api" where
  "undrain_worker user oid wid db =
     ebind (require_membership db user oid [Owner, Admin]) (\<lambda>_.
     ebind (get_or 404 (find_org_worker db oid wid)) (\<lambda>w.
     ebind (require (w_status w = Draining) 409) (\<lambda>_.
     Inr (Online, upd_worker (w_id w) (\<lambda>w. w\<lparr>w_status := Online\<rparr>) db))))"

text \<open>The worker's runtimes, models and GPUs are nested in its row and go with it.\<close>

definition remove_worker :: "user_row \<Rightarrow> string \<Rightarrow> string \<Rightarrow> srv \<Rightarrow> (string \<times> srv) api" where
  "remove_worker user oid wid db =
     ebind (require_membership db user oid [Owner, Admin]) (\<lambda>_.
     ebind (get_or 404 (find_org_worker db oid wid)) (\<lambda>w.
     ebind (require (w_status w = Offline) 409) (\<lambda>_.
     Inr (wid, db\<lparr>workers := tbl_del w_id (w_id w) (workers db)\<rparr>))))"

definition list_org_workers :: "user_row \<Rightarrow> string \<Rightarrow> srv \<Rightarrow> worker list api" where
  "list_org_workers user oid db = ebind (require_membership db user oid []) (\<lambda>_.
     Inr (sort_key (\<lambda>w. - w_created_at w) (filter (\<lambda>w. w_org_id w = oid) (workers db))))"

section \<open>Policy\<close>

definition digit_val :: "char \<Rightarrow> nat option" where
  "digit_val c = (let n = (of_char c :: nat) in if 48 \<le> n \<and> n \<le> 57 then Some (n - 48) else None)"

text \<open>\<open>datetime.strptime(s, "%H:%M")\<close>: one or two digits on each side of the colon.\<close>

definition digits12 :: "nat \<Rightarrow> string \<Rightarrow> nat option" where
  "digits12 limit s = (case s of
       [a] \<Rightarrow> digit_val a
     | [a, b] \<Rightarrow> (case (digit_val a, digit_val b) of
           (Some x, Some y) \<Rightarrow> if 10 * x + y < limit then Some (10 * x + y) else None
         | _ \<Rightarrow> None)
     | _ \<Rightarrow> None)"

definition strptime_hm :: "string \<Rightarrow> (nat \<times> nat) option" where
  "strptime_hm s = (case split_on CHR '':'' s of
       [h, m] \<Rightarrow> (case (digits12 24 h, digits12 60 m) of
           (Some x, Some y) \<Rightarrow> Some (x, y) | _ \<Rightarrow> None)
     | _ \<Rightarrow> None)"

definition two_digits :: "nat \<Rightarrow> string" where
  "two_digits n = [digit_char (n div 10), digit_char (n mod 10)]"

definition strftime_hm :: "nat \<times> nat \<Rightarrow> string" where
  "strftime_hm t = two_digits (fst t) @ '':'' @ two_digits (snd t)"

definition to_minutes :: "string option \<Rightarrow> int option api" where
  "to_minutes value = (case value of
       None \<Rightarrow> Inr None
     | Some s \<Rightarrow> (case strptime_hm s of
           None \<Rightarrow> Inl (HTTP 400)
         | Some t \<Rightarrow> if strftime_hm t \<noteq> s then Inl (HTTP 400)
                     else Inr (Some (int (fst t * 60 + snd t)))))"

text \<open>The stored minutes are between 0 and 1439, so both parts print with two digits.\<close>

definition to_hhmm :: "int option \<Rightarrow> string option" where
  "to_hhmm minutes = map_option (\<lambda>m. strftime_hm (nat (m div 60), nat (m mod 60))) minutes"

record policy_request =
  pr_window_start :: "string option option"
  pr_window_end :: "string option option"
  pr_window_tz :: "string option option"
  pr_max_batch_prompts :: "int option option"

definition max_policy_prompts :: int where "max_policy_prompts = 50000"

definition prompts_ok :: "int option option \<Rightarrow> bool" where
  "prompts_ok p = (case p of Some (Some n) \<Rightarrow> 1 \<le> n \<and> n \<le> max_policy_prompts | _ \<Rightarrow> True)"

definition set_worker_policy :: "(string \<Rightarrow> bool) \<Rightarrow> user_row \<Rightarrow> string \<Rightarrow> string \<Rightarrow> policy_request \<Rightarrow> srv \<Rightarrow>
    (string \<times> srv) api" where
  "set_worker_policy known_tz user oid wid req db =
     ebind (require (prompts_ok (pr_max_batch_prompts req)) 422) (\<lambda>_.
     ebind (require_membership db user oid [Owner, Admin]) (\<lambda>_.
     ebind (get_or 404 (find_org_worker db oid wid)) (\<lambda>w.
     ebind (case pr_window_start req of None \<Rightarrow> Inr (w_window_start w) | Some v \<Rightarrow> to_minutes v) (\<lambda>start.
     ebind (case pr_window_end req of None \<Rightarrow> Inr (w_window_end w) | Some v \<Rightarrow> to_minutes v) (\<lambda>finish.
     let tz = (case pr_window_tz req of None \<Rightarrow> w_window_tz w | Some v \<Rightarrow> v);
         unset = [start = None, finish = None, tz = None] in
     ebind (require (case tz of None \<Rightarrow> True | Some z \<Rightarrow> known_tz z) 400) (\<lambda>_.
     ebind (require (\<not> (True \<in> set unset \<and> False \<in> set unset)) 400) (\<lambda>_.
     ebind (require (\<not> (start \<noteq> None \<and> start = finish)) 400) (\<lambda>_.
     Inr (wid, upd_worker (w_id w) (\<lambda>w. w\<lparr>w_window_start := start, w_window_end := finish,
        w_window_tz := tz, w_max_batch_prompts := (case pr_max_batch_prompts req of
            None \<Rightarrow> w_max_batch_prompts w | Some v \<Rightarrow> v)\<rparr>) db)))))))))"

section \<open>Served batches\<close>

text \<open>The join of batches and assignments, with the worker when it still exists.\<close>

definition served_rows :: "srv \<Rightarrow> string \<Rightarrow> seconds option \<Rightarrow> (batch \<times> assignment \<times> worker option) list" where
  "served_rows db oid since =
     [(b, a, get_worker_row db (a_worker_id a)).
        b \<leftarrow> batches db, a \<leftarrow> assignments db, a_batch_id a = b_id b, a_org_id a = oid,
        (case since of None \<Rightarrow> True | Some t \<Rightarrow> a_assigned_at a \<ge> t)]"

definition list_org_served_batches :: "user_row \<Rightarrow> string \<Rightarrow> int \<Rightarrow> seconds option \<Rightarrow> srv \<Rightarrow>
    (bool \<times> (batch \<times> assignment \<times> worker option) list) api" where
  "list_org_served_batches user oid limit since db =
     ebind (require_membership db user oid []) (\<lambda>_.
     let capped = nat (max 1 (min limit 500));
         rows = take capped (sort_key (\<lambda>(b, a, w). - a_assigned_at a) (served_rows db oid since))
     in Inr (length rows = capped, rows))"

section \<open>Statistics\<close>

definition batch_tokens :: "batch \<Rightarrow> (int \<times> int \<times> int) option" where
  "batch_tokens b =
     (if b_status b \<noteq> Completed then None
      else if b_prompt_tokens b = None \<and> b_completion_tokens b = None \<and> b_total_tokens b = None then None
      else Some (or0 (b_prompt_tokens b), or0 (b_completion_tokens b), or0 (b_total_tokens b)))"

record bucket =
  bk_jobs :: int
  bk_requests :: int
  bk_prompt :: int
  bk_completion :: int
  bk_total :: int
  bk_counted :: int

definition empty_bucket :: bucket where
  "empty_bucket = \<lparr>bk_jobs = 0, bk_requests = 0, bk_prompt = 0, bk_completion = 0, bk_total = 0, bk_counted = 0\<rparr>"

definition add_tokens :: "int \<times> int \<times> int \<Rightarrow> bucket \<Rightarrow> bucket" where
  "add_tokens t k = (case t of (p, c, n) \<Rightarrow> k\<lparr>bk_prompt := bk_prompt k + p,
     bk_completion := bk_completion k + c, bk_total := bk_total k + n, bk_counted := bk_counted k + 1\<rparr>)"

definition add_job :: "batch \<Rightarrow> bucket \<Rightarrow> bucket" where
  "add_job b k = (let k1 = k\<lparr>bk_jobs := bk_jobs k + 1, bk_requests := bk_requests k + or0 (b_completed b)\<rparr> in
     (case batch_tokens b of None \<Rightarrow> k1 | Some t \<Rightarrow> add_tokens t k1))"

text \<open>\<open>d.setdefault(k, bucket)\<close> and then the additions to that bucket.\<close>

definition add_to :: "'k \<Rightarrow> batch \<Rightarrow> ('k \<times> bucket) list \<Rightarrow> ('k \<times> bucket) list" where
  "add_to k b d = dict_set k (add_job b (case map_of d k of None \<Rightarrow> empty_bucket | Some x \<Rightarrow> x)) d"

record served_stats =
  ss_totals :: bucket
  ss_status :: "batch_status \<Rightarrow> int"
  ss_by_model :: "(string \<times> bucket) list"
  ss_by_worker :: "(string \<times> bucket) list"

definition stats_row :: "batch \<times> assignment \<times> worker option \<Rightarrow> served_stats \<Rightarrow> served_stats" where
  "stats_row row st = (case row of (b, a, w) \<Rightarrow> st\<lparr>
     ss_totals := add_job b (ss_totals st),
     ss_status := (if b_status b \<in> {Completed, Failed, InProgress}
       then (ss_status st)(b_status b := ss_status st (b_status b) + 1) else ss_status st),
     ss_by_model := add_to (case b_model b of Some m \<Rightarrow> if m = [] then ''unknown'' else m
                              | None \<Rightarrow> ''unknown'') b (ss_by_model st),
     ss_by_worker := add_to (a_worker_id a) b (ss_by_worker st)\<rparr>)"

definition rank_buckets :: "('k \<times> bucket) list \<Rightarrow> ('k \<times> bucket) list" where
  "rank_buckets d = sort_key (\<lambda>kv. - bk_total (snd kv)) (sort_key (\<lambda>kv. - bk_requests (snd kv)) d)"

definition org_served_stats :: "user_row \<Rightarrow> string \<Rightarrow> int \<Rightarrow> seconds \<Rightarrow> srv \<Rightarrow> served_stats api" where
  "org_served_stats user oid days now db =
     ebind (require_membership db user oid []) (\<lambda>_.
     let since = now - max 1 (min days 365) * 86400;
         st = fold stats_row (served_rows db oid (Some since))
           \<lparr>ss_totals = empty_bucket, ss_status = (\<lambda>_. 0), ss_by_model = [], ss_by_worker = []\<rparr>
     in Inr (st\<lparr>ss_by_model := rank_buckets (ss_by_model st),
                ss_by_worker := rank_buckets (ss_by_worker st)\<rparr>))"

section \<open>Lemmas\<close>

lemma find_org_worker_SomeD:
  "find_org_worker db oid wid = Some w \<Longrightarrow> w \<in> set (workers db) \<and> w_id w = wid \<and> w_org_id w = oid"
  unfolding find_org_worker_def by (drule find_SomeD) simp

lemma digit_val_char: "d < 10 \<Longrightarrow> digit_val (digit_char d) = Some d"
  by (simp add: digit_val_def digit_char_def)

lemma digit_val_colon: "digit_val c = Some d \<Longrightarrow> c \<noteq> CHR '':''"
  by (auto simp: digit_val_def Let_def split: if_splits)

lemma digits12_two: "n < limit \<Longrightarrow> limit \<le> 100 \<Longrightarrow> digits12 limit (two_digits n) = Some n"
  by (simp add: digits12_def two_digits_def digit_val_char)

lemma digits12_bound: "10 \<le> limit \<Longrightarrow> digits12 limit s = Some n \<Longrightarrow> n < limit"
  by (auto simp: digits12_def digit_val_def Let_def split: list.splits option.splits if_splits)

lemma strptime_strftime:
  assumes "h < 24" "m < 60"
  shows "strptime_hm (strftime_hm (h, m)) = Some (h, m)"
proof -
  have digit: "CHR '':'' \<noteq> digit_char d" if "d < 10" for d
    using digit_val_colon [OF digit_val_char [OF that]] by simp
  have no_colon: "CHR '':'' \<notin> set (two_digits n)" if "n < 100" for n
    using that digit [of "n div 10"] digit [of "n mod 10"] by (simp add: two_digits_def)
  have "split_on CHR '':'' (strftime_hm (h, m)) = [two_digits h, two_digits m]"
    unfolding strftime_hm_def using no_colon [of h] no_colon [of m] assms
    by (simp add: split_on_append split_on_single)
  then show ?thesis using assms by (simp add: strptime_hm_def digits12_two)
qed

lemma strptime_bound: "strptime_hm s = Some (h, m) \<Longrightarrow> h < 24 \<and> m < 60"
  by (auto simp: strptime_hm_def split: list.splits option.splits dest: digits12_bound [rotated])

definition bucket_sum :: "(bucket \<Rightarrow> int) \<Rightarrow> ('k \<times> bucket) list \<Rightarrow> int" where
  "bucket_sum f d = sum_list (map (f \<circ> snd) d)"

lemma bucket_sum_dict_set:
  assumes "distinct (map fst d)"
  shows "bucket_sum f (dict_set k v d) =
    bucket_sum f d - (case map_of d k of None \<Rightarrow> 0 | Some x \<Rightarrow> f x) + f v"
  using assms
proof (induction d)
  case (Cons p d)
  then show ?case by (cases p) (auto simp: bucket_sum_def split: option.splits dest: map_of_SomeD)
qed (simp add: bucket_sum_def)

text \<open>A quantity that a job adds to its bucket whatever the bucket holds.\<close>

definition additive :: "(bucket \<Rightarrow> int) \<Rightarrow> (batch \<Rightarrow> int) \<Rightarrow> bool" where
  "additive f g \<longleftrightarrow> f empty_bucket = 0 \<and> (\<forall>b k. f (add_job b k) = f k + g b)"

lemma additive_fields:
  "additive bk_jobs (\<lambda>_. 1)" "additive bk_requests (\<lambda>b. or0 (b_completed b))"
  "additive bk_total (\<lambda>b. case batch_tokens b of None \<Rightarrow> 0 | Some (p, c, n) \<Rightarrow> n)"
  "additive bk_counted (\<lambda>b. case batch_tokens b of None \<Rightarrow> 0 | Some _ \<Rightarrow> 1)"
  by (auto simp: additive_def empty_bucket_def add_job_def add_tokens_def Let_def split: option.splits)

lemma add_to_keys: "distinct (map fst d) \<Longrightarrow> distinct (map fst (add_to k b d))"
  by (simp add: add_to_def distinct_dict_set)

lemma bucket_sum_add_to:
  "additive f g \<Longrightarrow> distinct (map fst d) \<Longrightarrow> bucket_sum f (add_to k b d) = bucket_sum f d + g b"
  by (auto simp: add_to_def bucket_sum_dict_set additive_def split: option.splits)

lemma stats_fold:
  assumes "additive f g"
  shows "distinct (map fst (ss_by_model st)) \<Longrightarrow> distinct (map fst (ss_by_worker st)) \<Longrightarrow>
    f (ss_totals (fold stats_row rows st)) = f (ss_totals st) + sum_list (map (g \<circ> fst) rows) \<and>
    bucket_sum f (ss_by_model (fold stats_row rows st)) = bucket_sum f (ss_by_model st) + sum_list (map (g \<circ> fst) rows) \<and>
    bucket_sum f (ss_by_worker (fold stats_row rows st)) = bucket_sum f (ss_by_worker st) + sum_list (map (g \<circ> fst) rows)"
proof (induction rows arbitrary: st)
  case (Cons row rows)
  obtain b a w where row: "row = (b, a, w)" using prod_cases3 by blast
  have "f (ss_totals (stats_row row st)) = f (ss_totals st) + g b"
    using assms by (simp add: stats_row_def row additive_def)
  with Cons row show ?case
    by (simp add: stats_row_def add_to_keys bucket_sum_add_to [OF assms])
qed simp

lemma bucket_sum_rank: "bucket_sum f (rank_buckets d) = bucket_sum f d"
proof -
  have "mset (map (f \<circ> snd) (rank_buckets d)) = mset (map (f \<circ> snd) d)"
    by (simp add: rank_buckets_def)
  then show ?thesis unfolding bucket_sum_def by (metis sum_mset_sum_list)
qed

end
