(* ===== verification/Lifecycle.thy ===== *)
theory Lifecycle
  imports Batches_Api Catalog_Service Org_Workers
begin

text \<open>
  The life of a batch across all handlers: a step relation over the database and the set of
  batches whose background validation is still to come. Each rule is one committed request or
  background task of the theories before; an error answer commits nothing and is no step. The
  validator's verdict is arbitrary, so what holds here holds whatever a file contains. A
  validation that raises, and a server restart, lose the pending task (\<open>lost\<close>). The requests that write
  neither batches nor assignments (accounts, organizations, keys, policies, catalogue seeding and
  adoption passes) are one rule that lets them do anything else to the database (\<open>other\<close>).
\<close>

record sys =
  sdb :: srv
  pend :: "string set"

definition set_db :: "srv \<Rightarrow> sys \<Rightarrow> sys" where
  "set_db db s = s\<lparr>sdb := db\<rparr>"

inductive step :: "wall_clock \<Rightarrow> sys \<Rightarrow> sys \<Rightarrow> bool" for wall where
  create: "create_batch ctx req bid now (sdb s) = Inr ((out, bid', path), db') \<Longrightarrow>
      get_batch_row (sdb s) bid = None \<Longrightarrow> step wall s \<lparr>sdb = db', pend = insert bid (pend s)\<rparr>"
| verdict: "bid \<in> pend s \<Longrightarrow> persist_result commit_ok m2s now bid r (sdb s) = (ok, db') \<Longrightarrow>
      step wall s \<lparr>sdb = db', pend = pend s - {bid}\<rparr>"
| lost: "p \<subseteq> pend s \<Longrightarrow> step wall s (s\<lparr>pend := p\<rparr>)"
| poll: "poll_job wall oid wid now (sdb s) = Inr (j, db') \<Longrightarrow> step wall s (set_db db' s)"
| progress: "report_progress oid wid jid c f (sdb s) = Inr (i, db') \<Longrightarrow> step wall s (set_db db' s)"
| download: "report_model_download oid wid now (sdb s) = Inr (i, db') \<Longrightarrow> step wall s (set_db db' s)"
| upload: "upload_results oid wid jid content n c f fid now (sdb s) = Inr (a, db') \<Longrightarrow> step wall s (set_db db' s)"
| failure: "report_failure oid wid jid err now (sdb s) = Inr (a, db') \<Longrightarrow> step wall s (set_db db' s)"
| sweep: "step wall s (set_db (fst (sweep_stale_workers now (sdb s))) s)"
| ingest: "step wall s (set_db (ingest_usage_records loads repr now new_id crash bid path (sdb s)) s)"
| ingest_sweep: "step wall s (set_db (fst (sweep_pending_ingestions loads repr now new_ids crashes (sdb s))) s)"
| backfill: "step wall s (set_db (snd (backfill_required_capabilities loads (sdb s))) s)"
| register: "step wall s (set_db (snd (register_worker key_id oid rr wid rids now (sdb s))) s)"
| heartbeat: "worker_heartbeat oid wid hb now (sdb s) = Inr (i, db') \<Longrightarrow> step wall s (set_db db' s)"
| file_upload: "step wall s (set_db (snd (upload_file ctx fid name purpose content n now (sdb s))) s)"
| file_delete: "delete_file ctx fid removed (sdb s) = Inr (i, db') \<Longrightarrow> step wall s (set_db db' s)"
| drain: "drain_worker user oid wid (sdb s) = Inr (st, db') \<Longrightarrow> step wall s (set_db db' s)"
| undrain: "undrain_worker user oid wid (sdb s) = Inr (st, db') \<Longrightarrow> step wall s (set_db db' s)"
| remove: "remove_worker user oid wid (sdb s) = Inr (i, db') \<Longrightarrow> step wall s (set_db db' s)"
| adopt: "adopt ar (sdb s) = Inr (r, db') \<Longrightarrow> step wall s (set_db db' s)"
| other: "batches db' = batches (sdb s) \<Longrightarrow> assignments db' = assignments (sdb s) \<Longrightarrow> step wall s (set_db db' s)"

inductive reachable :: "wall_clock \<Rightarrow> sys \<Rightarrow> bool" for wall where
  start: "batches db = [] \<Longrightarrow> assignments db = [] \<Longrightarrow> reachable wall \<lparr>sdb = db, pend = {}\<rparr>"
| more: "reachable wall s \<Longrightarrow> step wall s s' \<Longrightarrow> reachable wall s'"

section \<open>The invariant\<close>

text \<open>Of a batch row: whether its validation is pending and whether it has an assignment.\<close>

definition row_ok :: "bool \<Rightarrow> bool \<Rightarrow> batch \<Rightarrow> bool" where
  "row_ok pending assigned b \<longleftrightarrow>
     (pending \<longrightarrow> b_status b = Validating) \<and>
     (assigned \<longleftrightarrow> b_status b \<in> {InProgress, Completed}) \<and>
     0 \<le> or0 (b_attempts b) \<and> or0 (b_attempts b) \<le> max_batch_attempts \<and>
     (b_status b \<noteq> Failed \<longrightarrow> or0 (b_attempts b) < max_batch_attempts) \<and>
     (b_status b = Completed \<longrightarrow> b_output_file_id b \<noteq> None \<and> b_completed_at b \<noteq> None)"

definition inv_at :: "sys \<Rightarrow> string \<Rightarrow> bool" where
  "inv_at s i \<longleftrightarrow> (case get_batch_row (sdb s) i of
       None \<Rightarrow> i \<notin> pend s \<and> get_assignment (sdb s) i = None
     | Some b \<Rightarrow> row_ok (i \<in> pend s) (get_assignment (sdb s) i \<noteq> None) b)"

definition ids_ok :: "srv \<Rightarrow> bool" where
  "ids_ok db \<longleftrightarrow> distinct (map b_id (batches db)) \<and> distinct (map a_batch_id (assignments db))"

definition life_inv :: "sys \<Rightarrow> bool" where
  "life_inv s \<longleftrightarrow> ids_ok (sdb s) \<and> (\<forall>i. inv_at s i)"

text \<open>What one step may do to a row that exists.\<close>

definition evolves :: "batch \<Rightarrow> batch \<Rightarrow> bool" where
  "evolves b b' \<longleftrightarrow> b_id b' = b_id b \<and>
     (b_status b' = b_status b \<or> b_status b' \<in> set (valid_transitions (b_status b))) \<and>
     or0 (b_attempts b') = or0 (b_attempts b) + (if b_status b = InProgress \<and> b_status b' \<in> {Validated, Failed} then 1 else 0) \<and>
     (b_status b \<in> {Completed, Failed} \<longrightarrow> b_output_file_id b' = b_output_file_id b \<and> b_completed_at b' = b_completed_at b)"

definition evolves_at :: "srv \<Rightarrow> srv \<Rightarrow> string \<Rightarrow> bool" where
  "evolves_at db db' i \<longleftrightarrow> (case get_batch_row db i of
       None \<Rightarrow> True
     | Some b \<Rightarrow> (\<exists>b'. get_batch_row db' i = Some b' \<and> evolves b b'))"

lemma evolves_refl [simp]: "evolves b b"
  by (simp add: evolves_def)

text \<open>The columns the invariant reads.\<close>

definition core :: "batch \<Rightarrow> string \<times> batch_status \<times> int option \<times> string option \<times> seconds option" where
  "core b = (b_id b, b_status b, b_attempts b, b_output_file_id b, b_completed_at b)"

definition same_core :: "srv \<Rightarrow> srv \<Rightarrow> bool" where
  "same_core db db' \<longleftrightarrow> map core (batches db') = map core (batches db) \<and> assignments db' = assignments db"

lemma same_core_refl: "batches db' = batches db \<Longrightarrow> assignments db' = assignments db \<Longrightarrow> same_core db db'"
  by (simp add: same_core_def)

lemma same_core_trans: "same_core a b \<Longrightarrow> same_core b c \<Longrightarrow> same_core a c"
  by (simp add: same_core_def)

lemma same_core_upd: "(\<And>b. core (f b) = core b) \<Longrightarrow> same_core db (upd_batch i f db)"
  by (auto simp: same_core_def upd_batch_def tbl_upd_def)

lemma same_core_ids: "same_core db db' \<Longrightarrow> map b_id (batches db') = map b_id (batches db)"
proof -
  have "map b_id bs = map (fst \<circ> core) bs" for bs by (simp add: core_def)
  moreover assume "same_core db db'"
  ultimately show ?thesis by (metis same_core_def map_map)
qed

lemma core_id: "core b = core b' \<Longrightarrow> b_id b = b_id b'"
  by (simp add: core_def)

lemma find_map_core:
  "map core bs' = map core bs \<Longrightarrow>
    map_option core (find (\<lambda>b. b_id b = i) bs') = map_option core (find (\<lambda>b. b_id b = i) bs)"
proof (induction bs arbitrary: bs')
  case (Cons b bs)
  then obtain c cs where "bs' = c # cs" "core c = core b" "map core cs = map core bs" by (cases bs') auto
  then show ?case using Cons.IH [of cs] core_id [of c b] by auto
qed simp

lemma same_core_row:
  "same_core db db' \<Longrightarrow> map_option core (get_batch_row db' i) = map_option core (get_batch_row db i)"
  unfolding same_core_def tbl_get_def by (blast intro: find_map_core)

lemma row_ok_core: "core b = core b' \<Longrightarrow> row_ok p a b = row_ok p a b'"
  by (simp add: core_def row_ok_def)

lemma evolves_core: "core b = core b' \<Longrightarrow> evolves b b'"
  by (simp add: core_def evolves_def)

text \<open>A step that leaves the core columns and the assignments alone.\<close>

lemma same_core_step:
  assumes "life_inv s" "same_core (sdb s) db'" "p \<subseteq> pend s"
  shows "life_inv \<lparr>sdb = db', pend = p\<rparr> \<and> evolves_at (sdb s) db' i"
proof -
  have as: "assignments db' = assignments (sdb s)" using assms(2) by (simp add: same_core_def)
  have ids: "ids_ok db'" using assms(1) same_core_ids [OF assms(2)] as by (simp add: life_inv_def ids_ok_def)
  have "inv_at \<lparr>sdb = db', pend = p\<rparr> j \<and> evolves_at (sdb s) db' j" for j
  proof (cases "get_batch_row (sdb s) j")
    case None
    then have "get_batch_row db' j = None" using same_core_row [OF assms(2), of j] by simp
    moreover have "j \<notin> pend s" "get_assignment (sdb s) j = None"
      using assms(1) None by (auto simp: life_inv_def inv_at_def dest!: spec [of _ j])
    ultimately show ?thesis using None assms(3) as by (auto simp: inv_at_def evolves_at_def)
  next
    case (Some b)
    then obtain b' where b': "get_batch_row db' j = Some b'" "core b' = core b"
      using same_core_row [OF assms(2), of j] by auto
    have "row_ok (j \<in> pend s) (get_assignment (sdb s) j \<noteq> None) b"
      using assms(1) Some by (auto simp: life_inv_def inv_at_def dest!: spec [of _ j])
    then have "row_ok (j \<in> p) (get_assignment (sdb s) j \<noteq> None) b"
      using assms(3) by (auto simp: row_ok_def)
    then show ?thesis using b' Some as row_ok_core [OF b'(2)] evolves_core [OF b'(2) [symmetric]]
      by (simp add: inv_at_def evolves_at_def)
  qed
  with ids show ?thesis by (simp add: life_inv_def)
qed

section \<open>Handlers that touch no core column\<close>

lemma same_core_ingest: "same_core db (ingest_usage_records loads repr now new_id crash bid path db)"
proof -
  have flag: "same_core db (mark_ingestion_done bid db)" for db
    unfolding mark_ingestion_done_def by (rule same_core_upd) (simp add: core_def)
  have fail: "same_core db (record_failed_attempt bid db)" for db
    unfolding record_failed_attempt_def by (rule same_core_upd) (simp add: core_def)
  have roll: "same_core db (write_rollups bid db)" for db
    unfolding write_rollups_def Let_def
    by (auto intro: same_core_refl same_core_upd simp: core_def)
  have chunks: "same_core db (write_chunks cs db)" for cs db
    by (rule same_core_refl) (simp_all add: write_chunks_def)
  show ?thesis
    unfolding ingest_usage_records_def Let_def
    by (auto split: option.splits intro: flag fail same_core_refl
        same_core_trans [OF chunks fail] same_core_trans [OF same_core_trans [OF chunks roll] flag])
qed

lemma same_core_retry: "same_core db (fst (retry_ingestions loads repr now new_id crash bs db))"
proof (induction bs arbitrary: db)
  case Nil
  then show ?case by (simp add: same_core_refl)
next
  case (Cons b bs)
  have flag: "same_core db (mark_ingestion_done (b_id b) db)"
    unfolding mark_ingestion_done_def by (rule same_core_upd) (simp add: core_def)
  show ?case
  proof (cases "find (\<lambda>f. Some (f_id f) = b_output_file_id b) (files db)")
    case None
    then show ?thesis using same_core_trans [OF flag Cons.IH] by simp
  next
    case (Some f)
    then show ?thesis using same_core_trans [OF same_core_ingest Cons.IH] by (simp add: split_beta)
  qed
qed

lemma same_core_backfill_rows:
  "fst (backfill_rows loads bs db) = Inr db' \<Longrightarrow> same_core db db'"
proof (induction bs arbitrary: db)
  case Nil
  then show ?case by (simp add: same_core_refl)
next
  case (Cons b bs)
  have upd: "same_core db (upd_batch (b_id b) (\<lambda>b. b\<lparr>b_required_capabilities := Some needs\<rparr>) db)" for needs
    by (rule same_core_upd) (simp add: core_def)
  show ?case using Cons.prems
    by (auto simp: split_beta split: option.splits if_splits sum.splits
        intro: Cons.IH same_core_trans [OF upd Cons.IH])
qed

lemma same_core_backfill: "same_core db (snd (backfill_required_capabilities loads db))"
proof -
  have "backfill_rows loads bs db = (Inr db', n) \<Longrightarrow> same_core db db'" for bs db' n
    using same_core_backfill_rows [of loads bs db db'] by simp
  then show ?thesis
    by (auto simp: backfill_required_capabilities_def same_core_refl split: sum.splits prod.splits)
qed

lemma same_core_progress:
  "report_progress oid wid jid c f db = Inr (i, db') \<Longrightarrow> same_core db db'"
  by (auto simp: report_progress_def intro!: same_core_upd simp: core_def)

lemma reclassify_frame: "same_core db (fst (reclassify_hash db sha))"
  by (rule same_core_refl) (simp_all add: reclassify_hash_def Let_def split_beta)

lemma same_core_adopt: "adopt ar db = Inr (r, db') \<Longrightarrow> same_core db db'"
proof -
  assume "adopt ar db = Inr (r, db')"
  then have "db' = fst (reclassify_hash (db\<lparr>catalog := tbl_add (adopted_entry ar) (catalog db)\<rparr>) (adopt_digest (ad_sha256 ar)))"
    by (auto simp: adopt_def Let_def split: prod.splits)
  then show ?thesis
    using same_core_trans [OF same_core_refl reclassify_frame] by simp
qed

lemmas quiet_defs = report_model_download_def register_worker_def worker_heartbeat_def upload_file_def
  delete_file_def drain_worker_def undrain_worker_def remove_worker_def

lemma quiet_core:
  "report_model_download oid wid now db = Inr (i, db') \<Longrightarrow> same_core db db'"
  "same_core db (snd (register_worker key_id oid rr wid rids now db))"
  "worker_heartbeat oid wid hb now db = Inr (i, db') \<Longrightarrow> same_core db db'"
  "same_core db (snd (upload_file ctx fid name purpose content n now db))"
  "delete_file ctx fid removed db = Inr (i, db') \<Longrightarrow> same_core db db'"
  "drain_worker user oid wid db = Inr (st, db') \<Longrightarrow> same_core db db'"
  "undrain_worker user oid wid db = Inr (st, db') \<Longrightarrow> same_core db db'"
  "remove_worker user oid wid db = Inr (i, db') \<Longrightarrow> same_core db db'"
  by (auto simp: quiet_defs Let_def split_beta intro!: same_core_refl split: option.splits)

section \<open>Handlers that move one batch\<close>

lemma one_row_step:
  assumes inv: "life_inv s" and ids: "ids_ok db'"
    and others: "\<And>j. j \<noteq> k \<Longrightarrow> get_batch_row db' j = get_batch_row (sdb s) j
        \<and> get_assignment db' j = get_assignment (sdb s) j \<and> (j \<in> p \<longleftrightarrow> j \<in> pend s)"
    and here: "inv_at \<lparr>sdb = db', pend = p\<rparr> k" "evolves_at (sdb s) db' k"
  shows "life_inv \<lparr>sdb = db', pend = p\<rparr> \<and> evolves_at (sdb s) db' i"
proof -
  have "inv_at \<lparr>sdb = db', pend = p\<rparr> j \<and> evolves_at (sdb s) db' j" for j
  proof (cases "j = k")
    case False
    have "inv_at s j" using inv by (simp add: life_inv_def)
    then show ?thesis using others [OF False]
      by (auto simp: inv_at_def evolves_at_def split: option.split)
  qed (use here in simp)
  then show ?thesis using ids by (simp add: life_inv_def)
qed

lemma inv_row:
  "life_inv s \<Longrightarrow> get_batch_row (sdb s) i = Some b \<Longrightarrow>
    row_ok (i \<in> pend s) (get_assignment (sdb s) i \<noteq> None) b"
  by (auto simp: life_inv_def inv_at_def dest!: spec [of _ i])

lemma inv_no_row:
  "life_inv s \<Longrightarrow> get_batch_row (sdb s) i = None \<Longrightarrow> i \<notin> pend s \<and> get_assignment (sdb s) i = None"
  by (auto simp: life_inv_def inv_at_def dest!: spec [of _ i])

lemma inv_ids: "life_inv s \<Longrightarrow> ids_ok (sdb s)"
  by (simp add: life_inv_def)

lemma life_create:
  assumes inv: "life_inv s" and c: "create_batch ctx req bid now (sdb s) = Inr (out, db')"
    and fresh: "get_batch_row (sdb s) bid = None"
  shows "life_inv \<lparr>sdb = db', pend = insert bid (pend s)\<rparr> \<and> evolves_at (sdb s) db' i"
proof -
  from c have db': "db' = (sdb s)\<lparr>batches := tbl_add (new_batch bid ctx req now) (batches (sdb s))\<rparr>"
    by (auto simp: create_batch_def Let_def)
  have row: "get_batch_row db' j = (if j = bid then Some (new_batch bid ctx req now) else get_batch_row (sdb s) j)" for j
    using fresh by (auto simp: db' batch_table.get_add new_batch_def split: option.split)
  have "bid \<notin> b_id ` set (batches (sdb s))" using fresh by (simp add: tbl_get_None)
  then have ids: "ids_ok db'"
    using inv_ids [OF inv] by (simp add: db' ids_ok_def tbl_add_def new_batch_def)
  have "inv_at \<lparr>sdb = db', pend = insert bid (pend s)\<rparr> bid"
    using inv_no_row [OF inv fresh]
    by (simp add: inv_at_def row row_ok_def) (simp add: db' new_batch_def max_batch_attempts_def)
  then show ?thesis
    by (intro one_row_step [OF inv ids, of bid]) (auto simp: row evolves_at_def fresh, simp add: db')
qed

lemma life_upd:
  assumes inv: "life_inv s" and row: "get_batch_row (sdb s) k = Some b"
    and f: "\<And>b. b_id (f b) = b_id b" and e: "evolves b (f b)"
    and upd: "batches db' = tbl_upd b_id k f (batches (sdb s))"
    and dist: "distinct (map a_batch_id (assignments db'))"
    and others: "\<And>j. j \<noteq> k \<Longrightarrow> get_assignment db' j = get_assignment (sdb s) j \<and> (j \<in> p \<longleftrightarrow> j \<in> pend s)"
    and ok: "row_ok (k \<in> p) (get_assignment db' k \<noteq> None) (f b)"
  shows "life_inv \<lparr>sdb = db', pend = p\<rparr> \<and> evolves_at (sdb s) db' i"
proof -
  have rows: "get_batch_row db' j = (if j = k then map_option f (get_batch_row (sdb s) j) else get_batch_row (sdb s) j)" for j
    unfolding upd by (rule batch_table.get_upd [OF f])
  have ids: "ids_ok db'" using inv_ids [OF inv] dist f by (simp add: ids_ok_def upd)
  show ?thesis
    by (rule one_row_step [OF inv ids, of k]) (use rows row others ok e in \<open>auto simp: inv_at_def evolves_at_def\<close>)
qed

lemma life_verdict:
  assumes inv: "life_inv s" and bid: "bid \<in> pend s"
    and v: "persist_result commit_ok m2s now bid r (sdb s) = (ok, db')"
  shows "life_inv \<lparr>sdb = db', pend = pend s - {bid}\<rparr> \<and> evolves_at (sdb s) db' i"
proof -
  obtain b where b: "get_batch_row (sdb s) bid = Some b"
    using inv_no_row [OF inv, of bid] bid by (cases "get_batch_row (sdb s) bid") auto
  have ok: "row_ok True (get_assignment (sdb s) bid \<noteq> None) b" using inv_row [OF inv b] bid by simp
  have dist: "distinct (map a_batch_id (assignments (sdb s)))" using inv_ids [OF inv] by (simp add: ids_ok_def)
  have frames: "b_id (verdict_row m2s now r c) = b_id c" "b_id (persist_failed_row now c) = b_id c" for c
    by (simp_all add: verdict_row_def persist_failed_row_def set_expires_at_def Let_def)
  have keep: "b_attempts (verdict_row m2s now r b) = b_attempts b"
      "b_status (verdict_row m2s now r b) = (if vr_valid r then Validated else Failed)"
      "b_attempts (persist_failed_row now b) = b_attempts b" "b_status (persist_failed_row now b) = Failed"
    by (simp_all add: verdict_row_def persist_failed_row_def set_expires_at_def Let_def)
  have stat: "b_status b = Validating" using ok by (simp add: row_ok_def)
  consider "db' = upd_batch bid (verdict_row m2s now r) (sdb s)"
    | "db' = upd_batch bid (persist_failed_row now) (sdb s)" | "db' = sdb s"
    using v b by (auto simp: persist_result_def split: if_splits)
  then show ?thesis
  proof cases
    case 1
    show ?thesis
      by (rule life_upd [OF inv b frames(1)])
        (use 1 dist ok keep stat frames in \<open>auto simp: upd_batch_def evolves_def row_ok_def\<close>)
  next
    case 2
    show ?thesis
      by (rule life_upd [OF inv b frames(2)])
        (use 2 dist ok keep stat frames in \<open>auto simp: upd_batch_def evolves_def row_ok_def\<close>)
  next
    case 3
    show ?thesis using same_core_step [OF inv same_core_refl, of "sdb s" "pend s - {bid}"] 3 by simp
  qed
qed

lemma ids_get:
  "ids_ok db \<Longrightarrow> b \<in> set (batches db) \<Longrightarrow> get_batch_row db (b_id b) = Some b"
  by (simp add: ids_ok_def tbl_get_distinct)

lemma life_poll:
  assumes inv: "life_inv s" and p: "poll_job wall oid wid now (sdb s) = Inr (j, db')"
  shows "life_inv \<lparr>sdb = db', pend = pend s\<rparr> \<and> evolves_at (sdb s) db' i"
proof (cases j)
  case None
  then have "db' = sdb s" using p by (auto simp: poll_job_eq split: if_splits option.splits)
  then show ?thesis using same_core_step [OF inv same_core_refl, of "sdb s" "pend s"] by simp
next
  case (Some jb)
  then obtain w b where b: "find_best_batch wall now (sdb s) w (available_batches (sdb s)) = Some b"
    and free: "get_assignment (sdb s) (b_id b) = None" and db': "db' = dispatch oid now w b (sdb s)"
    using p by (auto simp: poll_job_eq split: if_splits option.splits)
  from find_best_batch_SomeD [OF b] have mem: "b \<in> set (batches (sdb s))" and stat: "b_status b = Validated"
    by (auto simp: available_batches_def)
  have row: "get_batch_row (sdb s) (b_id b) = Some b" by (rule ids_get [OF inv_ids [OF inv] mem])
  have ok: "row_ok (b_id b \<in> pend s) False b" using inv_row [OF inv row] free by simp
  have asg: "get_assignment db' k = (if k = b_id b then Some \<lparr>a_batch_id = b_id b, a_worker_id = w_id w,
      a_org_id = oid, a_hostname = Some (w_hostname w), a_assigned_at = now\<rparr> else get_assignment (sdb s) k)" for k
    using free by (auto simp: db' dispatch_def assignment_table.get_add split: option.split)
  have dist: "distinct (map a_batch_id (assignments db'))"
    using inv_ids [OF inv] free by (simp add: db' dispatch_def ids_ok_def tbl_add_def tbl_get_None)
  show ?thesis
    by (rule life_upd [OF inv row, where f = "\<lambda>b. b\<lparr>b_status := InProgress\<rparr>"])
      (use dist asg ok stat in \<open>auto simp: evolves_def row_ok_def, simp add: db' dispatch_def upd_batch_def\<close>)
qed

lemma assigned_row:
  "get_assigned_batch db jid wid = Inr b \<Longrightarrow>
    get_batch_row db jid = Some b \<and> b_id b = jid \<and> (\<exists>a. get_assignment db jid = Some a \<and> a_worker_id a = wid)"
  by (auto simp: get_assigned_batch_def dest: batch_row_id split: option.splits)

lemma validate_transition_iff [simp]: "validate_transition a b = Inr u \<longleftrightarrow> b \<in> set (valid_transitions a)"
  by (simp add: validate_transition_def)

lemma life_upload:
  assumes inv: "life_inv s" and u: "upload_results oid wid jid content n c f fid now (sdb s) = Inr (a, db')"
  shows "life_inv \<lparr>sdb = db', pend = pend s\<rparr> \<and> evolves_at (sdb s) db' i"
proof -
  from u obtain b where gb: "get_assigned_batch (sdb s) jid wid = Inr b"
    and cases: "(b_status b = Completed \<and> db' = sdb s) \<or> (Completed \<in> set (valid_transitions (b_status b))
      \<and> db' = upd_batch (b_id b) (complete_row fid now c f) (store_upload fid content n now b (sdb s)))"
    by (auto simp: upload_results_def split: if_splits)
  from assigned_row [OF gb] have row: "get_batch_row (sdb s) jid = Some b" and id: "b_id b = jid"
    and asg: "get_assignment (sdb s) jid \<noteq> None" by auto
  have ok: "row_ok (jid \<in> pend s) True b" using inv_row [OF inv row] asg by simp
  from cases show ?thesis
  proof (elim disjE conjE)
    assume "db' = sdb s"
    then show ?thesis using same_core_step [OF inv same_core_refl, of "sdb s" "pend s"] by simp
  next
    assume t: "Completed \<in> set (valid_transitions (b_status b))"
      and db': "db' = upd_batch (b_id b) (complete_row fid now c f) (store_upload fid content n now b (sdb s))"
    have frames: "b_id (complete_row fid now c f x) = b_id x" for x by (simp add: complete_row_def)
    have stat: "b_status b = InProgress" using t by (cases "b_status b") auto
    have upd: "batches db' = tbl_upd b_id jid (complete_row fid now c f) (batches (sdb s))"
      and asgs: "assignments db' = assignments (sdb s)"
      by (simp_all add: db' id upd_batch_def store_upload_def)
    have done_row: "b_status (complete_row fid now c f b) = Completed"
        "b_attempts (complete_row fid now c f b) = b_attempts b"
        "b_output_file_id (complete_row fid now c f b) = Some fid"
        "b_completed_at (complete_row fid now c f b) = Some now"
      by (simp_all add: complete_row_def)
    show ?thesis
      by (rule life_upd [OF inv row frames _ upd])
        (use ok stat inv_ids [OF inv] asg asgs in \<open>auto simp: frames done_row evolves_def row_ok_def ids_ok_def\<close>)
  qed
qed

lemma row_ok_requeue:
  assumes "row_ok p True b" "b_status b = InProgress"
  shows "row_ok p False (requeue_row now err b)" "evolves b (requeue_row now err b)"
  using assms by (auto simp: row_ok_def evolves_def requeue_row_status next_attempt_def max_batch_attempts_def)

lemma life_failure:
  assumes inv: "life_inv s" and u: "report_failure oid wid jid err now (sdb s) = Inr (a, db')"
  shows "life_inv \<lparr>sdb = db', pend = pend s\<rparr> \<and> evolves_at (sdb s) db' i"
proof -
  from u obtain b where gb: "get_assigned_batch (sdb s) jid wid = Inr b"
    and t: "(if next_attempt b \<ge> max_batch_attempts then Failed else Validated) \<in> set (valid_transitions (b_status b))"
    and db': "db' = fst (requeue_or_fail_batch now b err (sdb s))"
    by (auto simp: report_failure_def Let_def split_beta)
  from assigned_row [OF gb] have row: "get_batch_row (sdb s) jid = Some b" and id: "b_id b = jid"
    and asg: "get_assignment (sdb s) jid \<noteq> None" by auto
  have ok: "row_ok (jid \<in> pend s) True b" using inv_row [OF inv row] asg by simp
  then have stat: "b_status b = InProgress" using t by (cases "b_status b") (auto simp: row_ok_def split: if_splits)
  have upd: "batches db' = tbl_upd b_id jid (requeue_row now err) (batches (sdb s))"
    and asgs: "assignments db' = tbl_del a_batch_id jid (assignments (sdb s))"
    by (simp_all add: db' id requeue_or_fail_batch_def upd_batch_def)
  have dist: "distinct (map a_batch_id (assignments db'))"
    using inv_ids [OF inv] by (simp add: asgs ids_ok_def tbl_del_def distinct_map_filter)
  have get: "get_assignment db' k = (if k = jid then None else get_assignment (sdb s) k)" for k
    by (simp add: asgs assignment_table.get_del)
  show ?thesis
    by (rule life_upd [OF inv row requeue_row_frame(1) _ upd dist])
      (use row_ok_requeue [OF ok stat] get in auto)
qed

section \<open>The sweep\<close>

lemma reclaim_ids: "ids_ok db \<Longrightarrow> ids_ok (fst (reclaim now wid as db))"
proof (induction as arbitrary: db)
  case (Cons a as)
  have "ids_ok (fst (requeue_or_fail_batch now b err db))" for b err
    using Cons.prems by (simp add: ids_ok_def requeue_or_fail_batch_def upd_batch_def tbl_del_def distinct_map_filter)
  with Cons show ?case by (auto simp: split_beta split: option.split)
qed simp

lemma sweep_worker_ids: "ids_ok db \<Longrightarrow> ids_ok (fst (sweep_worker now w db))"
  unfolding sweep_worker_def Let_def by (rule reclaim_ids) (simp add: ids_ok_def)

definition swept :: "seconds \<Rightarrow> srv \<Rightarrow> srv \<Rightarrow> string \<Rightarrow> bool" where
  "swept now db db' i \<longleftrightarrow> (case get_batch_row db i of
       None \<Rightarrow> get_batch_row db' i = None
     | Some b \<Rightarrow> \<exists>b'. get_batch_row db' i = Some b' \<and>
         (b' = b \<or> (b_status b = InProgress \<and> (\<exists>err. b' = requeue_row now err b))))"

lemma requeued_not_running: "b_status (requeue_row now err b) \<noteq> InProgress"
  by (simp add: requeue_row_status)

lemma swept_sweep_worker:
  assumes "swept now db0 db i"
  shows "swept now db0 (fst (sweep_worker now w db)) i"
  using assms requeued_not_running
  by (fastforce simp: swept_def sweep_worker_batch split: option.splits if_splits)

lemma inv_at_sweep_worker:
  assumes "inv_at \<lparr>sdb = db, pend = p\<rparr> i"
  shows "inv_at \<lparr>sdb = fst (sweep_worker now w db), pend = p\<rparr> i"
proof (cases "get_batch_row db i")
  case None
  with assms show ?thesis by (simp add: inv_at_def sweep_worker_batch sweep_worker_assignment)
next
  case (Some b)
  with assms have ok: "row_ok (i \<in> p) (get_assignment db i \<noteq> None) b" by (simp add: inv_at_def)
  show ?thesis
  proof (cases "b_status b = InProgress \<and> assigned_to db i (w_id w)")
    case True
    then have "row_ok (i \<in> p) True b" using ok by (auto simp: row_ok_def)
    from row_ok_requeue(1) [OF this] True Some show ?thesis
      by (simp add: inv_at_def sweep_worker_batch sweep_worker_assignment)
  next
    case False
    with Some ok show ?thesis by (auto simp: inv_at_def sweep_worker_batch sweep_worker_assignment)
  qed
qed

lemma life_sweep:
  assumes inv: "life_inv s"
  shows "life_inv \<lparr>sdb = fst (sweep_stale_workers now (sdb s)), pend = pend s\<rparr> \<and>
    evolves_at (sdb s) (fst (sweep_stale_workers now (sdb s))) i"
proof -
  let ?P = "\<lambda>db. life_inv \<lparr>sdb = db, pend = pend s\<rparr> \<and> (\<forall>i. swept now (sdb s) db i)"
  have "?P (fst (sweep_workers now (filter (is_stale now) (workers (sdb s))) (sdb s)))"
  proof (rule sweep_workers_rule)
    show "?P (sdb s)" using inv by (cases s) (auto simp: swept_def split: option.split)
  next
    fix w db
    assume P: "?P db"
    then have "ids_ok db" "\<And>i. inv_at \<lparr>sdb = db, pend = pend s\<rparr> i" by (simp_all add: life_inv_def)
    then show "?P (fst (sweep_worker now w db))"
      using P by (simp add: life_inv_def inv_at_sweep_worker swept_sweep_worker sweep_worker_ids)
  qed
  then have L: "life_inv \<lparr>sdb = fst (sweep_stale_workers now (sdb s)), pend = pend s\<rparr>"
    and S: "swept now (sdb s) (fst (sweep_stale_workers now (sdb s))) i" by (simp_all add: sweep_stale_fst)
  have "evolves_at (sdb s) (fst (sweep_stale_workers now (sdb s))) i"
  proof (cases "get_batch_row (sdb s) i")
    case (Some b)
    have ok: "row_ok (i \<in> pend s) (get_assignment (sdb s) i \<noteq> None) b" by (rule inv_row [OF inv Some])
    have "evolves b (requeue_row now err b)" if "b_status b = InProgress" for err
    proof -
      have "row_ok (i \<in> pend s) True b" using ok that by (auto simp: row_ok_def)
      then show ?thesis using row_ok_requeue(2) that by blast
    qed
    then show ?thesis using S Some by (auto simp: swept_def evolves_at_def)
  qed (simp add: evolves_at_def)
  with L show ?thesis by simp
qed

section \<open>All steps\<close>

lemma set_db_eq: "set_db db s = \<lparr>sdb = db, pend = pend s\<rparr>"
  by (cases s) (simp add: set_db_def)

lemma quiet_step:
  "life_inv s \<Longrightarrow> same_core (sdb s) db' \<Longrightarrow>
    life_inv (set_db db' s) \<and> evolves_at (sdb s) (sdb (set_db db' s)) i"
  using same_core_step [of s db' "pend s" i] by (simp add: set_db_eq)

lemma step_life:
  assumes "step wall s s'" "life_inv s"
  shows "life_inv s' \<and> evolves_at (sdb s) (sdb s') i"
  using assms
proof (induction rule: step.induct)
  case (create ctx req bid now s out bid' path db')
  then show ?case using life_create [of s ctx req bid now "(out, bid', path)" db' i] by simp
next
  case (verdict bid s commit_ok m2s now r ok db')
  then show ?case using life_verdict by simp
next
  case (lost p s)
  then show ?case using same_core_step [of s "sdb s" p i] same_core_refl [of "sdb s" "sdb s"] by (cases s) simp
next
  case (poll oid wid now s j db')
  then show ?case using life_poll by (simp add: set_db_eq)
next
  case (upload oid wid jid content n c f fid now s a db')
  then show ?case using life_upload by (simp add: set_db_eq)
next
  case (failure oid wid jid err now s a db')
  then show ?case using life_failure by (simp add: set_db_eq)
next
  case (sweep s now)
  then show ?case using life_sweep by (simp add: set_db_eq)
next
  case ingest
  then show ?case by (intro quiet_step same_core_ingest)
next
  case ingest_sweep
  then show ?case unfolding sweep_pending_ingestions_def by (intro quiet_step same_core_retry)
next
  case backfill
  then show ?case by (intro quiet_step same_core_backfill)
next
  case progress
  then show ?case by (intro quiet_step same_core_progress)
next
  case download
  then show ?case by (intro quiet_step quiet_core(1))
next
  case register
  then show ?case by (intro quiet_step quiet_core(2))
next
  case heartbeat
  then show ?case by (intro quiet_step quiet_core(3))
next
  case file_upload
  then show ?case by (intro quiet_step quiet_core(4))
next
  case file_delete
  then show ?case by (intro quiet_step quiet_core(5))
next
  case drain
  then show ?case by (intro quiet_step quiet_core(6))
next
  case undrain
  then show ?case by (intro quiet_step quiet_core(7))
next
  case remove
  then show ?case by (intro quiet_step quiet_core(8))
next
  case adopt
  then show ?case by (intro quiet_step same_core_adopt)
next
  case other
  then show ?case by (intro quiet_step same_core_refl)
qed

lemma reachable_life: "reachable wall s \<Longrightarrow> life_inv s"
proof (induction rule: reachable.induct)
  case (start db)
  then show ?case by (simp add: life_inv_def ids_ok_def inv_at_def tbl_get_def)
next
  case (more s s')
  then show ?case using step_life by blast
qed

end
