(* ===== verification/Life_Properties.thy ===== *)
theory Life_Properties
  imports Lifecycle
begin

text \<open>
  What the life-cycle invariant of theory \<open>Lifecycle\<close> gives of every reachable state, and a
  concrete run from an empty queue: a batch is created, validated, polled by a worker and
  completed by its upload.
\<close>

section \<open>A run\<close>

lemma api_value: "\<not> isl r \<Longrightarrow> r = Inr (fst (projr r), snd (projr r))"
  by (cases r) simp_all

definition demo_request :: batch_create where
  "demo_request = \<lparr>bc_input_file_id = ''f1'', bc_endpoint = ''/v1/chat/completions'',
     bc_completion_window = ''24h'', bc_metadata = None\<rparr>"

definition demo_verdict :: vresult where
  "demo_verdict = new_result\<lparr>vr_model := Some ''m-4b'', vr_total := 2\<rparr>"

definition demo_created :: srv where
  "demo_created = snd (projr (create_batch (sample_user, None) demo_request ''b1'' 960 sample_base))"

definition demo_validated :: srv where
  "demo_validated = snd (persist_result (\<lambda>_. True) (\<lambda>m. 60 * m) 961 ''b1'' demo_verdict demo_created)"

definition demo_running :: srv where
  "demo_running = snd (projr (poll_job sample_wall ''o1'' ''w1'' 970 demo_validated))"

definition demo_done :: srv where
  "demo_done = snd (projr (upload_results ''o1'' ''w1'' ''b1'' [''row''] 3 (Some 2) (Some 0) ''f2'' 990 demo_running))"

lemma demo_ok:
  "\<not> isl (create_batch (sample_user, None) demo_request ''b1'' 960 sample_base)"
  "get_batch_row sample_base ''b1'' = None"
  "fst (snd (fst (projr (create_batch (sample_user, None) demo_request ''b1'' 960 sample_base)))) = ''b1''"
  "\<not> isl (poll_job sample_wall ''o1'' ''w1'' 970 demo_validated)"
  "\<not> isl (upload_results ''o1'' ''w1'' ''b1'' [''row''] 3 (Some 2) (Some 0) ''f2'' 990 demo_running)"
  by code_simp+

lemma demo_created_reachable: "reachable sample_wall \<lparr>sdb = demo_created, pend = {''b1''}\<rparr>"
proof -
  let ?r = "create_batch (sample_user, None) demo_request ''b1'' 960 sample_base"
  let ?s = "\<lparr>sdb = sample_base, pend = {}\<rparr>"
  have "batches sample_base = []" "assignments sample_base = []" by code_simp+
  then have "reachable sample_wall ?s" by (rule reachable.start)
  moreover have "?r = Inr ((fst (fst (projr ?r)), ''b1'', snd (snd (fst (projr ?r)))), demo_created)"
    using api_value [OF demo_ok(1)] demo_ok(3) by (metis demo_created_def prod.collapse)
  then have "step sample_wall ?s \<lparr>sdb = demo_created, pend = insert ''b1'' (pend ?s)\<rparr>"
    by (intro step.create) (simp_all add: demo_ok(2))
  ultimately show ?thesis using reachable.more by fastforce
qed

lemma demo_validated_reachable: "reachable sample_wall \<lparr>sdb = demo_validated, pend = {}\<rparr>"
proof -
  let ?s = "\<lparr>sdb = demo_created, pend = {''b1''}\<rparr>"
  have "step sample_wall ?s \<lparr>sdb = demo_validated, pend = pend ?s - {''b1''}\<rparr>"
    by (rule step.verdict [where commit_ok = "\<lambda>_. True" and m2s = "\<lambda>m. 60 * m" and now = 961 and r = demo_verdict])
      (simp_all add: demo_validated_def prod_eq_iff)
  then show ?thesis using reachable.more [OF demo_created_reachable] by simp
qed

lemma demo_running_reachable: "reachable sample_wall \<lparr>sdb = demo_running, pend = {}\<rparr>"
proof -
  have "poll_job sample_wall ''o1'' ''w1'' 970 (sdb \<lparr>sdb = demo_validated, pend = {}\<rparr>) =
      Inr (fst (projr (poll_job sample_wall ''o1'' ''w1'' 970 demo_validated)), demo_running)"
    using api_value [OF demo_ok(4)] by (simp add: demo_running_def)
  note step.poll [OF this]
  then show ?thesis using reachable.more [OF demo_validated_reachable] by (simp add: set_db_eq)
qed

lemma demo_done_step: "step sample_wall \<lparr>sdb = demo_running, pend = {}\<rparr> \<lparr>sdb = demo_done, pend = {}\<rparr>"
proof -
  have "upload_results ''o1'' ''w1'' ''b1'' [''row''] 3 (Some 2) (Some 0) ''f2'' 990 (sdb \<lparr>sdb = demo_running, pend = {}\<rparr>) =
      Inr (fst (projr (upload_results ''o1'' ''w1'' ''b1'' [''row''] 3 (Some 2) (Some 0) ''f2'' 990 demo_running)), demo_done)"
    using api_value [OF demo_ok(5)] by (simp add: demo_done_def)
  note step.upload [OF this]
  then show ?thesis by (simp add: set_db_eq)
qed

lemma demo_done_reachable: "reachable sample_wall \<lparr>sdb = demo_done, pend = {}\<rparr>"
  by (rule reachable.more [OF demo_running_reachable demo_done_step])

definition demo_row :: batch where
  "demo_row = the (get_batch_row demo_running ''b1'')"

lemma demo_rows:
  "get_batch_row demo_running ''b1'' = Some demo_row" "b_status demo_row = InProgress"
  "get_batch_row demo_done ''b1'' \<noteq> None" "b_status (the (get_batch_row demo_done ''b1'')) = Completed"
  "get_assignment demo_running ''b1'' \<noteq> None"
  unfolding demo_row_def by code_simp+

section \<open>Invariants\<close>

text \<open>C1: In every reachable state a batch has an assignment row exactly when it is running or
  completed, so a queued or failed batch is never still held by a worker; and a validation is
  pending only for a batch that is still validating.\<close>

theorem assignment_iff_running:
  assumes "reachable wall s" "get_batch_row (sdb s) i = Some b"
  shows "(get_assignment (sdb s) i \<noteq> None \<longleftrightarrow> b_status b \<in> {InProgress, Completed}) \<and>
    (i \<in> pend s \<longrightarrow> b_status b = Validating)"
  using inv_row [OF reachable_life [OF assms(1)] assms(2)] by (simp add: row_ok_def)

theorem assignment_iff_running_witness:
  "get_assignment demo_running ''b1'' \<noteq> None \<and> b_status demo_row = InProgress"
  using assignment_iff_running [OF demo_running_reachable, of "''b1''" demo_row] demo_rows by simp

text \<open>How often a batch is started and taken back along a run, given as its states.\<close>

fun moves :: "(batch_status \<Rightarrow> batch_status \<Rightarrow> bool) \<Rightarrow> string \<Rightarrow> sys list \<Rightarrow> nat" where
  "moves P i (s # s' # run) = (case (get_batch_row (sdb s) i, get_batch_row (sdb s') i) of
       (Some b, Some b') \<Rightarrow> if P (b_status b) (b_status b') then 1 else 0 | _ \<Rightarrow> 0) + moves P i (s' # run)"
| "moves P i _ = 0"

definition starts :: "string \<Rightarrow> sys list \<Rightarrow> nat" where
  "starts = moves (\<lambda>x y. x = Validated \<and> y = InProgress)"

definition releases :: "string \<Rightarrow> sys list \<Rightarrow> nat" where
  "releases = moves (\<lambda>x y. x = InProgress \<and> y \<in> {Validated, Failed})"

text \<open>How often a row may still be started.\<close>

definition starts_left :: "batch \<Rightarrow> int" where
  "starts_left b = (if b_status b \<in> {Completed, Failed} then 0
     else if b_status b = InProgress then 2 - or0 (b_attempts b) else 3 - or0 (b_attempts b))"

lemma starts_left_nonneg: "row_ok p a b \<Longrightarrow> 0 \<le> starts_left b"
  by (auto simp: row_ok_def starts_left_def max_batch_attempts_def)

lemma starts_left_step:
  assumes "evolves b b'" "row_ok p a b" "row_ok p' a' b'"
  shows "starts_left b' + (if b_status b = Validated \<and> b_status b' = InProgress then 1 else 0) \<le> starts_left b"
proof (cases "b_status b' = b_status b")
  case True
  then show ?thesis using assms(1) by (auto simp: starts_left_def evolves_def)
next
  case False
  then have "b_status b' \<in> set (valid_transitions (b_status b))" using assms(1) by (auto simp: evolves_def)
  then show ?thesis using assms
    by (cases "b_status b") (auto simp: starts_left_def evolves_def row_ok_def max_batch_attempts_def)
qed

lemma run_attempts:
  assumes "life_inv s" "successively (step wall) (s # run)" "get_batch_row (sdb s) i = Some b"
  shows "\<exists>b'. life_inv (last (s # run)) \<and> get_batch_row (sdb (last (s # run))) i = Some b' \<and>
    or0 (b_attempts b') = or0 (b_attempts b) + int (releases i (s # run)) \<and> int (starts i (s # run)) \<le> starts_left b"
  using assms
proof (induction run arbitrary: s b)
  case Nil
  then show ?case using starts_left_nonneg inv_row by (fastforce simp: starts_def releases_def)
next
  case (Cons s1 run)
  then have st: "step wall s s1" "successively (step wall) (s1 # run)" by simp_all
  obtain b1 where b1: "life_inv s1" "get_batch_row (sdb s1) i = Some b1" "evolves b b1"
    using step_life [OF st(1) Cons.prems(1), of i] Cons.prems(3) by (auto simp: evolves_at_def)
  note left = starts_left_step [OF b1(3) inv_row [OF Cons.prems(1,3)] inv_row [OF b1(1,2)]]
  from Cons.IH [OF b1(1) st(2) b1(2)] obtain b2 where b2: "life_inv (last (s1 # run))"
    "get_batch_row (sdb (last (s1 # run))) i = Some b2"
    "or0 (b_attempts b2) = or0 (b_attempts b1) + int (releases i (s1 # run))" "int (starts i (s1 # run)) \<le> starts_left b1" by blast
  then show ?case using b1(2,3) Cons.prems(3) left
    by (auto simp: starts_def releases_def evolves_def split: if_splits)
qed

text \<open>C3: A batch is tried at most three times. Along any run of the system its attempts grow by one each time it is
  taken back from a worker - after a failure report or by the sweeper - and not otherwise; it is handed to a worker
  at most as often as it has attempts left of its three; it never has more than three, and with the third it has
  failed. A completed batch has an output file and a completion time.\<close>

theorem attempts_bounded:
  assumes "reachable wall s" "successively (step wall) (s # run)" "get_batch_row (sdb s) i = Some b"
  shows "\<exists>b'. get_batch_row (sdb (last (s # run))) i = Some b' \<and>
    or0 (b_attempts b') = or0 (b_attempts b) + int (releases i (s # run)) \<and>
    int (starts i (s # run)) \<le> 3 - or0 (b_attempts b) \<and>
    0 \<le> or0 (b_attempts b') \<and> or0 (b_attempts b') \<le> 3 \<and> (or0 (b_attempts b') = 3 \<longrightarrow> b_status b' = Failed) \<and>
    (b_status b' = Completed \<longrightarrow> b_output_file_id b' \<noteq> None \<and> b_completed_at b' \<noteq> None)"
proof -
  note inv = reachable_life [OF assms(1)]
  obtain b' where b': "life_inv (last (s # run))" "get_batch_row (sdb (last (s # run))) i = Some b'"
    "or0 (b_attempts b') = or0 (b_attempts b) + int (releases i (s # run))" "int (starts i (s # run)) \<le> starts_left b"
    using run_attempts [OF inv assms(2,3)] by blast
  have "starts_left b \<le> 3 - or0 (b_attempts b)"
    using inv_row [OF inv assms(3)] by (auto simp: starts_left_def row_ok_def max_batch_attempts_def)
  then show ?thesis using b' inv_row [OF b'(1,2)] by (auto simp: row_ok_def max_batch_attempts_def)
qed

text \<open>A batch that runs and is taken back by the sweeper has one attempt, and two starts left.\<close>

definition demo_swept :: srv where
  "demo_swept = fst (sweep_stale_workers 5000 demo_running)"

theorem attempts_bounded_witness:
  "\<exists>b'. get_batch_row demo_swept ''b1'' = Some b' \<and> or0 (b_attempts b') = 1 \<and> b_status b' = Validated"
proof -
  let ?s = "\<lparr>sdb = demo_running, pend = {}\<rparr>" and ?s' = "\<lparr>sdb = demo_swept, pend = {}\<rparr>"
  have "step sample_wall ?s (set_db (fst (sweep_stale_workers 5000 (sdb ?s))) ?s)" by (rule step.sweep)
  then have run: "successively (step sample_wall) [?s, ?s']" by (simp add: set_db_eq demo_swept_def)
  have stat: "map_option b_status (get_batch_row demo_swept ''b1'') = Some Validated" "or0 (b_attempts demo_row) = 0"
    unfolding demo_swept_def demo_row_def by code_simp+
  then obtain b' where b': "get_batch_row demo_swept ''b1'' = Some b'" "b_status b' = Validated" by auto
  from attempts_bounded [OF demo_running_reachable run, of "''b1''" demo_row] demo_rows(1,2) b' stat(2)
  show ?thesis by (auto simp: releases_def)
qed

text \<open>C2: Whatever request or background task runs next, no batch row disappears, its status
  changes only along the allowed transitions, its attempts never decrease, and a completed
  batch keeps its output file and completion time.\<close>

theorem step_respects_transitions:
  assumes "reachable wall s" "step wall s s'" "get_batch_row (sdb s) i = Some b"
  shows "\<exists>b'. get_batch_row (sdb s') i = Some b' \<and>
    (b_status b' = b_status b \<or> b_status b' \<in> set (valid_transitions (b_status b))) \<and>
    or0 (b_attempts b) \<le> or0 (b_attempts b') \<and>
    (b_status b = Completed \<longrightarrow> b_output_file_id b' = b_output_file_id b \<and> b_completed_at b' = b_completed_at b)"
  using step_life [OF assms(2) reachable_life [OF assms(1)], of i] assms(3)
  by (auto simp: evolves_at_def evolves_def split: if_splits)

theorem step_respects_transitions_witness:
  "\<exists>b'. get_batch_row demo_done ''b1'' = Some b' \<and>
    (b_status b' = InProgress \<or> b_status b' \<in> set (valid_transitions InProgress))"
  using step_respects_transitions [OF demo_running_reachable demo_done_step, of "''b1''" demo_row] demo_rows by auto

lemma run_keeps_final:
  assumes "(step wall)\<^sup>*\<^sup>* s s'" "life_inv s" "get_batch_row (sdb s) i = Some b" "b_status b \<in> {Completed, Failed}"
  shows "life_inv s' \<and> (\<exists>b'. get_batch_row (sdb s') i = Some b' \<and> b_status b' = b_status b \<and>
    b_output_file_id b' = b_output_file_id b \<and> b_completed_at b' = b_completed_at b)"
  using assms
proof (induction rule: rtranclp_induct)
  case (step y z)
  then obtain b1 where b1: "get_batch_row (sdb y) i = Some b1" "b_status b1 = b_status b"
      "b_output_file_id b1 = b_output_file_id b \<and> b_completed_at b1 = b_completed_at b"
    and inv: "life_inv y" by blast
  from step_life [OF step.hyps(2) inv, of i] b1(1) obtain b2 where
    "life_inv z" "get_batch_row (sdb z) i = Some b2" "evolves b1 b2" by (auto simp: evolves_at_def)
  with b1 step.prems(3) show ?case by (auto simp: evolves_def)
qed auto

text \<open>C4: Completion and failure are final: however the system runs on, a completed batch stays completed and a
  failed one stays failed, each with the same output file - or none - and completion time.\<close>

theorem finished_is_final:
  assumes "reachable wall s" "(step wall)\<^sup>*\<^sup>* s s'" "get_batch_row (sdb s) i = Some b"
    "b_status b \<in> {Completed, Failed}"
  shows "\<exists>b'. get_batch_row (sdb s') i = Some b' \<and> b_status b' = b_status b \<and>
    b_output_file_id b' = b_output_file_id b \<and> b_completed_at b' = b_completed_at b"
  using run_keeps_final [OF assms(2) reachable_life [OF assms(1)] assms(3,4)] by blast

theorem finished_is_final_witness:
  "\<exists>b'. get_batch_row (fst (sweep_stale_workers 5000 demo_done)) ''b1'' = Some b' \<and> b_status b' = Completed"
proof -
  let ?s = "\<lparr>sdb = demo_done, pend = {}\<rparr>"
  obtain b where b: "get_batch_row demo_done ''b1'' = Some b" "b_status b = Completed" using demo_rows(3,4) by auto
  have "(step sample_wall)\<^sup>*\<^sup>* ?s (set_db (fst (sweep_stale_workers 5000 (sdb ?s))) ?s)"
    by (rule r_into_rtranclp) (rule step.sweep)
  from finished_is_final [OF demo_done_reachable this, of "''b1''" b] b show ?thesis by (auto simp: set_db_eq)
qed

lemma run_life: "(step wall)\<^sup>*\<^sup>* s s' \<Longrightarrow> life_inv s \<Longrightarrow> get_batch_row (sdb s) i = Some b \<Longrightarrow>
   life_inv s' \<and> (\<exists>b'. get_batch_row (sdb s') i = Some b' \<and> (b_status b \<noteq> Validating \<longrightarrow> b_status b' \<noteq> Validating))"
proof (induction rule: rtranclp_induct)
  case (step y z)
  then obtain b1 where b1: "life_inv y" "get_batch_row (sdb y) i = Some b1" "b_status b \<noteq> Validating \<longrightarrow> b_status b1 \<noteq> Validating" by blast
  obtain b2 where b2: "life_inv z" "get_batch_row (sdb z) i = Some b2" "evolves b1 b2"
    using step_life [OF step.hyps(2) b1(1), of i] b1(2) by (auto simp: evolves_at_def)
  then have "b_status b1 \<noteq> Validating \<longrightarrow> b_status b2 \<noteq> Validating" by (cases "b_status b1") (auto simp: evolves_def)
  then show ?case using b1(3) b2(1,2) by blast
qed auto

lemma pick_row:
  assumes "poll_pick wall oid wid now (sdb s) = Inr (Some (w, b))" "life_inv s"
  shows "get_batch_row (sdb s) (b_id b) = Some b \<and> b_status b = Validated \<and> w_id w = wid"
proof -
  from assms(1) have w: "get_org_worker (sdb s) oid wid = Inr w"
    and b: "find_best_batch wall now (sdb s) w (available_batches (sdb s)) = Some b"
    by (auto simp: poll_pick_def split: if_splits option.splits)
  have "b \<in> set (batches (sdb s))" "b_status b = Validated"
    using find_best_batch_SomeD [OF b] by (auto simp: available_batches_def)
  moreover have "w_id w = wid" using w by (auto simp: get_org_worker_iff dest: find_SomeD)
  ultimately show ?thesis using ids_get [OF inv_ids [OF assms(2)]] by blast
qed

text \<open>C20: However polls race, no batch is handed to two workers. A poll that has read its choice and commits later,
  whatever was committed in between - other polls among it - is answered 500 and changes nothing exactly when the
  batch has an assignment by then, and is never refused when nothing came in between. If it commits, the batch was
  free, runs on its worker from now on, and no other batch is touched. (Its status is not read again: the batch was
  still queued, or was taken up, given back and failed for good meanwhile, which the commit overwrites.)\<close>

theorem racing_polls_exclusive:
  assumes "reachable wall s" "poll_pick wall oid wid now (sdb s) = Inr (Some (w, b))" "(step wall)\<^sup>*\<^sup>* s s'"
  shows "(poll_commit oid now' w b (sdb s') = Inl (HTTP 500) \<longleftrightarrow> get_assignment (sdb s') (b_id b) \<noteq> None) \<and>
    (\<exists>db'. poll_commit oid now' w b (sdb s) = Inr db') \<and>
    (\<forall>db'. poll_commit oid now' w b (sdb s') = Inr db' \<longrightarrow>
      (\<exists>c. get_batch_row (sdb s') (b_id b) = Some c \<and> b_status c \<in> {Validated, Failed}) \<and>
      map_option b_status (get_batch_row db' (b_id b)) = Some InProgress \<and>
      map_option a_worker_id (get_assignment db' (b_id b)) = Some wid \<and>
      (\<forall>i. i \<noteq> b_id b \<longrightarrow> get_batch_row db' i = get_batch_row (sdb s') i \<and> get_assignment db' i = get_assignment (sdb s') i))"
proof -
  note inv = reachable_life [OF assms(1)]
  note row = pick_row [OF assms(2) inv]
  obtain c where c: "life_inv s'" "get_batch_row (sdb s') (b_id b) = Some c" "b_status c \<noteq> Validating"
    using run_life [OF assms(3) inv] row by force
  have free: "get_assignment (sdb s) (b_id b) = None" using inv_row [OF inv, of "b_id b" b] row
    by (cases "get_assignment (sdb s) (b_id b)") (auto simp: row_ok_def)
  have commit: "get_assignment db (b_id b) = None \<Longrightarrow> poll_commit oid now' w b db = Inr (dispatch oid now' w b db)"
    "get_assignment db (b_id b) \<noteq> None \<Longrightarrow> poll_commit oid now' w b db = Inl (HTTP 500)" for db
    by (simp_all add: poll_commit_def require_def)
  have sent: "get_batch_row (dispatch oid now' w b db) i = (if i = b_id b then map_option (b_status_update (\<lambda>_. InProgress)) (get_batch_row db i)
       else get_batch_row db i)" for db i
    by (simp add: dispatch_def upd_batch_def batch_table.get_upd)
  have asg: "get_assignment db (b_id b) = None \<Longrightarrow> map_option a_worker_id (get_assignment (dispatch oid now' w b db) i) =
      (if i = b_id b then Some wid else map_option a_worker_id (get_assignment db i))"
    "i \<noteq> b_id b \<Longrightarrow> get_assignment (dispatch oid now' w b db) i = get_assignment db i" for db i
    using row by (auto simp: dispatch_def upd_batch_def assignment_table.get_add split: option.split)
  show ?thesis
  proof (cases "get_assignment (sdb s') (b_id b)")
    case None
    then have "b_status c \<in> {Validated, Failed}" using inv_row [OF c(1,2)] c(3) by (cases "b_status c") (auto simp: row_ok_def)
    moreover have "map_option a_worker_id (get_assignment (dispatch oid now' w b (sdb s')) (b_id b)) = Some wid"
      using asg(1) [OF None, of "b_id b"] by simp
    ultimately show ?thesis using None commit free c(2) asg(2) by (simp add: sent del: map_option_eq_Some)
  next
    case (Some a)
    then show ?thesis using commit free by simp
  qed
qed

text \<open>Two polls for the same queued batch: the second to commit is refused.\<close>

theorem racing_polls_exclusive_witness:
  "\<exists>w b. poll_pick sample_wall ''o1'' ''w1'' 970 demo_validated = Inr (Some (w, b)) \<and> b_id b = ''b1'' \<and>
     poll_commit ''o1'' 971 w b demo_running = Inl (HTTP 500)"
proof -
  let ?s = "\<lparr>sdb = demo_validated, pend = {}\<rparr>" and ?s' = "\<lparr>sdb = demo_running, pend = {}\<rparr>"
  have "map_sum id (map_option (b_id \<circ> snd)) (poll_pick sample_wall ''o1'' ''w1'' 970 demo_validated) = Inr (Some ''b1'')"
    by code_simp
  then obtain w b where p: "poll_pick sample_wall ''o1'' ''w1'' 970 (sdb ?s) = Inr (Some (w, b))" "b_id b = ''b1''"
    by (cases "poll_pick sample_wall ''o1'' ''w1'' 970 demo_validated") auto
  have "poll_job sample_wall ''o1'' ''w1'' 970 (sdb ?s) =
      Inr (fst (projr (poll_job sample_wall ''o1'' ''w1'' 970 demo_validated)), demo_running)"
    using api_value [OF demo_ok(4)] by (simp add: demo_running_def)
  from step.poll [OF this] have "(step sample_wall)\<^sup>*\<^sup>* ?s ?s'" by (simp add: set_db_eq)
  from racing_polls_exclusive [OF demo_validated_reachable p(1) this] p demo_rows(5) show ?thesis by auto
qed

end
