(* ===== verification/Rate_Limit.thy ===== *)
theory Rate_Limit
  imports Prelude
begin

text \<open>
  \<open>backend/rate_limit.py\<close>: at most ten key creations per user in a sliding window of an
  hour, with a sweep of aged-out users at most once per window. The module-level
  dictionary and \<open>_last_sweep\<close> are the state of one process. A call reads the clock, then waits for
  the lock: what it does under the lock is one step, with the time it read before.
\<close>

record limiter =
  rl_stamps :: "string \<rightharpoonup> rat list"
  rl_last_sweep :: rat

definition init_limiter :: limiter where
  "init_limiter = \<lparr>rl_stamps = Map.empty, rl_last_sweep = 0\<rparr>"

definition max_keys_per_hour :: nat where "max_keys_per_hour = 10"
definition rate_window :: rat where "rate_window = 3600"

definition fresh :: "rat \<Rightarrow> rat list \<Rightarrow> rat list" where
  "fresh now ts = filter (\<lambda>t. now - t < rate_window) ts"

definition rl_sweep :: "rat \<Rightarrow> limiter \<Rightarrow> limiter" where
  "rl_sweep now s =
     (if now - rl_last_sweep s < rate_window then s
      else s\<lparr>rl_last_sweep := now,
             rl_stamps := (\<lambda>uid. case rl_stamps s uid of
                 None \<Rightarrow> None
               | Some ts \<Rightarrow> if fresh now ts \<noteq> [] then Some (fresh now ts) else None)\<rparr>)"

definition stamps_of :: "limiter \<Rightarrow> string \<Rightarrow> rat list" where
  "stamps_of s uid = (case rl_stamps s uid of None \<Rightarrow> [] | Some ts \<Rightarrow> ts)"

definition check_key_creation_rate :: "rat \<Rightarrow> string \<Rightarrow> limiter \<Rightarrow> unit api \<times> limiter" where
  "check_key_creation_rate now uid s0 =
     (let s = rl_sweep now s0; ts = fresh now (stamps_of s uid) in
      if length ts \<ge> max_keys_per_hour
      then (Inl (HTTP 429), s\<lparr>rl_stamps := (rl_stamps s)(uid \<mapsto> ts)\<rparr>)
      else (Inr (), s\<lparr>rl_stamps := (rl_stamps s)(uid \<mapsto> ts @ [now])\<rparr>))"

text \<open>A history of calls \<open>(time, user)\<close> in the order in which they enter the lock: the calls let through, and the
  state. The times are those the calls read before they waited, so they need not be in order.\<close>

fun rate_run :: "(rat \<times> string) list \<Rightarrow> (rat \<times> string) list \<times> limiter \<Rightarrow> (rat \<times> string) list \<times> limiter" where
  "rate_run [] acc = acc"
| "rate_run ((now, uid) # calls) (granted, s) =
     (case check_key_creation_rate now uid s of
        (Inr _, s') \<Rightarrow> rate_run calls (granted @ [(now, uid)], s')
      | (Inl _, s') \<Rightarrow> rate_run calls (granted, s'))"

section \<open>Lemmas\<close>

definition granted_times :: "string \<Rightarrow> (rat \<times> string) list \<Rightarrow> rat list" where
  "granted_times uid granted = map fst (filter (\<lambda>c. snd c = uid) granted)"

lemma fresh_fresh: "now \<le> now' \<Longrightarrow> fresh now' (fresh now ts) = fresh now' ts"
  by (induction ts) (auto simp: fresh_def)

lemma fresh_append [simp]: "fresh now (xs @ ys) = fresh now xs @ fresh now ys"
  by (simp add: fresh_def)

lemma fresh_Nil [simp]: "fresh now [] = []"
  by (simp add: fresh_def)

lemma stamps_sweep: "now \<le> now' \<Longrightarrow> fresh now' (stamps_of (rl_sweep now s) uid) = fresh now' (stamps_of s uid)"
  by (auto simp: rl_sweep_def stamps_of_def fresh_fresh split: option.splits)
    (metis fresh_fresh fresh_def filter.simps(1))

lemma fresh_subseq: "subseq (fresh now ts) ts"
  by (simp add: fresh_def subseq_filter_left)

lemma fresh_length: "subseq ts us \<Longrightarrow> length (fresh now ts) \<le> length (fresh now us)"
  unfolding fresh_def by (rule list_emb_length [OF subseq_filter])

lemma fresh_later: "now \<le> now' \<Longrightarrow> length (fresh now' ts) \<le> length (fresh now ts)"
  by (metis fresh_fresh fresh_subseq list_emb_length)

lemma sweep_subseq: "subseq (stamps_of (rl_sweep now s) uid) (stamps_of s uid)"
  by (auto simp: rl_sweep_def stamps_of_def fresh_subseq split: option.splits)

text \<open>How far a time read before the lock may lie behind another that entered it first.\<close>

definition lagged :: "rat \<Rightarrow> rat list \<Rightarrow> bool" where
  "lagged d = sorted_wrt (\<lambda>x y. x \<le> y + d)"

text \<open>Seen from the latest time read so far or later, the stored stamps are the granted calls.\<close>

definition in_window :: "rat \<Rightarrow> rat \<Rightarrow> rat \<Rightarrow> bool" where
  "in_window d t x \<longleftrightarrow> x \<le> t \<and> t - x < rate_window - d"

definition rate_inv :: "rat \<Rightarrow> rat \<Rightarrow> (rat \<times> string) list \<times> limiter \<Rightarrow> bool" where
  "rate_inv d hi = (\<lambda>(granted, s). \<forall>uid.
     (\<forall>now. hi \<le> now \<longrightarrow> fresh now (stamps_of s uid) = fresh now (granted_times uid granted)) \<and>
     subseq (stamps_of s uid) (granted_times uid granted) \<and>
     (\<forall>t. length (filter (in_window d t) (granted_times uid granted)) \<le> max_keys_per_hour))"

lemma rate_inv_init: "rate_inv d hi ([], init_limiter)"
  by (simp add: rate_inv_def init_limiter_def stamps_of_def granted_times_def fresh_def)

lemma granted_times_snoc:
  "granted_times u (g @ [(now, uid)]) = granted_times u g @ (if u = uid then [now] else [])"
  by (simp add: granted_times_def)

lemma window_few:
  assumes "in_window d t now" "hi \<le> now + d" "0 \<le> d"
  shows "length (filter (in_window d t) ts) \<le> length (fresh (max hi now) ts)"
  using assms by (induction ts) (auto simp: fresh_def in_window_def)

lemma rate_step_inv:
  assumes inv: "rate_inv d hi (g, s)" and lag: "hi \<le> now + d" "0 \<le> d"
  shows "case check_key_creation_rate now uid s of
      (Inr _, s') \<Rightarrow> rate_inv d (max hi now) (g @ [(now, uid)], s')
    | (Inl _, s') \<Rightarrow> rate_inv d (max hi now) (g, s')"
proof -
  let ?s = "rl_sweep now s" and ?hi = "max hi now"
  let ?ts = "fresh now (stamps_of ?s uid)"
  from inv have st: "\<And>u t. hi \<le> t \<Longrightarrow> fresh t (stamps_of s u) = fresh t (granted_times u g)"
    and sq: "\<And>u. subseq (stamps_of s u) (granted_times u g)"
    and win: "\<And>u t. length (filter (in_window d t) (granted_times u g)) \<le> max_keys_per_hour"
    unfolding rate_inv_def by auto
  have sw: "?hi \<le> t \<Longrightarrow> fresh t (stamps_of ?s u) = fresh t (granted_times u g)" for t u
    using stamps_sweep [of now t s u] st by simp
  have sq': "subseq (stamps_of ?s u) (granted_times u g)" for u
    using subseq_order.trans [OF sweep_subseq sq] .
  have upd: "stamps_of (?s\<lparr>rl_stamps := (rl_stamps ?s)(uid \<mapsto> xs)\<rparr>) u = (if u = uid then xs else stamps_of ?s u)" for xs u
    by (simp add: stamps_of_def)
  have ts: "?hi \<le> t \<Longrightarrow> fresh t ?ts = fresh t (granted_times uid g)" for t using sw by (simp add: fresh_fresh)
  have ts_sq: "subseq ?ts (granted_times uid g)" using subseq_order.trans [OF fresh_subseq sq'] .
  show ?thesis
  proof (cases "length ?ts \<ge> max_keys_per_hour")
    case True
    have "rate_inv d ?hi (g, ?s\<lparr>rl_stamps := (rl_stamps ?s)(uid \<mapsto> ?ts)\<rparr>)"
      unfolding rate_inv_def using win by (auto simp: upd ts ts_sq sw sq')
    with True show ?thesis by (simp add: check_key_creation_rate_def Let_def)
  next
    case False
    have few: "length (filter (in_window d t) (granted_times uid g)) < max_keys_per_hour" if "in_window d t now" for t
    proof -
      have "length (filter (in_window d t) (granted_times uid g)) \<le> length (fresh ?hi (granted_times uid g))"
        by (rule window_few [OF that lag])
      also have "\<dots> = length (fresh ?hi (stamps_of ?s uid))" using sw by simp
      also have "\<dots> \<le> length ?ts" by (rule fresh_later) simp
      finally show ?thesis using False by simp
    qed
    have "length (filter (in_window d t) (granted_times u g @ (if u = uid then [now] else []))) \<le> max_keys_per_hour" for u t
      using few [of t] win [of t u] by (cases "u = uid"; cases "in_window d t now") (auto simp: Suc_le_eq)
    then have "rate_inv d ?hi (g @ [(now, uid)], ?s\<lparr>rl_stamps := (rl_stamps ?s)(uid \<mapsto> ?ts @ [now])\<rparr>)"
      unfolding rate_inv_def by (auto simp: upd ts sw sq' granted_times_snoc ts_sq)
    with False show ?thesis by (simp add: check_key_creation_rate_def Let_def)
  qed
qed

lemma rate_run_inv:
  assumes "rate_inv d hi (g, s)" "\<forall>c \<in> set calls. hi \<le> fst c + d" "lagged d (map fst calls)" "0 \<le> d"
  shows "\<exists>hi'. rate_inv d hi' (rate_run calls (g, s))"
  using assms
proof (induction calls arbitrary: hi g s)
  case (Cons c calls)
  obtain now uid where c: "c = (now, uid)" by fastforce
  with Cons.prems have step: "case check_key_creation_rate now uid s of
      (Inr _, s') \<Rightarrow> rate_inv d (max hi now) (g @ [(now, uid)], s') | (Inl _, s') \<Rightarrow> rate_inv d (max hi now) (g, s')"
    by (intro rate_step_inv) auto
  have "\<forall>c' \<in> set calls. max hi now \<le> fst c' + d" "lagged d (map fst calls)"
    using Cons.prems(2,3) c by (auto simp: lagged_def)
  with step Cons.IH Cons.prems(4) show ?case
    by (cases "check_key_creation_rate now uid s"; cases "fst (check_key_creation_rate now uid s)") (auto simp: c)
qed auto

lemma rate_run_from_start:
  assumes "lagged d (map fst calls)" "0 \<le> d"
  shows "\<exists>hi. rate_inv d hi (rate_run calls ([], init_limiter))"
proof -
  have "\<exists>hi. \<forall>c \<in> set calls. hi \<le> fst c + d" for calls :: "(rat \<times> string) list"
  proof (induction calls)
    case (Cons c calls)
    then obtain hi where "\<forall>c \<in> set calls. hi \<le> fst c + d" by blast
    then have "\<forall>c' \<in> set (c # calls). min hi (fst c + d) \<le> fst c' + d" by auto
    then show ?case by blast
  qed simp
  with rate_run_inv [OF rate_inv_init _ assms] show ?thesis by blast
qed

section \<open>Properties\<close>

text \<open>C33: However the requests of all users interleave in one process, also when a request reads the clock and
  then waits for the lock while others overtake it, up to a delay \<open>d\<close>: of the calls it is asked about the
  limiter lets no user through more than ten times within any window of an hour less \<open>d\<close> (within any hour when
  the clock readings enter in order), the sweep that evicts idle users notwithstanding; and it refuses a call only
  when ten of that user's calls of the last hour were let through.\<close>

theorem at_most_ten_per_hour:
  assumes "lagged d (map fst calls)" "0 \<le> d" "rate_run calls ([], init_limiter) = (granted, s)"
  shows "length (filter (\<lambda>x. x \<le> t \<and> t - x < 3600 - d) (granted_times uid granted)) \<le> 10 \<and>
    (fst (check_key_creation_rate now uid s) = Inr () \<or>
     10 \<le> length (filter (\<lambda>x. now - x < 3600) (granted_times uid granted)))"
proof -
  obtain hi where inv: "rate_inv d hi (granted, s)" using rate_run_from_start [OF assms(1,2)] assms(3) by auto
  have "length (fresh now (stamps_of (rl_sweep now s) uid)) \<le> length (fresh now (granted_times uid granted))"
    using inv subseq_order.trans [OF sweep_subseq] by (intro fresh_length) (auto simp: rate_inv_def)
  then have "fst (check_key_creation_rate now uid s) = Inr () \<or> 10 \<le> length (fresh now (granted_times uid granted))"
    by (auto simp: check_key_creation_rate_def Let_def max_keys_per_hour_def)
  moreover have "length (filter (in_window d t) (granted_times uid granted)) \<le> 10"
    using inv by (simp add: rate_inv_def max_keys_per_hour_def)
  ultimately show ?thesis by (simp add: in_window_def [abs_def] fresh_def rate_window_def)
qed

text \<open>Twelve calls of a user, the last two of which overtake each other by a second: the eleventh and the twelfth
  are refused.\<close>

definition sample_calls :: "(rat \<times> string) list" where
  "sample_calls = replicate 10 (10, ''u'') @ [(12, ''u''), (11, ''u'')]"

theorem at_most_ten_per_hour_witness:
  "granted_times ''u'' (fst (rate_run sample_calls ([], init_limiter))) = replicate 10 10 \<and>
   length (filter (\<lambda>x. x \<le> 20 \<and> 20 - x < 3600 - 1) (granted_times ''u'' (fst (rate_run sample_calls ([], init_limiter))))) \<le> 10"
proof
  show "granted_times ''u'' (fst (rate_run sample_calls ([], init_limiter))) = replicate 10 10" by code_simp
  have "lagged 1 (map fst sample_calls)" by (simp add: lagged_def sample_calls_def eval_nat_numeral)
  from at_most_ten_per_hour [OF this _ prod.collapse [symmetric], of 20 "''u''"]
  show "length (filter (\<lambda>x. x \<le> 20 \<and> 20 - x < 3600 - 1) (granted_times ''u'' (fst (rate_run sample_calls ([], init_limiter))))) \<le> 10"
    by simp
qed

end
