(* ===== verification/Org_Keys.thy ===== *)
theory Org_Keys
  imports Org_Members Rate_Limit
begin

text \<open>
  API keys: the organization's keys of \<open>backend/routers/organizations.py\<close> and the personal keys
  of \<open>backend/routers/users.py\<close>. \<open>raw\<close> is the fresh random key, returned once; the row holds
  its hash.
\<close>

definition parse_key_type :: "string \<Rightarrow> key_type option" where
  "parse_key_type t = map_of [(''worker'', WorkerKey), (''personal'', PersonalKey)] t"

definition new_key :: "key_hash \<Rightarrow> string \<Rightarrow> string option \<Rightarrow> key_type \<Rightarrow> string \<Rightarrow> string \<Rightarrow> string \<Rightarrow>
    seconds option \<Rightarrow> seconds \<Rightarrow> api_key_row" where
  "new_key hash kid oid ty uid name raw expires now = \<lparr>ak_id = kid, ak_org_id = oid, ak_type = ty,
     ak_user_id = uid, ak_name = name, ak_prefix = get_api_key_prefix raw, ak_hash = hash raw,
     ak_status = KeyActive, ak_last_used_at = None, ak_expires_at = expires, ak_created_at = now,
     ak_revoked_at = None\<rparr>"

definition upd_key :: "string \<Rightarrow> (api_key_row \<Rightarrow> api_key_row) \<Rightarrow> srv \<Rightarrow> srv" where
  "upd_key kid f db = db\<lparr>api_keys := tbl_upd ak_id kid f (api_keys db)\<rparr>"

definition revoke_row :: "seconds \<Rightarrow> api_key_row \<Rightarrow> api_key_row" where
  "revoke_row now k = k\<lparr>ak_status := KeyRevoked, ak_revoked_at := Some now\<rparr>"

section \<open>Organization keys\<close>

definition list_org_api_keys :: "user_row \<Rightarrow> string \<Rightarrow> srv \<Rightarrow> api_key_row list api" where
  "list_org_api_keys user oid db = ebind (require_membership db user oid []) (\<lambda>_.
     Inr (sort_key (\<lambda>k. - ak_created_at k) (filter (\<lambda>k. ak_org_id k = Some oid) (api_keys db))))"

definition create_api_key :: "key_hash \<Rightarrow> user_row \<Rightarrow> string \<Rightarrow> string \<Rightarrow> string \<Rightarrow> string \<Rightarrow> string \<Rightarrow>
    seconds \<Rightarrow> srv \<Rightarrow> ((string \<times> string) \<times> srv) api" where
  "create_api_key hash user oid name ty_name kid raw now db =
     ebind (require_membership db user oid [Owner, Admin]) (\<lambda>_.
     ebind (get_or 400 (parse_key_type ty_name)) (\<lambda>ty.
     Inr ((kid, raw), db\<lparr>api_keys :=
        tbl_add (new_key hash kid (Some oid) ty (usr_id user) name raw None now) (api_keys db)\<rparr>)))"

definition find_org_key :: "srv \<Rightarrow> string \<Rightarrow> string \<Rightarrow> api_key_row option" where
  "find_org_key db oid kid = find (\<lambda>k. ak_id k = kid \<and> ak_org_id k = Some oid) (api_keys db)"

definition revoke_api_key :: "user_row \<Rightarrow> string \<Rightarrow> string \<Rightarrow> seconds \<Rightarrow> srv \<Rightarrow> (string \<times> srv) api" where
  "revoke_api_key user oid kid now db =
     ebind (require_membership db user oid [Owner, Admin]) (\<lambda>_.
     ebind (get_or 404 (find_org_key db oid kid)) (\<lambda>k.
     ebind (require (\<not> (ak_type k = WorkerKey \<and>
              filter (\<lambda>w. w_api_key_id w = Some kid \<and> w_activity w = Busy) (workers db) \<noteq> [])) 409) (\<lambda>_.
     Inr (kid, upd_key (ak_id k) (revoke_row now) db))))"

definition regenerate_org_api_key :: "key_hash \<Rightarrow> user_row \<Rightarrow> string \<Rightarrow> string \<Rightarrow> srv \<Rightarrow> (string \<times> srv) api" where
  "regenerate_org_api_key hash user oid raw db =
     ebind (require_membership db user oid [Owner, Admin]) (\<lambda>_.
     ebind (get_or 404 (find (\<lambda>k. ak_org_id k = Some oid \<and> ak_type k = WorkerKey \<and> ak_status k = KeyActive)
              (api_keys db))) (\<lambda>k.
     Inr (raw, upd_key (ak_id k) (\<lambda>k. k\<lparr>ak_prefix := get_api_key_prefix raw, ak_hash := hash raw\<rparr>) db)))"

section \<open>Personal keys\<close>

definition one_year :: seconds where "one_year = 365 * 24 * 3600"

definition expiry_ok :: "seconds \<Rightarrow> seconds option \<Rightarrow> bool" where
  "expiry_ok now e = (case e of None \<Rightarrow> True | Some t \<Rightarrow> now < t \<and> t \<le> now + one_year)"

text \<open>The rate limiter is consulted before the request is checked, so a refused request counts.
  \<open>clock\<close> is \<open>time.time()\<close>, \<open>now\<close> the integer timestamp.\<close>

definition create_personal_api_key :: "key_hash \<Rightarrow> human \<Rightarrow> string \<Rightarrow> seconds option \<Rightarrow> string \<Rightarrow> string \<Rightarrow>
    rat \<Rightarrow> seconds \<Rightarrow> srv \<Rightarrow> limiter \<Rightarrow> ((string \<times> string) \<times> srv) api \<times> limiter" where
  "create_personal_api_key hash ctx name expires kid raw clock now db rl =
     (case check_key_creation_rate clock (usr_id (fst ctx)) rl of
        (Inl e, rl') \<Rightarrow> (Inl e, rl')
      | (Inr _, rl') \<Rightarrow>
          (ebind (require (expiry_ok now expires) 400) (\<lambda>_.
             Inr ((kid, raw), db\<lparr>api_keys := tbl_add
                (new_key hash kid None PersonalKey (usr_id (fst ctx)) name raw expires now) (api_keys db)\<rparr>)),
           rl'))"

definition list_personal_api_keys :: "human \<Rightarrow> srv \<Rightarrow> api_key_row list" where
  "list_personal_api_keys ctx db = sort_key (\<lambda>k. - ak_created_at k)
     (filter (\<lambda>k. ak_user_id k = usr_id (fst ctx) \<and> ak_type k = PersonalKey) (api_keys db))"

definition find_personal_key :: "srv \<Rightarrow> string \<Rightarrow> string \<Rightarrow> api_key_row option" where
  "find_personal_key db uid kid =
     find (\<lambda>k. ak_id k = kid \<and> ak_user_id k = uid \<and> ak_type k = PersonalKey) (api_keys db)"

definition update_personal_api_key :: "human \<Rightarrow> string \<Rightarrow> string option \<Rightarrow> seconds option \<Rightarrow>
    key_status option \<Rightarrow> seconds \<Rightarrow> srv \<Rightarrow> (string \<times> srv) api" where
  "update_personal_api_key ctx kid name expires status now db =
     ebind (get_or 404 (find_personal_key db (usr_id (fst ctx)) kid)) (\<lambda>k.
     ebind (require (expiry_ok now expires) 400) (\<lambda>_.
     Inr (kid, upd_key (ak_id k) (\<lambda>k.
        let k1 = (case name of None \<Rightarrow> k | Some n \<Rightarrow> k\<lparr>ak_name := n\<rparr>);
            k2 = (case expires of None \<Rightarrow> k1 | Some e \<Rightarrow> k1\<lparr>ak_expires_at := Some e\<rparr>)
        in (case status of
              None \<Rightarrow> k2
            | Some KeyRevoked \<Rightarrow> revoke_row now k2
            | Some KeyActive \<Rightarrow> k2\<lparr>ak_status := KeyActive\<rparr>)) db)))"

definition revoke_personal_api_key :: "human \<Rightarrow> string \<Rightarrow> seconds \<Rightarrow> srv \<Rightarrow> (string \<times> srv) api" where
  "revoke_personal_api_key ctx kid now db =
     ebind (get_or 404 (find_personal_key db (usr_id (fst ctx)) kid)) (\<lambda>k.
     ebind (require (ak_status k \<noteq> KeyRevoked) 400) (\<lambda>_.
     Inr (kid, upd_key (ak_id k) (revoke_row now) db)))"

section \<open>Lemmas\<close>

lemma find_tbl_upd_none:
  assumes "\<And>r. P (f r) \<Longrightarrow> False" "\<And>r. r \<in> set rows \<Longrightarrow> P r \<Longrightarrow> key r = k"
  shows "find P (tbl_upd key k f rows) = None"
  using assms by (auto simp: find_None_iff tbl_upd_def split: if_splits)

text \<open>A revoked key's token no longer authenticates, when no other row carries its hash.\<close>

lemma revoked_worker_key:
  assumes uniq: "\<And>r. r \<in> set (api_keys db) \<Longrightarrow> ak_hash r = hash token \<Longrightarrow> ak_id r = kid"
  shows "get_worker_context hash t token (upd_key kid (revoke_row now) db) = Inl (HTTP 401)"
proof -
  have "find (\<lambda>k. ak_hash k = hash token \<and> ak_type k = WorkerKey \<and> ak_status k = KeyActive)
      (api_keys (upd_key kid (revoke_row now) db)) = None"
    unfolding upd_key_def by simp (rule find_tbl_upd_none, auto simp: revoke_row_def dest: uniq)
  then show ?thesis by (simp add: get_worker_context_def)
qed

lemma revoked_personal_key:
  assumes uniq: "\<And>r. r \<in> set (api_keys db) \<Longrightarrow> ak_hash r = hash token \<Longrightarrow> ak_id r = kid"
  shows "resolve_personal_api_key hash t token (upd_key kid (revoke_row now) db) = Inl (HTTP 401)"
proof -
  have "find (\<lambda>k. ak_hash k = hash token \<and> ak_type k = PersonalKey \<and> ak_status k = KeyActive)
      (api_keys (upd_key kid (revoke_row now) db)) = None"
    unfolding upd_key_def by simp (rule find_tbl_upd_none, auto simp: revoke_row_def dest: uniq)
  then show ?thesis by (simp add: resolve_personal_api_key_def)
qed

end
