(* ===== verification/Accounts.thy ===== *)
theory Accounts
  imports Org_Keys
begin

text \<open>
  \<open>backend/routers/auth.py\<close>: sign-up, Google sign-in, login, the profile, passwords and their
  reset, the domains allowed to register, and the superadmin listings; with the token and
  Google helpers of \<open>backend/auth.py\<close>.

  Parameters: \<open>bhash\<close>, \<open>bcheck\<close> (bcrypt, on the bytes of a password), \<open>jwt\<close> (\<open>jwt.encode\<close> with the
  server's secret), \<open>google\<close> (\<open>verify_oauth2_token\<close>, None when it raises \<open>ValueError\<close>), \<open>hash\<close>
  (the digest of an API key) and the fresh random identifiers and tokens. \<open>rival\<close> is the database
  after the requests that commit between this handler's last look-up and its own insert: the unique
  constraints on \<open>email\<close>, \<open>google_id\<close> and \<open>domain\<close> are checked against it. A handler that commits
  before it raises returns the state beside the answer; \<open>Inl (HTTP 500)\<close> is an uncaught exception.
\<close>

section \<open>Normal forms\<close>

definition normalize_email :: "string \<Rightarrow> string" where
  "normalize_email email = lower (strip email)"

definition lstrip_char :: "char \<Rightarrow> string \<Rightarrow> string" where
  "lstrip_char c s = dropWhile (\<lambda>x. x = c) s"

definition rstrip_char :: "char \<Rightarrow> string \<Rightarrow> string" where
  "rstrip_char c s = rev (dropWhile (\<lambda>x. x = c) (rev s))"

definition normalize_domain :: "string \<Rightarrow> string" where
  "normalize_domain domain = rstrip_char (CHR ''.'') (lstrip_char (CHR ''@'') (lower (strip domain)))"

text \<open>\<open>s.rsplit("@", 1)[-1]\<close>.\<close>

definition after_at :: "string \<Rightarrow> string" where
  "after_at s = last (split_on (CHR ''@'') s)"

section \<open>The allowed-domain gate\<close>

definition domain_matches :: "string \<Rightarrow> allowed_domain_row \<Rightarrow> bool" where
  "domain_matches domain entry \<longleftrightarrow> domain = dom_domain entry \<or>
     (dom_subdomains entry \<and> suffix (CHR ''.'' # dom_domain entry) domain)"

definition assert_domain_allowed :: "string \<Rightarrow> srv \<Rightarrow> unit api" where
  "assert_domain_allowed email db =
     (if allowed_domains db = [] then Inr ()
      else let normalized = normalize_email email in
        ebind (require (CHR ''@'' \<in> set normalized) 400) (\<lambda>_.
        require (list_ex (domain_matches (after_at normalized)) (allowed_domains db)) 403))"

section \<open>Signing up\<close>

definition user_by_email :: "string \<Rightarrow> srv \<Rightarrow> user_row option" where
  "user_by_email email db = find (\<lambda>u. usr_email u = email) (users db)"

definition user_by_google :: "string \<Rightarrow> srv \<Rightarrow> user_row option" where
  "user_by_google sub db = find (\<lambda>u. usr_google_id u = Some sub) (users db)"

definition upd_user :: "string \<Rightarrow> (user_row \<Rightarrow> user_row) \<Rightarrow> srv \<Rightarrow> srv" where
  "upd_user uid f db = db\<lparr>users := tbl_upd usr_id uid f (users db)\<rparr>"

text \<open>The three rows of a new account: the user, the personal organization, its owner.\<close>

record fresh_ids =
  fr_user :: string
  fr_org :: string
  fr_membership :: string

definition personal_org_name :: "string \<Rightarrow> string" where
  "personal_org_name full_name = full_name @ CHR 0x27 # ''s Personal Org''"

definition add_account :: "fresh_ids \<Rightarrow> user_row \<Rightarrow> seconds \<Rightarrow> srv \<Rightarrow> srv" where
  "add_account ids u now db = add_membership (fr_membership ids) (fr_org ids) (usr_id u) Owner
     (db\<lparr>users := tbl_add u (users db),
         orgs := tbl_add \<lparr>org_id = fr_org ids, org_name = personal_org_name (usr_full_name u),
                          org_created_at = now\<rparr> (orgs db)\<rparr>)"

text \<open>The unique constraints of the table \<open>users\<close>.\<close>

definition user_conflict :: "user_row \<Rightarrow> srv \<Rightarrow> bool" where
  "user_conflict u db \<longleftrightarrow> list_ex (\<lambda>v. usr_email v = usr_email u \<or>
     (usr_google_id u \<noteq> None \<and> usr_google_id v = usr_google_id u)) (users db)"

definition local_user :: "string \<Rightarrow> string \<Rightarrow> string \<Rightarrow> string \<Rightarrow> seconds \<Rightarrow> user_row" where
  "local_user uid email pw_hash full_name now = \<lparr>usr_id = uid, usr_email = email,
     usr_password_hash = Some pw_hash, usr_full_name = full_name, usr_role = RoleUser,
     usr_active = True, usr_must_change = False, usr_google_id = None,
     usr_auth_provider = LocalAuth, usr_created_at = now\<rparr>"

definition signup :: "(nat list \<Rightarrow> string) \<Rightarrow> string \<Rightarrow> nat list \<Rightarrow> string \<Rightarrow> fresh_ids \<Rightarrow> seconds \<Rightarrow>
    srv \<Rightarrow> srv \<Rightarrow> user_row api \<times> srv" where
  "signup bhash raw_email password full_name ids now rival db =
     (let email = normalize_email raw_email in
      case ebind (assert_domain_allowed email db) (\<lambda>_.
           ebind (require (user_by_email email db = None) 409) (\<lambda>_.
           hash_password bhash password)) of
        Inl e \<Rightarrow> (Inl e, db)
      | Inr h \<Rightarrow>
          let u = local_user (fr_user ids) email h full_name now in
          if user_conflict u rival then (Inl (HTTP 500), rival)
          else (Inr u, add_account ids u now rival))"

section \<open>Tokens\<close>

definition role_name :: "platform_role \<Rightarrow> string" where
  "role_name r = (case r of RoleUser \<Rightarrow> ''user'' | RoleAdmin \<Rightarrow> ''admin'' | RoleSuperadmin \<Rightarrow> ''superadmin'')"

definition access_token_expire_minutes :: int where
  "access_token_expire_minutes = 60 * 24"

definition token_payload :: "seconds \<Rightarrow> user_row \<Rightarrow> jdict" where
  "token_payload now u = [(''sub'', JStr (usr_id u)),
     (''platform_role'', JStr (role_name (usr_role u))),
     (''exp'', JInt (now + 60 * access_token_expire_minutes))]"

definition create_access_token :: "(jdict \<Rightarrow> string) \<Rightarrow> seconds \<Rightarrow> user_row \<Rightarrow> string" where
  "create_access_token jwt now u = jwt (token_payload now u)"

text \<open>\<open>gk-\<close> and 24 random bytes in hexadecimal.\<close>

definition generate_api_key :: "string \<Rightarrow> string" where
  "generate_api_key token_hex = ''gk-'' @ token_hex"

record token_out =
  to_access_token :: string
  to_role :: platform_role
  to_must_change :: bool
  to_is_new :: bool

definition issue_token :: "(jdict \<Rightarrow> string) \<Rightarrow> seconds \<Rightarrow> user_row \<Rightarrow> bool \<Rightarrow> token_out" where
  "issue_token jwt now u created = \<lparr>to_access_token = create_access_token jwt now u,
     to_role = usr_role u, to_must_change = usr_must_change u, to_is_new = created\<rparr>"

section \<open>Google sign-in\<close>

text \<open>The claims the code reads of a verified token; an absent one is None.\<close>

record google_claims =
  gc_iss :: "string option"
  gc_sub :: "string option"
  gc_email :: "string option"
  gc_verified :: "bool option"
  gc_name :: "string option"
  gc_given :: "string option"
  gc_family :: "string option"

definition verify_google_token :: "string option \<Rightarrow> (string \<Rightarrow> google_claims option) \<Rightarrow> string \<Rightarrow>
    google_claims api" where
  "verify_google_token client_id google token =
     ebind (require (truthy client_id) 500) (\<lambda>_.
     ebind (get_or 401 (google token)) (\<lambda>info.
     ebind (get_or 500 (gc_iss info)) (\<lambda>iss.
     ebind (require (iss \<in> {''accounts.google.com'', ''https://accounts.google.com''}) 401) (\<lambda>_.
     Inr info))))"

definition or_empty :: "string option \<Rightarrow> string" where
  "or_empty x = (case x of None \<Rightarrow> [] | Some s \<Rightarrow> s)"

definition google_full_name :: "google_claims \<Rightarrow> string \<Rightarrow> string" where
  "google_full_name info email =
     (let name = or_empty (gc_name info);
          both = strip (or_empty (gc_given info) @ '' '' @ or_empty (gc_family info)) in
      if name \<noteq> [] then name else if both \<noteq> [] then both else email)"

definition google_user :: "string \<Rightarrow> string \<Rightarrow> string \<Rightarrow> string \<Rightarrow> seconds \<Rightarrow> user_row" where
  "google_user uid email full_name sub now = \<lparr>usr_id = uid, usr_email = email,
     usr_password_hash = None, usr_full_name = full_name, usr_role = RoleUser,
     usr_active = True, usr_must_change = False, usr_google_id = Some sub,
     usr_auth_provider = GoogleAuth, usr_created_at = now\<rparr>"

text \<open>The link writes the attributes that differ from the row \<open>u\<close> that was read, to the row \<open>v\<close> of its id.\<close>

definition link_google :: "string \<Rightarrow> user_row \<Rightarrow> user_row \<Rightarrow> user_row" where
  "link_google sub u v = (let provider = (if truthy (usr_password_hash u) then BothAuth else GoogleAuth) in
     v\<lparr>usr_google_id := Some sub,
       usr_auth_provider := (if provider = usr_auth_provider u then usr_auth_provider v else provider)\<rparr>)"

text \<open>Its commit: the id may be gone or the Google id taken by then, neither of which is caught.\<close>

definition commit_link :: "string \<Rightarrow> user_row \<Rightarrow> srv \<Rightarrow> (user_row \<times> bool) api \<times> srv" where
  "commit_link sub u rival = (case tbl_get usr_id (usr_id u) (users rival) of
       None \<Rightarrow> (Inl (HTTP 500), rival)
     | Some v \<Rightarrow>
         if list_ex (\<lambda>w. usr_id w \<noteq> usr_id u \<and> usr_google_id w = Some sub) (users rival) then (Inl (HTTP 500), rival)
         else (Inr (link_google sub u v, False), upd_user (usr_id u) (link_google sub u) rival))"

text \<open>Find or make the account: the returning user, the linked e-mail, a new one, or the row of
  the concurrent sign-in that won the race. The flag tells whether an account was made.\<close>

definition google_account :: "string \<Rightarrow> string \<Rightarrow> string \<Rightarrow> fresh_ids \<Rightarrow> seconds \<Rightarrow> srv \<Rightarrow> srv \<Rightarrow>
    (user_row \<times> bool) api \<times> srv" where
  "google_account sub email full_name ids now rival db =
     (case user_by_google sub db of
        Some u \<Rightarrow> (Inr (u, False), db)
      | None \<Rightarrow> (case user_by_email email db of
          Some u \<Rightarrow> commit_link sub u rival
        | None \<Rightarrow> (case assert_domain_allowed email db of
            Inl e \<Rightarrow> (Inl e, db)
          | Inr _ \<Rightarrow>
              let u = google_user (fr_user ids) email full_name sub now in
              if \<not> user_conflict u rival then (Inr (u, True), add_account ids u now rival)
              else (case user_by_google sub rival of
                  Some w \<Rightarrow> (Inr (w, False), rival)
                | None \<Rightarrow> (case user_by_email email rival of
                    Some w \<Rightarrow> (Inr (w, False), rival)
                  | None \<Rightarrow> (Inl (HTTP 500), rival))))))"

definition google_auth :: "(jdict \<Rightarrow> string) \<Rightarrow> string option \<Rightarrow> (string \<Rightarrow> google_claims option) \<Rightarrow>
    string \<Rightarrow> fresh_ids \<Rightarrow> seconds \<Rightarrow> srv \<Rightarrow> srv \<Rightarrow> token_out api \<times> srv" where
  "google_auth jwt client_id google token ids now rival db =
     (case ebind (verify_google_token client_id google token) (\<lambda>info.
           ebind (get_or 500 (gc_sub info)) (\<lambda>sub.
           let email = lower (strip (or_empty (gc_email info))) in
           ebind (require (email \<noteq> [] \<and> gc_verified info = Some True) 400) (\<lambda>_.
           Inr (sub, email, google_full_name info email)))) of
        Inl e \<Rightarrow> (Inl e, db)
      | Inr (sub, email, full_name) \<Rightarrow>
          (case google_account sub email full_name ids now rival db of
             (Inl e, db') \<Rightarrow> (Inl e, db')
           | (Inr (u, created), db') \<Rightarrow>
               if \<not> usr_active u then (Inl (HTTP 403), db')
               else (Inr (issue_token jwt now u created), db')))"

section \<open>Login and profile\<close>

definition login :: "(nat list \<Rightarrow> string \<Rightarrow> bool) \<Rightarrow> (jdict \<Rightarrow> string) \<Rightarrow> string \<Rightarrow> nat list \<Rightarrow> seconds \<Rightarrow>
    srv \<Rightarrow> token_out api" where
  "login bcheck jwt raw_email password now db =
     ebind (get_or 401 (user_by_email (normalize_email raw_email) db)) (\<lambda>u.
     ebind (require (truthy (usr_password_hash u)) 400) (\<lambda>_.
     ebind (require (verify_password bcheck password (the (usr_password_hash u))) 401) (\<lambda>_.
     ebind (require (usr_active u) 403) (\<lambda>_.
     Inr (issue_token jwt now u False)))))"

record profile_out =
  po_user :: user_row
  po_key_prefix :: "string option"
  po_orgs :: "(string \<times> string \<times> org_role) list"

definition get_profile :: "user_row \<Rightarrow> srv \<Rightarrow> profile_out" where
  "get_profile user db = \<lparr>po_user = user,
     po_key_prefix = map_option ak_prefix (find (\<lambda>k. ak_user_id k = usr_id user \<and>
        ak_type k = PersonalKey \<and> ak_status k = KeyActive) (api_keys db)),
     po_orgs = [(org_id g, org_name g, mb_role m). m \<leftarrow> memberships db, mb_user_id m = usr_id user,
        g \<leftarrow> (case get_org db (Some (mb_org_id m)) of None \<Rightarrow> [] | Some g \<Rightarrow> [g])]\<rparr>"

text \<open>The stored hash of an account made by Google sign-in is null: reading it raises, unless the
  password given is over 72 bytes, which is refused before the hash is looked at.\<close>

definition check_old_password :: "(nat list \<Rightarrow> string \<Rightarrow> bool) \<Rightarrow> nat list \<Rightarrow> user_row \<Rightarrow> unit api" where
  "check_old_password bcheck old user = (case usr_password_hash user of
       None \<Rightarrow> if length old > 72 then Inl (HTTP 400) else Inl (HTTP 500)
     | Some h \<Rightarrow> require (verify_password bcheck old h) 400)"

definition set_password :: "string \<Rightarrow> user_row \<Rightarrow> user_row" where
  "set_password h u = u\<lparr>usr_password_hash := Some h, usr_must_change := False\<rparr>"

definition change_password :: "(nat list \<Rightarrow> string) \<Rightarrow> (nat list \<Rightarrow> string \<Rightarrow> bool) \<Rightarrow> user_row \<Rightarrow>
    nat list \<Rightarrow> nat list \<Rightarrow> srv \<Rightarrow> (unit \<times> srv) api" where
  "change_password bhash bcheck user old new db =
     ebind (check_old_password bcheck old user) (\<lambda>_.
     ebind (hash_password bhash new) (\<lambda>h.
     Inr ((), upd_user (usr_id user) (set_password h) db)))"

text \<open>The key that is regenerated is the user's first personal one, whatever its status.\<close>

definition regenerate_personal_api_key :: "key_hash \<Rightarrow> human \<Rightarrow> string \<Rightarrow> rat \<Rightarrow> srv \<Rightarrow> limiter \<Rightarrow>
    (string \<times> srv) api \<times> limiter" where
  "regenerate_personal_api_key hash ctx raw clock db rl =
     (case check_key_creation_rate clock (usr_id (fst ctx)) rl of
        (Inl e, rl') \<Rightarrow> (Inl e, rl')
      | (Inr _, rl') \<Rightarrow>
          (ebind (get_or 404 (find (\<lambda>k. ak_user_id k = usr_id (fst ctx) \<and> ak_type k = PersonalKey)
                    (api_keys db))) (\<lambda>k.
             Inr (raw, upd_key (ak_id k) (\<lambda>k. k\<lparr>ak_prefix := get_api_key_prefix raw,
                    ak_hash := hash raw, ak_last_used_at := None\<rparr>) db)), rl'))"

section \<open>Password reset\<close>

definition reset_token_expiry :: seconds where "reset_token_expiry = 3600"

definition use_token :: "reset_token_row \<Rightarrow> reset_token_row" where
  "use_token r = r\<lparr>prt_used := True\<rparr>"

text \<open>The token that is mailed, if the address is registered, and the new state; the answer to the
  caller is the same either way.\<close>

definition forgot_password :: "string \<Rightarrow> string \<Rightarrow> string \<Rightarrow> seconds \<Rightarrow> srv \<Rightarrow>
    (string \<times> string) option \<times> srv" where
  "forgot_password raw_email rid token now db =
     (case user_by_email (normalize_email raw_email) db of
        None \<Rightarrow> (None, db)
      | Some u \<Rightarrow> (Some (usr_email u, token), db\<lparr>reset_tokens :=
          tbl_add \<lparr>prt_id = rid, prt_user_id = usr_id u, prt_token = token,
                   prt_expires_at = now + reset_token_expiry, prt_used = False\<rparr>
            (map (\<lambda>r. if prt_user_id r = usr_id u \<and> \<not> prt_used r then use_token r else r)
              (reset_tokens db))\<rparr>))"

definition open_token :: "string \<Rightarrow> srv \<Rightarrow> reset_token_row option" where
  "open_token token db = find (\<lambda>r. prt_token r = token \<and> \<not> prt_used r) (reset_tokens db)"

definition spend_token :: "string \<Rightarrow> srv \<Rightarrow> srv" where
  "spend_token rid db = db\<lparr>reset_tokens := tbl_upd prt_id rid use_token (reset_tokens db)\<rparr>"

definition reset_password :: "(nat list \<Rightarrow> string) \<Rightarrow> string \<Rightarrow> nat list \<Rightarrow> seconds \<Rightarrow> srv \<Rightarrow>
    unit api \<times> srv" where
  "reset_password bhash token new now db = (case open_token token db of
       None \<Rightarrow> (Inl (HTTP 400), db)
     | Some r \<Rightarrow>
         if prt_expires_at r < now then (Inl (HTTP 400), spend_token (prt_id r) db)
         else (case ebind (get_or 404 (tbl_get usr_id (prt_user_id r) (users db))) (\<lambda>u.
                    ebind (hash_password bhash new) (\<lambda>h. Inr (u, h))) of
             Inl e \<Rightarrow> (Inl e, db)
           | Inr (u, h) \<Rightarrow> (Inr (), spend_token (prt_id r) (upd_user (usr_id u) (set_password h) db))))"

section \<open>Allowed domains\<close>

definition sorted_domains :: "srv \<Rightarrow> allowed_domain_row list" where
  "sorted_domains db = sort_key dom_domain (allowed_domains db)"

definition signup_policy :: "srv \<Rightarrow> bool \<times> string list" where
  "signup_policy db = (sorted_domains db \<noteq> [], map dom_domain (sorted_domains db))"

definition list_allowed_domains :: "srv \<Rightarrow> bool \<times> allowed_domain_row list" where
  "list_allowed_domains db = (sorted_domains db \<noteq> [], sorted_domains db)"

definition bare_domain :: "string \<Rightarrow> bool" where
  "bare_domain domain \<longleftrightarrow> domain \<noteq> [] \<and> CHR ''@'' \<notin> set domain \<and> CHR ''/'' \<notin> set domain \<and>
     \<not> list_ex is_space domain \<and> CHR ''.'' \<in> set domain"

definition add_allowed_domain :: "user_row \<Rightarrow> string \<Rightarrow> bool \<Rightarrow> string option \<Rightarrow> string \<Rightarrow> seconds \<Rightarrow>
    srv \<Rightarrow> srv \<Rightarrow> allowed_domain_row api \<times> srv" where
  "add_allowed_domain admin raw subdomains remark did now rival db =
     (let domain = normalize_domain raw;
          taken = (\<lambda>d. list_ex (\<lambda>e. dom_domain e = domain) (allowed_domains d));
          row = \<lparr>dom_id = did, dom_domain = domain, dom_subdomains = subdomains, dom_note = remark,
                 dom_created_by = Some (usr_id admin), dom_created_at = now\<rparr> in
      if \<not> bare_domain domain then (Inl (HTTP 400), db)
      else if taken db then (Inl (HTTP 409), db)
      else if taken rival then (Inl (HTTP 409), rival)
      else (Inr row, rival\<lparr>allowed_domains := tbl_add row (allowed_domains rival)\<rparr>))"

text \<open>The answer says whether sign-up is still restricted.\<close>

definition remove_allowed_domain :: "string \<Rightarrow> srv \<Rightarrow> (bool \<times> srv) api" where
  "remove_allowed_domain did db =
     ebind (get_or 404 (tbl_get dom_id did (allowed_domains db))) (\<lambda>e.
     let left = tbl_del dom_id did (allowed_domains db) in
     Inr (left \<noteq> [], db\<lparr>allowed_domains := left\<rparr>))"

section \<open>Superadmin listings\<close>

definition list_users :: "srv \<Rightarrow> user_row list" where
  "list_users db = sort_key (\<lambda>u. - usr_created_at u) (users db)"

definition list_all_workers :: "srv \<Rightarrow> worker list" where
  "list_all_workers db = sort_key (\<lambda>w. - w_created_at w) (workers db)"

definition list_all_organizations :: "srv \<Rightarrow> (string \<times> string \<times> string option \<times> seconds) list" where
  "list_all_organizations db = map (\<lambda>g. (org_id g, org_name g, get_org_owner db (org_id g), org_created_at g))
     (sort_key (\<lambda>g. - org_created_at g) (orgs db))"

section \<open>Lemmas\<close>

interpretation user_table: keyed_table usr_id "tbl_get usr_id" "tbl_upd usr_id" tbl_add "tbl_del usr_id"
  by (rule keyed_table_lists)

interpretation reset_table: keyed_table prt_id "tbl_get prt_id" "tbl_upd prt_id" tbl_add "tbl_del prt_id"
  by (rule keyed_table_lists)

interpretation domain_table: keyed_table dom_id "tbl_get dom_id" "tbl_upd dom_id" tbl_add "tbl_del dom_id"
  by (rule keyed_table_lists)

text \<open>The dot in the suffix test makes it a test on whole labels.\<close>

lemma dot_suffix_labels:
  assumes "suffix (CHR ''.'' # d) domain"
  shows "\<exists>sub. sub \<noteq> [] \<and> split_on (CHR ''.'') domain = sub @ split_on (CHR ''.'') d"
proof -
  obtain a where "domain = a @ CHR ''.'' # d" using assms by (auto simp: suffix_def)
  then show ?thesis using split_on_append_gen [of "CHR ''.''" a d] by auto
qed

lemma domain_matches_labels:
  "domain_matches domain e \<Longrightarrow> split_on (CHR ''.'') domain = split_on (CHR ''.'') (dom_domain e) \<or>
    (dom_subdomains e \<and> (\<exists>sub. sub \<noteq> [] \<and>
       split_on (CHR ''.'') domain = sub @ split_on (CHR ''.'') (dom_domain e)))"
  by (auto simp: domain_matches_def dest: dot_suffix_labels)

lemma assert_domain_allowed_Inr:
  "assert_domain_allowed email db = Inr x \<longleftrightarrow> allowed_domains db = [] \<or>
     (CHR ''@'' \<in> set (normalize_email email) \<and>
      (\<exists>e \<in> set (allowed_domains db). domain_matches (after_at (normalize_email email)) e))"
  by (auto simp: assert_domain_allowed_def Let_def list_ex_iff)

lemma strip_strip [simp]: "strip (strip s) = strip s"
proof -
  have dw: "dropWhile P (dropWhile P s) = dropWhile P s" for P :: "char \<Rightarrow> bool" and s by (induction s) auto
  have head: "dropWhile is_space t = t" if "t = rev (dropWhile is_space (rev u))" "dropWhile is_space u = u" for t u
  proof (cases t)
    case (Cons c cs)
    have "suffix (dropWhile is_space (rev u)) (rev u)" by (rule suffix_dropWhile)
    then have "prefix t u" using that(1) by (simp add: suffix_to_prefix)
    then obtain us where "u = c # us" using Cons by (auto simp: prefix_def)
    then have "\<not> is_space c" using that(2) by (metis dropWhile.simps(2) hd_dropWhile list.discI list.sel(1))
    then show ?thesis using Cons by simp
  qed simp
  show ?thesis using head [of "strip s" "dropWhile is_space s"] dw
    by (simp add: strip_def)
qed

lemma is_space_lower [simp]: "is_space (lower_char c) = is_space c"
proof -
  have "(of_char (char_of ((of_char c :: nat) + 32)) :: nat) = of_char c + 32" if "(of_char c :: nat) \<le> 90"
    using that by simp
  then show ?thesis by (auto simp: lower_char_def is_space_def Let_def)
qed

lemma strip_lower: "strip (lower s) = lower (strip s)"
proof -
  have spaces: "is_space \<circ> lower_char = is_space" by (rule ext) simp
  have dw: "dropWhile is_space (map lower_char t) = map lower_char (dropWhile is_space t)" for t
    by (simp add: dropWhile_map spaces)
  show ?thesis by (simp add: strip_def lower_def dw rev_map)
qed

lemma normalize_email_idem [simp]: "normalize_email (normalize_email s) = normalize_email s"
  by (simp add: normalize_email_def strip_lower)

lemma signup_InrD:
  assumes "fst (signup bhash raw pw name ids now rival db) = Inr u"
  shows "assert_domain_allowed (normalize_email raw) db = Inr ()" "\<not> user_conflict u rival"
    "usr_email u = normalize_email raw" "usr_id u = fr_user ids" "usr_google_id u = None"
    "snd (signup bhash raw pw name ids now rival db) = add_account ids u now rival"
    "\<exists>h. hash_password bhash pw = Inr h \<and> usr_password_hash u = Some h"
  using assms by (auto simp: signup_def Let_def local_user_def split: sum.splits if_splits)

lemma google_newD:
  assumes "fst (google_account sub email name ids now rival db) = Inr (u, True)"
  shows "assert_domain_allowed email db = Inr ()" "\<not> user_conflict u rival" "usr_email u = email"
    "usr_id u = fr_user ids" "usr_google_id u = Some sub"
    "snd (google_account sub email name ids now rival db) = add_account ids u now rival"
    "user_by_google sub db = None" "user_by_email email db = None"
  using assms by (auto simp: google_account_def commit_link_def Let_def google_user_def split: option.splits sum.splits if_splits)

text \<open>An account, by e-mail or by Google id, exists once, and every organization has an owner.\<close>

definition google_ids :: "srv \<Rightarrow> string list" where
  "google_ids db = concat (map (\<lambda>u. case usr_google_id u of None \<Rightarrow> [] | Some s \<Rightarrow> [s]) (users db))"

definition accounts_ok :: "srv \<Rightarrow> bool" where
  "accounts_ok db \<longleftrightarrow> distinct (map usr_id (users db)) \<and> distinct (map usr_email (users db)) \<and>
     distinct (google_ids db) \<and> owned db"

definition ids_fresh :: "fresh_ids \<Rightarrow> srv \<Rightarrow> bool" where
  "ids_fresh ids db \<longleftrightarrow> fr_user ids \<notin> usr_id ` set (users db) \<and>
     fr_membership ids \<notin> mb_id ` set (memberships db)"

lemma google_ids_mem: "s \<in> set (google_ids db) \<longleftrightarrow> (\<exists>u \<in> set (users db). usr_google_id u = Some s)"
  unfolding google_ids_def by (force split: option.splits)

lemma accounts_ok_add:
  assumes "accounts_ok db" "ids_fresh ids db" "\<not> user_conflict u db" "usr_id u = fr_user ids"
  shows "accounts_ok (add_account ids u now db)"
proof -
  have email: "usr_email u \<notin> usr_email ` set (users db)"
    using assms(3) by (auto simp: user_conflict_def list_ex_iff)
  have google: "s \<notin> set (google_ids db)" if "usr_google_id u = Some s" for s
    using assms(3) that unfolding user_conflict_def list_ex_iff google_ids_mem by (metis option.discI)
  have own: "owned (add_account ids u now db)"
    using assms(1,2) by (auto simp: accounts_ok_def owned_def ids_fresh_def add_account_def add_membership_def tbl_add_def)
  have "google_ids (add_account ids u now db) =
      google_ids db @ (case usr_google_id u of None \<Rightarrow> [] | Some s \<Rightarrow> [s])"
    by (simp add: google_ids_def add_account_def add_membership_def tbl_add_def)
  moreover have "users (add_account ids u now db) = users db @ [u]"
    by (simp add: add_account_def add_membership_def tbl_add_def)
  ultimately show ?thesis
    using assms(1,2,4) email google own by (auto simp: accounts_ok_def ids_fresh_def split: option.splits)
qed

lemma google_ids_link:
  assumes "distinct (map usr_id us)" "u \<in> set us"
    "distinct (concat (map (\<lambda>u. case usr_google_id u of None \<Rightarrow> [] | Some s \<Rightarrow> [s]) us))"
    "\<forall>v \<in> set us. usr_id v \<noteq> usr_id u \<longrightarrow> usr_google_id v \<noteq> Some sub"
  shows "distinct (concat (map (\<lambda>u. case usr_google_id u of None \<Rightarrow> [] | Some s \<Rightarrow> [s])
    (tbl_upd usr_id (usr_id u) (link_google sub w) us)))"
  using assms
proof (induction us)
  case (Cons v us)
  let ?g = "\<lambda>u. case usr_google_id u of None \<Rightarrow> [] | Some s \<Rightarrow> [s]"
  have keep: "tbl_upd usr_id (usr_id v) (link_google sub w) us = us" if "usr_id v \<notin> usr_id ` set us"
    using that unfolding tbl_upd_def by (intro map_idI) (metis image_eqI)
  have mem: "set (concat (map ?g (tbl_upd usr_id i (link_google sub w) us))) \<subseteq> insert sub (set (concat (map ?g us)))" for i
    by (auto simp: tbl_upd_def link_google_def Let_def split: if_splits option.splits)
  show ?case
  proof (cases "usr_id u = usr_id v")
    case True
    with Cons.prems keep have upd: "tbl_upd usr_id (usr_id u) (link_google sub w) (v # us) = link_google sub w v # us"
      by (auto simp: tbl_upd_def)
    have "usr_id x \<noteq> usr_id u" if "x \<in> set us" for x
      using Cons.prems(1) True imageI [OF that, of usr_id] by auto
    then have "\<forall>x \<in> set us. usr_google_id x \<noteq> Some sub" using Cons.prems(4) by simp
    then have "sub \<notin> set (concat (map ?g us))" by (auto split: option.splits)
    moreover have "distinct (concat (map ?g us))" using Cons.prems(3) by simp
    ultimately show ?thesis unfolding upd by (auto simp: link_google_def Let_def)
  next
    case False
    then have "u \<in> set us" using Cons.prems by auto
    then have IH: "distinct (concat (map ?g (tbl_upd usr_id (usr_id u) (link_google sub w) us)))"
      using Cons by (auto split: option.splits)
    have split: "tbl_upd usr_id (usr_id u) (link_google sub w) (v # us) = v # tbl_upd usr_id (usr_id u) (link_google sub w) us"
      using False by (simp add: tbl_upd_def)
    show ?thesis
    proof (cases "usr_google_id v")
      case None
      then show ?thesis using IH split by simp
    next
      case (Some s)
      then have "s \<noteq> sub" "s \<notin> set (concat (map ?g us))" using Cons.prems False by auto
      then have "s \<notin> set (concat (map ?g (tbl_upd usr_id (usr_id u) (link_google sub w) us)))" using mem by blast
      then show ?thesis using IH split Some by simp
    qed
  qed
qed simp

lemma accounts_ok_link:
  assumes "accounts_ok db" "tbl_get usr_id (usr_id u) (users db) \<noteq> None"
    "\<not> list_ex (\<lambda>w. usr_id w \<noteq> usr_id u \<and> usr_google_id w = Some sub) (users db)"
  shows "accounts_ok (upd_user (usr_id u) (link_google sub u) db)"
proof -
  obtain v where v: "v \<in> set (users db)" "usr_id v = usr_id u" using assms(2) by (auto dest: tbl_get_SomeD)
  have "\<forall>w \<in> set (users db). usr_id w \<noteq> usr_id v \<longrightarrow> usr_google_id w \<noteq> Some sub"
    using assms(3) v(2) by (auto simp: list_ex_iff)
  then have "distinct (google_ids (upd_user (usr_id u) (link_google sub u) db))"
    using google_ids_link [of "users db" v sub u] assms(1) v
    by (auto simp: accounts_ok_def google_ids_def upd_user_def)
  moreover have "map usr_email (tbl_upd usr_id i (link_google sub u) us) = map usr_email us"
    "map usr_id (tbl_upd usr_id i (link_google sub u) us) = map usr_id us" for i us
    by (auto simp: tbl_upd_def link_google_def Let_def)
  ultimately show ?thesis using assms(1)
    by (simp add: accounts_ok_def upd_user_def owned_def)
qed

lemma upd_user_frame [simp]:
  "reset_tokens (upd_user i f db) = reset_tokens db" "orgs (upd_user i f db) = orgs db"
  "users (upd_user i f db) = tbl_upd usr_id i f (users db)"
  "users (spend_token r db) = users db"
  by (simp_all add: upd_user_def spend_token_def)

section \<open>Properties\<close>

text \<open>C21: The domain gate cannot be talked round: an account is only ever made, by sign-up or by a first
  Google sign-in, when no domain is listed or the labels of the e-mail's domain (after its last @) are
  those of a listed domain, or end with them when that entry includes its subdomains. The dot in the
  code's suffix test makes a test on characters one on whole labels.\<close>

theorem new_account_passes_gate:
  assumes "fst (signup bhash raw pw name ids now rival db) = Inr u \<or>
    fst (google_account sub (normalize_email raw) name ids now rival db) = Inr (u, True)"
  shows "allowed_domains db = [] \<or>
    (\<exists>e \<in> set (allowed_domains db).
       split_on (CHR ''.'') (after_at (usr_email u)) = split_on (CHR ''.'') (dom_domain e) \<or>
       dom_subdomains e \<and> (\<exists>labels. labels \<noteq> [] \<and>
         split_on (CHR ''.'') (after_at (usr_email u)) = labels @ split_on (CHR ''.'') (dom_domain e)))"
proof -
  have "assert_domain_allowed (normalize_email raw) db = Inr () \<and> usr_email u = normalize_email raw"
    using assms by (auto dest: signup_InrD google_newD)
  then show ?thesis by (auto simp: assert_domain_allowed_Inr dest!: domain_matches_labels)
qed

definition sample_domain :: allowed_domain_row where
  "sample_domain = \<lparr>dom_id = ''d1'', dom_domain = ''dau.ac.in'', dom_subdomains = True, dom_note = None,
     dom_created_by = None, dom_created_at = 1\<rparr>"

definition sample_ids :: fresh_ids where
  "sample_ids = \<lparr>fr_user = ''u7'', fr_org = ''o7'', fr_membership = ''mb7''\<rparr>"

definition gated_db :: srv where
  "gated_db = sample_base\<lparr>allowed_domains := [sample_domain]\<rparr>"

theorem new_account_passes_gate_witness:
  "\<exists>labels. labels \<noteq> [] \<and> split_on (CHR ''.'') (after_at ''x@st.dau.ac.in'') = labels @ split_on (CHR ''.'') ''dau.ac.in''"
proof -
  have u: "fst (signup (\<lambda>_. ''h'') '' X@st.DAU.ac.in'' [1] ''X'' sample_ids 5 gated_db gated_db) =
      Inr (local_user ''u7'' ''x@st.dau.ac.in'' ''h'' ''X'' 5)" by code_simp
  have ad: "allowed_domains gated_db = [sample_domain]" by (simp add: gated_db_def)
  have ne: "split_on (CHR ''.'') (after_at ''x@st.dau.ac.in'') \<noteq> split_on (CHR ''.'') ''dau.ac.in''" by code_simp
  show ?thesis using new_account_passes_gate [OF disjI1 [OF u]] ne by (simp add: ad sample_domain_def local_user_def)
qed


definition raced_db :: srv where
  "raced_db = add_account \<lparr>fr_user = ''u6'', fr_org = ''o6'', fr_membership = ''mb6''\<rparr>
     (google_user ''u6'' ''g@x.org'' ''G'' ''sub'' 4) 4 sample_base"

lemma sample_accounts_ok: "accounts_ok sample_base" "accounts_ok raced_db" "ids_fresh sample_ids raced_db"
  by code_simp+


lemma reset_InrD:
  assumes "fst (reset_password bhash token new now db) = Inr ()"
  obtains r u where "open_token token db = Some r" "now \<le> prt_expires_at r"
    "tbl_get usr_id (prt_user_id r) (users db) = Some u" "length new \<le> 72"
    "snd (reset_password bhash token new now db) =
       spend_token (prt_id r) (upd_user (usr_id u) (set_password (bhash new)) db)"
  using assms by (auto simp: reset_password_def hash_password_def split: option.splits if_splits sum.splits)

lemma open_token_spent:
  assumes "\<And>r. r \<in> set (reset_tokens db) \<Longrightarrow> prt_token r = token \<Longrightarrow> prt_id r = rid"
  shows "open_token token (spend_token rid db) = None"
  unfolding open_token_def spend_token_def using assms
  by simp (rule find_tbl_upd_none, auto simp: use_token_def)

lemma user_by_email_upd:
  assumes "distinct (map usr_email (users db))" "distinct (map usr_id (users db))" "u \<in> set (users db)"
    "usr_email (f u) = usr_email u"
  shows "user_by_email (usr_email u) (upd_user (usr_id u) f db) = Some (f u)"
proof -
  have upd: "tbl_upd usr_id (usr_id u) f (users db) = map (\<lambda>v. if v = u then f u else v) (users db)"
    using distinct_key_eq [OF assms(2) _ assms(3)] by (auto simp: tbl_upd_def)
  have "find (\<lambda>v. usr_email v = usr_email u) (map (\<lambda>v. if v = u then f u else v) us) = Some (f u)"
    if "distinct (map usr_email us)" "u \<in> set us" for us
    using that
  proof (induction us)
    case (Cons v us)
    then show ?case using assms(4) by (cases "v = u") auto
  qed simp
  then show ?thesis using assms(1,3) by (simp add: user_by_email_def upd)
qed

text \<open>A password reset works and works once: when it succeeds, the token was open and unexpired, its
  user can log in with the new password, and the token, whatever is asked with it at whatever time
  afterwards, is refused and changes nothing. Hypotheses: tokens, users' ids and e-mails are unique, and
  bcrypt accepts a password under the (non-empty) hash it made of it.\<close>

theorem reset_works_once:
  assumes "fst (reset_password bhash token new now db) = Inr ()"
    "distinct (map prt_token (reset_tokens db))" "distinct (map usr_id (users db))" "distinct (map usr_email (users db))"
    "bhash new \<noteq> []" "bcheck new (bhash new)"
  shows "\<exists>r u. open_token token db = Some r \<and> now \<le> prt_expires_at r \<and> u \<in> set (users db) \<and> usr_id u = prt_user_id r \<and>
    (normalize_email raw = usr_email u \<and> usr_active u \<longrightarrow>
       \<not> isl (login bcheck jwt raw new later (snd (reset_password bhash token new now db)))) \<and>
    reset_password bhash token again later (snd (reset_password bhash token new now db)) =
      (Inl (HTTP 400), snd (reset_password bhash token new now db))"
proof -
  obtain r u where ru: "open_token token db = Some r" "now \<le> prt_expires_at r"
    "tbl_get usr_id (prt_user_id r) (users db) = Some u" "length new \<le> 72"
    and after: "snd (reset_password bhash token new now db) =
       spend_token (prt_id r) (upd_user (usr_id u) (set_password (bhash new)) db)"
    using reset_InrD [OF assms(1)] by blast
  have r: "r \<in> set (reset_tokens db)" "prt_token r = token"
    using ru(1) by (auto simp: open_token_def dest: find_SomeD)
  have u: "u \<in> set (users db)" "usr_id u = prt_user_id r" using tbl_get_SomeD [OF ru(3)] by auto
  have spent: "open_token token (spend_token (prt_id r) (upd_user (usr_id u) (set_password (bhash new)) db)) = None"
  proof (rule open_token_spent)
    show "prt_id r' = prt_id r" if "r' \<in> set (reset_tokens (upd_user (usr_id u) (set_password (bhash new)) db))" "prt_token r' = token" for r'
      using distinct_key_eq [OF assms(2) _ r(1)] r(2) that by simp
  qed
  have "user_by_email (usr_email u) (upd_user (usr_id u) (set_password (bhash new)) db) = Some (set_password (bhash new) u)"
    by (rule user_by_email_upd [OF assms(4,3) u(1)]) (simp add: set_password_def)
  then have log: "user_by_email (usr_email u) (spend_token (prt_id r) (upd_user (usr_id u) (set_password (bhash new)) db))
      = Some (set_password (bhash new) u)" by (simp add: user_by_email_def)
  have "reset_password bhash token again later (snd (reset_password bhash token new now db)) =
      (Inl (HTTP 400), snd (reset_password bhash token new now db))"
    by (simp add: after reset_password_def [of bhash token again] spent)
  moreover have "\<not> isl (login bcheck jwt raw new later (snd (reset_password bhash token new now db)))"
    if "normalize_email raw = usr_email u" "usr_active u"
    using that log assms(5,6) ru(4) by (simp add: after login_def verify_password_def set_password_def)
  ultimately show ?thesis using ru u by blast
qed

definition reset_db :: srv where
  "reset_db = snd (forgot_password ''A@x.org'' ''rst1'' ''tok'' 100 sample_base)"

theorem reset_works_once_witness:
  "\<exists>r u. open_token ''tok'' reset_db = Some r \<and> 200 \<le> prt_expires_at r \<and> u \<in> set (users reset_db) \<and>
     fst (reset_password (\<lambda>_. ''h2'') ''tok'' [8] 300 (snd (reset_password (\<lambda>_. ''h2'') ''tok'' [7] 200 reset_db))) = Inl (HTTP 400)"
proof -
  have ok: "fst (reset_password (\<lambda>_. ''h2'') ''tok'' [7] 200 reset_db) = Inr ()" by code_simp
  have dist: "distinct (map prt_token (reset_tokens reset_db))" "distinct (map usr_id (users reset_db))"
    "distinct (map usr_email (users reset_db))" by code_simp+
  obtain r u where "open_token ''tok'' reset_db = Some r" "200 \<le> prt_expires_at r" "u \<in> set (users reset_db)"
    "reset_password (\<lambda>_. ''h2'') ''tok'' [8] 300 (snd (reset_password (\<lambda>_. ''h2'') ''tok'' [7] 200 reset_db)) =
      (Inl (HTTP 400), snd (reset_password (\<lambda>_. ''h2'') ''tok'' [7] 200 reset_db))"
    using reset_works_once [where bcheck = "\<lambda>_ _. True" and again = "[8]" and later = 300 and raw = "[]" and jwt = "\<lambda>_. []", OF ok dist] by auto
  then show ?thesis by auto
qed

text \<open>C34: Logging in hands out a token that authenticates as the very account whose e-mail and password
  were given: presented to the JWT resolver it yields the active user with that e-mail. Hypotheses: the
  JWT library decodes what it encoded, an encoded token does not look like an API key, and user ids
  are unique and not empty.\<close>

theorem login_token_authenticates:
  assumes "login bcheck jwt raw password now db = Inr tok" "distinct (map usr_id (users db))"
    "\<And>u. u \<in> set (users db) \<Longrightarrow> usr_id u \<noteq> []"
    "\<And>u. u \<in> set (users db) \<Longrightarrow> decode (jwt (token_payload now u)) = Some (token_payload now u)"
    "\<And>p. \<not> is_api_key (jwt p)"
  shows "\<exists>u h. get_current_user decode (to_access_token tok) db = Inr u \<and> usr_email u = normalize_email raw \<and>
    usr_active u \<and> usr_password_hash u = Some h \<and> verify_password bcheck password h \<and> to_role tok = usr_role u"
proof -
  obtain u where u: "user_by_email (normalize_email raw) db = Some u" "truthy (usr_password_hash u)"
    "verify_password bcheck password (the (usr_password_hash u))" "usr_active u" "tok = issue_token jwt now u False"
    using assms(1) by (auto simp: login_def)
  have mem: "u \<in> set (users db)" "usr_email u = normalize_email raw"
    using u(1) by (auto simp: user_by_email_def dest: find_SomeD)
  have "active_user db (usr_id u) = Some u"
  proof -
    have "active_user db (usr_id u) \<noteq> None" using mem u(4) by (auto simp: active_user_def find_None_iff)
    then obtain v where v: "active_user db (usr_id u) = Some v" by blast
    then have "v = u" using distinct_key_eq [OF assms(2) _ mem(1)] by (auto dest: active_user_SomeD)
    then show ?thesis using v by simp
  qed
  then have "get_current_user decode (to_access_token tok) db = Inr u"
    using assms(3,4) [OF mem(1)]
    by (simp add: get_current_user_def u(5) issue_token_def create_access_token_def assms(5) resolve_jwt_def)
      (simp add: token_payload_def jget_def)
  moreover obtain h where "usr_password_hash u = Some h" using u(2) by (cases "usr_password_hash u") auto
  ultimately show ?thesis using u mem by (auto simp: issue_token_def)
qed

text \<open>A library that meets the hypotheses on the sample users: the subject as the token.\<close>

definition demo_jwt :: "jdict \<Rightarrow> string" where
  "demo_jwt p = ''ey'' @ (case jget ''sub'' p of JStr s \<Rightarrow> s | _ \<Rightarrow> [])"

definition demo_decode :: jwt_decode where
  "demo_decode token = map_of (map (\<lambda>u. (demo_jwt (token_payload 5 u), token_payload 5 u)) (users sample_base)) token"

theorem login_token_authenticates_witness:
  "\<exists>u. get_current_user demo_decode ''eyu1'' sample_base = Inr u \<and> usr_email u = ''a@x.org''"
proof -
  let ?tok = "issue_token demo_jwt 5 sample_user False"
  have "login (\<lambda>_ _. True) demo_jwt ''A@x.org'' [7] 5 sample_base = Inr ?tok" by code_simp
  moreover have "distinct (map usr_id (users sample_base))" by code_simp
  moreover have "\<And>u. u \<in> set (users sample_base) \<Longrightarrow> usr_id u \<noteq> []"
    "\<And>u. u \<in> set (users sample_base) \<Longrightarrow> demo_decode (demo_jwt (token_payload 5 u)) = Some (token_payload 5 u)"
    by (auto simp: sample_base_def empty_srv_def sample_user_def sample_viewer_def demo_decode_def demo_jwt_def
        token_payload_def jget_def)
  moreover have "\<not> is_api_key (demo_jwt p)" for p by (simp add: is_api_key_def demo_jwt_def)
  ultimately have "\<exists>u h. get_current_user demo_decode (to_access_token ?tok) sample_base = Inr u \<and>
      usr_email u = normalize_email ''A@x.org'' \<and> usr_active u \<and> usr_password_hash u = Some h \<and>
      verify_password (\<lambda>_ _. True) [7] h \<and> to_role ?tok = usr_role u"
    by (rule login_token_authenticates)
  moreover have "to_access_token ?tok = ''eyu1''" "normalize_email ''A@x.org'' = ''a@x.org''" by code_simp+
  ultimately show ?thesis by auto
qed

text \<open>Regenerating a key that was revoked hands out a key that never authenticates.\<close>

lemma regenerated_revoked_key_dead:
  assumes "find (\<lambda>k. ak_user_id k = usr_id (fst ctx) \<and> ak_type k = PersonalKey) (api_keys db) = Some k"
    "ak_status k = KeyRevoked" "distinct (map ak_id (api_keys db))"
    "\<And>r. r \<in> set (api_keys db) \<Longrightarrow> ak_hash r \<noteq> hash raw"
    "regenerate_personal_api_key hash ctx raw clock db rl = (Inr (raw, db'), rl')"
  shows "resolve_personal_api_key hash t raw db' = Inl (HTTP 401)"
proof -
  have k: "k \<in> set (api_keys db)" using assms(1) by (auto dest: find_SomeD)
  have db': "db' = upd_key (ak_id k) (\<lambda>k. k\<lparr>ak_prefix := get_api_key_prefix raw, ak_hash := hash raw,
      ak_last_used_at := None\<rparr>) db"
    using assms(1,5) by (auto simp: regenerate_personal_api_key_def split: prod.splits sum.splits)
  have same: "\<forall>a \<in> set (api_keys db). ak_id a = ak_id k \<longrightarrow> a = k"
    using distinct_key_eq [OF assms(3) _ k] by blast
  have "find (\<lambda>k. ak_hash k = hash raw \<and> ak_type k = PersonalKey \<and> ak_status k = KeyActive) (api_keys db') = None"
    unfolding db' upd_key_def using assms(2,4) same
    by (force simp: find_None_iff tbl_upd_def split: if_splits)
  then show ?thesis by (simp add: resolve_personal_api_key_def)
qed

text \<open>At most one reset token of a user is open after a request for one.\<close>

lemma forgot_closes_older:
  assumes "user_by_email (normalize_email raw) db = Some u"
    "r \<in> set (reset_tokens (snd (forgot_password raw rid token now db)))" "prt_user_id r = usr_id u" "\<not> prt_used r"
  shows "r = \<lparr>prt_id = rid, prt_user_id = usr_id u, prt_token = token,
      prt_expires_at = now + reset_token_expiry, prt_used = False\<rparr>"
  using assms by (auto simp: forgot_password_def tbl_add_def use_token_def split: if_splits)

end
