(* ===== verification/Pool.thy ===== *)
theory Pool
  imports Org_Members Sweeper
begin

text \<open>
  \<open>backend/routers/pool.py\<close>: the aggregate capacity of the pool, from the scheduler's own
  predicates, behind a cache of fifteen seconds. \<open>rnd1\<close> rounds to one digit; the monotonic
  clock is read when the cache is looked up and again when it is filled.
\<close>

definition capability_keys :: "string list" where
  "capability_keys = [''logprobs'', ''completions'', ''prompt_scoring'']"

definition cache_ttl_seconds :: rat where "cache_ttl_seconds = 15"
definition min_workers_for_hardware :: nat where "min_workers_for_hardware = 3"

definition pool_is_loaded :: "catalog_entry \<Rightarrow> worker list \<Rightarrow> bool" where
  "pool_is_loaded e ws \<longleftrightarrow> (\<exists>w \<in> set ws. hosts (loaded_models w) (target_ids e) (c_digest e))"

definition pool_capabilities :: "wall_clock \<Rightarrow> seconds \<Rightarrow> catalog_entry \<Rightarrow> worker list \<Rightarrow> (string \<times> bool) list" where
  "pool_capabilities wall now e ws =
     map (\<lambda>k. (k, \<exists>w \<in> set ws. can_serve wall now e w (Some [k]) None True)) capability_keys"

record servable =
  sv_id :: string
  sv_display_name :: string
  sv_parameter_size :: "string option"
  sv_org_id :: "string option"
  sv_loaded :: bool
  sv_capabilities :: "(string \<times> bool) list"
  sv_runtimes :: "string list"

record snapshot =
  sn_online :: nat
  sn_idle :: nat
  sn_busy :: nat
  sn_vram_total :: gb
  sn_largest_gpu :: gb
  sn_ram_total :: gb
  sn_gpus :: nat
  sn_servable :: "servable list"
  sn_as_of :: seconds

definition pool_workers :: "seconds \<Rightarrow> srv \<Rightarrow> worker list" where
  "pool_workers now db = filter (\<lambda>w. w_status w = Online
     \<and> w_last_heartbeat w \<ge> now - heartbeat_timeout_seconds) (workers db)"

definition pool_entries :: "srv \<Rightarrow> catalog_entry list" where
  "pool_entries db = sort_key c_id (filter selectable (catalog db))"

definition servable_of :: "wall_clock \<Rightarrow> seconds \<Rightarrow> worker list \<Rightarrow> catalog_entry \<Rightarrow> servable" where
  "servable_of wall now ws e = \<lparr>sv_id = c_id e, sv_display_name = c_display_name e,
     sv_parameter_size = c_parameter_size e, sv_org_id = c_org_id e,
     sv_loaded = pool_is_loaded e ws, sv_capabilities = pool_capabilities wall now e ws,
     sv_runtimes = serving_runtimes wall now e ws None\<rparr>"

definition largest_gpu :: "worker list \<Rightarrow> gb" where
  "largest_gpu ws = fold max [v. w \<leftarrow> ws, g \<leftarrow> w_gpus w,
     v \<leftarrow> (case g_vram_gb g of None \<Rightarrow> [] | Some v \<Rightarrow> if v = 0 then [] else [v])] 0"

definition compute_snapshot :: "(gb \<Rightarrow> gb) \<Rightarrow> wall_clock \<Rightarrow> seconds \<Rightarrow> srv \<Rightarrow> snapshot" where
  "compute_snapshot rnd1 wall now db =
     (let ws = pool_workers now db;
          idle = length (filter (\<lambda>w. w_activity w = Idle) ws);
          vram = sum_list (map (\<lambda>w. or0 (w_vram_total_gb w)) ws);
          ram = sum_list (map (\<lambda>w. or0 (w_ram_total_gb w)) ws)
      in \<lparr>sn_online = length ws, sn_idle = idle, sn_busy = length ws - idle,
          sn_vram_total = (if vram = 0 then 0 else rnd1 vram),
          sn_largest_gpu = (if largest_gpu ws = 0 then 0 else rnd1 (largest_gpu ws)),
          sn_ram_total = (if ram = 0 then 0 else rnd1 ram),
          sn_gpus = sum_list (map (\<lambda>w. length (w_gpus w)) ws),
          sn_servable = map (servable_of wall now ws)
            (filter (\<lambda>e. \<exists>w \<in> set ws. can_serve wall now e w None None True) (pool_entries db)),
          sn_as_of = now\<rparr>)"

record pool_cache =
  pc_expires_at :: rat
  pc_snapshot :: "snapshot option"

definition get_snapshot :: "(gb \<Rightarrow> gb) \<Rightarrow> wall_clock \<Rightarrow> rat \<Rightarrow> rat \<Rightarrow> seconds \<Rightarrow> srv \<Rightarrow> pool_cache \<Rightarrow>
    snapshot \<times> pool_cache" where
  "get_snapshot rnd1 wall t0 t1 now db c = (case pc_snapshot c of
       Some s \<Rightarrow> if t0 < pc_expires_at c then (s, c)
                 else let s' = compute_snapshot rnd1 wall now db in
                   (s', \<lparr>pc_expires_at = t1 + cache_ttl_seconds, pc_snapshot = Some s'\<rparr>)
     | None \<Rightarrow> let s' = compute_snapshot rnd1 wall now db in
         (s', \<lparr>pc_expires_at = t1 + cache_ttl_seconds, pc_snapshot = Some s'\<rparr>))"

definition visible_org_ids :: "srv \<Rightarrow> user_row option \<Rightarrow> string list \<times> bool" where
  "visible_org_ids db user = (case user of
       None \<Rightarrow> ([], False)
     | Some u \<Rightarrow> (map mb_org_id (filter (\<lambda>m. mb_user_id m = usr_id u) (memberships db)),
                  usr_role u \<in> {RoleSuperadmin, RoleAdmin}))"

record hardware_figures =
  hw_vram_total :: gb
  hw_largest_gpu :: gb
  hw_ram_total :: gb
  hw_gpus :: nat

record pool_body =
  pb_online :: nat
  pb_idle :: nat
  pb_busy :: nat
  pb_models :: "servable list"
  pb_hardware :: "hardware_figures option"
  pb_as_of :: seconds

text \<open>The response carries the servable models without their organization ids.\<close>

definition pool_capacity :: "human option \<Rightarrow> snapshot \<Rightarrow> srv \<Rightarrow> pool_body" where
  "pool_capacity ctx s db =
     (let user = map_option fst ctx; (member_orgs, is_super) = visible_org_ids db user
      in \<lparr>pb_online = sn_online s, pb_idle = sn_idle s, pb_busy = sn_busy s,
          pb_models = map (\<lambda>m. m\<lparr>sv_org_id := None\<rparr>) (filter (\<lambda>m. sv_org_id m = None \<or> is_super
             \<or> (case sv_org_id m of None \<Rightarrow> False | Some oid \<Rightarrow> oid \<in> set member_orgs)) (sn_servable s)),
          pb_hardware = (if user \<noteq> None \<and> sn_online s \<ge> min_workers_for_hardware
             then Some \<lparr>hw_vram_total = sn_vram_total s, hw_largest_gpu = sn_largest_gpu s,
                        hw_ram_total = sn_ram_total s, hw_gpus = sn_gpus s\<rparr> else None),
          pb_as_of = sn_as_of s\<rparr>)"

end
