(* ===== verification/Validator_Properties.thy ===== *)
theory Validator_Properties
  imports Batch_Validator
begin

text \<open>
  What an accepted batch file looks like, and two files on which the validator of
  \<open>services/batch_validator.py\<close> misses its aim: one whose first object is empty, one whose
  model is null.
\<close>

section \<open>One accepted line\<close>

definition line_model :: "jdict \<Rightarrow> json" where
  "line_model d = (case jget ''body'' d of JObj b \<Rightarrow> jget ''model'' b | _ \<Rightarrow> JNull)"

definition line_ok :: "jdict \<Rightarrow> bool" where
  "line_ok d \<longleftrightarrow> validate_schema d 0 = [] \<and> validate_endpoint_specific d 0 = []"

lemma valid_add_error [simp]: "\<not> vr_valid (add_error e r)"
  by (simp add: add_error_def)

lemma valid_add_errors [simp]: "vr_valid (add_errors es r) \<longleftrightarrow> vr_valid r \<and> es = []"
proof -
  have "\<not> vr_valid r \<Longrightarrow> \<not> vr_valid (fold add_error es r)" for r es
    by (induction es arbitrary: r) auto
  then show ?thesis unfolding add_errors_def by (cases es) auto
qed

lemma add_errors_frame [simp]:
  "vr_total (add_errors es r) = vr_total r" "vr_model (add_errors es r) = vr_model r"
proof -
  have "vr_total (fold add_error es r) = vr_total r \<and> vr_model (fold add_error es r) = vr_model r"
    by (induction es arbitrary: r) (auto simp: add_error_def)
  then show "vr_total (add_errors es r) = vr_total r" "vr_model (add_errors es r) = vr_model r"
    by (simp_all add: add_errors_def)
qed

text \<open>Whether a line passes does not depend on its number.\<close>

lemma if_single_Nil: "(if c then [x] else ys) = [] \<longleftrightarrow> \<not> c \<and> ys = []"
  by simp

lemma validator_index:
  "validate_no_extra_keys d i = [] \<longleftrightarrow> validate_no_extra_keys d 0 = []"
  "validate_custom_id d i = [] \<longleftrightarrow> validate_custom_id d 0 = []"
  "validate_method d i = [] \<longleftrightarrow> validate_method d 0 = []"
  "validate_url d i = [] \<longleftrightarrow> validate_url d 0 = []"
  "validate_body d i = [] \<longleftrightarrow> validate_body d 0 = []"
  "validate_model_type d i = [] \<longleftrightarrow> validate_model_type d 0 = []"
  "validate_message i k m = [] \<longleftrightarrow> validate_message 0 k m = []"
  "validate_logprob_fields b i c = [] \<longleftrightarrow> validate_logprob_fields b 0 c = []"
  unfolding validate_no_extra_keys_def validate_custom_id_def validate_method_def validate_url_def
    validate_body_def validate_model_type_def validate_message_def validate_logprob_fields_def Let_def
  by (simp_all only: if_single_Nil append_is_Nil_conv simp_thms) (simp_all split: json.split)

lemma schema_index: "validate_schema d i = [] \<longleftrightarrow> validate_schema d 0 = []"
  by (simp add: validate_schema_def schema_validators_def validator_index(1-6) [of d i])

lemma endpoint_index: "validate_endpoint_specific d i = [] \<longleftrightarrow> validate_endpoint_specific d 0 = []"
proof -
  have "validate_chat_body b i = [] \<longleftrightarrow> validate_chat_body b 0 = []" for b
    by (simp add: validate_chat_body_def split_beta validator_index(7) [of i] validator_index(8) [of b i]
        split: json.split list.split)
  moreover have "validate_completions_body b i = [] \<longleftrightarrow> validate_completions_body b 0 = []" for b
    by (simp add: validate_completions_body_def validator_index(8) [of b i])
  ultimately show ?thesis by (auto simp: validate_endpoint_specific_def split: json.split)
qed

text \<open>What a line that adds no error does to the cross-line state: its custom id is new, and its
  model is null, empty, or the file's one model.\<close>

definition model_fits :: "json \<Rightarrow> string option \<Rightarrow> string option \<Rightarrow> bool" where
  "model_fits v old new \<longleftrightarrow> (v = JNull \<or> v = JStr []) \<and> new = old \<or>
     (\<exists>m. v = JStr m \<and> m \<noteq> [] \<and> old \<in> {None, Some m} \<and> new = Some m)"

definition same_model :: "vstate \<Rightarrow> bool" where
  "same_model st \<longleftrightarrow> cx_first_model (vs_cross st) = vr_model (vs_result st)"

lemma schema_ok_shape:
  assumes "validate_schema d i = []"
  shows "\<exists>c. jget ''custom_id'' d = JStr c \<and> c \<noteq> []" "d \<noteq> []" "\<exists>b. jget ''body'' d = JObj b"
    "line_model d = JNull \<or> (\<exists>m. line_model d = JStr m)"
proof -
  from assms show c: "\<exists>c. jget ''custom_id'' d = JStr c \<and> c \<noteq> []"
    by (auto simp: validate_schema_def schema_validators_def validate_custom_id_def nonempty_str_def
        split: if_splits json.splits)
  then show "d \<noteq> []" by (auto simp: jget_def)
  from assms show "\<exists>b. jget ''body'' d = JObj b"
    by (auto simp: validate_schema_def schema_validators_def validate_body_def split: json.splits)
  from assms show "line_model d = JNull \<or> (\<exists>m. line_model d = JStr m)"
    by (auto simp: validate_schema_def schema_validators_def validate_model_type_def line_model_def split: json.splits)
qed

lemma cross_line_ok:
  assumes "vr_valid (vs_result (cross_line i d st))" "same_model st" "validate_schema d i = []"
  shows "vr_valid (vs_result st)" "vs_model (cross_line i d st) = Some (line_model d)"
    "vr_total (vs_result (cross_line i d st)) = vr_total (vs_result st)"
    "vr_model (vs_result (cross_line i d st)) = vr_model (vs_result st)"
    "\<exists>c. jget ''custom_id'' d = JStr c \<and> c \<notin> set (cx_seen (vs_cross st)) \<and>
      cx_seen (vs_cross (cross_line i d st)) = c # cx_seen (vs_cross st)"
    "model_fits (line_model d) (vr_model (vs_result st)) (cx_first_model (vs_cross (cross_line i d st)))"
proof -
  from schema_ok_shape [OF assms(3)] obtain c b where c: "jget ''custom_id'' d = JStr c" "c \<noteq> []"
    and b: "jget ''body'' d = JObj b" by blast
  note shape = schema_ok_shape(4) [OF assms(3)]
  have keep: "cx_seen (note_capabilities i u b' cx) = cx_seen cx"
    "cx_first_model (note_capabilities i u b' cx) = cx_first_model cx" for u b' cx
    by (simp_all add: note_capabilities_def)
  have lm: "line_model d = jget ''model'' b" by (simp add: line_model_def b)
  note simps = cross_line_def Let_def b c check_custom_id_def check_model_consistency_def keep lm
  show "vr_valid (vs_result st)" "vs_model (cross_line i d st) = Some (line_model d)"
    "vr_total (vs_result (cross_line i d st)) = vr_total (vs_result st)"
    "vr_model (vs_result (cross_line i d st)) = vr_model (vs_result st)"
    "\<exists>c. jget ''custom_id'' d = JStr c \<and> c \<notin> set (cx_seen (vs_cross st)) \<and>
      cx_seen (vs_cross (cross_line i d st)) = c # cx_seen (vs_cross st)"
    "model_fits (line_model d) (vr_model (vs_result st)) (cx_first_model (vs_cross (cross_line i d st)))"
    using assms(1,2) shape unfolding same_model_def model_fits_def
    by (auto simp: simps split: prod.splits if_splits option.splits)
qed

lemma track_model_ok:
  assumes "track_model st = Inr st1" "vs_model st = Some v" "v = JNull \<or> (\<exists>m. v = JStr m)"
    "model_fits v (vr_model (vs_result st)) (cx_first_model (vs_cross st))"
  shows "vs_cross st1 = vs_cross st" "vr_valid (vs_result st1) = vr_valid (vs_result st)"
    "vr_total (vs_result st1) = vr_total (vs_result st)"
    "same_model st1" "model_fits v (vr_model (vs_result st)) (vr_model (vs_result st1))"
  using assms by (auto simp: track_model_def same_model_def model_fits_def split: if_splits option.splits)

lemma entry_schema_ok:
  assumes "validate_entry i d st = Inr st1" "vr_valid (vs_result st1)"
  shows "validate_schema d i = []" "validate_endpoint_specific d i = []"
proof -
  have t: "track_model s = Inr st1 \<Longrightarrow> vr_valid (vs_result s)" for s
    using assms(2) by (auto simp: track_model_def split: if_splits option.splits json.splits)
  have c: "vr_valid (vs_result (if b then cross_line i d s else s)) \<Longrightarrow> vr_valid (vs_result s)" for b s
    using cross_line_result [of i d s] by (auto split: if_splits)
  let ?es = "validate_schema d i"
  let ?eps = "if ?es = [] then validate_endpoint_specific d i else []"
  let ?st = "st\<lparr>vs_result := add_errors ?eps (add_errors ?es (vs_result st))\<rparr>"
  have "track_model (if d \<noteq> [] then cross_line i d ?st else ?st) = Inr st1"
    using assms(1) by (simp add: validate_entry_def Let_def)
  from c [OF t [OF this]] have "vr_valid (vs_result ?st)" .
  then have es: "?es = []" and eps: "?eps = []" by auto
  show "?es = []" by (rule es)
  show "validate_endpoint_specific d i = []" using eps unfolding es by (simp only: refl if_True)
qed

lemma validate_entry_ok:
  assumes "validate_entry i d st = Inr st1" "vr_valid (vs_result st1)" "same_model st"
  shows "line_ok d" "vr_valid (vs_result st)" "vr_total (vs_result st1) = vr_total (vs_result st)"
    "\<exists>c. jget ''custom_id'' d = JStr c \<and> c \<notin> set (cx_seen (vs_cross st)) \<and> cx_seen (vs_cross st1) = c # cx_seen (vs_cross st)"
    "same_model st1" "model_fits (line_model d) (vr_model (vs_result st)) (vr_model (vs_result st1))"
proof -
  note schema = entry_schema_ok [OF assms(1,2)]
  then show "line_ok d" using schema_index endpoint_index by (auto simp: line_ok_def)
  note shape = schema_ok_shape [OF schema(1)]
  let ?st2 = "cross_line i d st"
  have tr: "track_model ?st2 = Inr st1"
    using assms(1) schema shape(2) by (simp add: validate_entry_def add_errors_def)
  have v2: "vr_valid (vs_result ?st2)"
    using tr assms(2) by (auto simp: track_model_def split: if_splits option.splits json.splits)
  note cl = cross_line_ok [OF v2 assms(3) schema(1)]
  note tm = track_model_ok [OF tr cl(2) shape(4) cl(6) [folded cl(4)]]
  show "vr_valid (vs_result st)" by (rule cl(1))
  show "vr_total (vs_result st1) = vr_total (vs_result st)" using tm(3) cl(3) by simp
  show "\<exists>c. jget ''custom_id'' d = JStr c \<and> c \<notin> set (cx_seen (vs_cross st)) \<and> cx_seen (vs_cross st1) = c # cx_seen (vs_cross st)"
    using cl(5) tm(1) by simp
  show "same_model st1" by (rule tm(4))
  show "model_fits (line_model d) (vr_model (vs_result st)) (vr_model (vs_result st1))" using tm(5) cl(4) by simp
qed

section \<open>All lines\<close>

text \<open>An error is never taken back.\<close>

lemma entry_stays_invalid:
  assumes "validate_entry i d st = Inr st1" "vr_valid (vs_result st1)"
  shows "vr_valid (vs_result st)"
proof -
  note schema = entry_schema_ok [OF assms]
  have tr: "track_model (if d \<noteq> [] then cross_line i d st else st) = Inr st1"
    using assms(1) schema by (simp add: validate_entry_def add_errors_def)
  then have "vr_valid (vs_result (if d \<noteq> [] then cross_line i d st else st))"
    using assms(2) by (auto simp: track_model_def split: if_splits option.splits json.splits)
  then show ?thesis using cross_line_result [of i d st] by (auto split: if_splits)
qed

lemma lines_stay_invalid:
  assumes "validate_lines loads i ls st = Inr st'" "vr_valid (vs_result st')"
  shows "vr_valid (vs_result st)"
  using assms
proof (induction ls arbitrary: i st)
  case (Cons line rest)
  from Cons.prems(1) show ?case
  proof (cases rule: validate_lines_cases)
    case blank
    from Cons.IH [OF blank(2) Cons.prems(2)] show ?thesis .
  next
    case (full e)
    then show ?thesis using Cons.prems(2) by simp
  next
    case (bad e)
    from Cons.IH [OF bad(2) Cons.prems(2)] show ?thesis by simp
  next
    case (entry d st1)
    from entry_stays_invalid [OF entry(4) Cons.IH [OF entry(5) Cons.prems(2)]] show ?thesis by simp
  qed
qed simp

definition one_model :: "string option \<Rightarrow> jdict \<Rightarrow> bool" where
  "one_model m d \<longleftrightarrow> line_model d = JNull \<or> line_model d = JStr [] \<or> (\<exists>s. line_model d = JStr s \<and> m = Some s)"

definition accepted :: "loads \<Rightarrow> string list \<Rightarrow> vstate \<Rightarrow> vstate \<Rightarrow> jdict list \<Rightarrow> bool" where
  "accepted loads ls st st' ds \<longleftrightarrow>
     map (\<lambda>l. loads (strip l)) (filter (\<lambda>l. strip l \<noteq> []) ls) = map (\<lambda>d. Loaded (JObj d)) ds \<and>
     vr_total (vs_result st') = vr_total (vs_result st) + length ds \<and>
     (vr_total (vs_result st) \<le> max_lines \<longrightarrow> vr_total (vs_result st') \<le> max_lines) \<and>
     (\<forall>d \<in> set ds. line_ok d \<and> one_model (vr_model (vs_result st')) d) \<and>
     distinct (map (jget ''custom_id'') ds) \<and>
     (\<forall>d \<in> set ds. jget ''custom_id'' d \<notin> JStr ` set (cx_seen (vs_cross st))) \<and>
     (vr_model (vs_result st) \<noteq> None \<longrightarrow> vr_model (vs_result st') = vr_model (vs_result st))"

lemma model_fits_keeps: "model_fits v old new \<Longrightarrow> old \<noteq> None \<Longrightarrow> new = old"
  by (auto simp: model_fits_def)

lemma validate_lines_ok:
  assumes "validate_lines loads i ls st = Inr st'" "vr_valid (vs_result st')" "same_model st"
  shows "vr_valid (vs_result st) \<and> (\<exists>ds. accepted loads ls st st' ds)"
  using assms
proof (induction ls arbitrary: i st)
  case Nil
  then show ?case by (auto simp: accepted_def)
next
  case (Cons line rest)
  from Cons.prems(1) show ?case
  proof (cases rule: validate_lines_cases)
    case blank
    then show ?thesis using Cons.IH [OF blank(2) Cons.prems(2,3)] by (simp add: accepted_def)
  next
    case (full e)
    then show ?thesis using Cons.prems(2) by simp
  next
    case (bad e)
    have "same_model (st\<lparr>vs_result := add_error e (vs_result (count_line st))\<rparr>)"
      using Cons.prems(3) by (simp add: same_model_def add_error_def)
    from Cons.IH [OF bad(2) Cons.prems(2) this] show ?thesis by simp
  next
    case (entry d st1)
    have s0: "same_model (count_line st)" using Cons.prems(3) by (simp add: same_model_def)
    have v1: "vr_valid (vs_result st1)"
      by (rule lines_stay_invalid [OF entry(5) Cons.prems(2)])
    note e = validate_entry_ok [OF entry(4) v1 s0]
    from Cons.IH [OF entry(5) Cons.prems(2) e(5)] obtain ds where ds: "accepted loads rest st1 st' ds" by blast
    from e(4) obtain c where c: "jget ''custom_id'' d = JStr c" "c \<notin> set (cx_seen (vs_cross st))"
      "cx_seen (vs_cross st1) = c # cx_seen (vs_cross st)" by auto
    have "one_model (vr_model (vs_result st')) d"
      using e(6) ds by (auto simp: accepted_def one_model_def model_fits_def)
    moreover have "vr_model (vs_result st) \<noteq> None \<longrightarrow> vr_model (vs_result st') = vr_model (vs_result st)"
      using e(6) model_fits_keeps ds by (fastforce simp: accepted_def)
    ultimately have "accepted loads (line # rest) st st' (d # ds)"
      using ds e(1,3) entry(1,2,3) c unfolding accepted_def by auto
    then show ?thesis using e(2) by auto
  qed
qed

section \<open>The catalogue gates\<close>

lemma gates_ok:
  assumes "vr_valid (model_gates wall now db cx r)"
  shows "vr_valid r" "vr_total (model_gates wall now db cx r) = vr_total r"
    "vr_model (model_gates wall now db cx r) = vr_model r"
    "truthy (vr_model r) \<longrightarrow> get_catalog_entry db (vr_model r) \<noteq> None"
proof -
  have c: "vr_valid (capability_gate wall now db e caps r) \<Longrightarrow> vr_valid r \<and> capability_gate wall now db e caps r = r" for e caps r
    by (auto simp: capability_gate_def Let_def split: if_splits)
  have s: "vr_valid (size_gate wall now db e needs r) \<Longrightarrow> vr_valid r \<and> size_gate wall now db e needs r = r" for e needs r
    by (auto simp: size_gate_def Let_def split: if_splits)
  have m: "vr_valid r \<and> (truthy (vr_model r) \<longrightarrow> get_catalog_entry db (vr_model r) \<noteq> None) \<and>
      (model_gates wall now db cx r = r \<or> (\<exists>needs. model_gates wall now db cx r = r\<lparr>vr_caps := needs\<rparr>))"
  proof (cases "vr_valid r \<and> truthy (vr_model r)")
    case True
    then obtain e where e: "get_catalog_entry db (vr_model r) = Some e"
      using assms by (cases "get_catalog_entry db (vr_model r)") (auto simp: model_gates_def)
    let ?needs = "map fst (cx_caps cx)"
    let ?r1 = "if c_runtime e = ''ollama'' \<and> cx_n_rows cx \<noteq> []
       then add_error (verr ''unsupported_parameter'' None (Some ''body.n'')) r else r"
    let ?r2 = "size_gate wall now db e ?needs (capability_gate wall now db e (cx_caps cx) ?r1)"
    have eq: "model_gates wall now db cx r = (if vr_valid ?r2 then ?r2\<lparr>vr_caps := ?needs\<rparr> else ?r2)"
      using True e by (simp add: model_gates_def Let_def)
    have v2: "vr_valid ?r2" using assms unfolding eq by (auto split: if_splits)
    from s [OF v2] have v1: "vr_valid (capability_gate wall now db e (cx_caps cx) ?r1)"
      and r2: "?r2 = capability_gate wall now db e (cx_caps cx) ?r1" by auto
    from c [OF v1] have "vr_valid ?r1" "capability_gate wall now db e (cx_caps cx) ?r1 = ?r1" by auto
    then have "?r2 = r" unfolding r2 by (auto split: if_splits)
    then show ?thesis using True e eq by auto
  next
    case False
    then have "model_gates wall now db cx r = r" unfolding model_gates_def by (simp only: if_False)
    then show ?thesis using assms False by simp
  qed
  then show "vr_valid r" "vr_total (model_gates wall now db cx r) = vr_total r"
    "vr_model (model_gates wall now db cx r) = vr_model r"
    "truthy (vr_model r) \<longrightarrow> get_catalog_entry db (vr_model r) \<noteq> None" by auto
qed

lemma accepted_content:
  assumes "validate_content wall loads now db fsize content = Inr r" "vr_valid r"
  shows "\<exists>ds st. accepted loads content \<lparr>vs_result = new_result, vs_cross = new_cross, vs_model = None\<rparr> st ds \<and>
    vr_total r = vr_total (vs_result st) \<and> vr_model r = vr_model (vs_result st) \<and> vr_total r \<noteq> 0 \<and>
    (truthy (vr_model r) \<longrightarrow> get_catalog_entry db (vr_model r) \<noteq> None)"
proof -
  let ?st0 = "\<lparr>vs_result = file_preconditions fsize, vs_cross = new_cross, vs_model = None\<rparr>"
  have pre: "vr_valid (file_preconditions fsize)"
    using assms by (auto simp: validate_content_def Let_def split: if_splits)
  then have r0: "file_preconditions fsize = new_result"
    by (auto simp: file_preconditions_def split: option.splits if_splits)
  from assms(1) pre obtain st where st: "validate_lines loads 1 content ?st0 = Inr st"
    and r: "r = model_gates wall now db (vs_cross st) (if vr_total (vs_result st) = 0
        then add_error (verr ''empty_file'' None None) (vs_result st) else vs_result st)"
    by (auto simp: validate_content_def Let_def)
  note g = gates_ok [OF assms(2) [unfolded r]]
  have ne: "vr_total (vs_result st) \<noteq> 0" using g(1) by (auto split: if_splits)
  have v: "vr_valid (vs_result st)" using g(1) ne by simp
  have "same_model ?st0" by (simp add: same_model_def new_cross_def r0 new_result_def)
  from validate_lines_ok [OF st v this] obtain ds where ds: "accepted loads content ?st0 st ds" by blast
  have "vr_total r = vr_total (vs_result st)" "vr_model r = vr_model (vs_result st)"
    using g(2,3) ne unfolding r by simp_all
  then show ?thesis using ds ne g(4) by (intro exI [of _ ds] exI [of _ st]) (simp add: r0)
qed

section \<open>Properties\<close>

text \<open>C16: An accepted file is well formed throughout: every non-blank line is a JSON object that
  passes the schema and the endpoint checks, there is at least one and at most fifty thousand
  of them, their custom ids are pairwise different, every model that is named is one and the
  same, and that model is a selectable entry of the catalogue.\<close>

theorem accepted_file_wellformed:
  assumes "validate_content wall loads now db fsize content = Inr r" "vr_valid r"
  shows "\<exists>ds. map (\<lambda>l. loads (strip l)) (filter (\<lambda>l. strip l \<noteq> []) content) = map (\<lambda>d. Loaded (JObj d)) ds \<and>
    vr_total r = length ds \<and> 0 < length ds \<and> length ds \<le> max_lines \<and>
    (\<forall>d \<in> set ds. validate_schema d 0 = [] \<and> validate_endpoint_specific d 0 = [] \<and>
      (line_model d = JNull \<or> line_model d = JStr [] \<or> (\<exists>m. line_model d = JStr m \<and> vr_model r = Some m))) \<and>
    distinct (map (jget ''custom_id'') ds) \<and>
    (truthy (vr_model r) \<longrightarrow> get_catalog_entry db (vr_model r) \<noteq> None)"
proof -
  obtain ds st where ds: "accepted loads content \<lparr>vs_result = new_result, vs_cross = new_cross, vs_model = None\<rparr> st ds"
    "vr_total r = vr_total (vs_result st)" "vr_model r = vr_model (vs_result st)" "vr_total r \<noteq> 0"
    "truthy (vr_model r) \<longrightarrow> get_catalog_entry db (vr_model r) \<noteq> None"
    using accepted_content [OF assms] by blast
  then show ?thesis
    by (intro exI [of _ ds]) (auto simp: accepted_def line_ok_def one_model_def new_result_def)
qed

theorem accepted_file_wellformed_witness:
  "\<exists>r ds. validate_content sample_wall sample_loads 1000 sample_base (Some 10) [''a'', '' '', ''b''] = Inr r \<and>
     vr_total r = length ds \<and> distinct (map (jget ''custom_id'') ds)"
proof -
  let ?r = "validate_content sample_wall sample_loads 1000 sample_base (Some 10) [''a'', '' '', ''b'']"
  have "\<not> isl ?r" "vr_valid (projr ?r)" by code_simp+
  then obtain r where r: "?r = Inr r" "vr_valid r" by (cases ?r) auto
  from accepted_file_wellformed [OF r] r show ?thesis by blast
qed

text \<open>A file whose first object is empty makes the validator raise \<open>UnboundLocalError\<close>: the
  batch row stays as it was, so the batch is left validating instead of failing with a report.\<close>

theorem empty_first_object_raises:
  assumes "size_of path = Some n" "n \<le> max_file_bytes" "disk db path = Some (l # ls)" "strip l \<noteq> []"
    "loads (strip l) = Loaded (JObj [])"
  shows "validate_batch_file wall loads commit_ok m2s now bid path size_of db = (Inl UnboundLocalError, db)"
proof -
  have pre: "file_preconditions (Some n) = new_result" using assms(2) by (simp add: file_preconditions_def)
  have "validate_entry 1 [] st = Inl UnboundLocalError"
    if "vr_model (vs_result st) = None" "vs_model st = None" for st
    using that by (simp add: validate_entry_def track_model_def Let_def)
  then have "validate_lines loads 1 (l # ls) \<lparr>vs_result = new_result, vs_cross = new_cross, vs_model = None\<rparr> = Inl UnboundLocalError"
    using assms(4,5) by (simp add: Let_def parse_line_def new_result_def max_lines_def)
  then have "validate_content wall loads now db (Some n) (l # ls) = Inl UnboundLocalError"
    unfolding validate_content_def Let_def pre by (simp add: new_result_def)
  then show ?thesis using assms(1,3) by (simp add: validate_batch_file_def)
qed

theorem empty_first_object_raises_witness:
  "validate_batch_file sample_wall sample_loads (\<lambda>_. True) (\<lambda>m. 60 * m) 1000 ''b1'' ''p'' (\<lambda>_. Some 2)
     ((sample_db Validating)\<lparr>disk := [''p'' \<mapsto> [''{}'']]\<rparr>) =
   (Inl UnboundLocalError, (sample_db Validating)\<lparr>disk := [''p'' \<mapsto> [''{}'']]\<rparr>)"
proof (rule empty_first_object_raises [where n = 2])
  show "strip ''{}'' \<noteq> []" "sample_loads (strip ''{}'') = Loaded (JObj [])" by code_simp+
qed (simp_all add: max_file_bytes_def)

text \<open>A file that names no model, because every \<open>body.model\<close> is null, is accepted; the batch
  it validates carries no model and no worker is ever eligible for it.\<close>

theorem null_model_stranded:
  "\<exists>r. validate_content sample_wall sample_loads 1000 sample_base (Some 10) [''null''] = Inr r \<and> vr_valid r \<and>
     b_status (verdict_row m2s t r (sample_batch Validating\<lparr>b_model := None\<rparr>)) = Validated \<and>
     \<not> eligible wall now db w (verdict_row m2s t r (sample_batch Validating\<lparr>b_model := None\<rparr>))"
proof -
  let ?r = "validate_content sample_wall sample_loads 1000 sample_base (Some 10) [''null'']"
  have "\<not> isl ?r" "vr_valid (projr ?r)" "vr_model (projr ?r) = None" by code_simp+
  then obtain r where r: "?r = Inr r" "vr_valid r" "vr_model r = None" by (cases ?r) auto
  then have "b_model (verdict_row m2s t r (sample_batch Validating\<lparr>b_model := None\<rparr>)) = None"
    "b_status (verdict_row m2s t r (sample_batch Validating\<lparr>b_model := None\<rparr>)) = Validated"
    by (simp_all add: verdict_row_def set_expires_at_def Let_def)
  moreover from this(1) have "\<not> eligible wall now db w (verdict_row m2s t r (sample_batch Validating\<lparr>b_model := None\<rparr>))"
    by (simp add: eligible_def get_catalog_entry_def)
  ultimately show ?thesis using r by blast
qed

end
