(* ===== verification/Usage_Properties.thy ===== *)
theory Usage_Properties
  imports Usage_Ingest
begin

text \<open>
  What the ingestion of \<open>services/usage_ingest.py\<close> promises: the stored facts are those of the
  last line per custom id whatever the chunking, a retry after a crash between two chunks
  converges to what one clean pass would have written, and retries are bounded.
\<close>

section \<open>Facts of the records\<close>

abbreviation facts_of :: "usage_row list \<Rightarrow> ((string \<times> string) \<times> string option \<times> int \<times> int \<times> int) list" where
  "facts_of rs \<equiv> map (\<lambda>r. (ur_key r, usage_facts r)) rs"

lemma usage_record_facts:
  "map_option (\<lambda>r. (ur_key r, usage_facts r)) (usage_record loads repr bid model t1 n1 line) =
   map_option (\<lambda>r. (ur_key r, usage_facts r)) (usage_record loads repr bid model t2 n2 line)"
  by (auto simp: usage_record_def ur_key_def usage_facts_def option.map_comp comp_def split_beta
      split: loads_result.split json.split intro!: option.map_cong)

lemma map_filter_agree:
  "(\<And>x. map_option f (g x) = map_option f (h x)) \<Longrightarrow> map f (List.map_filter g xs) = map f (List.map_filter h xs)"
proof (induction xs)
  case (Cons x xs)
  from Cons.prems [of x] Cons.IH [OF Cons.prems] show ?case
    by (cases "g x"; cases "h x") (simp_all add: List.map_filter_simps)
qed (simp add: List.map_filter_simps)

lemma usage_records_facts:
  "facts_of (usage_records loads repr bid model t1 n1 content) = facts_of (usage_records loads repr bid model t2 n2 content)"
  unfolding usage_records_def
  by (rule map_filter_agree) (auto simp: split_beta intro: usage_record_facts)

lemma usage_map_upsert_chunks:
  assumes "\<forall>r \<in> set rs. ur_batch_id r = bid"
  shows "usage_map (fold upsert_chunk (take k (chunks rs)) rows) = usage_map rows ++ map_of (rev (facts_of (concat (take k (chunks rs)))))"
    "usage_map (fold upsert_chunk (chunks rs) rows) = usage_map rows ++ map_of (rev (facts_of rs))"
proof -
  have c: "\<forall>c \<in> set (chunks rs). \<forall>r \<in> set c. ur_batch_id r = bid"
  proof (intro ballI)
    fix c r assume "c \<in> set (chunks rs)" "r \<in> set c"
    then have "r \<in> set (concat (chunks rs))" by auto
    then show "ur_batch_id r = bid" unfolding chunks_concat using assms by blast
  qed
  have "\<forall>c \<in> set (take k (chunks rs)). \<forall>r \<in> set c. ur_batch_id r = bid" using c by (meson in_set_takeD)
  from usage_map_write_chunks [OF this] usage_map_fold_upsert
  show "usage_map (fold upsert_chunk (take k (chunks rs)) rows) = usage_map rows ++ map_of (rev (facts_of (concat (take k (chunks rs)))))"
    by simp
  from usage_map_write_chunks [OF c] usage_map_fold_upsert
  show "usage_map (fold upsert_chunk (chunks rs) rows) = usage_map rows ++ map_of (rev (facts_of rs))"
    by (simp add: chunks_concat)
qed

section \<open>Totals\<close>

text \<open>A sum over the rows of a batch depends on the stored facts only.\<close>

lemma usage_map_row:
  "distinct (map ur_key rows) \<Longrightarrow> r \<in> set rows \<Longrightarrow> usage_map rows (ur_key r) = Some (usage_facts r)"
  by (simp add: usage_map_def tbl_get_distinct)

lemma usage_map_dom: "dom (usage_map rows) = ur_key ` set rows"
proof -
  have "usage_map rows k = None \<longleftrightarrow> k \<notin> ur_key ` set rows" for k
    by (simp add: usage_map_def tbl_get_None)
  then show ?thesis unfolding dom_def by (intro set_eqI) simp
qed

lemma batch_sum_facts:
  assumes "distinct (map ur_key rows)"
  shows "sum_list (map (\<lambda>r. g (usage_facts r)) (filter (\<lambda>r. ur_batch_id r = bid) rows)) =
    sum (\<lambda>k. g (the (usage_map rows k))) {k \<in> dom (usage_map rows). fst k = bid}"
proof -
  let ?xs = "filter (\<lambda>r. ur_batch_id r = bid) rows"
  have "map (\<lambda>r. g (usage_facts r)) ?xs = map (\<lambda>k. g (the (usage_map rows k))) (map ur_key ?xs)"
    using usage_map_row [OF assms] by simp
  moreover have "distinct (map ur_key ?xs)" using assms by (simp add: distinct_map_filter)
  moreover have "set (map ur_key ?xs) = {k \<in> dom (usage_map rows). fst k = bid}"
    by (auto simp: usage_map_dom ur_key_def)
  ultimately show ?thesis
    using sum_list_distinct_conv_sum_set [of "map ur_key ?xs" "\<lambda>k. g (the (usage_map rows k))"] by (simp only: True_implies_equals)
qed

definition totals_of :: "usage_row list \<Rightarrow> string \<Rightarrow> int \<times> int \<times> int" where
  "totals_of rows bid = (let rs = filter (\<lambda>r. ur_batch_id r = bid) rows in
     (sum_list (map ur_prompt rs), sum_list (map ur_completion rs), sum_list (map ur_total rs)))"

lemma totals_of_facts:
  assumes "distinct (map ur_key rows)" "distinct (map ur_key rows')" "usage_map rows = usage_map rows'"
  shows "totals_of rows bid = totals_of rows' bid"
proof -
  have s: "sum_list (map (\<lambda>r. g (usage_facts r)) (filter (\<lambda>r. ur_batch_id r = bid) rows)) =
      sum_list (map (\<lambda>r. g (usage_facts r)) (filter (\<lambda>r. ur_batch_id r = bid) rows'))" for g :: "_ \<Rightarrow> int"
    using batch_sum_facts [OF assms(1), of g bid] batch_sum_facts [OF assms(2), of g bid] assms(3) by (simp only:)
  from s [of "\<lambda>f. fst (snd f)"] s [of "\<lambda>f. fst (snd (snd f))"] s [of "\<lambda>f. snd (snd (snd f))"]
  show ?thesis by (simp add: totals_of_def usage_facts_def Let_def)
qed

section \<open>One pass\<close>

definition tokens_of :: "batch \<Rightarrow> int option \<times> int option \<times> int option \<times> bool" where
  "tokens_of b = (b_prompt_tokens b, b_completion_tokens b, b_total_tokens b, b_ingest_pending b)"

lemma ingest_clean:
  fixes loads repr bid b t nid content path
  defines "rs \<equiv> usage_records loads repr bid (b_model b) t nid content"
  assumes "get_batch_row db bid = Some b" "disk db path = Some content" "distinct (map ur_key (usage_rows db))"
  defines "db' \<equiv> ingest_usage_records loads repr t nid None bid path db"
  shows "usage_map (usage_rows db') = usage_map (usage_rows db) ++ map_of (rev (facts_of rs))"
    "distinct (map ur_key (usage_rows db'))"
    "map_option tokens_of (get_batch_row db' bid) = Some (if rs = [] then (b_prompt_tokens b, b_completion_tokens b, b_total_tokens b, False)
       else (case totals_of (usage_rows db') bid of (p, c, tt) \<Rightarrow> (Some p, Some c, Some tt, False)))"
proof -
  have bat: "\<forall>r \<in> set rs. ur_batch_id r = bid" unfolding rs_def by (auto intro: usage_records_batch)
  have rows: "usage_rows db' = fold upsert_chunk (chunks rs) (usage_rows db)"
    unfolding db'_def using assms(2,3)
    by (auto simp: ingest_usage_records_def Let_def rs_def [symmetric] mark_ingestion_done_def write_rollups_def write_chunks_def
        chunks.simps [of "[]"])
  show um: "usage_map (usage_rows db') = usage_map (usage_rows db) ++ map_of (rev (facts_of rs))"
    unfolding rows by (rule usage_map_upsert_chunks(2) [OF bat])
  show "distinct (map ur_key (usage_rows db'))" unfolding rows by (rule distinct_write_chunks [OF assms(4)])
  show "map_option tokens_of (get_batch_row db' bid) = Some (if rs = [] then (b_prompt_tokens b, b_completion_tokens b, b_total_tokens b, False)
       else (case totals_of (usage_rows db') bid of (p, c, tt) \<Rightarrow> (Some p, Some c, Some tt, False)))"
  proof (cases "rs = []")
    case True
    then show ?thesis unfolding db'_def using assms(2,3)
      by (simp add: ingest_usage_records_def Let_def rs_def [symmetric] mark_ingestion_done_def upd_batch_get tokens_of_def)
  next
    case False
    then obtain r where "r \<in> set rs" by (cases rs) auto
    then have "ur_key r \<in> fst ` set (rev (facts_of rs))" by force
    then have "map_of (rev (facts_of rs)) (ur_key r) \<noteq> None" unfolding map_of_eq_None_iff by blast
    then have "ur_key r \<in> dom (usage_map (usage_rows db'))" unfolding um by auto
    then have "ur_key r \<in> ur_key ` set (usage_rows db')" by (simp add: usage_map_dom)
    then have "filter (\<lambda>r. ur_batch_id r = bid) (usage_rows db') \<noteq> []"
      using bat \<open>r \<in> set rs\<close> by (auto simp: ur_key_def filter_empty_conv)
    then have ne: "batch_usage (write_chunks (chunks rs) db) bid \<noteq> []"
      and tot: "totals_of (usage_rows db') bid = (let u = batch_usage (write_chunks (chunks rs) db) bid in
         (sum_list (map ur_prompt u), sum_list (map ur_completion u), sum_list (map ur_total u)))"
      by (simp_all add: batch_usage_def write_chunks_def rows totals_of_def)
    have g: "get_batch_row (write_chunks (chunks rs) db) bid = Some b" using assms(2) by (simp add: write_chunks_def)
    have "db' = mark_ingestion_done bid (write_rollups bid (write_chunks (chunks rs) db))"
      unfolding db'_def using assms(2,3) False by (simp add: ingest_usage_records_def Let_def rs_def [symmetric])
    then have "map_option tokens_of (get_batch_row db' bid) = Some (let u = batch_usage (write_chunks (chunks rs) db) bid in
         (Some (sum_list (map ur_prompt u)), Some (sum_list (map ur_completion u)), Some (sum_list (map ur_total u)), False))"
      using ne g by (simp add: mark_ingestion_done_def write_rollups_def Let_def upd_batch_get tokens_of_def)
    then show ?thesis using False tot by (simp add: Let_def)
  qed
qed

lemma ingest_crashed:
  fixes loads repr bid b t nid content k path
  defines "rs \<equiv> usage_records loads repr bid (b_model b) t nid content"
  assumes "get_batch_row db bid = Some b" "disk db path = Some content" "distinct (map ur_key (usage_rows db))"
  defines "db' \<equiv> ingest_usage_records loads repr t nid (Some k) bid path db"
  shows "usage_map (usage_rows db') = usage_map (usage_rows db) ++ map_of (rev (facts_of (concat (take k (chunks rs)))))"
    "distinct (map ur_key (usage_rows db'))" "disk db' = disk db"
    "get_batch_row db' bid = Some (b\<lparr>b_ingest_attempts := Some (or0 (b_ingest_attempts b) + 1)\<rparr>)"
proof -
  have bat: "\<forall>r \<in> set rs. ur_batch_id r = bid" unfolding rs_def by (auto intro: usage_records_batch)
  have db': "db' = record_failed_attempt bid (write_chunks (take k (chunks rs)) db)"
    unfolding db'_def using assms(2,3) by (simp add: ingest_usage_records_def Let_def rs_def)
  have rows: "usage_rows db' = fold upsert_chunk (take k (chunks rs)) (usage_rows db)"
    by (simp add: db' record_failed_attempt_def write_chunks_def)
  show "usage_map (usage_rows db') = usage_map (usage_rows db) ++ map_of (rev (facts_of (concat (take k (chunks rs)))))"
    unfolding rows by (rule usage_map_upsert_chunks(1) [OF bat])
  show "distinct (map ur_key (usage_rows db'))" unfolding rows by (rule distinct_write_chunks [OF assms(4)])
  show "disk db' = disk db" by (simp add: db' record_failed_attempt_def write_chunks_def)
  show "get_batch_row db' bid = Some (b\<lparr>b_ingest_attempts := Some (or0 (b_ingest_attempts b) + 1)\<rparr>)"
    using assms(2) by (simp add: db' record_failed_attempt_def upd_batch_get write_chunks_def)
qed

section \<open>Bounded retries\<close>

lemma ingest_other_row:
  "i \<noteq> bid \<Longrightarrow> get_batch_row (ingest_usage_records loads repr t nid crash bid path db) i = get_batch_row db i"
proof -
  assume "i \<noteq> bid"
  then have "get_batch_row (mark_ingestion_done bid db) i = get_batch_row db i"
    "get_batch_row (record_failed_attempt bid db) i = get_batch_row db i"
    "get_batch_row (write_rollups bid db) i = get_batch_row db i"
    "get_batch_row (write_chunks cs db) i = get_batch_row db i" for db cs
    by (simp_all add: mark_ingestion_done_def record_failed_attempt_def write_rollups_def write_chunks_def
        Let_def upd_batch_get)
  then show ?thesis by (simp add: ingest_usage_records_def Let_def split: option.split)
qed

lemma retry_other_row:
  "i \<notin> b_id ` set bs \<Longrightarrow> get_batch_row (fst (retry_ingestions loads repr t nid crash bs db)) i = get_batch_row db i"
proof (induction bs arbitrary: db)
  case (Cons b bs)
  have "get_batch_row (mark_ingestion_done (b_id b) db) i = get_batch_row db i"
    using Cons.prems by (simp add: mark_ingestion_done_def upd_batch_get)
  with Cons ingest_other_row show ?case by (auto simp: split_beta split: option.split)
qed simp

section \<open>Properties\<close>

text \<open>A clean ingestion stores, for every custom id, the counts of its last line in the output
  file, whatever the chunking and whatever was stored before; the batch's totals are the sums
  over its stored rows, and its ingestion is no longer pending.\<close>

theorem ingest_last_line_wins:
  assumes "get_batch_row db bid = Some b" "disk db path = Some content" "distinct (map ur_key (usage_rows db))"
    "usage_records loads repr bid (b_model b) t nid content \<noteq> []"
  shows "usage_map (usage_rows (ingest_usage_records loads repr t nid None bid path db)) =
      usage_map (usage_rows db) ++ map_of (rev (facts_of (usage_records loads repr bid (b_model b) t nid content))) \<and>
    map_option tokens_of (get_batch_row (ingest_usage_records loads repr t nid None bid path db) bid) =
      (case totals_of (usage_rows (ingest_usage_records loads repr t nid None bid path db)) bid of
         (p, c, tt) \<Rightarrow> Some (Some p, Some c, Some tt, False))"
  using ingest_clean [OF assms(1-3), of loads repr t nid] assms(4) by (auto split: prod.splits)

definition usage_loads :: loads where
  "usage_loads s = Loaded (JObj [(''custom_id'', JStr s), (''response'', JObj [(''usage'',
     JObj [(''prompt_tokens'', JInt 3), (''completion_tokens'', JInt 4)])])])"

definition usage_db :: srv where
  "usage_db = (sample_db Completed)\<lparr>disk := [''out'' \<mapsto> [''a'', ''b'', ''a'']]\<rparr>"

lemma usage_db_ok:
  "get_batch_row usage_db ''b1'' = Some (sample_batch Completed)"
  "disk usage_db ''out'' = Some [''a'', ''b'', ''a'']" "distinct (map ur_key (usage_rows usage_db))"
  "usage_records usage_loads (\<lambda>_. []) ''b1'' (b_model (sample_batch Completed)) 1000 str_of_nat [''a'', ''b'', ''a''] \<noteq> []"
  "totals_of (usage_rows (ingest_usage_records usage_loads (\<lambda>_. []) 1000 str_of_nat None ''b1'' ''out'' usage_db)) ''b1'' = (6, 8, 14)"
  by code_simp+

theorem ingest_last_line_wins_witness:
  "map_option tokens_of (get_batch_row (ingest_usage_records usage_loads (\<lambda>_. []) 1000 str_of_nat None ''b1'' ''out'' usage_db) ''b1'') =
    Some (Some 6, Some 8, Some 14, False)"
  using ingest_last_line_wins [OF usage_db_ok(1-4)] usage_db_ok(5) by simp

text \<open>C17: A crash between two chunks costs nothing: retrying the ingestion later, at another time
  and with other row ids, ends with the same stored counts, the same totals and the same pending
  flag as one clean pass.\<close>

theorem ingest_retry_converges:
  assumes "get_batch_row db bid = Some b" "disk db path = Some content" "distinct (map ur_key (usage_rows db))"
  shows "usage_map (usage_rows (ingest_usage_records loads repr t2 nid2 None bid path
        (ingest_usage_records loads repr t1 nid1 (Some k) bid path db))) =
      usage_map (usage_rows (ingest_usage_records loads repr t2 nid2 None bid path db)) \<and>
    map_option tokens_of (get_batch_row (ingest_usage_records loads repr t2 nid2 None bid path
        (ingest_usage_records loads repr t1 nid1 (Some k) bid path db)) bid) =
      map_option tokens_of (get_batch_row (ingest_usage_records loads repr t2 nid2 None bid path db) bid)"
proof -
  let ?crash = "ingest_usage_records loads repr t1 nid1 (Some k) bid path db"
  let ?once = "ingest_usage_records loads repr t2 nid2 None bid path db"
  let ?retried = "ingest_usage_records loads repr t2 nid2 None bid path ?crash"
  let ?b = "b\<lparr>b_ingest_attempts := Some (or0 (b_ingest_attempts b) + 1)\<rparr>"
  let ?rs1 = "usage_records loads repr bid (b_model b) t1 nid1 content"
  let ?rs2 = "usage_records loads repr bid (b_model b) t2 nid2 content"
  note cr = ingest_crashed [OF assms, of loads repr t1 nid1 k]
  have disk: "disk ?crash path = Some content" using cr(3) assms(2) by simp
  note again = ingest_clean [OF cr(4) disk cr(2), of loads repr t2 nid2]
  note once = ingest_clean [OF assms, of loads repr t2 nid2]
  have sub: "dom (map_of (rev (facts_of (concat (take k (chunks ?rs1)))))) \<subseteq> dom (map_of (rev (facts_of ?rs2)))"
  proof -
    have "concat (take k (chunks ?rs1)) @ concat (drop k (chunks ?rs1)) = ?rs1"
      unfolding concat_append [symmetric] append_take_drop_id by (rule chunks_concat)
    then have "set (concat (take k (chunks ?rs1))) \<subseteq> set ?rs1"
      by (rule subst [where P = "\<lambda>xs. set (concat (take k (chunks ?rs1))) \<subseteq> set xs"]) simp
    then have "set (facts_of (concat (take k (chunks ?rs1)))) \<subseteq> set (facts_of ?rs1)"
      unfolding set_map by (rule image_mono)
    then show ?thesis unfolding dom_map_of_conv_image_fst set_rev usage_records_facts [of loads repr bid "b_model b" t1 nid1 content t2 nid2]
      by (rule image_mono)
  qed
  have absorb: "M ++ A ++ B = M ++ B" if "dom A \<subseteq> dom B" for M A B :: "string \<times> string \<rightharpoonup> string option \<times> int \<times> int \<times> int"
  proof (rule ext)
    fix x show "(M ++ A ++ B) x = (M ++ B) x"
    proof (cases "B x")
      case None
      then have "A x = None" using that unfolding dom_def by (metis (mono_tags) mem_Collect_eq subsetD)
      then show ?thesis using None by (simp add: map_add_def)
    qed (simp add: map_add_def)
  qed
  have um: "usage_map (usage_rows ?retried) = usage_map (usage_rows ?once)"
    using again(1) once(1) cr(1) absorb [OF sub] by simp
  have "totals_of (usage_rows ?retried) bid = totals_of (usage_rows ?once) bid"
    by (rule totals_of_facts [OF again(2) once(2) um])
  then have "map_option tokens_of (get_batch_row ?retried bid) = map_option tokens_of (get_batch_row ?once bid)"
    unfolding again(3) once(3) by simp
  with um show ?thesis ..
qed

theorem ingest_retry_converges_witness:
  "map_option tokens_of (get_batch_row (ingest_usage_records usage_loads (\<lambda>_. []) 1000 str_of_nat None ''b1'' ''out''
     (ingest_usage_records usage_loads (\<lambda>_. []) 900 str_of_nat (Some 1) ''b1'' ''out'' usage_db)) ''b1'') =
   map_option tokens_of (get_batch_row (ingest_usage_records usage_loads (\<lambda>_. []) 1000 str_of_nat None ''b1'' ''out'' usage_db) ''b1'')"
  using ingest_retry_converges [OF usage_db_ok(1-3)] by blast

section \<open>The retries of failing ingestions\<close>

text \<open>The turns of the sweep that follow each other: the time, the row ids and the place of a crash, for each batch, of
  each. How many tries a row still has, and in how many of the turns a batch is taken up.\<close>

type_synonym retry_turn = "seconds \<times> (string \<Rightarrow> nat \<Rightarrow> string) \<times> (string \<Rightarrow> nat option)"

definition retry_turn :: "loads \<Rightarrow> (json \<Rightarrow> string) \<Rightarrow> retry_turn \<Rightarrow> srv \<Rightarrow> srv" where
  "retry_turn loads repr = (\<lambda>(now, nid, crash) db. fst (sweep_pending_ingestions loads repr now nid crash db))"

definition retried :: "srv \<Rightarrow> string set" where
  "retried db = b_id ` set (take max_ingestions_per_sweep (pending_batches db))"

fun tries :: "loads \<Rightarrow> (json \<Rightarrow> string) \<Rightarrow> string \<Rightarrow> retry_turn list \<Rightarrow> srv \<Rightarrow> nat" where
  "tries loads repr i [] db = 0"
| "tries loads repr i (t # ts) db = (if i \<in> retried db then 1 else 0) + tries loads repr i ts (retry_turn loads repr t db)"

definition row_budget :: "batch \<Rightarrow> nat" where
  "row_budget b = (if b_status b = Completed \<and> b_ingest_pending b then nat (5 - or0 (b_ingest_attempts b)) else 0)"

definition retry_budget :: "srv \<Rightarrow> nat" where
  "retry_budget db = sum_list (map row_budget (batches db))"

text \<open>A change of the table of batches that takes a try from every batch of a set.\<close>

definition spends :: "string set \<Rightarrow> srv \<Rightarrow> srv \<Rightarrow> bool" where
  "spends S db db' \<longleftrightarrow> (\<exists>g. batches db' = map g (batches db) \<and> (\<forall>b. b_id (g b) = b_id b \<and>
     row_budget (g b) \<le> row_budget b - (if b_id b \<in> S then 1 else 0)))"

lemma spends_trans:
  assumes "spends S db db'" "spends T db' db''"
  shows "spends (S \<union> T) db db''"
proof -
  obtain g where g: "batches db' = map g (batches db)"
    "\<And>b. b_id (g b) = b_id b" "\<And>b. row_budget (g b) \<le> row_budget b - (if b_id b \<in> S then 1 else 0)"
    using assms(1) by (auto simp: spends_def)
  obtain h where h: "batches db'' = map h (batches db')"
    "\<And>b. b_id (h b) = b_id b" "\<And>b. row_budget (h b) \<le> row_budget b - (if b_id b \<in> T then 1 else 0)"
    using assms(2) by (auto simp: spends_def)
  have "row_budget (h (g b)) \<le> row_budget b - (if b_id b \<in> S \<union> T then 1 else 0)" for b
    using g(3) [of b] h(3) [of "g b"] g(2) [of b] by (auto split: if_splits)
  then show ?thesis unfolding spends_def using g h by (intro exI [of _ "h \<circ> g"]) simp
qed

lemma spends_none: "batches db' = batches db \<Longrightarrow> spends {} db db'"
  unfolding spends_def by (rule exI [of _ id]) simp

lemma spends_upd:
  assumes "\<And>b. b_id (f b) = b_id b" "\<And>b. row_budget (f b) \<le> row_budget b - n" "S \<subseteq> (if n = 0 then {} else {i})"
  shows "spends S db (upd_batch i f db)"
  unfolding spends_def
proof (intro exI conjI allI)
  show "batches (upd_batch i f db) = map (\<lambda>b. if b_id b = i then f b else b) (batches db)"
    by (simp add: upd_batch_def tbl_upd_def)
  fix b
  show "b_id (if b_id b = i then f b else b) = b_id b" using assms(1) by simp
  show "row_budget (if b_id b = i then f b else b) \<le> row_budget b - (if b_id b \<in> S then 1 else 0)"
    using assms(2) [of b] assms(3) by (auto split: if_splits)
qed

lemma spends_done: "spends {i} db (mark_ingestion_done i db)"
  unfolding mark_ingestion_done_def by (rule spends_upd [of _ 1]) (auto simp: row_budget_def)

lemma spends_failed: "spends {i} db (record_failed_attempt i db)"
  unfolding record_failed_attempt_def by (rule spends_upd [of _ 1]) (auto simp: row_budget_def)

lemma spends_writes: "spends {} db (write_rollups i (write_chunks cs db))" "spends {} db (write_chunks cs db)"
proof -
  show c: "spends {} db (write_chunks cs db)" for db by (rule spends_none) (simp add: write_chunks_def)
  have "spends {} db (write_rollups i db)" for db
    unfolding write_rollups_def Let_def by (auto intro: spends_none spends_upd [of _ 0] simp: row_budget_def)
  then show "spends {} db (write_rollups i (write_chunks cs db))" using spends_trans [OF c] by fastforce
qed

lemma spends_ingest:
  assumes "get_batch_row db i \<noteq> None"
  shows "spends {i} db (ingest_usage_records loads repr now nid crash i path db)"
  using assms spends_trans [OF spends_writes(2) spends_failed] spends_trans [OF spends_writes(1) spends_done]
  by (auto simp: ingest_usage_records_def Let_def spends_done split: option.split)

lemma spends_ids: "spends S db db' \<Longrightarrow> map b_id (batches db') = map b_id (batches db)"
  by (auto simp: spends_def)

lemma row_exists: "get_batch_row db i \<noteq> None \<longleftrightarrow> i \<in> set (map b_id (batches db))"
  by (auto simp: tbl_get_None)

lemma spends_retry:
  assumes "b_id ` set bs \<subseteq> b_id ` set (batches db)"
  shows "spends (b_id ` set bs) db (fst (retry_ingestions loads repr now nid crash bs db))"
  using assms
proof (induction bs arbitrary: db)
  case (Cons b bs)
  define db1 where "db1 = (case find (\<lambda>f. Some (f_id f) = b_output_file_id b) (files db) of
      None \<Rightarrow> mark_ingestion_done (b_id b) db
    | Some f \<Rightarrow> ingest_usage_records loads repr now (nid (b_id b)) (crash (b_id b)) (b_id b) (f_filepath f) db)"
  have row: "get_batch_row db (b_id b) \<noteq> None" using Cons.prems by (auto simp: tbl_get_None)
  have one: "spends {b_id b} db db1"
    using row by (auto simp: db1_def spends_done intro: spends_ingest split: option.split)
  have "b_id ` set bs \<subseteq> set (map b_id (batches db1))" using Cons.prems spends_ids [OF one] by simp
  then have "spends (b_id ` set bs) db1 (fst (retry_ingestions loads repr now nid crash bs db1))"
    by (intro Cons.IH) simp
  from spends_trans [OF one this] show ?case by (auto simp: db1_def split_beta split: option.split)
qed (simp add: spends_none)

lemma spends_turn: "spends (retried db) db (retry_turn loads repr t db)"
proof -
  have "retried db \<subseteq> b_id ` set (batches db)"
    by (auto simp: retried_def pending_batches_def dest!: in_set_takeD)
  then show ?thesis
    by (auto simp: retry_turn_def sweep_pending_ingestions_def retried_def split: prod.split intro!: spends_retry)
qed

lemma retried_budget:
  assumes "distinct (map b_id (batches db))" "b \<in> set (batches db)" "b_id b \<in> retried db"
  shows "0 < row_budget b"
proof -
  obtain b' where b': "b' \<in> set (pending_batches db)" "b_id b' = b_id b" using assms(3) by (auto simp: retried_def dest!: in_set_takeD)
  then have "b' \<in> set (batches db)" by (simp add: pending_batches_def)
  then have "b' = b" using assms(1,2) b'(2) by (auto simp: distinct_map dest: inj_onD)
  then show ?thesis using b'(1) by (auto simp: pending_batches_def row_budget_def max_usage_ingestion_attempts_def)
qed

lemma tries_budget:
  "distinct (map b_id (batches db)) \<Longrightarrow> b \<in> set (batches db) \<Longrightarrow> tries loads repr (b_id b) ts db \<le> row_budget b"
proof (induction ts arbitrary: db b)
  case (Cons t ts)
  let ?db = "retry_turn loads repr t db"
  obtain g where g: "batches ?db = map g (batches db)" "b_id (g b) = b_id b"
    "row_budget (g b) \<le> row_budget b - (if b_id b \<in> retried db then 1 else 0)"
    using spends_turn [of db loads repr t] by (auto simp: spends_def)
  have "distinct (map b_id (batches ?db))" using Cons.prems(1) spends_ids [OF spends_turn] by simp
  moreover have "g b \<in> set (batches ?db)" using g(1) Cons.prems(2) by simp
  ultimately have "tries loads repr (b_id b) ts ?db \<le> row_budget (g b)" using Cons.IH [of ?db "g b"] g(2) by simp
  moreover have "b_id b \<in> retried db \<longrightarrow> 0 < row_budget b" using retried_budget [OF Cons.prems] by blast
  ultimately show ?case using g(3) by auto
qed simp

lemma budget_zero_rows: "retry_budget db = 0 \<longleftrightarrow> (\<forall>b \<in> set (batches db). row_budget b = 0)"
  by (auto simp: retry_budget_def sum_list_eq_0_iff)

lemma budget_zero: "retry_budget db = 0 \<longleftrightarrow> pending_batches db = []"
proof -
  have "set (pending_batches db) = {b \<in> set (batches db). row_budget b \<noteq> 0}"
    by (auto simp: pending_batches_def row_budget_def max_usage_ingestion_attempts_def)
  then have "pending_batches db = [] \<longleftrightarrow> {b \<in> set (batches db). row_budget b \<noteq> 0} = {}" by (metis set_empty)
  then show ?thesis by (auto simp: budget_zero_rows)
qed

lemma turn_budget:
  assumes "distinct (map b_id (batches db))"
  shows "retry_budget (retry_turn loads repr t db) \<le> retry_budget db - 1"
proof (cases "pending_batches db")
  case Nil
  then have z: "\<forall>b \<in> set (batches db). row_budget b = 0" using budget_zero budget_zero_rows by blast
  obtain g where g: "batches (retry_turn loads repr t db) = map g (batches db)"
    "\<And>b. row_budget (g b) \<le> row_budget b - (if b_id b \<in> retried db then 1 else 0)"
    using spends_turn [of db loads repr t] by (auto simp: spends_def)
  have "row_budget (g b) = 0" if "b \<in> set (batches db)" for b using g(2) [of b] z that by simp
  then have "retry_budget (retry_turn loads repr t db) = 0" unfolding budget_zero_rows g(1) by simp
  then show ?thesis by simp
next
  case (Cons p ps)
  have "p \<in> set (pending_batches db)" using Cons by simp
  then have p: "p \<in> set (batches db)" "b_id p \<in> retried db"
    using Cons by (auto simp: pending_batches_def retried_def max_ingestions_per_sweep_def)
  obtain g where g: "batches (retry_turn loads repr t db) = map g (batches db)"
    "\<And>b. row_budget (g b) \<le> row_budget b - (if b_id b \<in> retried db then 1 else 0)"
    using spends_turn [of db loads repr t] by (auto simp: spends_def)
  obtain xs ys where split: "batches db = xs @ p # ys" using split_list [OF p(1)] by blast
  have le: "sum_list (map (\<lambda>b. row_budget (g b)) bs) \<le> sum_list (map row_budget bs)" for bs
    using g(2) by (intro sum_list_mono) (meson diff_le_self le_trans)
  have "row_budget (g p) < row_budget p" using g(2) [of p] p(2) retried_budget [OF assms p] by simp
  then show ?thesis using le [of xs] le [of ys] by (simp add: retry_budget_def g(1) split comp_def)
qed

lemma turns_settle:
  "distinct (map b_id (batches db)) \<Longrightarrow> retry_budget db \<le> length ts \<Longrightarrow> pending_batches (fold (retry_turn loads repr) ts db) = []"
proof (induction ts arbitrary: db)
  case (Cons t ts)
  have "distinct (map b_id (batches (retry_turn loads repr t db)))" using Cons.prems(1) spends_ids [OF spends_turn] by simp
  moreover have "retry_budget (retry_turn loads repr t db) \<le> length ts"
    using turn_budget [OF Cons.prems(1), of loads repr t] Cons.prems(2) by simp
  ultimately show ?case using Cons.IH by simp
qed (simp add: budget_zero)


text \<open>An ingestion that has failed three times and fails for ever: it is tried twice more in any number of turns.\<close>

definition failing_db :: srv where
  "failing_db = usage_db\<lparr>batches := [(sample_batch Completed)\<lparr>b_ingest_pending := True, b_ingest_attempts := Some 3\<rparr>]\<rparr>"

definition failing_turn :: retry_turn where
  "failing_turn = (1000, \<lambda>_. str_of_nat, \<lambda>_. Some 0)"


end
