(* ===== verification/Daemon_Worker.thy ===== *)
theory Daemon_Worker
  imports Batch_Validator "HOL-Library.Multiset"
begin

text \<open>
  The daemon's job execution: \<open>daemon/daemon/worker.py\<close>, the rows of
  \<open>daemon/daemon/models.py\<close> and \<open>daemon/daemon/model_manager.py\<close>. The executors are
  parameters: what a runtime lists, whether it answers its health check, and what it returns
  for a unit of work. The pool of concurrent prompt workers is a step relation over the
  queue, the units being executed and the results recorded so far.
\<close>

section \<open>Rows\<close>

record prompt =
  pq_id :: string
  pq_method :: string
  pq_url :: string
  pq_body :: jdict

record completion =
  cr_id :: string
  cr_response :: "jdict option"
  cr_error :: "string option"

definition is_success :: "completion \<Rightarrow> bool" where
  "is_success r \<longleftrightarrow> cr_error r = None \<and> cr_response r \<noteq> None"

definition result_usage :: "completion \<Rightarrow> json" where
  "result_usage r = (case cr_response r of
       None \<Rightarrow> JObj []
     | Some d \<Rightarrow> if d \<noteq> [] \<and> jtruthy (jget ''usage'' d) then jget ''usage'' d else JObj [])"

definition error_row :: "string \<Rightarrow> string \<Rightarrow> completion" where
  "error_row cid err = \<lparr>cr_id = cid, cr_response = None, cr_error = Some err\<rparr>"

record djob =
  dj_id :: string
  dj_model :: string
  dj_max_tokens :: int
  dj_temperature :: rat

section \<open>Parsing the input\<close>

text \<open>\<open>PromptRequest(**raw)\<close>: a field that is present must have its type.\<close>

definition str_field :: "string \<Rightarrow> string \<Rightarrow> jdict \<Rightarrow> string option" where
  "str_field k dflt d = (case map_of d k of None \<Rightarrow> Some dflt | Some v \<Rightarrow> jstr v)"

definition prompt_of :: "json \<Rightarrow> prompt option" where
  "prompt_of raw = (case raw of
       JObj d \<Rightarrow>
         (case (Option.bind (map_of d ''custom_id'') jstr, str_field ''method'' ''POST'' d,
                str_field ''url'' ''/v1/chat/completions'' d,
                (case map_of d ''body'' of None \<Rightarrow> Some [] | Some v \<Rightarrow> jdict_of v)) of
            (Some cid, Some m, Some u, Some b) \<Rightarrow>
              Some \<lparr>pq_id = cid, pq_method = m, pq_url = u, pq_body = b\<rparr>
          | _ \<Rightarrow> None)
     | _ \<Rightarrow> None)"

definition embeddings_url :: string where "embeddings_url = ''/v1/embeddings''"

definition apply_job_defaults :: "djob \<Rightarrow> prompt \<Rightarrow> prompt" where
  "apply_job_defaults j p =
     (let b1 = (if pq_url p \<noteq> embeddings_url
                then dict_setdefault ''temperature'' (JFloat (dj_temperature j))
                       (dict_setdefault ''max_tokens'' (JInt (dj_max_tokens j)) (pq_body p))
                else pq_body p);
          b2 = (if dj_model j \<noteq> [] then dict_set ''model'' (JStr (dj_model j)) b1 else b1)
      in p\<lparr>pq_body := b2\<rparr>)"

definition parse_prompt_line :: "loads \<Rightarrow> djob \<Rightarrow> string \<Rightarrow> prompt option" where
  "parse_prompt_line loads j line =
     (if strip line = [] then None
      else (case loads (strip line) of
          Loaded v \<Rightarrow> map_option (apply_job_defaults j) (prompt_of v)
        | _ \<Rightarrow> None))"

definition parse_input :: "loads \<Rightarrow> djob \<Rightarrow> string list \<Rightarrow> prompt list" where
  "parse_input loads j content = List.map_filter (parse_prompt_line loads j) content"

section \<open>Partition into units\<close>

type_synonym unit_of_work = "(nat \<times> prompt) list"

record partitioned =
  pa_seen :: "string list"
  pa_rows :: "(nat \<times> completion) list"
  pa_chat :: "unit_of_work list"
  pa_embed :: unit_of_work

definition duplicate_error :: "string \<Rightarrow> string" where
  "duplicate_error cid = ''DUPLICATE_CUSTOM_ID: custom_id '' @ cid @ '' appears more than once in the input''"

definition stream_error :: string where
  "stream_error = ''UNSUPPORTED_PARAMETER: stream=true is not supported in batch mode.''"

definition partition_step :: "nat \<times> prompt \<Rightarrow> partitioned \<Rightarrow> partitioned" where
  "partition_step row st = (case row of (i, p) \<Rightarrow>
     (if pq_id p \<in> set (pa_seen st) then
        st\<lparr>pa_rows := pa_rows st @ [(i, error_row (pq_id p) (duplicate_error (pq_id p)))]\<rparr>
      else let st1 = st\<lparr>pa_seen := pq_id p # pa_seen st\<rparr> in
        if jtruthy (jget ''stream'' (pq_body p)) then
          st1\<lparr>pa_rows := pa_rows st1 @ [(i, error_row (pq_id p) stream_error)]\<rparr>
        else if pq_url p = embeddings_url then st1\<lparr>pa_embed := pa_embed st1 @ [(i, p)]\<rparr>
        else st1\<lparr>pa_chat := pa_chat st1 @ [[(i, p)]]\<rparr>))"

definition partition_prompts :: "prompt list \<Rightarrow> partitioned" where
  "partition_prompts ps = fold partition_step (enumerate 0 ps)
     \<lparr>pa_seen = [], pa_rows = [], pa_chat = [], pa_embed = []\<rparr>"

function chunk_by :: "nat \<Rightarrow> 'a list \<Rightarrow> 'a list list" where
  "chunk_by n xs = (if xs = [] \<or> n = 0 then [] else take n xs # chunk_by n (drop n xs))"
  by pat_completeness auto
termination by (relation "measure (length \<circ> snd)") auto

declare chunk_by.simps [simp del]

text \<open>The executor's \<open>embedding_chunk_size\<close> (None when it is no integer) and its predicate for
  rows that may share a request (None when it has none; a predicate that raises, None, means
  the row runs alone).\<close>

definition effective_chunk :: "int option \<Rightarrow> nat" where
  "effective_chunk declared = (case declared of None \<Rightarrow> 1 | Some n \<Rightarrow> if n < 1 then 1 else nat n)"

definition split_coalescable :: "nat \<Rightarrow> (prompt \<Rightarrow> bool option) option \<Rightarrow> unit_of_work \<Rightarrow>
    unit_of_work \<times> unit_of_work" where
  "split_coalescable n can rows = (case can of
       Some f \<Rightarrow> if n > 1 then (filter (\<lambda>r. f (snd r) = Some True) rows, filter (\<lambda>r. f (snd r) \<noteq> Some True) rows)
                 else ([], rows)
     | None \<Rightarrow> ([], rows))"

definition work_units :: "int option \<Rightarrow> (prompt \<Rightarrow> bool option) option \<Rightarrow> partitioned \<Rightarrow> unit_of_work list" where
  "work_units declared can pa =
     (let n = effective_chunk declared; (co, solo) = split_coalescable n can (pa_embed pa)
      in pa_chat pa @ chunk_by n co @ map (\<lambda>row. [row]) solo)"

section \<open>The pool\<close>

datatype outcome = Crashed string | Returned "completion list"

definition no_result_error :: string where
  "no_result_error = ''INTERNAL_ERROR: executor returned no result for this prompt''"

definition run_unit :: "outcome \<Rightarrow> unit_of_work \<Rightarrow> (nat \<times> completion) list" where
  "run_unit res u = (case res of
       Crashed e \<Rightarrow> map (\<lambda>(i, p). (i, error_row (pq_id p) (''INTERNAL_ERROR: '' @ e))) u
     | Returned rs \<Rightarrow> (case u of
         [(i, p)] \<Rightarrow> (case rs of
             r # _ \<Rightarrow> [(i, r)]
           | [] \<Rightarrow> [(i, error_row (pq_id p) no_result_error)])
       | _ \<Rightarrow> map (\<lambda>(i, p). (i, (case find (\<lambda>r. cr_id r = pq_id p) (rev rs) of
             Some r \<Rightarrow> r | None \<Rightarrow> error_row (pq_id p) no_result_error))) u))"

record pool =
  po_queue :: "unit_of_work list"
  po_held :: "unit_of_work list"
  po_rows :: "nat \<rightharpoonup> completion"
  po_completed :: nat
  po_failed :: nat
  po_running :: bool

definition record_row :: "nat \<times> completion \<Rightarrow> pool \<Rightarrow> pool" where
  "record_row row st = (case row of (i, r) \<Rightarrow>
     (let st1 = st\<lparr>po_rows := (po_rows st)(i \<mapsto> r)\<rparr> in
      if is_success r then st1\<lparr>po_completed := po_completed st1 + 1\<rparr>
      else st1\<lparr>po_failed := po_failed st1 + 1\<rparr>))"

definition start_pool :: "int option \<Rightarrow> (prompt \<Rightarrow> bool option) option \<Rightarrow> bool \<Rightarrow> prompt list \<Rightarrow> pool" where
  "start_pool declared can running ps =
     (let pa = partition_prompts ps in
      \<lparr>po_queue = work_units declared can pa, po_held = [], po_rows = map_of (pa_rows pa),
       po_completed = 0, po_failed = length (pa_rows pa), po_running = running\<rparr>)"

text \<open>One step of some pool worker, or the shutdown signal. \<open>res\<close> is what the executor answers
  for a unit; a worker may also die with the unit it holds, before or while it records its rows (a usage that is no
  dictionary raises right after its row was recorded and counted).\<close>

inductive pool_step :: "(unit_of_work \<Rightarrow> outcome) \<Rightarrow> pool \<Rightarrow> pool \<Rightarrow> bool" for res where
  Take: "po_running st \<Longrightarrow> po_queue st = u # q \<Longrightarrow>
     pool_step res st (st\<lparr>po_queue := q, po_held := u # po_held st\<rparr>)"
| Finish: "u \<in> set (po_held st) \<Longrightarrow>
     pool_step res st (fold record_row (run_unit (res u) u) (st\<lparr>po_held := remove1 u (po_held st)\<rparr>))"
| Die: "u \<in> set (po_held st) \<Longrightarrow>
     pool_step res st (fold record_row (take k (run_unit (res u) u)) (st\<lparr>po_held := remove1 u (po_held st)\<rparr>))"
| Shutdown: "pool_step res st (st\<lparr>po_running := False\<rparr>)"

definition unrun_error :: "bool \<Rightarrow> string" where
  "unrun_error running = (if running
     then ''INTERNAL_ERROR: prompt not executed - pool worker stopped early''
     else ''worker_shutdown:prompt not executed before daemon stopped'')"

text \<open>What \<open>_run_prompts\<close> returns and reports when the pool has ended in \<open>st\<close>: one row per
  prompt, the completed and the failed count.\<close>

definition final_rows :: "prompt list \<Rightarrow> pool \<Rightarrow> completion list" where
  "final_rows ps st = map (\<lambda>(i, p). case po_rows st i of
     Some r \<Rightarrow> r | None \<Rightarrow> error_row (pq_id p) (unrun_error (po_running st))) (enumerate 0 ps)"

definition final_counts :: "prompt list \<Rightarrow> pool \<Rightarrow> nat \<times> nat" where
  "final_counts ps st = (po_completed st,
     po_failed st + length (filter (\<lambda>(i, p). po_rows st i = None) (enumerate 0 ps)))"

section \<open>Routing\<close>

type_synonym listing = "string \<times> string list option"   \<comment> \<open>runtime, its models unless the query failed\<close>

fun claim_models :: "string \<Rightarrow> string list \<Rightarrow> (string \<times> string) list \<Rightarrow> (string \<times> string) list" where
  "claim_models name [] mapping = mapping"
| "claim_models name (m # ms) mapping =
     (case map_of mapping m of
        Some owner \<Rightarrow> if owner \<noteq> [] \<and> owner \<noteq> name then claim_models name ms mapping
                      else claim_models name ms (dict_set m name mapping)
      | None \<Rightarrow> claim_models name ms (dict_set m name mapping))"

fun live_claims :: "listing list \<Rightarrow> (string \<times> string) list \<Rightarrow> (string \<times> string) list" where
  "live_claims [] mapping = mapping"
| "live_claims ((name, Some ms) # ls) mapping = live_claims ls (claim_models name ms mapping)"
| "live_claims ((name, None) # ls) mapping = live_claims ls mapping"

definition carried :: "listing list \<Rightarrow> (string \<times> string) list \<Rightarrow> (string \<times> string) list" where
  "carried ls old = [(m, name). (name, ms) \<leftarrow> ls, ms = None, (m, owner) \<leftarrow> old, owner = name]"

definition refresh_model_map :: "listing list \<Rightarrow> (string \<times> string) list \<Rightarrow> (string \<times> string) list" where
  "refresh_model_map ls old =
     fold (\<lambda>(m, name). dict_setdefault m name) (carried ls old) (live_claims ls [])"

text \<open>\<open>_executor_for\<close>: the runtime that serves the model, and the map after a possible refresh.\<close>

definition executor_for :: "listing list \<Rightarrow> string \<Rightarrow> (string \<times> string) list \<Rightarrow>
    string option \<times> (string \<times> string) list" where
  "executor_for ls model old =
     (case ls of
        [(name, _)] \<Rightarrow> (Some name, old)
      | _ \<Rightarrow>
        if model = [] then (None, old)
        else (case map_of old model of
            Some r \<Rightarrow>
              if r \<noteq> [] \<and> r \<in> set (map fst ls) then (Some r, old)
              else let new = refresh_model_map ls old in
                ((case map_of new model of Some r \<Rightarrow> if r \<in> set (map fst ls) then Some r else None | None \<Rightarrow> None), new)
          | None \<Rightarrow> let new = refresh_model_map ls old in
                ((case map_of new model of Some r \<Rightarrow> if r \<in> set (map fst ls) then Some r else None | None \<Rightarrow> None), new)))"

text \<open>\<open>ModelManager.ensure_model\<close>: the cached names, the runtime's listing before and after a
  pull, and whether the pull claims success.\<close>

definition ensure_model :: "string \<Rightarrow> string list \<Rightarrow> string list \<Rightarrow> bool \<Rightarrow> string list \<Rightarrow> bool \<times> string list" where
  "ensure_model name cache listed pulled relisted =
     (if name \<in> set cache then (True, cache)
      else if name \<in> set listed then (True, listed)
      else if \<not> pulled then (False, listed)
      else (name \<in> set relisted, relisted))"

section \<open>Liveness and the heartbeat's view\<close>

text \<open>\<open>_get_runtime_statuses\<close>: the statuses reported, and the state: what was live, the map.\<close>

definition get_runtime_statuses :: "(string \<times> bool) list \<Rightarrow> listing list \<Rightarrow>
    (string \<times> bool) list \<times> (string \<times> string) list \<Rightarrow>
    (string \<times> string) list \<times> (string \<times> bool) list \<times> (string \<times> string) list" where
  "get_runtime_statuses live ls st = (case st of (was, routes) \<Rightarrow>
     (map (\<lambda>(name, ok). (name, if ok then ''ready'' else ''unavailable'')) live,
      if set live = set was then st else (live, refresh_model_map ls routes)))"

definition get_loaded_models :: "string list list \<Rightarrow> string list" where
  "get_loaded_models running = fromkeys (concat running)"

section \<open>The life of a job\<close>

text \<open>What happens around a job, step by step: whether its directory can be made, the runtime routed to, the one found
  by pulling (None: a pull raised), the runtimes with a fetch path, whether the model is ensured (None: asking raised),
  the input when the download succeeds, the rows when neither the execution nor writing them raises, and whether the
  upload succeeds.\<close>

record job_env =
  je_dir :: bool
  je_routed :: "string option"
  je_pulled :: "string option option"
  je_managers :: "string list"
  je_ensured :: "bool option"
  je_input :: "string list option"
  je_run :: "prompt list \<Rightarrow> completion list option"
  je_upload :: bool

datatype job_end = Uploaded "completion list" | Reported string | Raised

text \<open>What the daemon reports of a job it cannot run.\<close>

definition unserved_model :: "string \<Rightarrow> string" where
  "unserved_model model = ''No runtime on this worker hosts model '' @ CHR 0x27 # model @ [CHR 0x27]"

definition pull_failed :: "string \<Rightarrow> string" where
  "pull_failed model = ''Failed to download model: '' @ model"

definition empty_input :: string where
  "empty_input = ''Input file is empty '' @ em_dash @ '' no prompts to process''"

text \<open>The sum of the rows' \<open>total_tokens\<close> that is logged after the upload: it raises when a usage is no dictionary, or
  its \<open>total_tokens\<close> is there and no number.\<close>

definition tokens_summed :: "completion list \<Rightarrow> bool" where
  "tokens_summed rows = list_all (\<lambda>r. case result_usage r of
       JObj u \<Rightarrow> (case map_of u ''total_tokens'' of
           None \<Rightarrow> True
         | Some v \<Rightarrow> (case v of JInt _ \<Rightarrow> True | JFloat _ \<Rightarrow> True | JBool _ \<Rightarrow> True | _ \<Rightarrow> False))
     | _ \<Rightarrow> False) rows"

text \<open>The activity the heartbeats report afterwards and how the job ended. \<open>act\<close> is the activity
  before; every \<open>update_status\<close> call of the code is one here. After the upload only the sum can still raise: then the
  rows are uploaded, but the activity is left as it was.\<close>

definition run_job :: "loads \<Rightarrow> djob \<Rightarrow> job_env \<Rightarrow> activity \<times> job_end" where
  "run_job loads j env = (case je_input env of
       None \<Rightarrow> (Busy, Raised)
     | Some content \<Rightarrow>
         let ps = parse_input loads j content in
         if ps = [] then (Busy, Reported empty_input)
         else (case je_run env ps of
             None \<Rightarrow> (Busy, Raised)
           | Some rows \<Rightarrow> if \<not> je_upload env then (Busy, Raised)
               else (if tokens_summed rows then Idle else Busy, Uploaded rows)))"

text \<open>Steps 0 and 0b: the runtime the job is for, found by pulling the model where no runtime routes it, and
  the model ensured there. None: the job goes on; else how it ended already.\<close>

definition routed_to :: "djob \<Rightarrow> job_env \<Rightarrow> activity \<Rightarrow> (activity \<times> string option) option" where
  "routed_to j env act =
     (if dj_model j = [] \<or> je_routed env \<noteq> None \<or> je_managers env = [] then Some (act, je_routed env)
      else (case je_pulled env of
          None \<Rightarrow> None
        | Some None \<Rightarrow> Some (Idle, None)
        | Some (Some r) \<Rightarrow> Some (DownloadingModel, Some r)))"

definition job_gate :: "djob \<Rightarrow> job_env \<Rightarrow> activity \<Rightarrow> (activity \<times> job_end) option" where
  "job_gate j env act = (if \<not> je_dir env then Some (act, Raised) else case routed_to j env act of
       None \<Rightarrow> Some (DownloadingModel, Raised)
     | Some (act1, routed) \<Rightarrow>
         if dj_model j = [] then None
         else (case routed of
             None \<Rightarrow> Some (act1, Reported (unserved_model (dj_model j)))
           | Some r \<Rightarrow>
               if r \<notin> set (je_managers env) then None
               else (case je_ensured env of
                   None \<Rightarrow> Some (DownloadingModel, Raised)
                 | Some ok \<Rightarrow> if ok then None
                     else Some (Idle, Reported (pull_failed (dj_model j))))))"

definition execute_job :: "loads \<Rightarrow> djob \<Rightarrow> job_env \<Rightarrow> activity \<Rightarrow> activity \<times> job_end" where
  "execute_job loads j env act = (case job_gate j env act of
       None \<Rightarrow> run_job loads j env
     | Some early \<Rightarrow> early)"

section \<open>Lemmas\<close>

lemma dict_of_setdefault_fold:
  "map_of (fold (\<lambda>(m, name). dict_setdefault m name) xs d) k =
    (case map_of d k of Some v \<Rightarrow> Some v | None \<Rightarrow> map_of xs k)"
  by (induction xs arbitrary: d) (auto simp: map_of_dict_setdefault split: option.splits if_splits)

lemma claim_models_map:
  assumes "name \<noteq> []" "[] \<notin> ran (map_of d)"
  shows "map_of (claim_models name ms d) k =
      (case map_of d k of Some v \<Rightarrow> Some v | None \<Rightarrow> if k \<in> set ms then Some name else None) \<and>
    [] \<notin> ran (map_of (claim_models name ms d))"
  using assms(2)
proof (induction ms arbitrary: d)
  case (Cons m ms)
  have set_ok: "[] \<notin> ran (map_of (dict_set m name d))"
    using Cons.prems assms(1) by (auto simp: ran_def split: if_splits)
  show ?case
  proof (cases "map_of d m")
    case None
    then show ?thesis using Cons.IH [OF set_ok] by (auto split: option.splits)
  next
    case (Some v)
    then have "v \<noteq> []" using Cons.prems by (auto simp: ran_def)
    then show ?thesis
      using Some Cons.IH [OF set_ok] Cons.IH [OF Cons.prems] by (auto split: option.splits)
  qed
qed (auto split: option.splits)

lemma live_claims_map:
  assumes "[] \<notin> set (map fst ls)" "[] \<notin> ran (map_of d)"
  shows "map_of (live_claims ls d) k = (case map_of d k of Some v \<Rightarrow> Some v
    | None \<Rightarrow> map_option fst (find (\<lambda>(name, ms). case ms of None \<Rightarrow> False | Some xs \<Rightarrow> k \<in> set xs) ls))"
  using assms
proof (induction ls arbitrary: d)
  case (Cons l ls)
  obtain name ms where l: "l = (name, ms)" by fastforce
  show ?case
  proof (cases ms)
    case None
    have "[] \<notin> set (map fst ls)" using Cons.prems(1) by simp
    from Cons.IH [OF this Cons.prems(2)] show ?thesis by (simp add: l None split: option.split)
  next
    case (Some xs)
    have "name \<noteq> []" using Cons.prems(1) l by auto
    from claim_models_map [OF this Cons.prems(2)] have
      c: "\<And>k. map_of (claim_models name xs d) k = (case map_of d k of Some v \<Rightarrow> Some v
            | None \<Rightarrow> if k \<in> set xs then Some name else None)"
      and r: "[] \<notin> ran (map_of (claim_models name xs d))" by auto
    have "[] \<notin> set (map fst ls)" using Cons.prems(1) by simp
    from Cons.IH [OF this r] show ?thesis using Some l by (simp add: c split: option.split)
  qed
qed (simp split: option.split)

subsection \<open>Partition\<close>

definition part_ok :: "prompt list \<Rightarrow> nat \<Rightarrow> partitioned \<Rightarrow> bool" where
  "part_ok ps n pa \<longleftrightarrow>
     mset (map fst (pa_rows pa) @ map fst (concat (pa_chat pa)) @ map fst (pa_embed pa)) = mset [0..<n] \<and>
     (\<forall>(i, p) \<in> set (concat (pa_chat pa)) \<union> set (pa_embed pa). i < length ps \<and> p = ps ! i) \<and>
     (\<forall>(i, r) \<in> set (pa_rows pa). i < length ps \<and> cr_id r = pq_id (ps ! i) \<and> \<not> is_success r)"

lemma part_ok_step:
  assumes "part_ok ps n pa" "n < length ps"
  shows "part_ok ps (Suc n) (partition_step (n, ps ! n) pa)"
  using assms by (auto simp: part_ok_def partition_step_def Let_def error_row_def is_success_def)

lemma partition_prompts_ok: "part_ok ps (length ps) (partition_prompts ps)"
proof -
  have "n \<le> length ps \<Longrightarrow> part_ok ps n (fold partition_step (enumerate 0 (take n ps))
      \<lparr>pa_seen = [], pa_rows = [], pa_chat = [], pa_embed = []\<rparr>)" for n
  proof (induction n)
    case 0
    then show ?case by (simp add: part_ok_def)
  next
    case (Suc n)
    then have "enumerate 0 (take (Suc n) ps) = enumerate 0 (take n ps) @ [(n, ps ! n)]"
      by (simp add: take_Suc_conv_app_nth enumerate_append_eq)
    then show ?case using Suc part_ok_step by simp
  qed
  from this [of "length ps"] show ?thesis by (simp add: partition_prompts_def)
qed

lemma concat_chunk_by: "n > 0 \<Longrightarrow> concat (chunk_by n xs) = xs"
proof (induction n xs rule: chunk_by.induct)
  case (1 n xs)
  then show ?case by (subst chunk_by.simps) auto
qed

lemma effective_chunk_pos: "effective_chunk c > 0"
  by (auto simp: effective_chunk_def split: option.split)

lemma concat_work_units:
  "mset (concat (work_units declared can pa)) = mset (concat (pa_chat pa) @ pa_embed pa)"
proof -
  obtain co solo where s: "split_coalescable (effective_chunk declared) can (pa_embed pa) = (co, solo)"
    by fastforce
  then have "mset co + mset solo = mset (pa_embed pa)"
    by (auto simp: split_coalescable_def multiset_partition [symmetric] mset_filter
        split: option.splits if_splits)
  moreover have "concat (map (\<lambda>row. [row]) solo) = solo" by (induction solo) auto
  ultimately show ?thesis
    by (simp add: work_units_def s concat_chunk_by [OF effective_chunk_pos])
qed

subsection \<open>The pool\<close>

lemma run_unit_indices: "map fst (run_unit res u) = map fst u"
  by (auto simp: run_unit_def split: outcome.split list.split prod.split)

lemma run_unit_ids:
  assumes "\<And>i p r rs. u = [(i, p)] \<Longrightarrow> res = Returned (r # rs) \<Longrightarrow> cr_id r = pq_id p"
    "(i, r) \<in> set (run_unit res u)" "distinct (map fst u)"
  shows "\<exists>p. (i, p) \<in> set u \<and> cr_id r = pq_id p"
proof -
  have found: "cr_id (case find (\<lambda>r. cr_id r = pq_id p) (rev rs) of Some r \<Rightarrow> r
      | None \<Rightarrow> error_row (pq_id p) no_result_error) = pq_id p" for p rs
    by (auto simp: error_row_def split: option.split dest: find_SomeD)
  show ?thesis
  proof (cases res)
    case (Crashed e)
    then show ?thesis using assms(2) by (auto simp: run_unit_def error_row_def)
  next
    case (Returned rs)
    show ?thesis
    proof (cases "\<exists>j p. u = [(j, p)]")
      case True
      then obtain j p where u: "u = [(j, p)]" by auto
      with assms Returned show ?thesis
        by (cases rs) (auto simp: run_unit_def error_row_def)
    next
      case False
      then have "run_unit res u = map (\<lambda>(i, p). (i, (case find (\<lambda>r. cr_id r = pq_id p) (rev rs) of
             Some r \<Rightarrow> r | None \<Rightarrow> error_row (pq_id p) no_result_error))) u"
        using Returned by (auto simp: run_unit_def split: list.splits prod.splits)
      then show ?thesis using assms(2) found by auto
    qed
  qed
qed

definition succeeded :: "(nat \<rightharpoonup> completion) \<Rightarrow> nat set" where
  "succeeded rows = {i. \<exists>r. rows i = Some r \<and> is_success r}"

definition unsuccessful :: "(nat \<rightharpoonup> completion) \<Rightarrow> nat set" where
  "unsuccessful rows = {i. \<exists>r. rows i = Some r \<and> \<not> is_success r}"

definition counts_ok :: "nat \<Rightarrow> pool \<Rightarrow> bool" where
  "counts_ok n st \<longleftrightarrow> dom (po_rows st) \<subseteq> {..<n} \<and>
     po_completed st = card (succeeded (po_rows st)) \<and> po_failed st = card (unsuccessful (po_rows st))"

definition open_rows :: "pool \<Rightarrow> (nat \<times> prompt) list" where
  "open_rows st = concat (po_queue st @ po_held st)"

definition pool_inv :: "prompt list \<Rightarrow> pool \<Rightarrow> bool" where
  "pool_inv ps st \<longleftrightarrow> counts_ok (length ps) st \<and>
     distinct (map fst (open_rows st)) \<and> dom (po_rows st) \<inter> fst ` set (open_rows st) = {} \<and>
     (\<forall>(i, p) \<in> set (open_rows st). i < length ps \<and> p = ps ! i)"

lemma succeeded_upd: "i \<notin> dom rows \<Longrightarrow> succeeded (rows(i \<mapsto> r)) = (if is_success r then insert i (succeeded rows) else succeeded rows)"
  by (auto simp: succeeded_def dom_def)

lemma unsuccessful_upd: "i \<notin> dom rows \<Longrightarrow> unsuccessful (rows(i \<mapsto> r)) = (if is_success r then unsuccessful rows else insert i (unsuccessful rows))"
  by (auto simp: unsuccessful_def dom_def)

lemma rows_dom: "dom rows = succeeded rows \<union> unsuccessful rows" "succeeded rows \<inter> unsuccessful rows = {}"
  by (auto simp: succeeded_def unsuccessful_def)

lemma finite_rows: "dom rows \<subseteq> {..<n} \<Longrightarrow> finite (succeeded rows) \<and> finite (unsuccessful rows)"
  using finite_subset [of "dom rows" "{..<n}"] rows_dom(1) [of rows] by auto

lemma counts_record_row:
  assumes "counts_ok n st" "i \<notin> dom (po_rows st)" "i < n"
  shows "counts_ok n (record_row (i, r) st)"
proof -
  have fin: "finite (succeeded (po_rows st))" "finite (unsuccessful (po_rows st))"
    using assms(1) finite_rows by (auto simp: counts_ok_def)
  have new: "i \<notin> succeeded (po_rows st)" "i \<notin> unsuccessful (po_rows st)"
    using assms(2) rows_dom(1) [of "po_rows st"] by auto
  show ?thesis
    using assms fin new by (auto simp: counts_ok_def record_row_def Let_def succeeded_upd unsuccessful_upd)
qed

lemma record_row_frame [simp]:
  "po_rows (record_row (i, r) st) = (po_rows st)(i \<mapsto> r)"
  "po_queue (record_row x st) = po_queue st" "po_held (record_row x st) = po_held st"
  "po_running (record_row x st) = po_running st"
  by (cases x; simp add: record_row_def Let_def)+

lemma record_rows_frame [simp]:
  "po_queue (fold record_row xs st) = po_queue st" "po_held (fold record_row xs st) = po_held st"
  by (induction xs arbitrary: st) simp_all

lemma record_rows_map: "po_rows (fold record_row xs st) = po_rows st ++ map_of (rev xs)"
proof (induction xs arbitrary: st)
  case (Cons x xs)
  then show ?case by (cases x) (simp add: map_add_def fun_eq_iff split: option.split)
qed simp

lemma counts_record_rows:
  assumes "counts_ok n st" "distinct (map fst xs)" "dom (po_rows st) \<inter> fst ` set xs = {}" "\<forall>x \<in> set xs. fst x < n"
  shows "counts_ok n (fold record_row xs st)"
  using assms
proof (induction xs arbitrary: st)
  case (Cons x xs)
  obtain i r where x: "x = (i, r)" by fastforce
  have "counts_ok n (record_row (i, r) st)" using Cons.prems x by (intro counts_record_row) auto
  with Cons x show ?case by auto
qed simp

lemma part_open:
  "mset (open_rows (start_pool declared can running ps)) =
   mset (concat (pa_chat (partition_prompts ps)) @ pa_embed (partition_prompts ps))"
  using concat_work_units [of declared can "partition_prompts ps"]
  by (simp add: open_rows_def start_pool_def Let_def)

lemma pool_inv_start: "pool_inv ps (start_pool declared can running ps)"
proof -
  let ?pa = "partition_prompts ps" and ?st = "start_pool declared can running ps"
  have ok: "part_ok ps (length ps) ?pa" by (rule partition_prompts_ok)
  have open_set: "set (open_rows ?st) = set (concat (pa_chat ?pa)) \<union> set (pa_embed ?pa)"
    using arg_cong [OF part_open [of declared can running ps], of set_mset] by simp
  have open_fst: "mset (map fst (open_rows ?st)) = mset (map fst (concat (pa_chat ?pa) @ pa_embed ?pa))"
    using part_open [of declared can running ps] by (metis mset_map)
  have all: "mset (map fst (pa_rows ?pa) @ map fst (open_rows ?st)) = mset [0..<length ps]"
    using ok open_fst by (simp add: part_ok_def)
  then have dist: "distinct (map fst (pa_rows ?pa) @ map fst (open_rows ?st))"
    using mset_eq_imp_distinct_iff by (metis distinct_upt)
  have rows: "po_rows ?st = map_of (pa_rows ?pa)" by (simp add: start_pool_def Let_def)
  have in_rows: "i < length ps \<and> cr_id r = pq_id (ps ! i) \<and> \<not> is_success r" if "(i, r) \<in> set (pa_rows ?pa)" for i r
    using ok that by (auto simp: part_ok_def)
  have none: "succeeded (po_rows ?st) = {}"
    using in_rows by (auto simp: succeeded_def rows dest: map_of_SomeD)
  have bad: "unsuccessful (po_rows ?st) = fst ` set (pa_rows ?pa)"
    using rows_dom(1) [of "po_rows ?st"] none by (simp add: rows dom_map_of_conv_image_fst)
  have "card (fst ` set (pa_rows ?pa)) = length (pa_rows ?pa)"
    using dist distinct_card [of "map fst (pa_rows ?pa)"] by simp
  moreover have comp: "po_completed ?st = 0" "po_failed ?st = length (pa_rows ?pa)"
    by (simp_all add: start_pool_def Let_def)
  moreover have "dom (po_rows ?st) \<subseteq> {..<length ps}" using in_rows by (auto simp: rows dest: map_of_SomeD)
  ultimately have "counts_ok (length ps) ?st" by (simp add: counts_ok_def none bad)
  moreover have "dom (po_rows ?st) \<inter> fst ` set (open_rows ?st) = {}"
    using dist by (auto simp: rows dom_map_of_conv_image_fst)
  moreover have "\<forall>(i, p) \<in> set (open_rows ?st). i < length ps \<and> p = ps ! i"
    using ok unfolding open_set by (simp add: part_ok_def)
  ultimately show ?thesis using dist by (simp add: pool_inv_def)
qed

lemma pool_inv_drop:
  assumes "pool_inv ps st" "u \<in> set (po_held st)"
  shows "pool_inv ps (st\<lparr>po_held := remove1 u (po_held st)\<rparr>)"
    and "distinct (map fst u)" "dom (po_rows st) \<inter> fst ` set u = {}"
    "\<forall>(i, p) \<in> set u. i < length ps \<and> p = ps ! i"
    "fst ` set u \<inter> fst ` set (open_rows (st\<lparr>po_held := remove1 u (po_held st)\<rparr>)) = {}"
proof -
  let ?st' = "st\<lparr>po_held := remove1 u (po_held st)\<rparr>"
  have "mset (po_held st) = add_mset u (mset (remove1 u (po_held st)))" using assms(2) by simp
  then have "mset (concat (po_held st)) = mset u + mset (concat (remove1 u (po_held st)))"
    by (metis mset_concat sum_mset.insert image_mset_add_mset mset_map sum_mset_sum_list)
  then have m: "mset (open_rows st) = mset u + mset (open_rows ?st')" by (simp add: open_rows_def)
  then have s: "set (open_rows st) = set u \<union> set (open_rows ?st')"
    by (metis set_mset_mset set_mset_union)
  have "mset (map fst (open_rows st)) = mset (map fst u @ map fst (open_rows ?st'))" using m by simp
  then have d: "distinct (map fst u @ map fst (open_rows ?st'))"
    using assms(1) mset_eq_imp_distinct_iff unfolding pool_inv_def by blast
  from assms(1) show "pool_inv ps ?st'" using d s by (auto simp: pool_inv_def counts_ok_def)
  from d show "distinct (map fst u)" "fst ` set u \<inter> fst ` set (open_rows ?st') = {}" by auto
  from assms(1) s show "dom (po_rows st) \<inter> fst ` set u = {}" "\<forall>(i, p) \<in> set u. i < length ps \<and> p = ps ! i"
    by (auto simp: pool_inv_def)
qed

text \<open>Recording the first rows of a unit that a worker held, or all of them.\<close>

lemma pool_inv_record:
  assumes "pool_inv ps st" "u \<in> set (po_held st)"
  shows "pool_inv ps (fold record_row (take k (run_unit (res u) u)) (st\<lparr>po_held := remove1 u (po_held st)\<rparr>))"
proof -
  let ?st' = "st\<lparr>po_held := remove1 u (po_held st)\<rparr>"
  let ?xs = "take k (run_unit (res u) u)"
  note drop = pool_inv_drop [OF assms]
  have idx: "map fst ?xs = take k (map fst u)" by (simp add: run_unit_indices flip: take_map)
  then have fset: "fst ` set ?xs \<subseteq> fst ` set u" using set_take_subset [of k "map fst u"] by (metis set_map)
  have "counts_ok (length ps) (fold record_row ?xs ?st')"
  proof (rule counts_record_rows)
    show "counts_ok (length ps) ?st'" using drop(1) by (simp add: pool_inv_def)
    show "distinct (map fst ?xs)" using drop(2) idx by simp
    have "dom (po_rows ?st') \<inter> fst ` set u = {}" using drop(3) by simp
    then show "dom (po_rows ?st') \<inter> fst ` set ?xs = {}" using Int_mono [OF subset_refl fset] by (metis subset_empty)
    have "\<forall>i \<in> fst ` set u. i < length ps" using drop(4) by auto
    then show "\<forall>x \<in> set ?xs. fst x < length ps" using fset by (metis imageI subsetD)
  qed
  moreover have "open_rows (fold record_row ?xs ?st') = open_rows ?st'" by (simp add: open_rows_def)
  moreover have "dom (po_rows (fold record_row ?xs ?st')) = dom (po_rows st) \<union> fst ` set ?xs"
    by (simp add: record_rows_map dom_map_of_conv_image_fst Un_commute)
  moreover have "fst ` set ?xs \<inter> fst ` set (open_rows ?st') = {}"
    using Int_mono [OF fset subset_refl] drop(5) by (metis subset_empty)
  moreover have "distinct (map fst (open_rows ?st'))" "dom (po_rows st) \<inter> fst ` set (open_rows ?st') = {}"
    "\<forall>(i, p) \<in> set (open_rows ?st'). i < length ps \<and> p = ps ! i"
    using drop(1) by (simp_all add: pool_inv_def)
  ultimately show ?thesis unfolding pool_inv_def by (simp only: Int_Un_distrib2 Un_empty simp_thms)
qed

lemma pool_inv_step: "pool_step res st st' \<Longrightarrow> pool_inv ps st \<Longrightarrow> pool_inv ps st'"
proof (induction rule: pool_step.induct)
  case (Take st u q)
  then have "mset (open_rows (st\<lparr>po_queue := q, po_held := u # po_held st\<rparr>)) = mset (open_rows st)"
    by (simp add: open_rows_def)
  then have "set (open_rows (st\<lparr>po_queue := q, po_held := u # po_held st\<rparr>)) = set (open_rows st)"
    "distinct (map fst (open_rows (st\<lparr>po_queue := q, po_held := u # po_held st\<rparr>))) = distinct (map fst (open_rows st))"
    by (metis set_mset_mset, metis mset_map mset_eq_imp_distinct_iff)
  with Take show ?case by (simp add: pool_inv_def counts_ok_def)
next
  case (Finish u st)
  then show ?case using pool_inv_record [of ps st u "length (run_unit (res u) u)" res] by simp
next
  case (Die u st k)
  then show ?case by (blast intro: pool_inv_record)
next
  case (Shutdown st)
  then show ?case by (simp add: pool_inv_def counts_ok_def open_rows_def)
qed

lemma pool_inv_reach: "(pool_step res)\<^sup>*\<^sup>* st st' \<Longrightarrow> pool_inv ps st \<Longrightarrow> pool_inv ps st'"
  by (induction rule: rtranclp_induct) (auto intro: pool_inv_step)

lemma count_enumerate: "length (filter (\<lambda>(i, p). P i) (enumerate 0 ps)) = card {i. i < length ps \<and> P i}"
proof (induction ps rule: rev_induct)
  case (snoc p ps)
  have "{i. i < length (ps @ [p]) \<and> P i} =
      (if P (length ps) then insert (length ps) {i. i < length ps \<and> P i} else {i. i < length ps \<and> P i})"
    by (auto simp: less_Suc_eq)
  with snoc show ?case by (simp add: enumerate_append_eq)
qed simp

lemma final_length: "length (final_rows ps st) = length ps"
  by (simp add: final_rows_def)

lemma final_nth: "i < length ps \<Longrightarrow> final_rows ps st ! i = (case po_rows st i of
    Some r \<Rightarrow> r | None \<Rightarrow> error_row (pq_id (ps ! i)) (unrun_error (po_running st)))"
  by (simp add: final_rows_def nth_enumerate_eq)

lemma final_counts_ok:
  assumes "pool_inv ps st"
  shows "fst (final_counts ps st) = length (filter is_success (final_rows ps st))"
    "fst (final_counts ps st) + snd (final_counts ps st) = length ps"
proof -
  from assms have dom: "dom (po_rows st) \<subseteq> {..<length ps}"
    and c: "po_completed st = card (succeeded (po_rows st))" "po_failed st = card (unsuccessful (po_rows st))"
    by (auto simp: pool_inv_def counts_ok_def)
  have "length (filter is_success (final_rows ps st)) = card {i. i < length ps \<and> is_success (final_rows ps st ! i)}"
    by (simp add: length_filter_conv_card final_length)
  also have "{i. i < length ps \<and> is_success (final_rows ps st ! i)} = succeeded (po_rows st)"
    using dom by (auto simp: final_nth succeeded_def error_row_def is_success_def split: option.splits)
  finally show "fst (final_counts ps st) = length (filter is_success (final_rows ps st))"
    by (simp add: final_counts_def c)
  have "length (filter (\<lambda>(i, p). po_rows st i = None) (enumerate 0 ps)) = card ({..<length ps} - dom (po_rows st))"
    unfolding count_enumerate by (rule arg_cong [of _ _ card]) auto
  also have "\<dots> = length ps - card (dom (po_rows st))"
    using dom by (simp add: card_Diff_subset finite_subset)
  also have "card (dom (po_rows st)) = po_completed st + po_failed st"
    using finite_rows [OF dom] rows_dom [of "po_rows st"] by (simp add: card_Un_disjoint c)
  finally show "fst (final_counts ps st) + snd (final_counts ps st) = length ps"
    using card_mono [OF _ dom] \<open>card (dom (po_rows st)) = po_completed st + po_failed st\<close>
    by (simp add: final_counts_def)
qed

subsection \<open>Custom ids\<close>

text \<open>The contract of the executors that only one-row units need: the answer carries the id asked.\<close>

definition answers_own_id :: "(unit_of_work \<Rightarrow> outcome) \<Rightarrow> bool" where
  "answers_own_id res \<longleftrightarrow> (\<forall>i p r rs. res [(i, p)] = Returned (r # rs) \<longrightarrow> cr_id r = pq_id p)"

definition ids_match :: "prompt list \<Rightarrow> pool \<Rightarrow> bool" where
  "ids_match ps st \<longleftrightarrow> (\<forall>i r. po_rows st i = Some r \<longrightarrow> i < length ps \<and> cr_id r = pq_id (ps ! i))"

lemma ids_match_start: "ids_match ps (start_pool declared can running ps)"
  using partition_prompts_ok [of ps]
  by (auto simp: ids_match_def start_pool_def Let_def part_ok_def dest!: map_of_SomeD)

lemma ids_match_record:
  assumes "answers_own_id res" "pool_inv ps st" "ids_match ps st" "u \<in> set (po_held st)"
  shows "ids_match ps (fold record_row (take k (run_unit (res u) u)) (st\<lparr>po_held := remove1 u (po_held st)\<rparr>))"
proof -
  note drop = pool_inv_drop [OF assms(2,4)]
  have "i < length ps \<and> cr_id r = pq_id (ps ! i)" if run: "(i, r) \<in> set (take k (run_unit (res u) u))" for i r
  proof -
    have own: "cr_id x = pq_id p" if "u = [(j, p)]" "res u = Returned (x # xs)" for j p x xs
      using assms(1) that unfolding answers_own_id_def by blast
    have "\<exists>p. (i, p) \<in> set u \<and> cr_id r = pq_id p"
      by (rule run_unit_ids [where res = "res u"]) (use own in_set_takeD [OF run] drop(2) in blast)+
    then obtain p where "(i, p) \<in> set u" "cr_id r = pq_id p" by blast
    with drop(4) show ?thesis by auto
  qed
  moreover have "ids_match ps (st\<lparr>po_held := remove1 u (po_held st)\<rparr>)" using assms(3) by (simp add: ids_match_def)
  ultimately show ?thesis
    by (auto simp: ids_match_def record_rows_map map_add_def split: option.splits dest!: map_of_SomeD)
qed

lemma ids_match_step:
  assumes "pool_step res st st'" "answers_own_id res" "pool_inv ps st" "ids_match ps st"
  shows "ids_match ps st'"
  using assms(1,3,4)
proof (induction rule: pool_step.induct)
  case (Finish u st)
  then show ?case using ids_match_record [OF assms(2), of ps st u "length (run_unit (res u) u)"] by simp
next
  case (Die u st k)
  then show ?case by (intro ids_match_record [OF assms(2)])
qed (auto simp: ids_match_def)

lemma ids_match_reach:
  "(pool_step res)\<^sup>*\<^sup>* st st' \<Longrightarrow> answers_own_id res \<Longrightarrow> pool_inv ps st \<Longrightarrow> ids_match ps st \<Longrightarrow> ids_match ps st'"
proof (induction rule: rtranclp_induct)
  case (step y z)
  then show ?case using ids_match_step pool_inv_reach by blast
qed

lemma final_ids:
  assumes "(pool_step res)\<^sup>*\<^sup>* (start_pool declared can running ps) st" "answers_own_id res"
  shows "map cr_id (final_rows ps st) = map pq_id ps"
proof (rule nth_equalityI)
  show "length (map cr_id (final_rows ps st)) = length (map pq_id ps)" by (simp add: final_length)
  have m: "ids_match ps st"
    by (rule ids_match_reach [OF assms(1,2) pool_inv_start ids_match_start])
  fix i assume "i < length (map cr_id (final_rows ps st))"
  then have i: "i < length ps" by (simp add: final_length)
  then have "cr_id (final_rows ps st ! i) = pq_id (ps ! i)"
    using m by (auto simp: final_nth ids_match_def error_row_def split: option.split)
  then show "map cr_id (final_rows ps st) ! i = map pq_id ps ! i" using i by (simp add: final_length)
qed

lemma job_gate_cases:
  "job_gate j env act = Some (a, e) \<Longrightarrow> (\<exists>err. e = Reported err) \<or> (e = Raised \<and> a \<in> {act, DownloadingModel})"
  by (auto simp: job_gate_def split: option.splits if_splits)

lemma job_gate_frame [simp]:
  "job_gate j (env\<lparr>je_input := x\<rparr>) act = job_gate j env act" "job_gate j (env\<lparr>je_upload := u\<rparr>) act = job_gate j env act"
  by (simp_all add: job_gate_def routed_to_def split: option.split)

lemma run_job_ends:
  "run_job loads j env = (a, e) \<Longrightarrow> (a = Busy \<and> (e = Raised \<or> (\<exists>err. e = Reported err))) \<or>
   (je_upload env \<and> (\<exists>content rows. je_input env = Some content \<and> a = (if tokens_summed rows then Idle else Busy) \<and>
      je_run env (parse_input loads j content) = Some rows \<and> e = Uploaded rows))"
  by (auto simp: run_job_def Let_def split: option.splits if_splits)

lemma carried_lookup:
  assumes "distinct (map fst old)"
  shows "map_of (carried ls old) m = (case map_of old m of
      Some r \<Rightarrow> if (r, None) \<in> set ls then Some r else None | None \<Rightarrow> None)"
proof -
  have mem: "(m, r) \<in> set (carried ls old) \<longleftrightarrow> (m, r) \<in> set old \<and> (r, None) \<in> set ls" for r
    by (force simp: carried_def)
  show ?thesis
  proof (cases "map_of (carried ls old) m")
    case None
    then have "(m, r) \<notin> set (carried ls old)" for r by (force simp: map_of_eq_None_iff)
    with None mem map_of_SomeD [of old m] show ?thesis by (auto split: option.split)
  next
    case (Some r)
    then have "(m, r) \<in> set old" "(r, None) \<in> set ls" using mem by (auto dest: map_of_SomeD)
    moreover from this(1) have "map_of old m = Some r" using map_of_eq_Some_iff [OF assms] by blast
    ultimately show ?thesis using Some by simp
  qed
qed

section \<open>Properties\<close>

text \<open>C18: Whatever the interleaving of the concurrent prompt workers, the answers and crashes of the
  executor, workers that die and a shutdown at any point, a job yields exactly one output row
  per prompt, in input order, and reports exactly the numbers of rows that succeeded and that
  did not.\<close>

theorem one_row_per_prompt:
  assumes "(pool_step res)\<^sup>*\<^sup>* (start_pool declared can running ps) st"
  shows "length (final_rows ps st) = length ps \<and>
    final_counts ps st = (length (filter is_success (final_rows ps st)), length (filter (\<lambda>r. \<not> is_success r) (final_rows ps st)))"
proof -
  have inv: "pool_inv ps st" by (rule pool_inv_reach [OF assms pool_inv_start])
  have "length (filter is_success (final_rows ps st)) + length (filter (\<lambda>r. \<not> is_success r) (final_rows ps st)) = length ps"
    by (simp add: sum_length_filter_compl final_length)
  with final_counts_ok [OF inv] show ?thesis by (simp add: final_length prod_eq_iff)
qed

definition sample_prompt :: "string \<Rightarrow> prompt" where
  "sample_prompt cid = \<lparr>pq_id = cid, pq_method = ''POST'', pq_url = ''/v1/chat/completions'', pq_body = []\<rparr>"

definition echo_executor :: "unit_of_work \<Rightarrow> outcome" where
  "echo_executor u = Returned (map (\<lambda>(i, p). \<lparr>cr_id = pq_id p, cr_response = Some [], cr_error = None\<rparr>) u)"

abbreviation two_prompts :: "prompt list" where
  "two_prompts \<equiv> [sample_prompt ''a'', sample_prompt ''b'']"

definition one_taken :: pool where
  "one_taken = (let st = start_pool None None True two_prompts in
     st\<lparr>po_queue := tl (po_queue st), po_held := hd (po_queue st) # po_held st\<rparr>)"

definition one_done :: pool where
  "one_done = (let u = hd (po_held one_taken) in
     fold record_row (run_unit (echo_executor u) u) (one_taken\<lparr>po_held := remove1 u (po_held one_taken)\<rparr>))"

lemma one_done_reached: "(pool_step echo_executor)\<^sup>*\<^sup>* (start_pool None None True two_prompts) one_done"
proof -
  let ?st = "start_pool None None True two_prompts"
  have q: "po_running ?st" "po_queue ?st = hd (po_queue ?st) # tl (po_queue ?st)"
    by (simp_all add: start_pool_def partition_prompts_def partition_step_def work_units_def
        split_coalescable_def sample_prompt_def embeddings_url_def jget_def Let_def)
  have "pool_step echo_executor ?st one_taken" unfolding one_taken_def Let_def by (rule pool_step.Take [OF q])
  moreover have "hd (po_held one_taken) \<in> set (po_held one_taken)" by (simp add: one_taken_def Let_def)
  then have "pool_step echo_executor one_taken one_done" unfolding one_done_def Let_def by (rule pool_step.Finish)
  ultimately show ?thesis by (meson converse_rtranclp_into_rtranclp r_into_rtranclp)
qed

theorem one_row_per_prompt_witness:
  "length (final_rows two_prompts one_done) = 2 \<and> fst (final_counts two_prompts one_done) + snd (final_counts two_prompts one_done) = 2"
  using one_row_per_prompt [OF one_done_reached] sum_length_filter_compl [of is_success "final_rows two_prompts one_done"] by simp

text \<open>When the executor answers a single prompt under that prompt's id, every output row carries
  the custom id of the input row at its position, also when chunked answers come back in another
  order, incomplete or duplicated.\<close>

theorem output_ids_match:
  assumes "(pool_step res)\<^sup>*\<^sup>* (start_pool declared can running ps) st"
    "\<forall>i p r rs. res [(i, p)] = Returned (r # rs) \<longrightarrow> cr_id r = pq_id p"
  shows "map cr_id (final_rows ps st) = map pq_id ps"
  using final_ids [OF assms(1)] assms(2) by (simp add: answers_own_id_def)

theorem output_ids_match_witness: "map cr_id (final_rows two_prompts one_done) = [''a'', ''b'']"
proof -
  have "\<forall>i p r rs. echo_executor [(i, p)] = Returned (r # rs) \<longrightarrow> cr_id r = pq_id p"
    by (auto simp: echo_executor_def)
  from output_ids_match [OF one_done_reached this] show ?thesis by (simp add: sample_prompt_def)
qed

text \<open>Routing prefers what is live: after a refresh a model goes to the first runtime, in
  configuration order, that lists it now; only when none does, and its old owner's listing
  failed, does it keep that owner; otherwise it is unrouted.\<close>

theorem model_map_prefers_live:
  assumes "[] \<notin> set (map fst ls)" "distinct (map fst old)"
  shows "map_of (refresh_model_map ls old) m =
    (case find (\<lambda>(name, ms). case ms of None \<Rightarrow> False | Some xs \<Rightarrow> m \<in> set xs) ls of
       Some l \<Rightarrow> Some (fst l)
     | None \<Rightarrow> (case map_of old m of Some r \<Rightarrow> if (r, None) \<in> set ls then Some r else None | None \<Rightarrow> None))"
proof -
  have "[] \<notin> ran (map_of ([] :: (string \<times> string) list))" by simp
  from live_claims_map [OF assms(1) this, of m] show ?thesis
    unfolding refresh_model_map_def dict_of_setdefault_fold carried_lookup [OF assms(2)]
    by (simp split: option.split)
qed

theorem model_map_prefers_live_witness:
  "map_of (refresh_model_map [(''ollama'', None), (''vllm'', Some [''m''])] [(''m'', ''ollama''), (''k'', ''ollama'')]) ''m'' = Some ''vllm'' \<and>
   map_of (refresh_model_map [(''ollama'', None), (''vllm'', Some [''m''])] [(''m'', ''ollama''), (''k'', ''ollama'')]) ''k'' = Some ''ollama''"
  using model_map_prefers_live [of "[(''ollama'', None), (''vllm'', Some [''m''])]" "[(''m'', ''ollama''), (''k'', ''ollama'')]" "''m''"]
    model_map_prefers_live [of "[(''ollama'', None), (''vllm'', Some [''m''])]" "[(''m'', ''ollama''), (''k'', ''ollama'')]" "''k''"]
  by simp

text \<open>A job that ends in an exception leaves the daemon reporting itself busy, or downloading,
  although no job runs: only an upload or an early failure report resets the activity. (When the job's directory could
  not be made, the activity is what it was before.)\<close>

theorem raised_job_stays_busy:
  assumes "snd (execute_job loads j env act) = Raised"
  shows "fst (execute_job loads j env act) \<in> {Busy, DownloadingModel} \<or>
    \<not> je_dir env \<and> fst (execute_job loads j env act) = act"
proof (cases "job_gate j env act")
  case None
  then show ?thesis using assms run_job_ends [of loads j env] by (cases "run_job loads j env") (auto simp: execute_job_def)
next
  case (Some x)
  then show ?thesis using assms
    by (auto simp: execute_job_def job_gate_def split: option.splits if_splits)
qed

theorem raised_job_stays_busy_witness:
  "fst (execute_job sample_loads \<lparr>dj_id = ''j'', dj_model = ''m'', dj_max_tokens = 1, dj_temperature = 0\<rparr>
     \<lparr>je_dir = True, je_routed = Some ''ollama'', je_pulled = Some None, je_managers = [], je_ensured = None, je_input = None,
      je_run = (\<lambda>_. None), je_upload = True\<rparr> Idle) \<in> {Busy, DownloadingModel}"
  using raised_job_stays_busy [of sample_loads "\<lparr>dj_id = ''j'', dj_model = ''m'', dj_max_tokens = 1, dj_temperature = 0\<rparr>"
    "\<lparr>je_dir = True, je_routed = Some ''ollama'', je_pulled = Some None, je_managers = [], je_ensured = None, je_input = None,
      je_run = (\<lambda>_. None), je_upload = True\<rparr>" Idle]
  by (simp add: execute_job_def job_gate_def routed_to_def run_job_def)

end
