(* ===== verification/Executor_Base.thy ===== *)
theory Executor_Base
  imports Daemon_Worker Usage_Ingest
begin

text \<open>
  What the daemon's three runtime executors share: \<open>daemon/daemon/executors/base.py\<close>, the
  answers of an HTTP runtime, the reading of its JSON with the exceptions Python raises, and
  the contract \<open>batch_runtime\<close> that the worker pool relies on.

  The text of an error is modelled by its code, the part before the colon; the text of a caught
  exception by the exception's name.
\<close>

section \<open>Answers and exceptions\<close>

text \<open>What a request comes back with: a JSON body under status 200, an error status with its text, a time-out, or any other exception (connection refused, a body that is no JSON).\<close>

datatype answer = Reply json | ErrorStatus int string | TimedOut | Broken string

definition exn_name :: "py_exn \<Rightarrow> string" where
  "exn_name e = (case e of IndexError \<Rightarrow> ''IndexError'' | KeyError \<Rightarrow> ''KeyError'' | ValueError \<Rightarrow> ''ValueError''
     | TypeError \<Rightarrow> ''TypeError'' | AttributeError \<Rightarrow> ''AttributeError'' | UnboundLocalError \<Rightarrow> ''UnboundLocalError'')"

text \<open>The error text of an answer that raised, and the dictionary of one that did not. A body that is
  no object has no \<open>get\<close>.\<close>

definition answer_error :: "answer \<Rightarrow> string" where
  "answer_error a = (case a of Reply _ \<Rightarrow> exn_name AttributeError | ErrorStatus _ t \<Rightarrow> t
     | TimedOut \<Rightarrow> ''timeout'' | Broken t \<Rightarrow> t)"

definition dict_answer :: "answer \<Rightarrow> string + jdict" where
  "dict_answer a = (case a of Reply (JObj d) \<Rightarrow> Inr d | _ \<Rightarrow> Inl (answer_error a))"

definition raised :: "py_exn + 'a \<Rightarrow> string + 'a" where
  "raised r = (case r of Inl e \<Rightarrow> Inl (exn_name e) | Inr v \<Rightarrow> Inr v)"

text \<open>\<open>d.get(k, default)\<close>, \<open>v.get(k)\<close> of any value, and iteration over a value.\<close>

definition jget_or :: "string \<Rightarrow> json \<Rightarrow> jdict \<Rightarrow> json" where
  "jget_or k dflt d = (case map_of d k of None \<Rightarrow> dflt | Some v \<Rightarrow> v)"

definition dict_or_raise :: "json \<Rightarrow> py_exn + jdict" where
  "dict_or_raise v = (case v of JObj d \<Rightarrow> Inr d | _ \<Rightarrow> Inl AttributeError)"

fun jiter :: "json \<Rightarrow> py_exn + json list" where
  "jiter (JArr xs) = Inr xs"
| "jiter (JStr s) = Inr (map (\<lambda>c. JStr [c]) s)"
| "jiter (JObj d) = Inr (map (JStr \<circ> fst) d)"
| "jiter _ = Inl TypeError"

text \<open>\<open>a + b\<close>.\<close>

fun jnum :: "json \<Rightarrow> rat option" where
  "jnum (JInt n) = Some (of_int n)"
| "jnum (JFloat r) = Some r"
| "jnum (JBool b) = Some (if b then 1 else 0)"
| "jnum _ = None"

definition is_float :: "json \<Rightarrow> bool" where
  "is_float v \<longleftrightarrow> (case v of JFloat _ \<Rightarrow> True | _ \<Rightarrow> False)"

fun jadd :: "json \<Rightarrow> json \<Rightarrow> py_exn + json" where
  "jadd (JStr a) (JStr b) = Inr (JStr (a @ b))"
| "jadd (JArr a) (JArr b) = Inr (JArr (a @ b))"
| "jadd a b = (case (jnum a, jnum b) of
      (Some x, Some y) \<Rightarrow> Inr (if is_float a \<or> is_float b then JFloat (x + y) else JInt \<lfloor>x + y\<rfloor>)
    | _ \<Rightarrow> Inl TypeError)"

text \<open>A model's name is a string; one that is not is taken for absent.\<close>

definition jstring :: "string \<Rightarrow> jdict \<Rightarrow> string option" where
  "jstring k d = (case jget k d of JStr s \<Rightarrow> if s = [] then None else Some s | _ \<Rightarrow> None)"

definition entries_of :: "json \<Rightarrow> py_exn + jdict list" where
  "entries_of v = ebind (jiter v) (\<lambda>xs.
     foldr (\<lambda>x acc. ebind (dict_or_raise x) (\<lambda>d. ebind acc (\<lambda>ds. Inr (d # ds)))) xs (Inr []))"

section \<open>The base class\<close>

record capabilities =
  cap_logprobs :: bool
  cap_completions :: bool
  cap_prompt_scoring :: bool

definition base_capabilities :: capabilities where
  "base_capabilities = \<lparr>cap_logprobs = False, cap_completions = False, cap_prompt_scoring = False\<rparr>"

definition tag_inventory :: "string \<Rightarrow> inventory_item list \<Rightarrow> inventory_item list" where
  "tag_inventory runtime items =
     (if runtime = [] then items else map (\<lambda>it. it\<lparr>it_runtime := Some runtime\<rparr>) items)"

definition base_can_coalesce :: "prompt \<Rightarrow> bool" where
  "base_can_coalesce p \<longleftrightarrow> pq_url p = embeddings_url"

definition base_batch_execute :: "(prompt \<Rightarrow> completion) \<Rightarrow> prompt list \<Rightarrow> completion list" where
  "base_batch_execute execute ps = map execute ps"

text \<open>The defaults of the optional operations: no name routes here, nothing is resident, nothing can be
  fetched, nothing is on disk.\<close>

definition base_list_models :: "string list" where "base_list_models = []"
definition base_list_running_models :: "string list" where "base_list_running_models = []"
definition base_pull_model :: "string \<Rightarrow> bool" where "base_pull_model m = False"
definition base_inventory :: "inventory_item list" where "base_inventory = []"

section \<open>The contract\<close>

text \<open>What the pool asks of an executor: every result answers under the id of its prompt, and a batch
  comes back in the order it was given, one result a row.\<close>

locale batch_runtime =
  fixes execute :: "prompt \<Rightarrow> completion"
    and batch :: "prompt list \<Rightarrow> completion list"
  assumes execute_id: "cr_id (execute p) = pq_id p"
    and batch_ids: "distinct (map pq_id ps) \<Longrightarrow> map cr_id (batch ps) = map pq_id ps"
begin

lemma batch_length: "distinct (map pq_id ps) \<Longrightarrow> length (batch ps) = length ps"
  using batch_ids [of ps] by (metis length_map)

lemma batch_nth_id: "distinct (map pq_id ps) \<Longrightarrow> i < length ps \<Longrightarrow> cr_id (batch ps ! i) = pq_id (ps ! i)"
  by (metis batch_ids batch_length length_map nth_map)

lemma batch_single: "map cr_id (batch [p]) = [pq_id p]"
  using batch_ids [of "[p]"] by simp

end

lemma base_batch_runtime: "(\<And>p. cr_id (execute p) = pq_id p) \<Longrightarrow> batch_runtime execute (base_batch_execute execute)"
  by unfold_locales (simp_all add: base_batch_execute_def)

end
