(* ===== verification/Exec_Ollama.thy ===== *)
theory Exec_Ollama
  imports Executor_Base
begin

text \<open>
  \<open>daemon/daemon/executors/ollama.py\<close>: the Ollama runtime. The executor's mutable fields are the
  record \<open>ollama\<close>; \<open>time.monotonic()\<close> is an argument; the server is the record \<open>ollama_api\<close> of its
  answers, the disk the list of manifest files. Parameters: \<open>repr\<close> (\<open>str\<close> of a float or a
  container), \<open>loads\<close> (\<open>json.loads\<close>) and \<open>schema_ok\<close> (\<open>jsonschema.validate\<close>: None when it raises
  something other than \<open>ValidationError\<close>). Warnings that are only logged are left out.
\<close>

section \<open>Versions and token shares\<close>

text \<open>The share of row \<open>index\<close> (from 0) of a count billed for \<open>parts\<close> rows.\<close>

definition split_tokens :: "int \<Rightarrow> int \<Rightarrow> int \<Rightarrow> int" where
  "split_tokens n parts index =
     (if parts \<le> 0 then 0
      else n div parts + (if index < n mod parts then 1 else 0))"

definition is_digit :: "char \<Rightarrow> bool" where
  "is_digit c \<longleftrightarrow> (let n = (of_char c :: nat) in 48 \<le> n \<and> n \<le> 57)"

definition digit_val :: "char \<Rightarrow> nat" where
  "digit_val c = of_char c - 48"

definition num_prefix :: "string \<Rightarrow> nat" where
  "num_prefix part = fold (\<lambda>c n. 10 * n + digit_val c) (takeWhile is_digit part) 0"

text \<open>A tuple of numbers; Python compares tuples lexicographically, as \<open><\<close> on lists does.\<close>

definition parse_version :: "string option \<Rightarrow> nat list" where
  "parse_version version = (case version of
       None \<Rightarrow> [0, 0, 0]
     | Some v0 \<Rightarrow> if v0 = [] then [0, 0, 0] else
        (let v1 = strip (lower v0);
             v2 = (if prefix ''v'' v1 then drop 1 v1 else v1);
             v3 = hd (split_on (CHR ''+'') (hd (split_on (CHR ''-'') v2)));
             ps = map num_prefix (split_on (CHR ''.'') v3)
         in ps @ replicate (3 - length ps) 0))"

definition logprobs_min_version :: "nat list" where "logprobs_min_version = [0, 12, 11]"

section \<open>State and server\<close>

type_synonym clock = rat

text \<open>\<open>details\<close> of a model: quantization, parameter size, family, context length.\<close>

record model_details =
  md_quantization :: "string option"
  md_parameter_size :: json
  md_family :: json
  md_context_length :: "int option"

record ollama =
  ol_version :: "string option"
  ol_probed_at :: "clock option"
  ol_details :: "(string \<times> model_details) list"
  ol_failed_at :: "(string \<times> clock) list"
  ol_api_failed_at :: "clock option"

definition new_ollama :: ollama where
  "new_ollama = \<lparr>ol_version = None, ol_probed_at = None, ol_details = [], ol_failed_at = [],
     ol_api_failed_at = None\<rparr>"

text \<open>\<open>oa_version\<close>: the string under \<open>version\<close> of \<open>/api/version\<close> (None when absent), or nothing when
  the request raised.\<close>

record ollama_api =
  oa_version :: "string option option"
  oa_tags_ok :: bool
  oa_tags :: answer
  oa_ps :: answer
  oa_show :: "string \<Rightarrow> answer"
  oa_chat :: "jdict \<Rightarrow> answer"
  oa_embed :: "jdict \<Rightarrow> answer"

definition probe_retry_seconds :: clock where "probe_retry_seconds = 60"

definition should_probe_version :: "clock \<Rightarrow> ollama \<Rightarrow> bool" where
  "should_probe_version now st =
     (if ol_version st \<noteq> None then False
      else (case ol_probed_at st of None \<Rightarrow> True | Some t \<Rightarrow> now - t \<ge> probe_retry_seconds))"

definition health_check :: "ollama_api \<Rightarrow> clock \<Rightarrow> ollama \<Rightarrow> bool \<times> ollama" where
  "health_check api now st0 =
     (let st = st0\<lparr>ol_probed_at := Some now\<rparr> in
      case oa_version api of
        None \<Rightarrow> (False, st)
      | Some v \<Rightarrow> let st' = st\<lparr>ol_version := v\<rparr> in
          if \<not> truthy v then (False, st') else (oa_tags_ok api, st'))"

definition ollama_capabilities :: "ollama \<Rightarrow> capabilities" where
  "ollama_capabilities st = \<lparr>cap_logprobs = (ol_version st \<noteq> None \<and>
       logprobs_min_version \<le> parse_version (ol_version st)),
     cap_completions = False, cap_prompt_scoring = False\<rparr>"

section \<open>Requests\<close>

definition option_keys :: "string list" where
  "option_keys = [''top_p'', ''top_k'', ''stop'', ''seed'', ''frequency_penalty'', ''presence_penalty'']"

text \<open>A bare string for \<open>stop\<close> becomes a list of one.\<close>

definition option_value :: "string \<Rightarrow> json \<Rightarrow> json" where
  "option_value k v = (if k = ''stop'' then (case v of JStr s \<Rightarrow> JArr [JStr s] | _ \<Rightarrow> v) else v)"

definition copied_options :: "jdict \<Rightarrow> jdict" where
  "copied_options body = concat (map (\<lambda>k. case map_of body k of
       None \<Rightarrow> [] | Some v \<Rightarrow> [(k, option_value k v)]) option_keys)"

text \<open>\<open>v != 1\<close> of a JSON value.\<close>

definition is_one :: "json \<Rightarrow> bool" where
  "is_one v \<longleftrightarrow> jnum v = Some 1"

text \<open>\<open>response_format\<close> to \<open>format\<close>: only an object is looked at.\<close>

definition format_entry :: "json \<Rightarrow> py_exn + jdict" where
  "format_entry rf = (case rf of
       JObj d \<Rightarrow>
         (if jget ''type'' d = JStr ''json_object'' then Inr [(''format'', JStr ''json'')]
          else if jget ''type'' d = JStr ''json_schema'' then
            ebind (dict_or_raise (jget_or ''json_schema'' (JObj []) d)) (\<lambda>js.
            Inr (if jget ''schema'' js = JNull then [] else [(''format'', jget ''schema'' js)]))
          else Inr [])
     | _ \<Rightarrow> Inr [])"

text \<open>\<open>think\<close>, or \<open>chat_template_kwargs.enable_thinking\<close>; only a boolean is passed on.\<close>

definition think_entry :: "jdict \<Rightarrow> py_exn + jdict" where
  "think_entry body =
     ebind (if jget ''think'' body \<noteq> JNull then Inr (jget ''think'' body)
            else let kw = jget ''chat_template_kwargs'' body in
              if jtruthy kw then map_sum id (jget ''enable_thinking'') (dict_or_raise kw) else Inr JNull) (\<lambda>think.
     Inr (case think of JBool b \<Rightarrow> [(''think'', JBool b)] | _ \<Rightarrow> []))"

text \<open>\<open>isinstance(top, int) and top > 0\<close>; a Python boolean is an integer.\<close>

definition positive_int :: "json \<Rightarrow> bool" where
  "positive_int v \<longleftrightarrow> (case v of JInt n \<Rightarrow> 0 < n | JBool b \<Rightarrow> b | _ \<Rightarrow> False)"

definition logprob_entries :: "bool \<Rightarrow> jdict \<Rightarrow> jdict" where
  "logprob_entries supported body =
     (if (jhas ''logprobs'' body \<or> jhas ''top_logprobs'' body) \<and> supported \<and> jtruthy (jget ''logprobs'' body)
      then (''logprobs'', JBool True) #
        (let top = jget ''top_logprobs'' body in if positive_int top then [(''top_logprobs'', top)] else [])
      else [])"

text \<open>\<open>Inl\<close> is the code of the error: more than one completion is refused with its own.\<close>

definition translate_request :: "bool \<Rightarrow> jdict \<Rightarrow> string + jdict" where
  "translate_request logprobs_ok body =
     (let opts = [(''temperature'', jget_or ''temperature'' (JFloat (7 / 10)) body),
                  (''num_predict'', jget_or ''max_tokens'' (JInt 512) body)] @ copied_options body;
          base = [(''model'', jget_or ''model'' (JStr []) body), (''messages'', jget_or ''messages'' (JArr []) body),
                  (''stream'', JBool False), (''options'', JObj opts)];
          n = jget ''n'' body;
          tools = (if jhas ''tools'' body \<and> jget ''tool_choice'' body \<noteq> JStr ''none''
                   then [(''tools'', jget ''tools'' body)] else [])
      in if n \<noteq> JNull \<and> \<not> is_one n then Inl ''UNSUPPORTED_PARAMETER''
         else ebind (raised (format_entry (jget ''response_format'' body))) (\<lambda>fmt.
              ebind (raised (think_entry body)) (\<lambda>think.
              Inr (base @ tools @ fmt @ think @ logprob_entries logprobs_ok body))))"

definition translate_embeddings_request :: "jdict \<Rightarrow> jdict" where
  "translate_embeddings_request body =
     [(''model'', jget_or ''model'' (JStr []) body), (''input'', jget_or ''input'' (JStr []) body)] @
     (case map_of body ''truncate'' of None \<Rightarrow> [] | Some v \<Rightarrow> [(''truncate'', v)])"

section \<open>Responses\<close>

text \<open>The message, with a trace spelt both ways. A message that is no object raises (that \<open>dict\<close> also
  takes a list of pairs is not considered).\<close>

definition with_reasoning :: "jdict \<Rightarrow> jdict" where
  "with_reasoning m = (if jtruthy (jget ''thinking'' m) \<and> \<not> jtruthy (jget ''reasoning_content'' m)
     then dict_set ''reasoning_content'' (jget ''thinking'' m) m else m)"

definition choices_of :: "jdict \<Rightarrow> py_exn + json list" where
  "choices_of resp =
     (if \<not> jtruthy (jget ''message'' resp) then Inr []
      else (case jget ''message'' resp of
          JObj m \<Rightarrow> Inr [JObj ([(''index'', JInt 0), (''message'', JObj (with_reasoning m)),
              (''finish_reason'', JStr (if jtruthy (jget ''done'' resp) then ''stop'' else ''length''))] @
              (if jtruthy (jget ''logprobs'' resp)
               then [(''logprobs'', JObj [(''content'', jget ''logprobs'' resp)])] else []))]
        | _ \<Rightarrow> Inl TypeError))"

definition usage_entry :: "json \<Rightarrow> json \<Rightarrow> json \<Rightarrow> json" where
  "usage_entry p c t = JObj [(''prompt_tokens'', p), (''completion_tokens'', c), (''total_tokens'', t)]"

definition translate_response :: "jdict \<Rightarrow> py_exn + jdict" where
  "translate_response resp =
     ebind (choices_of resp) (\<lambda>choices.
     let p = jget_or ''prompt_eval_count'' (JInt 0) resp; c = jget_or ''eval_count'' (JInt 0) resp in
     ebind (jadd p c) (\<lambda>t.
     Inr [(''choices'', JArr choices), (''model'', jget_or ''model'' (JStr []) resp), (''usage'', usage_entry p c t)]))"

text \<open>The vectors: \<open>embeddings\<close>, or the legacy \<open>embedding\<close>, a flat vector of which is wrapped.\<close>

definition embedding_vectors :: "jdict \<Rightarrow> py_exn + json list" where
  "embedding_vectors resp =
     (let e = jget ''embeddings'' resp;
          v = (if e = JNull \<and> jhas ''embedding'' resp then
                (case jget ''embedding'' resp of
                   JArr (x # xs) \<Rightarrow> (case x of JArr _ \<Rightarrow> JArr (x # xs) | _ \<Rightarrow> JArr [JArr (x # xs)])
                 | w \<Rightarrow> w)
               else e)
      in if v = JNull then Inr [] else jiter v)"

definition embedding_item :: "json \<Rightarrow> int \<Rightarrow> json" where
  "embedding_item emb i = JObj [(''object'', JStr ''embedding''), (''embedding'', emb), (''index'', JInt i)]"

definition embedding_usage :: "json \<Rightarrow> json \<Rightarrow> json" where
  "embedding_usage p t = JObj [(''prompt_tokens'', p), (''total_tokens'', t)]"

definition translate_embeddings_response :: "jdict \<Rightarrow> py_exn + jdict" where
  "translate_embeddings_response resp =
     ebind (embedding_vectors resp) (\<lambda>vs.
     let p = jget_or ''prompt_eval_count'' (JInt 0) resp in
     Inr [(''object'', JStr ''list''),
          (''data'', JArr (map (\<lambda>(i, e). embedding_item e (int i)) (enumerate 0 vs))),
          (''model'', jget_or ''model'' (JStr []) resp), (''usage'', embedding_usage p p)])"

section \<open>Executing a prompt\<close>

definition completions_url :: string where "completions_url = ''/v1/completions''"

definition answered :: "string \<Rightarrow> jdict \<Rightarrow> string option \<Rightarrow> completion" where
  "answered cid resp err = \<lparr>cr_id = cid, cr_response = Some resp, cr_error = err\<rparr>"

definition embed_once :: "ollama_api \<Rightarrow> jdict \<Rightarrow> string + jdict" where
  "embed_once api body = ebind (dict_answer (oa_embed api body)) (\<lambda>d. raised (translate_embeddings_response d))"

definition execute_embedding :: "ollama_api \<Rightarrow> prompt \<Rightarrow> completion" where
  "execute_embedding api p = (case embed_once api (translate_embeddings_request (pq_body p)) of
       Inl e \<Rightarrow> error_row (pq_id p) ''EMBEDDING_FAILED''
     | Inr resp \<Rightarrow> answered (pq_id p) resp None)"

text \<open>The gate on structured outputs: the code of the refusal, if any.\<close>

definition version_gate :: "ollama \<Rightarrow> json \<Rightarrow> string option" where
  "version_gate st rf =
     (if rf = JNull then None
      else if ol_version st = None then Some ''OLLAMA_UNREACHABLE''
      else if parse_version (ol_version st) < [0, 5, 0] then Some ''VERSION_MISMATCH''
      else None)"

type_synonym schema_check = "json \<Rightarrow> json \<Rightarrow> bool option"

text \<open>The check of a structured answer: \<open>Inl\<close> an exception, \<open>Inr\<close> the code of the verdict.\<close>

definition content_of :: "json \<Rightarrow> py_exn + json" where
  "content_of choice =
     ebind (dict_or_raise choice) (\<lambda>c.
     ebind (dict_or_raise (jget_or ''message'' (JObj []) c)) (\<lambda>m. Inr (jget_or ''content'' (JStr []) m)))"

definition schema_verdict :: "schema_check \<Rightarrow> json \<Rightarrow> json \<Rightarrow> string + string option" where
  "schema_verdict schema_ok rf parsed =
     ebind (raised (dict_or_raise rf)) (\<lambda>d.
     if jget ''type'' d \<noteq> JStr ''json_schema'' then Inr None
     else ebind (raised (dict_or_raise (jget_or ''json_schema'' (JObj []) d))) (\<lambda>js.
       if jget ''schema'' js = JNull then Inr None
       else (case schema_ok parsed (jget ''schema'' js) of
           None \<Rightarrow> Inl ''SchemaError''
         | Some ok \<Rightarrow> Inr (if ok then None else Some ''SCHEMA_VIOLATION''))))"

definition structured_verdict :: "loads \<Rightarrow> schema_check \<Rightarrow> json \<Rightarrow> json \<Rightarrow> string + string option" where
  "structured_verdict loads schema_ok rf choice =
     (if rf = JNull then Inr None
      else ebind (raised (content_of choice)) (\<lambda>content. case content of
          JStr s \<Rightarrow> (case loads s of
              DecodeError \<Rightarrow> Inr (Some ''JSON_PARSE_ERROR'')
            | LoadsRaises e \<Rightarrow> Inl (exn_name e)
            | Loaded v \<Rightarrow> schema_verdict schema_ok rf v)
        | _ \<Rightarrow> Inl (exn_name TypeError)))"

definition execute_chat :: "loads \<Rightarrow> schema_check \<Rightarrow> ollama_api \<Rightarrow> prompt \<Rightarrow> ollama \<Rightarrow> completion" where
  "execute_chat loads schema_ok api p st =
     (let rf = jget ''response_format'' (pq_body p) in
      case ebind (translate_request (cap_logprobs (ollama_capabilities st)) (pq_body p)) (\<lambda>body.
           ebind (dict_answer (oa_chat api body)) (\<lambda>d.
           ebind (raised (translate_response d)) (\<lambda>resp.
           (case jget ''choices'' resp of
              JArr (c # cs) \<Rightarrow> ebind (structured_verdict loads schema_ok rf c) (\<lambda>verdict. Inr (resp, verdict))
            | _ \<Rightarrow> Inr (resp, Some ''EMPTY_RESPONSE''))))) of
        Inl e \<Rightarrow> error_row (pq_id p) e
      | Inr (resp, verdict) \<Rightarrow> answered (pq_id p) resp verdict)"

definition ollama_execute :: "loads \<Rightarrow> schema_check \<Rightarrow> ollama_api \<Rightarrow> clock \<Rightarrow> prompt \<Rightarrow> ollama \<Rightarrow>
    completion \<times> ollama" where
  "ollama_execute loads schema_ok api now p st0 =
     (if pq_url p = completions_url then (error_row (pq_id p) ''UNSUPPORTED_ENDPOINT'', st0)
      else if pq_url p = embeddings_url then (execute_embedding api p, st0)
      else let st = (if should_probe_version now st0 then snd (health_check api now st0) else st0) in
        (case version_gate st (jget ''response_format'' (pq_body p)) of
           Some e \<Rightarrow> (error_row (pq_id p) e, st)
         | None \<Rightarrow> (execute_chat loads schema_ok api p st, st)))"

section \<open>Executing a batch\<close>

definition ollama_chunk_size :: nat where "ollama_chunk_size = 64"

definition can_coalesce_embedding :: "prompt \<Rightarrow> bool" where
  "can_coalesce_embedding p \<longleftrightarrow> pq_url p = embeddings_url \<and>
     (case jget ''input'' (pq_body p) of JStr _ \<Rightarrow> True | _ \<Rightarrow> False)"

type_synonym results = "(string \<times> completion) list"
type_synonym row_exec = "prompt \<Rightarrow> ollama \<Rightarrow> completion \<times> ollama"

fun run_rows :: "row_exec \<Rightarrow> prompt list \<Rightarrow> results \<times> ollama \<Rightarrow> results \<times> ollama" where
  "run_rows exec [] acc = acc"
| "run_rows exec (p # ps) (res, st) =
     (case exec p st of (r, st') \<Rightarrow> run_rows exec ps (dict_set (pq_id p) r res, st'))"

definition coalesced_body :: "prompt list \<Rightarrow> jdict" where
  "coalesced_body chunk =
     (let b = pq_body (hd chunk) in
      [(''model'', jget_or ''model'' (JStr []) b),
       (''input'', JArr (map (\<lambda>p. jget_or ''input'' (JStr []) (pq_body p)) chunk))] @
      (case map_of b ''truncate'' of None \<Rightarrow> [] | Some v \<Rightarrow> [(''truncate'', v)]))"

definition row_response :: "jdict \<Rightarrow> json \<Rightarrow> int \<Rightarrow> jdict" where
  "row_response d vec share = [(''object'', JStr ''list''), (''data'', JArr [embedding_item vec 0]),
     (''model'', jget_or ''model'' (JStr []) d), (''usage'', embedding_usage (JInt share) (JInt share))]"

text \<open>The fan-out of one answer over its rows; False when it raised half-way.\<close>

fun fan_out :: "row_exec \<Rightarrow> jdict \<Rightarrow> json list \<Rightarrow> int \<Rightarrow> (nat \<times> prompt) list \<Rightarrow> results \<times> ollama \<Rightarrow>
    bool \<times> results \<times> ollama" where
  "fan_out exec d vecs parts [] acc = (True, acc)"
| "fan_out exec d vecs parts ((j, p) # rows) (res, st) =
     (if j < length vecs then
        (case json_int (jget_or ''prompt_eval_count'' (JInt 0) d) of
           None \<Rightarrow> (False, res, st)
         | Some n \<Rightarrow> fan_out exec d vecs parts rows
             (dict_set (pq_id p) (answered (pq_id p) (row_response d (vecs ! j) (split_tokens n parts (int j))) None) res, st))
      else (case exec p st of (r, st') \<Rightarrow> fan_out exec d vecs parts rows (dict_set (pq_id p) r res, st')))"

definition embed_chunk :: "row_exec \<Rightarrow> ollama_api \<Rightarrow> prompt list \<Rightarrow> results \<times> ollama \<Rightarrow> results \<times> ollama" where
  "embed_chunk exec api chunk acc =
     (case ebind (dict_answer (oa_embed api (coalesced_body chunk))) (\<lambda>d.
           ebind (raised (embedding_vectors d)) (\<lambda>vecs. Inr (d, vecs))) of
        Inl _ \<Rightarrow> run_rows exec chunk acc
      | Inr (d, vecs) \<Rightarrow>
          (case fan_out exec d vecs (int (length chunk)) (enumerate 0 chunk) acc of
             (True, acc') \<Rightarrow> acc'
           | (False, acc') \<Rightarrow> run_rows exec chunk acc'))"

definition ollama_batch_execute :: "row_exec \<Rightarrow> ollama_api \<Rightarrow> prompt list \<Rightarrow> ollama \<Rightarrow> completion list \<times> ollama" where
  "ollama_batch_execute exec api ps st0 =
     (let acc = run_rows exec (filter (\<lambda>p. \<not> can_coalesce_embedding p) ps) ([], st0);
          (res, st) = fold (embed_chunk exec api)
            (chunk_by ollama_chunk_size (filter can_coalesce_embedding ps)) acc
      in (map (\<lambda>p. the (map_of res (pq_id p))) ps, st))"

section \<open>Models of the server\<close>

definition models_of :: "answer \<Rightarrow> jdict list" where
  "models_of a = (case ebind (dict_answer a) (\<lambda>d. raised (entries_of (jget_or ''models'' (JArr []) d))) of
       Inl _ \<Rightarrow> [] | Inr ms \<Rightarrow> ms)"

definition ollama_running_models :: "ollama_api \<Rightarrow> string list" where
  "ollama_running_models api = List.map_filter (jstring ''name'') (models_of (oa_ps api))"

definition clean_quant :: "(json \<Rightarrow> string) \<Rightarrow> json \<Rightarrow> string option" where
  "clean_quant repr v =
     (if \<not> jtruthy v then None
      else let text = strip (py_str repr v) in if lower text \<in> {[], ''unknown''} then None else Some text)"

record tagged_model =
  tg_name :: string
  tg_digest :: "string option"
  tg_details :: model_details

definition tag_row :: "(json \<Rightarrow> string) \<Rightarrow> jdict \<Rightarrow> py_exn + tagged_model option" where
  "tag_row repr m = (case jstring ''name'' m of
       None \<Rightarrow> Inr None
     | Some name \<Rightarrow>
         ebind (if jtruthy (jget ''details'' m) then dict_or_raise (jget ''details'' m) else Inr []) (\<lambda>d.
         Inr (Some \<lparr>tg_name = name, tg_digest = jstr (jget ''digest'' m),
           tg_details = \<lparr>md_quantization = clean_quant repr (jget ''quantization_level'' d),
             md_parameter_size = jget ''parameter_size'' d, md_family = jget ''family'' d,
             md_context_length = None\<rparr>\<rparr>)))"

fun tag_rows :: "(json \<Rightarrow> string) \<Rightarrow> jdict list \<Rightarrow> py_exn + tagged_model list" where
  "tag_rows repr [] = Inr []"
| "tag_rows repr (m # ms) = ebind (tag_row repr m) (\<lambda>t. ebind (tag_rows repr ms) (\<lambda>ts.
     Inr (case t of None \<Rightarrow> ts | Some x \<Rightarrow> x # ts)))"

definition list_models_detailed :: "(json \<Rightarrow> string) \<Rightarrow> ollama_api \<Rightarrow> tagged_model list" where
  "list_models_detailed repr api = (case tag_rows repr (models_of (oa_tags api)) of Inl _ \<Rightarrow> [] | Inr ts \<Rightarrow> ts)"

definition ollama_list_models :: "(json \<Rightarrow> string) \<Rightarrow> ollama_api \<Rightarrow> string list" where
  "ollama_list_models repr api = map tg_name (list_models_detailed repr api)"

text \<open>The stream of a pull: blank and undecodable lines are skipped, an event with an \<open>error\<close> or an
  exception ends it as failed. None is a stream that could not be opened or broke off.\<close>

fun mentions_error :: "json \<Rightarrow> bool option" where
  "mentions_error (JObj d) = Some (jhas ''error'' d)"
| "mentions_error (JArr xs) = Some (JStr ''error'' \<in> set xs)"
| "mentions_error (JStr s) = Some (sublist ''error'' s)"
| "mentions_error _ = None"

fun pull_stream :: "loads \<Rightarrow> string option list \<Rightarrow> bool" where
  "pull_stream loads [] = True"
| "pull_stream loads (None # ls) = False"
| "pull_stream loads (Some line # ls) =
     (if line = [] then pull_stream loads ls
      else (case loads line of
          DecodeError \<Rightarrow> pull_stream loads ls
        | LoadsRaises _ \<Rightarrow> False
        | Loaded v \<Rightarrow> if mentions_error v = Some False then pull_stream loads ls else False))"

section \<open>The store on disk\<close>

definition is_local_server :: "string \<Rightarrow> string \<Rightarrow> bool" where
  "is_local_server this_host host \<longleftrightarrow>
     lower host \<in> set [''localhost'', ''127.0.0.1'', ''::1'', [], lower this_host]"

text \<open>\<open>readable\<close>: the candidate's \<open>manifests\<close> directory exists and can be read (False also when looking
  raised).\<close>

definition resolve_models_dir :: "(string \<Rightarrow> bool) \<Rightarrow> string option \<Rightarrow> string option \<Rightarrow> bool \<Rightarrow> string \<Rightarrow>
    string option" where
  "resolve_models_dir readable configured env is_local home =
     (let explicit = (if truthy configured then configured else env);
          candidates = explicit # (if is_local then [Some (home @ ''/.ollama/models''),
                                                    Some ''/usr/share/ollama/.ollama/models''] else [])
      in List.find readable (List.map_filter (\<lambda>c. if truthy c then c else None) candidates))"

definition manifest_name_of_path :: "string list \<Rightarrow> string option" where
  "manifest_name_of_path parts = (case parts of
       [host, namespace, model, tag] \<Rightarrow> Some (if host = ''registry.ollama.ai'' then
            (if namespace = ''library'' then model @ '':'' @ tag else namespace @ ''/'' @ model @ '':'' @ tag)
          else host @ ''/'' @ namespace @ ''/'' @ model @ '':'' @ tag)
     | _ \<Rightarrow> None)"

text \<open>A file under \<open>manifests\<close>, its path relative to it, in the order of the sorted walk; None is a file
  that cannot be read or holds no JSON.\<close>

record manifest_file =
  mf_parts :: "string list"
  mf_json :: "json option"

definition new_item :: "string \<Rightarrow> string option \<Rightarrow> int option \<Rightarrow> inventory_item" where
  "new_item name sha bytes = \<lparr>it_name = name, it_sha256 = sha, it_size = bytes, it_loaded = False,
     it_runtime = None, it_details = None, it_files = None\<rparr>"

text \<open>\<open>digest.split(":", 1)[-1]\<close>.\<close>

definition after_colon :: "string \<Rightarrow> string" where
  "after_colon s = (if CHR '':'' \<in> set s then snd (partition_at (CHR '':'') s) else s)"

text \<open>A layer's size is an integer or absent.\<close>

fun first_model_layer :: "(json \<Rightarrow> string) \<Rightarrow> string \<Rightarrow> json list \<Rightarrow> py_exn + inventory_item option" where
  "first_model_layer repr name [] = Inr None"
| "first_model_layer repr name (l # ls) =
     ebind (dict_or_raise l) (\<lambda>d.
     if \<not> suffix ''image.model'' (py_str repr (jget_or ''mediaType'' (JStr []) d)) then first_model_layer repr name ls
     else let digest = py_str repr (jget_or ''digest'' (JStr []) d) in
       Inr (Some (new_item name (if digest = [] then None else Some (after_colon digest))
         (case jget ''size'' d of JInt n \<Rightarrow> Some n | _ \<Rightarrow> None))))"

definition scan_manifest :: "(json \<Rightarrow> string) \<Rightarrow> manifest_file \<Rightarrow> py_exn + inventory_item option" where
  "scan_manifest repr f = (case (manifest_name_of_path (mf_parts f), mf_json f) of
       (Some name, Some v) \<Rightarrow>
         ebind (dict_or_raise v) (\<lambda>m.
         ebind (jiter (jget_or ''layers'' (JArr []) m)) (first_model_layer repr name))
     | _ \<Rightarrow> Inr None)"

fun scan_manifests :: "(json \<Rightarrow> string) \<Rightarrow> manifest_file list \<Rightarrow> py_exn + inventory_item list" where
  "scan_manifests repr [] = Inr []"
| "scan_manifests repr (f # fs) = ebind (scan_manifest repr f) (\<lambda>x. ebind (scan_manifests repr fs) (\<lambda>xs.
     Inr (case x of None \<Rightarrow> xs | Some it \<Rightarrow> it # xs)))"

section \<open>Details and their caches\<close>

definition details_retry_seconds :: clock where "details_retry_seconds = 60"
definition details_lookups_per_beat :: nat where "details_lookups_per_beat = 4"

text \<open>An item and the manifest digest of the tag it came from.\<close>

type_synonym tagged_item = "inventory_item \<times> string option"

definition details_key :: "tagged_item \<Rightarrow> string option" where
  "details_key = (\<lambda>(it, dg). if truthy (it_sha256 it) then it_sha256 it
     else if truthy dg then Some (it_name it @ ''@'' @ the dg) else None)"

text \<open>\<open>/api/show\<close>: the first key that ends in \<open>.context_length\<close>, then the quantization. What was read
  before an exception is kept.\<close>

definition context_length_of :: "jdict \<Rightarrow> string + int option" where
  "context_length_of info = (case find (\<lambda>(k, v). suffix ''.context_length'' k) info of
       None \<Rightarrow> Inr None
     | Some (k, v) \<Rightarrow> (case json_int v of None \<Rightarrow> Inl (exn_name ValueError) | Some n \<Rightarrow> Inr (Some n)))"

definition or_dict :: "json \<Rightarrow> py_exn + jdict" where
  "or_dict v = (if jtruthy v then dict_or_raise v else Inr [])"

definition fetch_show_details :: "(json \<Rightarrow> string) \<Rightarrow> ollama_api \<Rightarrow> string \<Rightarrow> int option \<times> string option" where
  "fetch_show_details repr api name =
     (case ebind (dict_answer (oa_show api name)) (\<lambda>body.
           ebind (raised (or_dict (jget ''model_info'' body))) (\<lambda>info.
           ebind (context_length_of info) (\<lambda>ctx. Inr (body, ctx)))) of
        Inl _ \<Rightarrow> (None, None)
      | Inr (body, ctx) \<Rightarrow> (case or_dict (jget ''details'' body) of
            Inl _ \<Rightarrow> (ctx, None)
          | Inr d \<Rightarrow> (ctx, clean_quant repr (jget ''quantization_level'' d))))"

definition no_details :: model_details where
  "no_details = \<lparr>md_quantization = None, md_parameter_size = JNull, md_family = JNull, md_context_length = None\<rparr>"

definition any_detail :: "model_details \<Rightarrow> bool" where
  "any_detail d \<longleftrightarrow> md_quantization d \<noteq> None \<or> md_parameter_size d \<noteq> JNull \<or> md_family d \<noteq> JNull \<or>
     md_context_length d \<noteq> None"

definition jopt :: "('a \<Rightarrow> json) \<Rightarrow> 'a option \<Rightarrow> json" where
  "jopt f x = (case x of None \<Rightarrow> JNull | Some v \<Rightarrow> f v)"

definition details_dict :: "model_details \<Rightarrow> jdict" where
  "details_dict d = [(''quantization'', jopt JStr (md_quantization d)), (''parameter_size'', md_parameter_size d),
     (''family'', md_family d), (''context_length'', jopt JInt (md_context_length d))]"

datatype cached = Cached model_details | BackedOff | Pending

definition classify_item :: "clock \<Rightarrow> ollama \<Rightarrow> tagged_item \<Rightarrow> cached" where
  "classify_item now st x = (case Option.bind (details_key x) (map_of (ol_details st)) of
       Some d \<Rightarrow> Cached d
     | None \<Rightarrow> (case Option.bind (details_key x) (map_of (ol_failed_at st)) of
           Some t \<Rightarrow> if now - t < details_retry_seconds then BackedOff else Pending
         | None \<Rightarrow> Pending))"

definition mark_failed :: "string option \<Rightarrow> clock \<Rightarrow> ollama \<Rightarrow> ollama" where
  "mark_failed key now st = (case key of None \<Rightarrow> st
     | Some k \<Rightarrow> st\<lparr>ol_failed_at := dict_set k now (ol_failed_at st)\<rparr>)"

definition remember_details :: "string option \<Rightarrow> model_details \<Rightarrow> ollama \<Rightarrow> ollama" where
  "remember_details key d st = (case key of None \<Rightarrow> st
     | Some k \<Rightarrow> st\<lparr>ol_details := dict_set k d (ol_details st),
                    ol_failed_at := filter (\<lambda>e. fst e \<noteq> k) (ol_failed_at st)\<rparr>)"

definition look_up :: "(json \<Rightarrow> string) \<Rightarrow> ollama_api \<Rightarrow> clock \<Rightarrow> tagged_model list \<Rightarrow> tagged_item \<Rightarrow> ollama \<Rightarrow>
    model_details option \<times> ollama" where
  "look_up repr api now tags x st =
     (let name = it_name (fst x); key = details_key x;
          d0 = (case find (\<lambda>t. tg_name t = name) (rev tags) of None \<Rightarrow> no_details | Some t \<Rightarrow> tg_details t);
          shown = fetch_show_details repr api name;
          d = d0\<lparr>md_context_length := fst shown,
                 md_quantization := (case md_quantization d0 of None \<Rightarrow> snd shown | q \<Rightarrow> q)\<rparr>
      in if \<not> any_detail d then (None, mark_failed key now st)
         else (Some d, if md_context_length d = None then mark_failed key now st else remember_details key d st))"

definition set_details :: "inventory_item \<Rightarrow> model_details option \<Rightarrow> inventory_item" where
  "set_details it d = it\<lparr>it_details := map_option details_dict d\<rparr>"

text \<open>The look-ups of a beat: of the items that are pending, the first ones the budget allows. The third
  component lists the items asked of \<open>/api/show\<close>.\<close>

fun look_up_pending :: "(json \<Rightarrow> string) \<Rightarrow> ollama_api \<Rightarrow> clock \<Rightarrow> tagged_model list \<Rightarrow> nat \<Rightarrow>
    (tagged_item \<times> cached) list \<Rightarrow> ollama \<Rightarrow> inventory_item list \<times> ollama \<times> tagged_item list" where
  "look_up_pending repr api now tags budget [] st = ([], st, [])"
| "look_up_pending repr api now tags budget ((x, c) # xs) st =
     (case c of
        Pending \<Rightarrow>
          if budget = 0 then
            (case look_up_pending repr api now tags 0 xs st of (its, st', names) \<Rightarrow> (set_details (fst x) None # its, st', names))
          else (case look_up repr api now tags x st of (d, st1) \<Rightarrow>
            (case look_up_pending repr api now tags (budget - 1) xs st1 of (its, st', names) \<Rightarrow>
              (set_details (fst x) d # its, st', x # names)))
      | Cached d \<Rightarrow>
          (case look_up_pending repr api now tags budget xs st of (its, st', names) \<Rightarrow> (set_details (fst x) (Some d) # its, st', names))
      | BackedOff \<Rightarrow>
          (case look_up_pending repr api now tags budget xs st of (its, st', names) \<Rightarrow> (set_details (fst x) None # its, st', names)))"

definition api_recently_failed :: "clock \<Rightarrow> ollama \<Rightarrow> bool" where
  "api_recently_failed now st = (case ol_api_failed_at st of None \<Rightarrow> False | Some t \<Rightarrow> now - t < details_retry_seconds)"

text \<open>\<open>tags\<close> given is the listing the caller already fetched. The answer is the items, the state, the
  items asked of \<open>/api/show\<close> and whether \<open>/api/tags\<close> was asked.\<close>

definition attach_details :: "(json \<Rightarrow> string) \<Rightarrow> ollama_api \<Rightarrow> clock \<Rightarrow> tagged_item list \<Rightarrow>
    tagged_model list option \<Rightarrow> ollama \<Rightarrow> inventory_item list \<times> ollama \<times> tagged_item list \<times> bool" where
  "attach_details repr api now items tags st =
     (let rows = map (\<lambda>x. (x, classify_item now st x)) items;
          served = (\<lambda>st'. (case look_up_pending repr api now [] 0 rows st' of (its, st'', names) \<Rightarrow> (its, st'', names)))
      in if Pending \<notin> set (map snd rows) \<or> api_recently_failed now st
         then (case served st of (its, st', names) \<Rightarrow> (its, st', names, False))
         else (let asked = (tags = None); ts = (case tags of None \<Rightarrow> list_models_detailed repr api | Some ts \<Rightarrow> ts) in
           if ts = [] then (case served (st\<lparr>ol_api_failed_at := Some now\<rparr>) of (its, st', names) \<Rightarrow> (its, st', names, asked))
           else (case look_up_pending repr api now ts details_lookups_per_beat rows (st\<lparr>ol_api_failed_at := None\<rparr>) of
               (its, st', names) \<Rightarrow> (its, st', names, asked))))"

definition ollama_inventory :: "(json \<Rightarrow> string) \<Rightarrow> ollama_api \<Rightarrow> clock \<Rightarrow> manifest_file list option \<Rightarrow> ollama \<Rightarrow>
    inventory_item list \<times> ollama" where
  "ollama_inventory repr api now store st =
     (case (case store of None \<Rightarrow> Inr [] | Some fs \<Rightarrow> scan_manifests repr fs) of
        Inl _ \<Rightarrow> ([], st)
      | Inr found \<Rightarrow>
          (let tags = list_models_detailed repr api;
               (its, st', names, asked) = (if found \<noteq> []
                 then attach_details repr api now (map (\<lambda>it. (it, None)) found) None st
                 else attach_details repr api now
                   (map (\<lambda>t. (new_item (tg_name t) None None, tg_digest t)) tags) (Some tags) st)
           in (tag_inventory ''ollama'' its, st')))"

end
