(* ===== verification/Ollama_Properties.thy ===== *)
theory Ollama_Properties
  imports Exec_Ollama
begin

text \<open>
  What is proved of the Ollama executor: a batch is answered row by row under the rows' ids
  whatever the server does, a coalesced answer gives every row its own vector and loses no token,
  structured answers are checked, and the details look-ups are bounded and not repeated.
\<close>

section \<open>Batches\<close>

text \<open>Results filed under their own id, for at least the ids \<open>S\<close>.\<close>

definition filed :: "string set \<Rightarrow> results \<times> ollama \<Rightarrow> bool" where
  "filed S acc \<longleftrightarrow> S \<subseteq> dom (map_of (fst acc)) \<and> (\<forall>k r. map_of (fst acc) k = Some r \<longrightarrow> cr_id r = k)"

definition own_ids :: "row_exec \<Rightarrow> bool" where
  "own_ids exec \<longleftrightarrow> (\<forall>p st. cr_id (fst (exec p st)) = pq_id p)"

lemma filed_set:
  "filed S (res, st) \<Longrightarrow> cr_id r = k \<Longrightarrow> filed (insert k S) (dict_set k r res, st')"
  by (auto simp: filed_def)

lemma filed_mono: "filed S acc \<Longrightarrow> T \<subseteq> S \<Longrightarrow> filed T acc"
  by (auto simp: filed_def)

lemma run_rows_filed:
  assumes "own_ids exec" "filed S acc"
  shows "filed (S \<union> pq_id ` set ps) (run_rows exec ps acc)"
  using assms(2)
proof (induction ps arbitrary: S acc)
  case (Cons p ps)
  obtain res st where acc: "acc = (res, st)" by fastforce
  obtain r st' where r: "exec p st = (r, st')" by fastforce
  then have "cr_id r = pq_id p" using assms(1) by (metis fst_conv own_ids_def)
  then have "filed (insert (pq_id p) S) (dict_set (pq_id p) r res, st')"
    using Cons.prems acc by (intro filed_set) auto
  from Cons.IH [OF this] show ?case using acc r by simp
qed simp

lemma fan_out_filed:
  assumes "own_ids exec" "filed S acc" "fan_out exec d vecs parts rows acc = (ok, acc')"
  shows "filed (S \<union> (if ok then (pq_id \<circ> snd) ` set rows else {})) acc'"
  using assms(2,3)
proof (induction rows arbitrary: S acc)
  case (Cons row rows)
  obtain j p where row: "row = (j, p)" by fastforce
  obtain res st where acc: "acc = (res, st)" by fastforce
  show ?case
  proof (cases "j < length vecs")
    case True
    show ?thesis
    proof (cases "json_int (jget_or ''prompt_eval_count'' (JInt 0) d)")
      case None
      then show ?thesis using Cons.prems row acc True by simp
    next
      case (Some n)
      let ?r = "answered (pq_id p) (row_response d (vecs ! j) (split_tokens n parts (int j))) None"
      have "filed (insert (pq_id p) S) (dict_set (pq_id p) ?r res, st)"
        using Cons.prems(1) acc by (intro filed_set) (auto simp: answered_def)
      from Cons.IH [OF this] show ?thesis using Cons.prems(2) row acc True Some by (auto split: if_splits intro: filed_mono)
    qed
  next
    case False
    obtain r st' where r: "exec p st = (r, st')" by fastforce
    then have "cr_id r = pq_id p" using assms(1) by (metis fst_conv own_ids_def)
    then have "filed (insert (pq_id p) S) (dict_set (pq_id p) r res, st')"
      using Cons.prems acc by (intro filed_set) auto
    from Cons.IH [OF this] show ?thesis using Cons.prems(2) row acc False r by (auto split: if_splits intro: filed_mono)
  qed
qed simp

lemma embed_chunk_filed:
  assumes "own_ids exec" "filed S acc"
  shows "filed (S \<union> pq_id ` set chunk) (embed_chunk exec api chunk acc)"
proof -
  have ids: "(pq_id \<circ> snd) ` set (enumerate 0 chunk) = pq_id ` set chunk"
    by (metis image_comp map_snd_enumerate set_map)
  have after: "filed (S \<union> pq_id ` set chunk) (case fan_out exec d vecs n (enumerate 0 chunk) acc of
      (True, acc') \<Rightarrow> acc' | (False, acc') \<Rightarrow> run_rows exec chunk acc')" for d vecs n
  proof -
    obtain ok acc' where fan: "fan_out exec d vecs n (enumerate 0 chunk) acc = (ok, acc')"
      by (rule prod.exhaust)
    with fan_out_filed [OF assms] ids have "filed (S \<union> (if ok then pq_id ` set chunk else {})) acc'" by metis
    then show ?thesis using fan run_rows_filed [OF assms(1)] by (cases ok) auto
  qed
  show ?thesis
    unfolding embed_chunk_def using after run_rows_filed [OF assms]
    by (auto split: sum.split)
qed

lemma fold_chunks_filed:
  assumes "own_ids exec" "filed S acc"
  shows "filed (S \<union> pq_id ` set (concat cs)) (fold (embed_chunk exec api) cs acc)"
  using assms(2)
proof (induction cs arbitrary: S acc)
  case (Cons c cs)
  from Cons.IH [OF embed_chunk_filed [OF assms(1) Cons.prems, of c api]]
  show ?case by (simp add: Un_assoc image_Un)
qed simp

lemma ollama_batch_ids:
  assumes "own_ids exec"
  shows "map cr_id (fst (ollama_batch_execute exec api ps st)) = map pq_id ps"
proof -
  define acc where "acc = fold (embed_chunk exec api) (chunk_by ollama_chunk_size (filter can_coalesce_embedding ps))
    (run_rows exec (filter (\<lambda>p. \<not> can_coalesce_embedding p) ps) ([], st))"
  have "filed {} ([], st)" by (simp add: filed_def)
  from fold_chunks_filed [OF assms run_rows_filed [OF assms this]]
  have "filed ({} \<union> pq_id ` set (filter (\<lambda>p. \<not> can_coalesce_embedding p) ps) \<union>
      pq_id ` set (concat (chunk_by ollama_chunk_size (filter can_coalesce_embedding ps)))) acc"
    unfolding acc_def .
  then have "filed (pq_id ` set ps) acc"
    by (rule filed_mono) (auto simp: concat_chunk_by ollama_chunk_size_def)
  then have "cr_id (the (map_of (fst acc) (pq_id p))) = pq_id p" if "p \<in> set ps" for p
    using that by (auto simp: filed_def subset_eq dom_def)
  then show ?thesis by (simp add: ollama_batch_execute_def acc_def Let_def case_prod_beta)
qed

lemma ollama_execute_own_ids: "own_ids (ollama_execute loads schema_ok api now)"
  by (auto simp: own_ids_def ollama_execute_def execute_embedding_def execute_chat_def error_row_def
      answered_def Let_def split: sum.splits option.splits)

interpretation ollama_runtime: batch_runtime "\<lambda>p. fst (ollama_execute loads schema_ok api now p st)"
    "\<lambda>ps. fst (ollama_batch_execute (ollama_execute loads schema_ok api now) api ps st)"
  for loads schema_ok api now st
  using ollama_execute_own_ids
  by unfold_locales (simp_all add: own_ids_def ollama_batch_ids)

section \<open>Coalesced answers\<close>

lemma sum_split_tokens_upto:
  assumes "0 < k" "m \<le> k"
  shows "(\<Sum>i<m. split_tokens n (int k) (int i)) = int m * (n div int k) + min (int m) (n mod int k)"
  using assms(2)
proof (induction m)
  case 0
  then show ?case using assms(1) by simp
next
  case (Suc m)
  have "0 \<le> n mod int k" using assms(1) by simp
  then show ?case using Suc assms(1) by (simp add: split_tokens_def algebra_simps min_def)
qed

lemma sum_split_tokens: "0 < k \<Longrightarrow> (\<Sum>i<k. split_tokens n (int k) (int i)) = n"
proof -
  assume k: "0 < k"
  then have "min (int k) (n mod int k) = n mod int k" 
    using pos_mod_bound [of "int k" n] by simp
  with sum_split_tokens_upto [OF k order_refl, of n] show ?thesis by simp
qed

lemma fan_out_all:
  assumes "json_int (jget_or ''prompt_eval_count'' (JInt 0) d) = Some n" "\<forall>row \<in> set rows. fst row < length vecs"
    "distinct (map (pq_id \<circ> snd) rows)"
  shows "\<exists>res'. fan_out exec d vecs parts rows (res, st) = (True, res', st) \<and>
    (\<forall>k. k \<notin> (pq_id \<circ> snd) ` set rows \<longrightarrow> map_of res' k = map_of res k) \<and>
    (\<forall>(j, p) \<in> set rows. map_of res' (pq_id p) =
       Some (answered (pq_id p) (row_response d (vecs ! j) (split_tokens n parts (int j))) None))"
  using assms(2,3)
proof (induction rows arbitrary: res)
  case (Cons row rows)
  obtain j p where row: "row = (j, p)" by fastforce
  let ?res = "dict_set (pq_id p) (answered (pq_id p) (row_response d (vecs ! j) (split_tokens n parts (int j))) None) res"
  obtain res' where IH: "fan_out exec d vecs parts rows (?res, st) = (True, res', st)"
    "\<forall>k. k \<notin> (pq_id \<circ> snd) ` set rows \<longrightarrow> map_of res' k = map_of ?res k"
    "\<forall>(j, p) \<in> set rows. map_of res' (pq_id p) =
       Some (answered (pq_id p) (row_response d (vecs ! j) (split_tokens n parts (int j))) None)"
    using Cons.IH [of ?res] Cons.prems by auto
  have "pq_id p \<notin> (pq_id \<circ> snd) ` set rows" using Cons.prems row by auto
  then show ?case using IH Cons.prems row assms(1) by (intro exI [of _ res']) auto
qed simp

section \<open>Properties\<close>

text \<open>Whatever the server answers, refuses or drops, a batch comes back complete and in order: the
  results carry the ids of the rows, one for one. (The ids under which results are filed are the rows'
  own, so a coalesced request that fails or comes back short falls back row by row.)\<close>

theorem ollama_batch_complete:
  "map cr_id (fst (ollama_batch_execute (ollama_execute loads schema_ok api now) api ps st)) = map pq_id ps"
  by (rule ollama_batch_ids) (rule ollama_execute_own_ids)

text \<open>What a coalesced request carries: the texts of its rows in the rows' order, for the first row's model.\<close>

lemma coalesced_body_reads:
  assumes "\<forall>p \<in> set chunk. can_coalesce_embedding p"
  shows "jget ''input'' (coalesced_body chunk) = JArr (map (\<lambda>p. jget ''input'' (pq_body p)) chunk)"
    "jget ''model'' (coalesced_body chunk) = jget_or ''model'' (JStr []) (pq_body (hd chunk))"
proof -
  have "jget_or ''input'' (JStr []) (pq_body p) = jget ''input'' (pq_body p)" if "p \<in> set chunk" for p
    using assms that by (auto simp: can_coalesce_embedding_def jget_def jget_or_def split: option.splits)
  then have inputs: "map (\<lambda>p. jget_or ''input'' (JStr []) (pq_body p)) chunk = map (\<lambda>p. jget ''input'' (pq_body p)) chunk" by simp
  show "jget ''input'' (coalesced_body chunk) = JArr (map (\<lambda>p. jget ''input'' (pq_body p)) chunk)"
    "jget ''model'' (coalesced_body chunk) = jget_or ''model'' (JStr []) (pq_body (hd chunk))"
    by (simp_all add: coalesced_body_def jget_def Let_def inputs)
qed

text \<open>The server's side of \<open>/api/embed\<close> as documented: for a list of inputs it answers the vector of each under the
  request's model, in their order, and a token count.\<close>

definition embeds :: "ollama_api \<Rightarrow> (json \<Rightarrow> json \<Rightarrow> json) \<Rightarrow> jdict \<Rightarrow> bool" where
  "embeds api vec body \<longleftrightarrow> (\<forall>texts. jget ''input'' body = JArr texts \<longrightarrow>
     (\<exists>d n. oa_embed api body = Reply (JObj d) \<and> embedding_vectors d = Inr (map (vec (jget ''model'' body)) texts) \<and>
       json_int (jget_or ''prompt_eval_count'' (JInt 0) d) = Some n))"

lemma embed_chunk_rows:
  assumes "oa_embed api (coalesced_body chunk) = Reply (JObj d)" "embedding_vectors d = Inr vecs"
    "length chunk \<le> length vecs" "json_int (jget_or ''prompt_eval_count'' (JInt 0) d) = Some n"
    "distinct (map pq_id chunk)" "chunk \<noteq> []"
  shows "(\<forall>i < length chunk. map_of (fst (embed_chunk exec api chunk acc)) (pq_id (chunk ! i)) =
      Some (answered (pq_id (chunk ! i))
        (row_response d (vecs ! i) (split_tokens n (int (length chunk)) (int i))) None)) \<and>
    (\<Sum>i<length chunk. split_tokens n (int (length chunk)) (int i)) = n"
proof -
  obtain res st where acc: "acc = (res, st)" by (rule prod.exhaust)
  have rows: "\<forall>row \<in> set (enumerate 0 chunk). fst row < length vecs"
    using assms(3) by (auto simp: in_set_enumerate_eq)
  have ids: "map (pq_id \<circ> snd) (enumerate 0 chunk) = map pq_id chunk"
    by (metis map_map map_snd_enumerate)
  obtain res' where res': "fan_out exec d vecs (int (length chunk)) (enumerate 0 chunk) (res, st) = (True, res', st)"
    "\<forall>(j, p) \<in> set (enumerate 0 chunk). map_of res' (pq_id p) =
       Some (answered (pq_id p) (row_response d (vecs ! j) (split_tokens n (int (length chunk)) (int j))) None)"
    using fan_out_all [OF assms(4) rows, where parts = "int (length chunk)" and res = res and st = st and exec = exec] assms(5) unfolding ids by auto
  have "embed_chunk exec api chunk acc = (res', st)"
    using res'(1) by (simp add: embed_chunk_def assms(1,2) dict_answer_def raised_def acc)
  moreover have "(i, chunk ! i) \<in> set (enumerate 0 chunk)" if "i < length chunk" for i
    using that by (simp add: in_set_enumerate_eq)
  ultimately have "map_of (fst (embed_chunk exec api chunk acc)) (pq_id (chunk ! i)) =
      Some (answered (pq_id (chunk ! i))
        (row_response d (vecs ! i) (split_tokens n (int (length chunk)) (int i))) None)" if "i < length chunk" for i
    using bspec [OF res'(2), of "(i, chunk ! i)"] that by simp
  then show ?thesis using sum_split_tokens [of "length chunk" n] assms(6) by simp
qed

text \<open>C30: A coalesced request hands every row the embedding of its own text and loses no token: from a server that
  embeds the texts it is sent, in their order, row \<open>i\<close> of a chunk gets the vector of row \<open>i\<close>'s text under the first
  row's model, in an answer of the shape of a single embedding, with a share of the token count the server billed
  for the whole request; and these shares sum to that count.\<close>

theorem coalesced_chunk_faithful:
  assumes "embeds api vec (coalesced_body chunk)" "\<forall>p \<in> set chunk. can_coalesce_embedding p"
    "distinct (map pq_id chunk)" "chunk \<noteq> []"
  shows "\<exists>d n shares. oa_embed api (coalesced_body chunk) = Reply (JObj d) \<and>
    json_int (jget_or ''prompt_eval_count'' (JInt 0) d) = Some n \<and>
    length shares = length chunk \<and> sum_list shares = n \<and>
    (\<forall>i < length chunk. map_of (fst (embed_chunk exec api chunk acc)) (pq_id (chunk ! i)) =
      Some \<lparr>cr_id = pq_id (chunk ! i), cr_response = Some [(''object'', JStr ''list''),
        (''data'', JArr [JObj [(''object'', JStr ''embedding''),
           (''embedding'', vec (jget_or ''model'' (JStr []) (pq_body (hd chunk))) (jget ''input'' (pq_body (chunk ! i)))),
           (''index'', JInt 0)]]),
        (''model'', jget_or ''model'' (JStr []) d),
        (''usage'', JObj [(''prompt_tokens'', JInt (shares ! i)), (''total_tokens'', JInt (shares ! i))])], cr_error = None\<rparr>)"
proof -
  note body = coalesced_body_reads [OF assms(2)]
  let ?texts = "map (\<lambda>p. jget ''input'' (pq_body p)) chunk" and ?m = "jget_or ''model'' (JStr []) (pq_body (hd chunk))"
  obtain d n where d: "oa_embed api (coalesced_body chunk) = Reply (JObj d)" "embedding_vectors d = Inr (map (vec ?m) ?texts)"
    "json_int (jget_or ''prompt_eval_count'' (JInt 0) d) = Some n"
    using assms(1) body unfolding embeds_def by metis
  define shares where "shares = map (\<lambda>i. split_tokens n (int (length chunk)) (int i)) [0..<length chunk]"
  have "length chunk \<le> length (map (vec ?m) ?texts)" by simp
  note rows = embed_chunk_rows [OF d(1,2) this d(3) assms(3,4), of exec acc]
  have "sum_list shares = n"
    using rows by (simp add: shares_def interv_sum_list_conv_sum_set_nat atLeast0LessThan)
  moreover have "length shares = length chunk" by (simp add: shares_def)
  moreover have "\<forall>i < length chunk. map_of (fst (embed_chunk exec api chunk acc)) (pq_id (chunk ! i)) =
      Some (answered (pq_id (chunk ! i)) (row_response d (vec ?m (jget ''input'' (pq_body (chunk ! i)))) (shares ! i)) None)"
    using rows by (simp add: shares_def)
  ultimately show ?thesis using d(1,3)
    unfolding answered_def row_response_def embedding_item_def embedding_usage_def by blast
qed

definition embed_prompt :: "string \<Rightarrow> string \<Rightarrow> prompt" where
  "embed_prompt i text = \<lparr>pq_id = i, pq_method = ''POST'', pq_url = embeddings_url, pq_body = [(''input'', JStr text)]\<rparr>"

text \<open>A server that embeds a text as its length.\<close>

definition length_vec :: "json \<Rightarrow> json \<Rightarrow> json" where
  "length_vec m v = JArr [JInt (case v of JStr s \<Rightarrow> int (length s) | _ \<Rightarrow> 0)]"

definition embed_api :: ollama_api where
  "embed_api = \<lparr>oa_version = None, oa_tags_ok = False, oa_tags = TimedOut, oa_ps = TimedOut, oa_show = (\<lambda>_. TimedOut),
     oa_chat = (\<lambda>_. TimedOut), oa_embed = (\<lambda>body. case jget ''input'' body of
       JArr ts \<Rightarrow> Reply (JObj [(''embeddings'', JArr (map (length_vec (jget ''model'' body)) ts)), (''prompt_eval_count'', JInt 5)])
     | _ \<Rightarrow> TimedOut)\<rparr>"

lemma embed_api_embeds: "embeds embed_api length_vec body"
proof -
  have "embedding_vectors [(''embeddings'', JArr vs), c] = Inr vs" for vs c
    by (simp add: embedding_vectors_def jget_def Let_def)
  moreover have "json_int (jget_or ''prompt_eval_count'' (JInt 0) [(''embeddings'', v), (''prompt_eval_count'', JInt 5)]) = Some 5" for v
    by (simp add: jget_or_def json_int_def)
  ultimately show ?thesis by (simp add: embeds_def embed_api_def)
qed

theorem coalesced_chunk_faithful_witness:
  "\<exists>resp. map_of (fst (embed_chunk (\<lambda>p st. (error_row (pq_id p) [], st)) embed_api
       [embed_prompt ''a'' ''x'', embed_prompt ''b'' ''yyy''] ([], new_ollama))) ''b'' = Some (answered ''b'' resp None) \<and>
     jget ''data'' resp = JArr [JObj [(''object'', JStr ''embedding''), (''embedding'', JArr [JInt 3]), (''index'', JInt 0)]]"
proof -
  let ?chunk = "[embed_prompt ''a'' ''x'', embed_prompt ''b'' ''yyy'']"
  have "\<forall>p \<in> set ?chunk. can_coalesce_embedding p" "distinct (map pq_id ?chunk)"
    by (simp_all add: embed_prompt_def can_coalesce_embedding_def jget_def)
  from coalesced_chunk_faithful [OF embed_api_embeds this, of "\<lambda>p st. (error_row (pq_id p) [], st)" "([], new_ollama)"]
  obtain d shares where "\<forall>i < 2. map_of (fst (embed_chunk (\<lambda>p st. (error_row (pq_id p) [], st)) embed_api ?chunk ([], new_ollama))) (pq_id (?chunk ! i)) =
      Some \<lparr>cr_id = pq_id (?chunk ! i), cr_response = Some [(''object'', JStr ''list''),
        (''data'', JArr [JObj [(''object'', JStr ''embedding''),
           (''embedding'', length_vec (jget_or ''model'' (JStr []) (pq_body (hd ?chunk))) (jget ''input'' (pq_body (?chunk ! i)))),
           (''index'', JInt 0)]]),
        (''model'', jget_or ''model'' (JStr []) d),
        (''usage'', JObj [(''prompt_tokens'', JInt (shares ! i)), (''total_tokens'', JInt (shares ! i))])], cr_error = None\<rparr>"
    by (auto simp: numeral_2_eq_2)
  from this [rule_format, of 1] show ?thesis by (simp add: embed_prompt_def answered_def jget_def length_vec_def)
qed

lemma jarr_case:
  "(case v of JArr (c # cs) \<Rightarrow> f c cs | _ \<Rightarrow> z) = Inr y \<Longrightarrow> (\<exists>c cs. v = JArr (c # cs) \<and> f c cs = Inr y) \<or> z = Inr y"
  by (auto split: json.splits list.splits)

lemma jstr_case:
  "(case v of JStr s \<Rightarrow> f s | _ \<Rightarrow> z) = Inr y \<Longrightarrow> (\<exists>s. v = JStr s \<and> f s = Inr y) \<or> z = Inr y"
  by (auto split: json.splits)

lemma raised_Inr [simp]: "raised r = Inr v \<longleftrightarrow> r = Inr v"
  by (cases r) (auto simp: raised_def)

lemma structured_verdict_None:
  assumes "structured_verdict loads schema_ok rf c = Inr None" "rf \<noteq> JNull"
  shows "\<exists>s v. content_of c = Inr (JStr s) \<and> loads s = Loaded v \<and> schema_verdict schema_ok rf v = Inr None"
proof -
  obtain content where content: "content_of c = Inr content"
    "(case content of JStr s \<Rightarrow> (case loads s of
         DecodeError \<Rightarrow> Inr (Some ''JSON_PARSE_ERROR'')
       | LoadsRaises e \<Rightarrow> Inl (exn_name e)
       | Loaded v \<Rightarrow> schema_verdict schema_ok rf v)
     | _ \<Rightarrow> Inl (exn_name TypeError)) = Inr None"
    using assms unfolding structured_verdict_def by auto
  from jstr_case [OF content(2)] obtain s where s: "content = JStr s" "(case loads s of
         DecodeError \<Rightarrow> Inr (Some ''JSON_PARSE_ERROR'')
       | LoadsRaises e \<Rightarrow> Inl (exn_name e)
       | Loaded v \<Rightarrow> schema_verdict schema_ok rf v) = Inr None"
    by auto
  with content(1) show ?thesis by (cases "loads s") auto
qed

lemma execute_chat_success:
  assumes "is_success (execute_chat loads schema_ok api p st)"
  shows "\<exists>resp c cs. execute_chat loads schema_ok api p st = answered (pq_id p) resp None \<and>
    jget ''choices'' resp = JArr (c # cs) \<and>
    structured_verdict loads schema_ok (jget ''response_format'' (pq_body p)) c = Inr None"
proof -
  let ?run = "ebind (translate_request (cap_logprobs (ollama_capabilities st)) (pq_body p)) (\<lambda>body.
      ebind (dict_answer (oa_chat api body)) (\<lambda>d.
      ebind (raised (translate_response d)) (\<lambda>resp.
      (case jget ''choices'' resp of
         JArr (c # cs) \<Rightarrow> ebind (structured_verdict loads schema_ok (jget ''response_format'' (pq_body p)) c)
           (\<lambda>verdict. Inr (resp, verdict))
       | _ \<Rightarrow> Inr (resp, Some ''EMPTY_RESPONSE'')))))"
  have chat: "execute_chat loads schema_ok api p st = (case ?run of
      Inl e \<Rightarrow> error_row (pq_id p) e | Inr (resp, verdict) \<Rightarrow> answered (pq_id p) resp verdict)"
    by (simp add: execute_chat_def Let_def)
  then obtain resp where run: "?run = Inr (resp, None)"
    using assms by (auto simp: is_success_def error_row_def answered_def split: sum.splits prod.splits)
  then obtain resp' where
    "(case jget ''choices'' resp' of
        JArr (c # cs) \<Rightarrow> ebind (structured_verdict loads schema_ok (jget ''response_format'' (pq_body p)) c)
          (\<lambda>verdict. Inr (resp', verdict))
      | _ \<Rightarrow> Inr (resp', Some ''EMPTY_RESPONSE'')) = Inr (resp, None)"
    by auto
  then obtain c cs where "jget ''choices'' resp = JArr (c # cs)"
    "structured_verdict loads schema_ok (jget ''response_format'' (pq_body p)) c = Inr None"
    by (drule_tac jarr_case) auto
  then show ?thesis using chat run by auto
qed

text \<open>C28: A structured answer that counts as a success is one: when a chat prompt asks for a response format
  and succeeds, the server's version was known and at least 0.5.0, the content parses as JSON, and under a
  JSON schema the parsed value was accepted by the validator.\<close>

theorem structured_success_checked:
  assumes "ollama_execute loads schema_ok api now p st = (r, st')" "is_success r"
    "jget ''response_format'' (pq_body p) = JObj rf" "pq_url p \<noteq> completions_url" "pq_url p \<noteq> embeddings_url"
  shows "ol_version st' \<noteq> None \<and> [0, 5, 0] \<le> parse_version (ol_version st') \<and>
    (\<exists>resp c cs s v. cr_response r = Some resp \<and> jget ''choices'' resp = JArr (c # cs) \<and>
      content_of c = Inr (JStr s) \<and> loads s = Loaded v \<and>
      (jget ''type'' rf = JStr ''json_schema'' \<longrightarrow> (\<exists>js. jget_or ''json_schema'' (JObj []) rf = JObj js \<and>
         (jget ''schema'' js = JNull \<or> schema_ok v (jget ''schema'' js) = Some True))))"
proof -
  let ?st = "if should_probe_version now st then snd (health_check api now st) else st"
  have gate: "version_gate ?st (JObj rf) = None"
    using assms by (auto simp: ollama_execute_def Let_def is_success_def error_row_def split: option.splits)
  then have st': "st' = ?st" and r: "r = execute_chat loads schema_ok api p ?st"
    using assms by (auto simp: ollama_execute_def Let_def)
  obtain resp c cs where resp: "r = answered (pq_id p) resp None" "jget ''choices'' resp = JArr (c # cs)"
    and c: "structured_verdict loads schema_ok (JObj rf) c = Inr None"
    using execute_chat_success assms(2,3) r by metis
  from structured_verdict_None [OF c] obtain s v where sv: "content_of c = Inr (JStr s)" "loads s = Loaded v" "schema_verdict schema_ok (JObj rf) v = Inr None"
    by auto
  then have "jget ''type'' rf = JStr ''json_schema'' \<longrightarrow> (\<exists>js. jget_or ''json_schema'' (JObj []) rf = JObj js \<and>
         (jget ''schema'' js = JNull \<or> schema_ok v (jget ''schema'' js) = Some True))"
    unfolding schema_verdict_def raised_def dict_or_raise_def
    by (auto split: json.splits option.splits if_splits sum.splits)
  moreover have "ol_version st' \<noteq> None \<and> [0, 5, 0] \<le> parse_version (ol_version st')"
    using gate st' by (auto simp: version_gate_def split: if_splits)
  ultimately show ?thesis using sv resp by (auto simp: answered_def)
qed

definition chat_prompt :: prompt where
  "chat_prompt = \<lparr>pq_id = ''c'', pq_method = ''POST'', pq_url = ''/v1/chat/completions'',
     pq_body = [(''response_format'', JObj [(''type'', JStr ''json_object'')])]\<rparr>"

definition chat_api :: ollama_api where
  "chat_api = embed_api\<lparr>oa_version := Some (Some ''v0.5.4''),
     oa_chat := (\<lambda>_. Reply (JObj [(''message'', JObj [(''content'', JStr ''1'')]), (''done'', JBool True)]))\<rparr>"

definition loads_one :: loads where
  "loads_one s = (if s = ''1'' then Loaded (JInt 1) else DecodeError)"

theorem structured_success_checked_witness:
  "ol_version (snd (ollama_execute loads_one (\<lambda>_ _. Some True) chat_api 0 chat_prompt new_ollama)) \<noteq> None"
proof -
  have "is_success (fst (ollama_execute loads_one (\<lambda>_ _. Some True) chat_api 0 chat_prompt new_ollama))"
    by code_simp
  moreover have "jget ''response_format'' (pq_body chat_prompt) = JObj [(''type'', JStr ''json_object'')]"
    "pq_url chat_prompt \<noteq> completions_url" "pq_url chat_prompt \<noteq> embeddings_url"
    by code_simp+
  ultimately show ?thesis
    using structured_success_checked [OF prod.collapse [symmetric]] by blast
qed

lemma map_of_filter_key: "map_of (filter (\<lambda>e. fst e \<noteq> k) xs) j = (if j = k then None else map_of xs j)"
  by (induction xs) auto

lemma look_up_state:
  assumes "look_up repr api now tags x st = (d, st')"
  shows "st' = mark_failed (details_key x) now st \<or> (\<exists>e. st' = remember_details (details_key x) e st)"
  using assms by (auto simp: look_up_def Let_def split: if_splits)

text \<open>After a look-up the item's own key is settled for a minute, and no other key is unsettled.\<close>

lemma classify_None: "details_key y = None \<Longrightarrow> classify_item now st y = Pending"
  by (simp add: classify_item_def)

lemma classify_settled:
  assumes "details_key y = Some k"
  shows "classify_item now st y \<noteq> Pending \<longleftrightarrow> map_of (ol_details st) k \<noteq> None \<or>
    (\<exists>t. map_of (ol_failed_at st) k = Some t \<and> now - t < details_retry_seconds)"
  using assms by (auto simp: classify_item_def split: option.splits)

lemma classify_mark_failed:
  assumes "now' - now < details_retry_seconds"
    "classify_item now' st y \<noteq> Pending \<or> (details_key y = key \<and> key \<noteq> None)"
  shows "classify_item now' (mark_failed key now st) y \<noteq> Pending"
proof (cases "details_key y")
  case None
  then show ?thesis using assms(2) by (auto simp: classify_None)
next
  case (Some k)
  have "ol_details (mark_failed key now st) = ol_details st"
    "map_of (ol_failed_at (mark_failed key now st)) k =
      (if key = Some k then Some now else map_of (ol_failed_at st) k)"
    by (auto simp: mark_failed_def split: option.splits)
  then show ?thesis using assms Some unfolding classify_settled [OF Some] by auto
qed

lemma classify_remember:
  assumes "classify_item now' st y \<noteq> Pending \<or> (details_key y = key \<and> key \<noteq> None)"
  shows "classify_item now' (remember_details key e st) y \<noteq> Pending"
proof (cases "details_key y")
  case None
  then show ?thesis using assms by (auto simp: classify_None)
next
  case (Some k)
  have "map_of (ol_details (remember_details key e st)) k = (if key = Some k then Some e else map_of (ol_details st) k)"
    "key \<noteq> Some k \<Longrightarrow> map_of (ol_failed_at (remember_details key e st)) k = map_of (ol_failed_at st) k"
    by (auto simp: remember_details_def map_of_filter_key split: option.splits)
  then show ?thesis using assms Some unfolding classify_settled [OF Some] by auto
qed

lemma look_up_settles:
  assumes "look_up repr api now tags x st = (d, st')" "now' - now < details_retry_seconds"
    "classify_item now' st y \<noteq> Pending \<or> (details_key y = details_key x \<and> details_key x \<noteq> None)"
  shows "classify_item now' st' y \<noteq> Pending"
  using look_up_state [OF assms(1)] classify_mark_failed [OF assms(2,3)] classify_remember [OF assms(3)] by blast

lemma look_up_pending_spec:
  assumes "look_up_pending repr api now tags budget rows st = (its, st', asked)" "now' - now < details_retry_seconds"
  shows "length its = length rows \<and> length asked \<le> budget \<and> (\<forall>x \<in> set asked. (x, Pending) \<in> set rows) \<and>
    (\<forall>y. classify_item now' st y \<noteq> Pending \<longrightarrow> classify_item now' st' y \<noteq> Pending) \<and>
    (\<forall>x \<in> set asked. details_key x \<noteq> None \<longrightarrow> classify_item now' st' x \<noteq> Pending)"
  using assms(1)
proof (induction rows arbitrary: budget st its asked)
  case (Cons row rows)
  obtain x c where row: "row = (x, c)" by (rule prod.exhaust)
  show ?case
  proof (cases "c = Pending \<and> budget \<noteq> 0")
    case True
    obtain d st1 where d: "look_up repr api now tags x st = (d, st1)" by (rule prod.exhaust)
    obtain its1 asked1 where rest: "look_up_pending repr api now tags (budget - 1) rows st1 = (its1, st', asked1)"
      "its = set_details (fst x) d # its1" "asked = x # asked1"
      using Cons.prems row True d by (auto split: prod.splits)
    have keep: "classify_item now' st1 y \<noteq> Pending"
      if "classify_item now' st y \<noteq> Pending \<or> (details_key y = details_key x \<and> details_key x \<noteq> None)" for y
      by (rule look_up_settles [OF d assms(2) that])
    note IH = Cons.IH [OF rest(1)]
    have "classify_item now' st' x \<noteq> Pending" if "details_key x \<noteq> None" using IH keep that by blast
    moreover have "\<forall>y. classify_item now' st y \<noteq> Pending \<longrightarrow> classify_item now' st' y \<noteq> Pending"
      using IH keep by blast
    ultimately show ?thesis using IH rest(2,3) row True by auto
  next
    case False
    then obtain its1 it b where "look_up_pending repr api now tags b rows st = (its1, st', asked)"
      "its = it # its1" "b \<le> budget"
      using Cons.prems row by (cases c) (auto split: prod.splits if_splits)
    with Cons.IH [of b st its1 asked] show ?thesis by auto
  qed
qed auto

lemma pending_rows_none: "Pending \<notin> set (map snd rows) \<Longrightarrow> look_up_pending repr api now tags b rows st = (its, st', asked) \<Longrightarrow>
  st' = st \<and> asked = []"
proof (induction rows arbitrary: its)
  case (Cons row rows)
  obtain x c where row: "row = (x, c)" by (rule prod.exhaust)
  then show ?case using Cons by (cases c) (auto split: prod.splits)
qed auto

text \<open>The details look-ups of a beat are bounded and not repeated: of the items of an inventory at most
  four are asked of \<open>/api/show\<close>, only ones that are neither cached nor backed off; whatever the answers,
  none of those with a key is asked again within a minute; and when every item is known no request is made
  and the caches stay as they are.\<close>

theorem details_lookups_bounded:
  assumes "attach_details repr api now items tags st = (its, st', asked, tags_asked)"
    "now' - now < details_retry_seconds"
  shows "length its = length items \<and> length asked \<le> 4 \<and>
    (\<forall>x \<in> set asked. x \<in> set items \<and> classify_item now st x = Pending \<and>
       (details_key x \<noteq> None \<longrightarrow> classify_item now' st' x \<noteq> Pending)) \<and>
    ((\<forall>x \<in> set items. classify_item now st x \<noteq> Pending) \<longrightarrow> asked = [] \<and> \<not> tags_asked \<and> st' = st)"
proof -
  let ?rows = "map (\<lambda>x. (x, classify_item now st x)) items"
  obtain ts b st0 where run: "look_up_pending repr api now ts b ?rows st0 = (its, st', asked)" "b \<le> 4"
    and idle: "Pending \<notin> set (map snd ?rows) \<Longrightarrow> st0 = st \<and> \<not> tags_asked"
    using assms(1) unfolding attach_details_def Let_def
    by (auto simp: details_lookups_per_beat_def split: prod.splits if_splits option.splits)
  have "asked = [] \<and> \<not> tags_asked \<and> st' = st" if "\<forall>x \<in> set items. classify_item now st x \<noteq> Pending"
  proof -
    have none: "Pending \<notin> set (map snd ?rows)" using that by auto
    then show ?thesis using pending_rows_none [OF none run(1)] idle by blast
  qed
  then show ?thesis using look_up_pending_spec [OF run(1) assms(2)] run(2) by fastforce
qed

definition shown_item :: tagged_item where
  "shown_item = (new_item ''m:4b'' (Some ''abc'') None, None)"

theorem details_lookups_bounded_witness:
  "classify_item 59 (fst (snd (attach_details (\<lambda>_. []) embed_api 0 [shown_item]
     (Some [\<lparr>tg_name = ''m:4b'', tg_digest = None, tg_details = no_details\<rparr>]) new_ollama))) shown_item \<noteq> Pending"
proof -
  let ?run = "attach_details (\<lambda>_. []) embed_api 0 [shown_item]
     (Some [\<lparr>tg_name = ''m:4b'', tg_digest = None, tg_details = no_details\<rparr>]) new_ollama"
  have asked: "fst (snd (snd ?run)) = [shown_item]" "details_key shown_item \<noteq> None" by code_simp+
  have run: "?run = (fst ?run, fst (snd ?run), fst (snd (snd ?run)), snd (snd (snd ?run)))" by simp
  have "(59 :: clock) - 0 < details_retry_seconds" by (simp add: details_retry_seconds_def)
  from details_lookups_bounded [OF run this] asked show ?thesis by simp
qed

end
