(* ===== verification/Hf_Cache.thy ===== *)
theory Hf_Cache
  imports Executor_Base
begin

text \<open>
  \<open>daemon/daemon/hf_cache.py\<close>: identity of a model from the Hugging Face hub cache. The file
  system is given by its contents: a cached repository by its snapshot directories and the text of
  \<open>refs/main\<close>, a snapshot by its files, a path by its components with the last one first. \<open>repr\<close> is
  \<open>str\<close> of a float or a container, \<open>fmt\<close> the formatting of a float with the given number of decimals.
\<close>

section \<open>Names\<close>

text \<open>\<open>s.replace("/", "--")\<close> and \<open>s.split("--")\<close>.\<close>

definition slashes_to_dashes :: "string \<Rightarrow> string" where
  "slashes_to_dashes s = concat (map (\<lambda>c. if c = CHR ''/'' then ''--'' else [c]) s)"

fun split_dashes :: "string \<Rightarrow> string list" where
  "split_dashes [] = [[]]"
| "split_dashes [x] = [[x]]"
| "split_dashes (x # y # zs) =
     (if x = CHR ''-'' \<and> y = CHR ''-'' then [] # split_dashes zs
      else (case split_dashes (y # zs) of [] \<Rightarrow> [[x]] | w # ws \<Rightarrow> (x # w) # ws))"

definition repo_dir_name :: "string \<Rightarrow> string" where
  "repo_dir_name repo_id = ''models--'' @ slashes_to_dashes repo_id"

definition repo_id_from_dir_name :: "string \<Rightarrow> string option" where
  "repo_id_from_dir_name name =
     (if \<not> prefix ''models--'' name then None
      else let parts = split_dashes (drop 8 name) in
        if length parts \<ge> 2 then Some (join_with ''/'' parts) else None)"

text \<open>The pattern of a repository id: two parts of letters, digits, \<open>_\<close>, \<open>.\<close> and \<open>-\<close>, each beginning
  with a letter or digit.\<close>

definition is_alnum :: "char \<Rightarrow> bool" where
  "is_alnum c \<longleftrightarrow> (let n = (of_char c :: nat) in
     (48 \<le> n \<and> n \<le> 57) \<or> (65 \<le> n \<and> n \<le> 90) \<or> (97 \<le> n \<and> n \<le> 122))"

definition repo_part :: "string \<Rightarrow> bool" where
  "repo_part s \<longleftrightarrow> s \<noteq> [] \<and> is_alnum (hd s) \<and> list_all (\<lambda>c. is_alnum c \<or> c \<in> {CHR ''_'', CHR ''.'', CHR ''-''}) s"

definition is_repo_id :: "string \<Rightarrow> bool" where
  "is_repo_id s \<longleftrightarrow> (case split_on (CHR ''/'') s of [a, b] \<Rightarrow> repo_part a \<and> repo_part b | _ \<Rightarrow> False)"

definition is_hex64 :: "string \<Rightarrow> bool" where
  "is_hex64 s \<longleftrightarrow> length s = 64 \<and> list_all (\<lambda>c. let n = (of_char c :: nat) in
     (48 \<le> n \<and> n \<le> 57) \<or> (97 \<le> n \<and> n \<le> 102)) s"

section \<open>Locating a snapshot\<close>

definition resolve_hub_cache :: "(string \<Rightarrow> bool) \<Rightarrow> string option \<Rightarrow> string option \<Rightarrow> string option \<Rightarrow> string \<Rightarrow>
    string option" where
  "resolve_hub_cache is_dir explicit hf_hub_cache hf_home home =
     List.find is_dir (List.map_filter (\<lambda>c. if truthy c then c else None)
       [explicit, hf_hub_cache, if truthy hf_home then Some (the hf_home @ ''/hub'') else None,
        Some (home @ ''/.cache/huggingface/hub'')])"

record cached_repo =
  cr_snapshots :: "string list"
  cr_ref_main :: "string option"

definition snapshot_for :: "cached_repo \<Rightarrow> string option" where
  "snapshot_for r = (case cr_snapshots r of
       [] \<Rightarrow> None
     | [d] \<Rightarrow> Some d
     | ds \<Rightarrow> (case cr_ref_main r of
           None \<Rightarrow> None
         | Some t \<Rightarrow> let rev = strip t in if rev \<noteq> [] \<and> rev \<in> set ds then Some rev else None))"

text \<open>Walking up from a path: a directory below \<open>snapshots\<close> whose repository directory has a valid name.\<close>

fun snapshot_above :: "string list \<Rightarrow> (string \<times> string) option" where
  "snapshot_above (x # s # r # up) =
     (if s = ''snapshots'' then
        (case repo_id_from_dir_name r of Some i \<Rightarrow> Some (i, x) | None \<Rightarrow> snapshot_above (s # r # up))
      else snapshot_above (s # r # up))"
| "snapshot_above _ = None"

text \<open>\<open>served\<close> is what vLLM reports as \<open>root\<close>, \<open>root_dir\<close> its reversed components when it names a directory. \<open>cache\<close>: the cached
  repositories by directory name.\<close>

definition locate :: "(string \<Rightarrow> cached_repo option) option \<Rightarrow> string \<Rightarrow> string list option \<Rightarrow> (string \<times> string) option" where
  "locate cache served root_dir =
     (if served = [] then None
      else (case root_dir of
          Some rev_parts \<Rightarrow> snapshot_above rev_parts
        | None \<Rightarrow> (case cache of
              None \<Rightarrow> None
            | Some repos \<Rightarrow> if is_repo_id served
                then map_option (\<lambda>rev. (served, rev)) (Option.bind (repos (repo_dir_name served)) snapshot_for)
                else None)))"

section \<open>Describing a snapshot\<close>

record snapshot_file =
  sf_name :: string
  sf_size :: "int option"        \<comment> \<open>None when the blob is gone\<close>
  sf_link :: "string option"     \<comment> \<open>name of the link's target\<close>
  sf_json :: "json option"       \<comment> \<open>parsed content, None when it is no JSON\<close>

type_synonym hf_snapshot = "snapshot_file list"

definition file_of :: "hf_snapshot \<Rightarrow> string \<Rightarrow> snapshot_file option" where
  "file_of s name = find (\<lambda>f. sf_name f = name) s"

definition is_file :: "hf_snapshot \<Rightarrow> string \<Rightarrow> bool" where
  "is_file s name \<longleftrightarrow> (case file_of s name of None \<Rightarrow> False | Some f \<Rightarrow> sf_size f \<noteq> None)"

definition blob_sha256 :: "snapshot_file option \<Rightarrow> string option" where
  "blob_sha256 f = (case Option.bind f sf_link of None \<Rightarrow> None | Some n \<Rightarrow> if is_hex64 n then Some n else None)"

definition or_json :: "json \<Rightarrow> json \<Rightarrow> json" where
  "or_json a b = (if jtruthy a then a else b)"

definition dtype_slug :: "(string \<times> string) list" where
  "dtype_slug = [(''bfloat16'', ''bf16''), (''float16'', ''fp16''), (''float32'', ''fp32''), (''float8_e4m3fn'', ''fp8'')]"

definition quantization :: "(json \<Rightarrow> string) \<Rightarrow> jdict \<Rightarrow> string option" where
  "quantization repr config =
     (case jget ''quantization_config'' config of
        JObj (e # es) \<Rightarrow>
          let qc = e # es;
              meth = lower (py_str repr (or_json (jget ''quant_method'' qc) (or_json (jget ''method'' qc) (JStr ''quant''))));
              bits = or_json (jget ''bits'' qc) (or_json (jget ''weight_bits'' qc) (jget ''w_bit'' qc))
          in Some (if jtruthy bits then meth @ ''-'' @ py_str repr bits @ ''bit'' else meth)
      | _ \<Rightarrow>
          let dtype = jget ''torch_dtype'' config in
          if jtruthy dtype then Some (case map_of dtype_slug (py_str repr dtype) of
              Some s \<Rightarrow> s | None \<Rightarrow> py_str repr dtype)
          else None)"

definition bytes_per_param :: "(string \<times> rat) list" where
  "bytes_per_param = [(''bfloat16'', 2), (''float16'', 2), (''float32'', 4)]"

definition index_name :: string where "index_name = ''model.safetensors.index.json''"

text \<open>\<open>metadata.total_size\<close> of the index, a number.\<close>

definition index_total :: "hf_snapshot \<Rightarrow> rat option" where
  "index_total s = (case Option.bind (file_of s index_name) sf_json of
       Some (JObj d) \<Rightarrow> (case jget ''metadata'' d of
           JObj m \<Rightarrow> if jtruthy (jget ''total_size'' m) then jnum (jget ''total_size'' m) else None
         | _ \<Rightarrow> None)
     | _ \<Rightarrow> None)"

definition parameter_size :: "(json \<Rightarrow> string) \<Rightarrow> (nat \<Rightarrow> rat \<Rightarrow> string) \<Rightarrow> hf_snapshot \<Rightarrow> jdict \<Rightarrow> string option" where
  "parameter_size repr fmt s config =
     (if jtruthy (jget ''quantization_config'' config) then None
      else (case map_of bytes_per_param (py_str repr (jget ''torch_dtype'' config)) of
          None \<Rightarrow> None
        | Some bpp \<Rightarrow>
            if \<not> is_file s index_name then None
            else map_option (\<lambda>n. let params = n / bpp / 1000000000 in
                if params \<ge> 1 then fmt 1 params @ ''B'' else fmt 0 (params * 1000) @ ''M'') (index_total s)))"

text \<open>The weight map's files, each once, in its own order.\<close>

definition weight_map_files :: "hf_snapshot \<Rightarrow> string list" where
  "weight_map_files s =
     (if \<not> is_file s index_name then []
      else (case Option.bind (file_of s index_name) sf_json of
          Some (JObj d) \<Rightarrow> (case jget ''weight_map'' d of
              JObj wm \<Rightarrow> fromkeys (List.map_filter (jstr \<circ> snd) wm) | _ \<Rightarrow> [])
        | _ \<Rightarrow> []))"

text \<open>\<open>shards\<close>: the names matched by the two glob patterns with their shard numbers, in directory order.\<close>

definition weight_files :: "(string \<times> nat \<times> nat) list \<Rightarrow> hf_snapshot \<Rightarrow> string list" where
  "weight_files shards s =
     (if weight_map_files s \<noteq> [] then weight_map_files s
      else (case List.find (is_file s) [''model.safetensors'', ''consolidated.safetensors''] of
          Some single \<Rightarrow> [single]
        | None \<Rightarrow>
            if shards \<noteq> [] then map fst (sort_key (fst \<circ> snd) (sort_key (snd \<circ> snd) shards))
            else if is_file s ''pytorch_model.bin'' then [''pytorch_model.bin''] else []))"

text \<open>An index and a configuration are JSON objects.\<close>

record hf_file =
  hf_name :: string
  hf_sha256 :: "string option"
  hf_size :: "int option"

record described =
  ds_files :: "hf_file list"
  ds_quantization :: "string option"
  ds_parameter_size :: "string option"
  ds_family :: json
  ds_context_length :: json

definition hf_file_row :: "hf_snapshot \<Rightarrow> string \<Rightarrow> hf_file" where
  "hf_file_row s name = \<lparr>hf_name = name, hf_sha256 = blob_sha256 (file_of s name),
     hf_size = Option.bind (file_of s name) sf_size\<rparr>"

definition config_of :: "hf_snapshot \<Rightarrow> jdict" where
  "config_of s = (if \<not> is_file s ''config.json'' then []
     else (case Option.bind (file_of s ''config.json'') sf_json of Some (JObj d) \<Rightarrow> d | _ \<Rightarrow> []))"

text \<open>A LoRA adapter has no identity of its own: neither files nor details.\<close>

definition describe :: "(json \<Rightarrow> string) \<Rightarrow> (nat \<Rightarrow> rat \<Rightarrow> string) \<Rightarrow> (string \<times> nat \<times> nat) list \<Rightarrow> hf_snapshot \<Rightarrow>
    described" where
  "describe repr fmt shards s =
     (if is_file s ''adapter_config.json''
      then \<lparr>ds_files = [], ds_quantization = None, ds_parameter_size = None, ds_family = JNull, ds_context_length = JNull\<rparr>
      else let config = config_of s in
        \<lparr>ds_files = map (hf_file_row s) (weight_files shards s), ds_quantization = quantization repr config,
         ds_parameter_size = parameter_size repr fmt s config, ds_family = jget ''model_type'' config,
         ds_context_length = jget ''max_position_embeddings'' config\<rparr>)"

section \<open>Lemmas\<close>

lemma snapshot_for_Some:
  "snapshot_for r = Some v \<Longrightarrow> v \<in> set (cr_snapshots r) \<and>
    (cr_snapshots r = [v] \<or> (\<exists>t. cr_ref_main r = Some t \<and> strip t = v))"
  by (auto simp: snapshot_for_def Let_def split: list.splits option.splits if_splits)

text \<open>No two dashes in a row and none at either end: what Hugging Face demands of a name.\<close>

fun no_double_dash :: "string \<Rightarrow> bool" where
  "no_double_dash (x # y # zs) \<longleftrightarrow> \<not> (x = CHR ''-'' \<and> y = CHR ''-'') \<and> no_double_dash (y # zs)"
| "no_double_dash _ \<longleftrightarrow> True"

lemma split_dashes_none: "no_double_dash s \<Longrightarrow> split_dashes s = [s]"
  by (induction s rule: no_double_dash.induct) auto

lemma split_dashes_join:
  assumes "no_double_dash a" "a \<noteq> []" "last a \<noteq> CHR ''-''"
  shows "split_dashes (a @ ''--'' @ s) = a # split_dashes s"
  using assms
proof (induction a)
  case (Cons x zs)
  then show ?case by (cases zs) auto
qed simp

lemma slashes_none: "CHR ''/'' \<notin> set s \<Longrightarrow> slashes_to_dashes s = s"
  by (induction s) (auto simp: slashes_to_dashes_def)

lemma repo_part_no_slash: "repo_part s \<Longrightarrow> CHR ''/'' \<notin> set s"
  by (auto simp: repo_part_def list_all_iff is_alnum_def)

section \<open>Properties\<close>

text \<open>The name of a cached repository's directory determines the repository: for a well-formed id
  \<open>org/name\<close>, neither part of which has two dashes in a row and whose first part does not end with one,
  reading back the directory name gives the id.\<close>

theorem repo_dir_roundtrip:
  assumes "repo_part a" "repo_part b" "no_double_dash a" "no_double_dash b" "last a \<noteq> CHR ''-''"
  shows "repo_id_from_dir_name (repo_dir_name (a @ ''/'' @ b)) = Some (a @ ''/'' @ b) \<and> is_repo_id (a @ ''/'' @ b)"
proof -
  have ns: "CHR ''/'' \<notin> set a" "CHR ''/'' \<notin> set b" using assms repo_part_no_slash by auto
  have ne: "a \<noteq> []" using assms(1) by (simp add: repo_part_def)
  have "slashes_to_dashes (a @ ''/'' @ b) = a @ ''--'' @ b"
    using slashes_none [OF ns(1)] slashes_none [OF ns(2)] by (simp add: slashes_to_dashes_def)
  moreover have "split_dashes (a @ ''--'' @ b) = [a, b]"
    using split_dashes_join [OF assms(3) ne assms(5), of b] split_dashes_none [OF assms(4)] by simp
  ultimately have "repo_id_from_dir_name (repo_dir_name (a @ ''/'' @ b)) = Some (a @ ''/'' @ b)"
    by (simp add: repo_id_from_dir_name_def repo_dir_name_def)
  moreover have "split_on (CHR ''/'') (a @ ''/'' @ b) = [a, b]"
    using split_on_append [OF ns(1), of b] split_on_single [OF ns(2)] by simp
  ultimately show ?thesis using assms(1,2) by (simp add: is_repo_id_def)
qed

theorem repo_dir_roundtrip_witness:
  "repo_id_from_dir_name (repo_dir_name (''Qwen'' @ ''/'' @ ''Qwen3-4B'')) = Some (''Qwen'' @ ''/'' @ ''Qwen3-4B'')"
  using repo_dir_roundtrip [of "''Qwen''" "''Qwen3-4B''"] by (simp add: repo_part_def is_alnum_def)

end
