(* ===== verification/Exec_Vllm.thy ===== *)
theory Exec_Vllm
  imports Hf_Cache
begin

text \<open>
  \<open>daemon/daemon/executors/vllm.py\<close>: the executor for a vLLM server. The server is the record
  \<open>vllm_api\<close> of its answers; \<open>hub\<close> gives, for what the server reports as a model's root, the cached
  repository, revision, modification time and description of its snapshot, as \<open>locate\<close> and \<open>describe\<close> of
  theory Hf_Cache find them (None when there is no such snapshot or reading it raised).
\<close>

record hub_entry =
  he_repo :: string
  he_revision :: string
  he_mtime :: rat
  he_described :: described

type_synonym hub = "string \<Rightarrow> hub_entry option"

record hf_ident =
  hi_sha256 :: "string option"
  hi_size :: "int option"
  hi_files :: "artifact_ref list option"
  hi_details :: jdict

record vllm =
  vl_version :: json
  vl_idents :: "(string \<times> (rat \<times> hf_ident)) list"

definition new_vllm :: vllm where
  "new_vllm = \<lparr>vl_version = JNull, vl_idents = []\<rparr>"

record vllm_api =
  va_version :: answer
  va_health :: bool
  va_models_ok :: bool
  va_models :: answer
  va_request :: "string \<Rightarrow> string \<Rightarrow> jdict \<Rightarrow> answer"

section \<open>Executing\<close>

definition unsupported_top_level :: "string list" where
  "unsupported_top_level = [''top_k'']"

definition outbound_body :: "prompt \<Rightarrow> jdict" where
  "outbound_body p = (if pq_url p \<noteq> embeddings_url
     then filter (\<lambda>e. fst e \<notin> set unsupported_top_level) (pq_body p) else pq_body p)"

definition http_code :: "int \<Rightarrow> string" where
  "http_code code = ''HTTP '' @ py_str (\<lambda>_. []) (JInt code)"

definition vllm_execute :: "vllm_api \<Rightarrow> prompt \<Rightarrow> completion" where
  "vllm_execute api p = (case va_request api (pq_method p) (pq_url p) (outbound_body p) of
       Reply (JObj body) \<Rightarrow> \<lparr>cr_id = pq_id p, cr_response = Some body, cr_error = None\<rparr>
     | TimedOut \<Rightarrow> error_row (pq_id p) ''Timeout''
     | ErrorStatus code t \<Rightarrow> error_row (pq_id p) (http_code code)
     | _ \<Rightarrow> error_row (pq_id p) ''Unexpected error'')"

definition vllm_capabilities :: capabilities where
  "vllm_capabilities = \<lparr>cap_logprobs = True, cap_completions = True, cap_prompt_scoring = True\<rparr>"

section \<open>Health\<close>

definition probe_version :: "vllm_api \<Rightarrow> vllm \<Rightarrow> vllm" where
  "probe_version api st = (case va_version api of
       Reply (JObj d) \<Rightarrow> st\<lparr>vl_version := jget ''version'' d\<rparr> | _ \<Rightarrow> st)"

text \<open>The ids of the listing; an entry without an id, or one that is no object, raises.\<close>

definition loaded_ids :: "answer \<Rightarrow> string + json list" where
  "loaded_ids a = ebind (dict_answer a) (\<lambda>d.
     ebind (raised (entries_of (jget_or ''data'' (JArr []) d))) (\<lambda>ms.
     if list_all (jhas ''id'') ms then Inr (map (jget ''id'') ms) else Inl (exn_name KeyError)))"

text \<open>An unreadable listing does not fail the check, a model missing from a readable one does.\<close>

definition expected_loaded :: "vllm_api \<Rightarrow> string list \<Rightarrow> bool" where
  "expected_loaded api supported = (case loaded_ids (va_models api) of
       Inl _ \<Rightarrow> True | Inr ids \<Rightarrow> list_all (\<lambda>m. JStr m \<in> set ids) supported)"

definition vllm_health_check :: "vllm_api \<Rightarrow> string list \<Rightarrow> vllm \<Rightarrow> bool \<times> vllm" where
  "vllm_health_check api supported st =
     ((va_health api \<or> va_models_ok api) \<and> (supported = [] \<or> expected_loaded api supported), probe_version api st)"

section \<open>Inventory\<close>

definition known_files :: "described \<Rightarrow> hf_file list" where
  "known_files d = filter (\<lambda>f. truthy (hf_sha256 f) \<and> hf_size f \<noteq> None) (ds_files d)"

definition ident_of :: "hub_entry \<Rightarrow> hf_ident" where
  "ident_of e = (let d = he_described e; fs = known_files d; n = sum_list (map (the \<circ> hf_size) fs) in
     \<lparr>hi_sha256 = (case fs of [] \<Rightarrow> None | f # _ \<Rightarrow> hf_sha256 f),
      hi_size = (if n = 0 then None else Some n),
      hi_files = (if fs = [] then None
        else Some (map (\<lambda>f. \<lparr>af_file = hf_name f, af_sha256 = hf_sha256 f, af_size = hf_size f\<rparr>) fs)),
      hi_details = [(''quantization'', (case ds_quantization d of None \<Rightarrow> JNull | Some q \<Rightarrow> JStr q)),
        (''parameter_size'', (case ds_parameter_size d of None \<Rightarrow> JNull | Some q \<Rightarrow> JStr q)),
        (''family'', ds_family d), (''context_length'', ds_context_length d),
        (''source_ref'', JStr (he_repo e)), (''source_revision'', JStr (he_revision e))]\<rparr>)"

text \<open>The cached description of a repository is used while its snapshot keeps its modification time.\<close>

definition identify_root :: "hub \<Rightarrow> string \<Rightarrow> vllm \<Rightarrow> hf_ident option \<times> vllm" where
  "identify_root hub served st = (case hub served of
       None \<Rightarrow> (None, st)
     | Some e \<Rightarrow> (case map_of (vl_idents st) (he_repo e) of
           Some (mtime, row) \<Rightarrow>
             if mtime = he_mtime e then (Some row, st)
             else (Some (ident_of e), st\<lparr>vl_idents := dict_set (he_repo e) (he_mtime e, ident_of e) (vl_idents st)\<rparr>)
         | None \<Rightarrow> (Some (ident_of e), st\<lparr>vl_idents := dict_set (he_repo e) (he_mtime e, ident_of e) (vl_idents st)\<rparr>)))"

fun identify_roots :: "hub \<Rightarrow> string list \<Rightarrow> vllm \<Rightarrow> (string \<times> hf_ident option) list \<times> vllm" where
  "identify_roots hub [] st = ([], st)"
| "identify_roots hub (r # rs) st = (case identify_root hub r st of (i, st1) \<Rightarrow>
     (case identify_roots hub rs st1 of (is, st2) \<Rightarrow> ((r, i) # is, st2)))"

text \<open>Adapters name a parent and are not served models of their own. An entry goes by its id and its root.\<close>

definition standalone :: "jdict list \<Rightarrow> jdict list" where
  "standalone ms = filter (\<lambda>m. \<not> jtruthy (jget ''parent'' m)) ms"

definition names_of :: "jdict \<Rightarrow> string list" where
  "names_of m = List.map_filter (\<lambda>k. jstring k m) [''id'', ''root'']"

definition root_of :: "jdict \<Rightarrow> string" where
  "root_of m = (case jstring ''root'' m of Some r \<Rightarrow> r | None \<Rightarrow> (case jstring ''id'' m of Some i \<Rightarrow> i | None \<Rightarrow> []))"

definition served_entries :: "vllm_api \<Rightarrow> string + jdict list" where
  "served_entries api = ebind (dict_answer (va_models api)) (\<lambda>d.
     ebind (raised (entries_of (jget_or ''data'' (JArr []) d))) (\<lambda>ms. Inr (standalone ms)))"

definition vllm_list_models :: "vllm_api \<Rightarrow> string list" where
  "vllm_list_models api = (case served_entries api of Inl _ \<Rightarrow> [] | Inr ms \<Rightarrow> fromkeys (concat (map names_of ms)))"

definition vllm_running_models :: "vllm_api \<Rightarrow> string list" where
  "vllm_running_models api = vllm_list_models api"

definition vllm_item :: "string \<Rightarrow> hf_ident option \<Rightarrow> inventory_item" where
  "vllm_item name i = \<lparr>it_name = name, it_sha256 = Option.bind i hi_sha256, it_size = Option.bind i hi_size,
     it_loaded = False, it_runtime = None, it_details = map_option hi_details i,
     it_files = Option.bind i hi_files\<rparr>"

text \<open>Rows for the names not yet seen.\<close>

fun vllm_rows :: "(string \<times> hf_ident option) list \<Rightarrow> jdict list \<Rightarrow> string list \<Rightarrow> inventory_item list" where
  "vllm_rows idents [] seen = []"
| "vllm_rows idents (m # ms) seen =
     (let fresh_names = filter (\<lambda>n. n \<notin> set seen) (fromkeys (names_of m))
      in map (\<lambda>n. vllm_item n (the (map_of idents (root_of m)))) fresh_names @ vllm_rows idents ms (seen @ fresh_names))"

definition vllm_inventory :: "vllm_api \<Rightarrow> hub \<Rightarrow> vllm \<Rightarrow> inventory_item list \<times> vllm" where
  "vllm_inventory api hub st = (case served_entries api of
       Inl _ \<Rightarrow> ([], st)
     | Inr ms \<Rightarrow> (case identify_roots hub (fromkeys (map root_of ms)) st of
           (idents, st') \<Rightarrow> (tag_inventory ''vllm'' (vllm_rows idents ms []), st')))"

section \<open>Lemmas\<close>

lemma vllm_execute_id: "cr_id (vllm_execute api p) = pq_id p"
  by (auto simp: vllm_execute_def error_row_def split: answer.splits json.splits)

interpretation vllm_runtime: batch_runtime "vllm_execute api" "base_batch_execute (vllm_execute api)" for api
  by (rule base_batch_runtime) (rule vllm_execute_id)

text \<open>A chat prompt loses \<open>top_k\<close> and nothing else, an embedding nothing.\<close>

lemma outbound_body_keeps:
  "k \<noteq> ''top_k'' \<or> pq_url p = embeddings_url \<Longrightarrow> map_of (outbound_body p) k = map_of (pq_body p) k"
proof -
  have "map_of (filter (\<lambda>e. fst e \<noteq> ''top_k'') xs) k = map_of xs k" if "k \<noteq> ''top_k''" for xs :: jdict
    using that by (induction xs) auto
  then show "k \<noteq> ''top_k'' \<or> pq_url p = embeddings_url \<Longrightarrow> ?thesis"
    by (auto simp: outbound_body_def unsupported_top_level_def)
qed

lemma fromkeys_append: "fromkeys (xs @ ys) = fromkeys xs @ filter (\<lambda>y. y \<notin> set xs) (fromkeys ys)"
proof (induction xs)
  case (Cons x xs)
  then show ?case by (auto intro: filter_cong)
qed simp

lemma vllm_rows_names:
  "map it_name (vllm_rows idents ms seen) = filter (\<lambda>n. n \<notin> set seen) (fromkeys (concat (map names_of ms)))"
proof (induction ms arbitrary: seen)
  case (Cons m ms)
  let ?new = "filter (\<lambda>n. n \<notin> set seen) (fromkeys (names_of m))"
  have "map it_name (vllm_rows idents (m # ms) seen) = ?new @
      filter (\<lambda>n. n \<notin> set (seen @ ?new)) (fromkeys (concat (map names_of ms)))"
    using Cons [of "seen @ ?new"] by (simp add: Let_def vllm_item_def comp_def)
  also have "filter (\<lambda>n. n \<notin> set (seen @ ?new)) (fromkeys (concat (map names_of ms))) =
      filter (\<lambda>n. n \<notin> set seen) (filter (\<lambda>n. n \<notin> set (names_of m)) (fromkeys (concat (map names_of ms))))"
    by (auto intro: filter_cong)
  finally show ?case by (simp add: fromkeys_append)
qed simp

section \<open>Properties\<close>

text \<open>Routing and inventory agree: whatever the server lists, the names that route to vLLM are exactly the
  names its inventory reports, each once and in the same order, every row tagged with the runtime.\<close>

theorem vllm_names_agree:
  "map it_name (fst (vllm_inventory api hub st)) = vllm_list_models api \<and> distinct (vllm_list_models api) \<and>
   set (map it_runtime (fst (vllm_inventory api hub st))) \<subseteq> {Some ''vllm''}"
  by (auto simp: vllm_inventory_def vllm_list_models_def tag_inventory_def vllm_rows_names comp_def
      split: sum.splits prod.splits)

end
