(* ===== verification/Exec_Llamacpp.thy ===== *)
theory Exec_Llamacpp
  imports Executor_Base
begin

text \<open>
  \<open>daemon/daemon/executors/llamacpp.py\<close>: the executor for a provider's \<open>llama-server\<close>. The mutable
  fields are the record \<open>llamacpp\<close>, the server the record \<open>llamacpp_api\<close> of its answers
  (of \<open>/health\<close>, whether it is 200). The served
  directory is a map from the name of a model to its file: size, modification time, parsed sidecar and
  what hashing it gives. Names, ids and aliases are strings, \<open>meta\<close> is an object or absent, as the
  server documents; anything else in their place is skipped.
\<close>

section \<open>State, server, directory\<close>

record ident =
  id_sha256 :: string
  id_size :: int
  id_mtime :: rat
  id_source_ref :: json
  id_source_revision :: json

record llamacpp =
  ll_version :: json
  ll_model_path :: json
  ll_total_slots :: json
  ll_served :: "string list option"
  ll_identity :: "(string \<times> ident) list"

definition new_llamacpp :: llamacpp where
  "new_llamacpp = \<lparr>ll_version = JNull, ll_model_path = JNull, ll_total_slots = JNull, ll_served = None, ll_identity = []\<rparr>"

record llamacpp_api =
  la_props :: answer
  la_health :: bool
  la_models :: answer
  la_request :: "prompt \<Rightarrow> answer"

record gguf_file =
  gg_size :: int
  gg_mtime :: rat
  gg_sidecar :: "json option"
  gg_hash :: "string option"

type_synonym gguf_dir = "string \<Rightarrow> gguf_file option"

section \<open>The model guard\<close>

definition mismatch :: "llamacpp \<Rightarrow> json \<Rightarrow> bool" where
  "mismatch st requested =
     (case ll_served st of
        None \<Rightarrow> False
      | Some served \<Rightarrow> jtruthy requested \<and> \<not> (case requested of JStr s \<Rightarrow> s \<in> set served | _ \<Rightarrow> False))"

definition status_text :: "int \<Rightarrow> string" where
  "status_text code = ''HTTP '' @ py_str (\<lambda>_. []) (JInt code)"

definition llamacpp_execute :: "llamacpp_api \<Rightarrow> prompt \<Rightarrow> llamacpp \<Rightarrow> completion" where
  "llamacpp_execute api p st =
     (let requested = jget ''model'' (pq_body p) in
      if mismatch st requested then error_row (pq_id p) ''MODEL_MISMATCH''
      else (case la_request api p of
          TimedOut \<Rightarrow> error_row (pq_id p) ''Timeout''
        | ErrorStatus code t \<Rightarrow>
            error_row (pq_id p) (if code = 501 then ''UNSUPPORTED_ENDPOINT'' else status_text code)
        | Reply (JObj body) \<Rightarrow>
            let served = jget ''model'' body in
            if jtruthy requested \<and> jtruthy served \<and> served \<noteq> requested then error_row (pq_id p) ''MODEL_MISMATCH''
            else \<lparr>cr_id = pq_id p, cr_response = Some body, cr_error = None\<rparr>
        | _ \<Rightarrow> error_row (pq_id p) ''Unexpected error''))"

definition llamacpp_capabilities :: capabilities where
  "llamacpp_capabilities = \<lparr>cap_logprobs = True, cap_completions = True, cap_prompt_scoring = False\<rparr>"

section \<open>What it serves\<close>

definition models_payload :: "llamacpp_api \<Rightarrow> jdict list" where
  "models_payload api = (case la_models api of
       Reply (JObj d) \<Rightarrow> (case jget ''data'' d of JArr xs \<Rightarrow> List.map_filter jdict_of xs | _ \<Rightarrow> [])
     | _ \<Rightarrow> [])"

definition nonempty_str :: "json \<Rightarrow> string option" where
  "nonempty_str v = (case v of JStr s \<Rightarrow> if s = [] then None else Some s | _ \<Rightarrow> None)"

definition entry_names :: "jdict \<Rightarrow> string list" where
  "entry_names e = fromkeys (List.map_filter nonempty_str (jget ''id'' e #
     (case jget ''aliases'' e of JArr xs \<Rightarrow> xs | _ \<Rightarrow> [])))"

text \<open>\<open>names\<close> grows by the names not yet in it.\<close>

definition served_names :: "jdict list \<Rightarrow> string list" where
  "served_names entries = fromkeys (concat (map entry_names entries))"

definition cache_served :: "string list \<Rightarrow> llamacpp \<Rightarrow> llamacpp" where
  "cache_served names st = (if names \<noteq> [] then st\<lparr>ll_served := Some names\<rparr> else st)"

definition refresh_served :: "llamacpp_api \<Rightarrow> llamacpp \<Rightarrow> string list \<times> llamacpp" where
  "refresh_served api st =
     (let names = served_names (models_payload api) in (names, cache_served names st))"

definition llamacpp_list_models :: "llamacpp_api \<Rightarrow> llamacpp \<Rightarrow> string list \<times> llamacpp" where
  "llamacpp_list_models api st = refresh_served api st"

definition is_resident :: "jdict \<Rightarrow> bool" where
  "is_resident e \<longleftrightarrow> (case jget ''status'' e of JObj d \<Rightarrow> jget ''value'' d = JStr ''loaded'' | _ \<Rightarrow> True)"

definition llamacpp_running_models :: "llamacpp_api \<Rightarrow> llamacpp \<Rightarrow> string list \<times> llamacpp" where
  "llamacpp_running_models api st =
     (let es = models_payload api
      in (served_names (filter is_resident es), cache_served (served_names es) st))"

definition read_props :: "llamacpp_api \<Rightarrow> llamacpp \<Rightarrow> llamacpp" where
  "read_props api st = (case la_props api of
       Reply (JObj d) \<Rightarrow> st\<lparr>ll_version := jget ''build_info'' d, ll_model_path := jget ''model_path'' d,
                          ll_total_slots := jget ''total_slots'' d\<rparr>
     | _ \<Rightarrow> st)"

definition llamacpp_health_check :: "llamacpp_api \<Rightarrow> llamacpp \<Rightarrow> bool \<times> llamacpp" where
  "llamacpp_health_check api st =
     (let st1 = read_props api st in
      if la_health api then (True, snd (refresh_served api st1)) else (False, st1))"

section \<open>Identity of the files\<close>

definition hashes_per_beat :: nat where "hashes_per_beat = 1"

text \<open>The staged identity, if it is still about this file: an object with a hash and this very size.\<close>

definition read_sidecar :: "gguf_file \<Rightarrow> jdict option" where
  "read_sidecar f = (case gg_sidecar f of
       Some (JObj d) \<Rightarrow>
         if nonempty_str (jget ''sha256'' d) = None then None
         else if jnum (jget ''size'' d) = Some (of_int (gg_size f)) then Some d else None
     | _ \<Rightarrow> None)"

definition staged_ident :: "gguf_file \<Rightarrow> jdict \<Rightarrow> ident" where
  "staged_ident f d = \<lparr>id_sha256 = the (nonempty_str (jget ''sha256'' d)), id_size = gg_size f, id_mtime = gg_mtime f,
     id_source_ref = jget ''source_ref'' d, id_source_revision = jget ''source_revision'' d\<rparr>"

definition hashed_ident :: "gguf_file \<Rightarrow> string \<Rightarrow> ident" where
  "hashed_ident f sha = \<lparr>id_sha256 = sha, id_size = gg_size f, id_mtime = gg_mtime f,
     id_source_ref = JNull, id_source_revision = JNull\<rparr>"

definition remember_ident :: "string \<Rightarrow> ident \<Rightarrow> llamacpp \<Rightarrow> llamacpp" where
  "remember_ident name r st = st\<lparr>ll_identity := dict_set name r (ll_identity st)\<rparr>"

text \<open>The beat's remaining hashes and the sidecars written so far go along with the state.\<close>

record beat =
  bt_state :: llamacpp
  bt_budget :: nat
  bt_hashed :: "string list"
  bt_sidecars :: "(string \<times> string \<times> int) list"

definition identify :: "gguf_dir \<Rightarrow> string \<Rightarrow> beat \<Rightarrow> ident option \<times> beat" where
  "identify dir name b = (case dir name of
       None \<Rightarrow> (None, b)
     | Some f \<Rightarrow>
         let cached = map_of (ll_identity (bt_state b)) name in
         if cached \<noteq> None \<and> id_size (the cached) = gg_size f \<and> id_mtime (the cached) = gg_mtime f then (cached, b)
         else (case read_sidecar f of
             Some d \<Rightarrow> (Some (staged_ident f d),
               b\<lparr>bt_state := remember_ident name (staged_ident f d) (bt_state b)\<rparr>)
           | None \<Rightarrow>
               if bt_budget b = 0 then (None, b)
               else let b1 = b\<lparr>bt_budget := bt_budget b - 1, bt_hashed := bt_hashed b @ [name]\<rparr> in
                 (case gg_hash f of
                    None \<Rightarrow> (None, b1)
                  | Some sha \<Rightarrow> (Some (hashed_ident f sha),
                      b1\<lparr>bt_state := remember_ident name (hashed_ident f sha) (bt_state b1),
                         bt_sidecars := bt_sidecars b1 @ [(name, sha, gg_size f)]\<rparr>))))"

definition meta_of :: "jdict \<Rightarrow> jdict" where
  "meta_of e = (case jget ''meta'' e of JObj d \<Rightarrow> d | _ \<Rightarrow> [])"

definition ident_details :: "jdict \<Rightarrow> ident option \<Rightarrow> jdict" where
  "ident_details m r = [(''format'', JStr ''gguf''), (''quantization_level'', jget ''ftype'' m),
     (''parameter_count'', jget ''n_params'' m), (''context_length'', jget ''n_ctx_train'' m),
     (''embedding_length'', jget ''n_embd'' m)] @
     (case r of None \<Rightarrow> [] | Some i \<Rightarrow>
        (if jtruthy (id_source_ref i) then [(''source_ref'', id_source_ref i)] else []) @
        (if jtruthy (id_source_revision i) then [(''source_revision'', id_source_revision i)] else []))"

text \<open>\<open>identity.get("size") or meta.get("size")\<close>; a size that is no integer is taken for absent.\<close>

definition item_size :: "jdict \<Rightarrow> ident option \<Rightarrow> int option" where
  "item_size m r = (let fallback = (case jget ''size'' m of JInt n \<Rightarrow> Some n | _ \<Rightarrow> None) in
     case r of None \<Rightarrow> fallback | Some i \<Rightarrow> if id_size i \<noteq> 0 then Some (id_size i) else fallback)"

fun inventory_rows :: "gguf_dir \<Rightarrow> jdict list \<Rightarrow> beat \<Rightarrow> inventory_item list \<times> beat" where
  "inventory_rows dir [] b = ([], b)"
| "inventory_rows dir (e # es) b = (case nonempty_str (jget ''id'' e) of
       None \<Rightarrow> inventory_rows dir es b
     | Some name \<Rightarrow> (case identify dir name b of (r, b1) \<Rightarrow> (case inventory_rows dir es b1 of (its, b2) \<Rightarrow>
         (\<lparr>it_name = name, it_sha256 = map_option id_sha256 r, it_size = item_size (meta_of e) r,
           it_loaded = False, it_runtime = None, it_details = Some (ident_details (meta_of e) r), it_files = None\<rparr> # its,
          b2))))"

definition new_beat :: "llamacpp \<Rightarrow> beat" where
  "new_beat st = \<lparr>bt_state = st, bt_budget = hashes_per_beat, bt_hashed = [], bt_sidecars = []\<rparr>"

definition llamacpp_inventory :: "llamacpp_api \<Rightarrow> gguf_dir \<Rightarrow> llamacpp \<Rightarrow> inventory_item list \<times> beat" where
  "llamacpp_inventory api dir st =
     (case inventory_rows dir (models_payload api) (new_beat st) of (its, b) \<Rightarrow> (tag_inventory ''llamacpp'' its, b))"

section \<open>Lemmas\<close>

lemma llamacpp_execute_id: "cr_id (llamacpp_execute api p st) = pq_id p"
  by (auto simp: llamacpp_execute_def error_row_def Let_def split: answer.splits json.splits)

interpretation llamacpp_runtime: batch_runtime "\<lambda>p. llamacpp_execute api p st"
    "base_batch_execute (\<lambda>p. llamacpp_execute api p st)" for api st
  by (rule base_batch_runtime) (rule llamacpp_execute_id)

text \<open>A failed listing keeps the guard: forgetting the served names would switch it off.\<close>

lemma failed_listing_keeps_guard:
  "models_payload api = [] \<Longrightarrow> snd (llamacpp_list_models api st) = st \<and> snd (llamacpp_running_models api st) = st"
  by (simp add: llamacpp_list_models_def llamacpp_running_models_def refresh_served_def cache_served_def served_names_def)

lemma running_subset_served:
  "set (fst (llamacpp_running_models api st)) \<subseteq> set (fst (llamacpp_list_models api st))"
  by (auto simp: llamacpp_running_models_def llamacpp_list_models_def refresh_served_def served_names_def Let_def)

definition sound_ident :: "gguf_file \<Rightarrow> ident \<Rightarrow> bool" where
  "sound_ident f r \<longleftrightarrow> id_size r = gg_size f \<and> id_mtime r = gg_mtime f"

lemma identify_spec:
  assumes "identify dir name b = (r, b')"
  shows "bt_budget b' + length (bt_hashed b') = bt_budget b + length (bt_hashed b)"
    "length (bt_sidecars b') + length (bt_hashed b) \<le> length (bt_sidecars b) + length (bt_hashed b')"
    "r = Some i \<Longrightarrow> \<exists>f. dir name = Some f \<and> sound_ident f i \<and> map_of (ll_identity (bt_state b')) name = Some i \<and>
       (map_of (ll_identity (bt_state b)) name = Some i \<or> (\<exists>d. read_sidecar f = Some d \<and> i = staged_ident f d) \<or>
        gg_hash f = Some (id_sha256 i))"
  using assms by (auto simp: identify_def Let_def sound_ident_def staged_ident_def hashed_ident_def remember_ident_def
      split: option.splits if_splits)

lemma inventory_rows_budget:
  "inventory_rows dir es b = (its, b') \<Longrightarrow> bt_budget b' + length (bt_hashed b') = bt_budget b + length (bt_hashed b) \<and>
    length (bt_sidecars b') + length (bt_hashed b) \<le> length (bt_sidecars b) + length (bt_hashed b')"
proof (induction es arbitrary: b its)
  case (Cons e es)
  show ?case
  proof (cases "nonempty_str (jget ''id'' e)")
    case None
    then show ?thesis using Cons by simp
  next
    case (Some name)
    obtain r b1 where i: "identify dir name b = (r, b1)" by (rule prod.exhaust)
    obtain its1 where "inventory_rows dir es b1 = (its1, b')"
      using Cons.prems Some i by (auto split: prod.splits)
    from Cons.IH [OF this] identify_spec(1,2) [OF i] show ?thesis by linarith
  qed
qed simp

section \<open>Properties\<close>

text \<open>C29: A prompt that names a model succeeds exactly when nothing that is known speaks against it: the served
  names are not known yet or have that name among them, and the server answers with an object that names no model or
  that one; the answer is then reported as it came. What is known to be another model is refused as a mismatch, by
  the served names alone without asking the server. (While the names are unknown, a server that does not say which
  model answered is believed.)\<close>

theorem llamacpp_guard:
  assumes "jget ''model'' (pq_body p) = JStr m" "m \<noteq> []"
  shows "(is_success (llamacpp_execute api p st) \<longleftrightarrow>
      (\<forall>served. ll_served st = Some served \<longrightarrow> m \<in> set served) \<and>
      (\<exists>body. la_request api p = Reply (JObj body) \<and> (jtruthy (jget ''model'' body) \<longrightarrow> jget ''model'' body = JStr m))) \<and>
    (is_success (llamacpp_execute api p st) \<longrightarrow>
      la_request api p = Reply (JObj (the (cr_response (llamacpp_execute api p st))))) \<and>
    (cr_error (llamacpp_execute api p st) = Some ''MODEL_MISMATCH'' \<longleftrightarrow>
      (\<exists>served. ll_served st = Some served \<and> m \<notin> set served) \<or>
      (\<exists>body. la_request api p = Reply (JObj body) \<and> jtruthy (jget ''model'' body) \<and> jget ''model'' body \<noteq> JStr m))"
proof (cases "mismatch st (JStr m)")
  case True
  then have known: "\<exists>served. ll_served st = Some served \<and> m \<notin> set served" by (auto simp: mismatch_def split: option.splits)
  have "llamacpp_execute api p st = error_row (pq_id p) ''MODEL_MISMATCH''" using True assms(1) by (simp add: llamacpp_execute_def)
  then show ?thesis using known by (auto simp: is_success_def error_row_def)
next
  case False
  then have known: "\<forall>served. ll_served st = Some served \<longrightarrow> m \<in> set served" using assms(2) by (auto simp: mismatch_def)
  have stat: "status_text code \<noteq> ''MODEL_MISMATCH''" for code by (simp add: status_text_def)
  show ?thesis
  proof (cases "\<exists>body. la_request api p = Reply (JObj body)")
    case True
    then obtain body where "la_request api p = Reply (JObj body)" by blast
    then show ?thesis using False known assms
      by (auto simp: llamacpp_execute_def is_success_def error_row_def Let_def)
  next
    case no: False
    then show ?thesis using False known assms stat
      by (auto simp: llamacpp_execute_def is_success_def error_row_def Let_def split: answer.splits json.splits)
  qed
qed

definition llama_prompt :: prompt where
  "llama_prompt = \<lparr>pq_id = ''p'', pq_method = ''POST'', pq_url = ''/v1/chat/completions'', pq_body = [(''model'', JStr ''m'')]\<rparr>"

definition llama_api :: llamacpp_api where
  "llama_api = \<lparr>la_props = TimedOut, la_health = True,
     la_models = Reply (JObj [(''data'', JArr [JObj [(''id'', JStr ''m'')], JObj [(''id'', JStr ''k'')]])]),
     la_request = (\<lambda>_. Reply (JObj [(''model'', JStr ''m'')]))\<rparr>"

theorem llamacpp_guard_witness:
  "is_success (llamacpp_execute llama_api llama_prompt (snd (llamacpp_health_check llama_api new_llamacpp))) \<and>
   cr_error (llamacpp_execute llama_api (llama_prompt\<lparr>pq_body := [(''model'', JStr ''x'')]\<rparr>)
     (snd (llamacpp_health_check llama_api new_llamacpp))) = Some ''MODEL_MISMATCH''"
proof -
  have served: "ll_served (snd (llamacpp_health_check llama_api new_llamacpp)) = Some [''m'', ''k'']" by code_simp
  have body: "jget ''model'' (pq_body llama_prompt) = JStr ''m''"
    "jget ''model'' (pq_body (llama_prompt\<lparr>pq_body := [(''model'', JStr ''x'')]\<rparr>)) = JStr ''x''" by code_simp+
  have answer: "la_request llama_api p = Reply (JObj [(''model'', JStr ''m'')])" for p by (simp add: llama_api_def)
  have echo: "jget ''model'' [(''model'', JStr ''m'')] = JStr ''m''" by code_simp
  show ?thesis using llamacpp_guard [OF body(1), of llama_api] llamacpp_guard [OF body(2), of llama_api]
    by (simp add: served answer echo)
qed

text \<open>One beat hashes at most one file, and writes at most that one's sidecar, however many models are
  served; and a hash that is reported for a file was cached for its present size and time, staged for its
  present size, or computed from it.\<close>

theorem llamacpp_identity_bounded:
  assumes "identify dir name b = (Some i, b')"
  shows "length (bt_hashed (snd (llamacpp_inventory api dir st))) \<le> 1 \<and>
    length (bt_sidecars (snd (llamacpp_inventory api dir st))) \<le> length (bt_hashed (snd (llamacpp_inventory api dir st))) \<and>
    (\<exists>f. dir name = Some f \<and> id_size i = gg_size f \<and> id_mtime i = gg_mtime f \<and>
       (map_of (ll_identity (bt_state b)) name = Some i \<or> (\<exists>d. read_sidecar f = Some d \<and> i = staged_ident f d) \<or>
        gg_hash f = Some (id_sha256 i)))"
proof -
  obtain its b2 where rows: "inventory_rows dir (models_payload api) (new_beat st) = (its, b2)" by (rule prod.exhaust)
  then have "snd (llamacpp_inventory api dir st) = b2" by (simp add: llamacpp_inventory_def)
  then show ?thesis
    using inventory_rows_budget [OF rows] identify_spec(3) [OF assms refl]
    by (auto simp: new_beat_def hashes_per_beat_def sound_ident_def)
qed

definition llama_dir :: gguf_dir where
  "llama_dir = [''m'' \<mapsto> \<lparr>gg_size = 3, gg_mtime = 1, gg_sidecar = None, gg_hash = Some ''aa''\<rparr>,
                ''k'' \<mapsto> \<lparr>gg_size = 4, gg_mtime = 1, gg_sidecar = None, gg_hash = Some ''bb''\<rparr>]"

theorem llamacpp_identity_bounded_witness:
  "length (bt_hashed (snd (llamacpp_inventory llama_api llama_dir new_llamacpp))) \<le> 1 \<and>
   map it_sha256 (fst (llamacpp_inventory llama_api llama_dir new_llamacpp)) = [Some ''aa'', None]"
proof
  let ?f = "\<lparr>gg_size = 3, gg_mtime = 1, gg_sidecar = None, gg_hash = Some ''aa''\<rparr>"
  have "fst (identify llama_dir ''m'' (new_beat new_llamacpp)) = Some (hashed_ident ?f ''aa'')" by code_simp
  then have "identify llama_dir ''m'' (new_beat new_llamacpp) =
      (Some (hashed_ident ?f ''aa''), snd (identify llama_dir ''m'' (new_beat new_llamacpp)))" by (metis prod.collapse)
  from llamacpp_identity_bounded [OF this]
  show "length (bt_hashed (snd (llamacpp_inventory llama_api llama_dir new_llamacpp))) \<le> 1" by blast
  show "map it_sha256 (fst (llamacpp_inventory llama_api llama_dir new_llamacpp)) = [Some ''aa'', None]" by code_simp
qed

end
