(* ===== verification/Hardware.thy ===== *)
theory Hardware
  imports Executor_Base
begin

text \<open>
  \<open>daemon/daemon/hardware.py\<close>: what a worker's GPUs and memory are, read from the output of
  vendor tools. A tool's output is an option: None when it is absent, fails or times out.
  Parameters: \<open>flt\<close> (\<open>float\<close> of a string, None when it raises), \<open>rnd\<close> (\<open>round\<close> to so many
  decimals), \<open>loads\<close> (\<open>json.loads\<close>), \<open>repr\<close> (\<open>str\<close> of a float or a container).
\<close>

type_synonym py_float = "string \<Rightarrow> rat option"
type_synonym py_round = "nat \<Rightarrow> rat \<Rightarrow> rat"

record gpu =
  gp_name :: string
  gp_vendor :: string
  gp_vram_gb :: rat
  gp_driver :: string
  gp_cuda :: string
  gp_rocm :: string
  gp_index :: int

record gpu_sample =
  gs_utilization :: rat
  gs_used_mb :: rat
  gs_total_mb :: rat

section \<open>Reading tables and versions\<close>

definition newline :: char where "newline = CHR 0x0A"

definition csv_rows :: "string \<Rightarrow> string list list" where
  "csv_rows out = map (\<lambda>line. map strip (split_on (CHR '','') line)) (split_on newline (strip out))"

definition is_numeric :: "string \<Rightarrow> bool" where
  "is_numeric s \<longleftrightarrow> s \<noteq> [] \<and> list_all (\<lambda>c. let n = (of_char c :: nat) in 48 \<le> n \<and> n \<le> 57) s"

definition num_of :: "string \<Rightarrow> int" where
  "num_of s = fold (\<lambda>c n. 10 * n + (int (of_char c) - 48)) s 0"

text \<open>The first match of \<open>key\<close>, white space, and a run of digits and dots.\<close>

definition version_char :: "char \<Rightarrow> bool" where
  "version_char c \<longleftrightarrow> c = CHR ''.'' \<or> is_numeric [c]"

fun search_version :: "string \<Rightarrow> string \<Rightarrow> string option" where
  "search_version key [] = None"
| "search_version key (c # s) =
     (let rest = drop (length key) (c # s); v = takeWhile version_char (dropWhile is_space rest) in
      if prefix key (c # s) \<and> takeWhile is_space rest \<noteq> [] \<and> v \<noteq> [] then Some v else search_version key s)"

definition or_blank :: "string option \<Rightarrow> string" where
  "or_blank x = (case x of None \<Rightarrow> [] | Some s \<Rightarrow> s)"

section \<open>NVIDIA\<close>

text \<open>\<open>CUDA_VISIBLE_DEVICES\<close>: the cards by index, from the listing of indices and UUIDs.\<close>

definition uuid_row :: "string list \<Rightarrow> (int \<times> string) list \<Rightarrow> (int \<times> string) list" where
  "uuid_row parts d = (case parts of
       i # u # _ \<Rightarrow> if is_numeric i then dict_set (num_of i) u d else d
     | _ \<Rightarrow> d)"

definition uuid_table :: "string \<Rightarrow> (int \<times> string) list" where
  "uuid_table out = fold uuid_row (csv_rows out) []"

definition resolve_token :: "(int \<times> string) list \<Rightarrow> string \<Rightarrow> int option" where
  "resolve_token uuids token =
     (if is_numeric token \<and> map_of uuids (num_of token) \<noteq> None then Some (num_of token)
      else (case map fst (filter (\<lambda>e. token \<noteq> [] \<and> prefix token (snd e)) uuids) of
          [i] \<Rightarrow> Some i | _ \<Rightarrow> None))"

fun visible_loop :: "(int \<times> string) list \<Rightarrow> string list \<Rightarrow> int list \<Rightarrow> int list" where
  "visible_loop uuids [] acc = acc"
| "visible_loop uuids (t # ts) acc = (case resolve_token uuids t of
       None \<Rightarrow> acc
     | Some i \<Rightarrow> visible_loop uuids ts (if i \<in> set acc then acc else acc @ [i]))"

definition cuda_visible_indices :: "string option \<Rightarrow> string option \<Rightarrow> int list option" where
  "cuda_visible_indices cuda_mask listing = (case cuda_mask of
       None \<Rightarrow> None
     | Some raw \<Rightarrow> (case listing of
           None \<Rightarrow> Some []
         | Some out \<Rightarrow> Some (visible_loop (uuid_table out) (map strip (split_on (CHR '','') raw)) [])))"

text \<open>The rows read before one that raises, and whether one did. A blank line is skipped.\<close>

definition nvidia_row :: "py_float \<Rightarrow> py_round \<Rightarrow> string \<Rightarrow> string \<Rightarrow> string list \<Rightarrow> gpu option option" where
  "nvidia_row flt rnd driver cuda parts = (case parts of
       i # n # m # _ \<Rightarrow> (case (flt m, py_int i) of
           (Some mb, Some idx) \<Rightarrow> Some (Some \<lparr>gp_name = n, gp_vendor = ''nvidia'', gp_vram_gb = rnd 2 (mb / 1024),
             gp_driver = driver, gp_cuda = cuda, gp_rocm = [], gp_index = idx\<rparr>)
         | _ \<Rightarrow> None)
     | _ \<Rightarrow> Some None)"

fun read_rows :: "(string list \<Rightarrow> 'a option option) \<Rightarrow> string list list \<Rightarrow> 'a list \<times> bool" where
  "read_rows row [] = ([], False)"
| "read_rows row (r # rs) = (case row r of
       None \<Rightarrow> ([], True)
     | Some x \<Rightarrow> (case read_rows row rs of (xs, broke) \<Rightarrow> (case x of None \<Rightarrow> xs | Some v \<Rightarrow> v # xs, broke)))"

text \<open>\<open>banner\<close>, \<open>table\<close> and \<open>listing\<close> are the three runs of \<open>nvidia-smi\<close>. On an exception the rows read so
  far are returned as they are, before the mask is applied.\<close>

definition detect_nvidia :: "py_float \<Rightarrow> py_round \<Rightarrow> bool \<Rightarrow> string option \<Rightarrow> string option \<Rightarrow> string option \<Rightarrow>
    string option \<Rightarrow> gpu list" where
  "detect_nvidia flt rnd present banner table cuda_mask listing =
     (if \<not> present then []
      else (case (banner, table) of
          (Some b, Some t) \<Rightarrow>
            (let driver = or_blank (search_version ''Driver Version:'' b);
                 cuda = or_blank (search_version ''CUDA Version:'' b);
                 (gpus, broke) = read_rows (nvidia_row flt rnd driver cuda) (csv_rows t)
             in if broke then gpus
                else (case cuda_visible_indices cuda_mask listing of
                    None \<Rightarrow> gpus
                  | Some visible \<Rightarrow> concat (map (\<lambda>i. case List.find (\<lambda>g. gp_index g = i) (rev gpus) of
                        None \<Rightarrow> [] | Some g \<Rightarrow> [g]) visible)))
        | _ \<Rightarrow> []))"

definition sample_row :: "py_float \<Rightarrow> string list \<Rightarrow> gpu_sample option option" where
  "sample_row flt parts = (case parts of
       u # a # b # _ \<Rightarrow> (case (flt u, flt a, flt b) of
           (Some x, Some y, Some z) \<Rightarrow> Some (Some \<lparr>gs_utilization = x, gs_used_mb = y, gs_total_mb = z\<rparr>)
         | _ \<Rightarrow> None)
     | _ \<Rightarrow> Some None)"

definition nvidia_utilization :: "py_float \<Rightarrow> bool \<Rightarrow> string option \<Rightarrow> string option \<Rightarrow> string option \<Rightarrow>
    gpu_sample list" where
  "nvidia_utilization flt present table cuda_mask listing =
     (if \<not> present then []
      else (case table of
          None \<Rightarrow> []
        | Some t \<Rightarrow> (case read_rows (sample_row flt) (csv_rows t) of (samples, broke) \<Rightarrow>
            if broke then samples
            else (case cuda_visible_indices cuda_mask listing of
                None \<Rightarrow> samples
              | Some visible \<Rightarrow> map (\<lambda>i. samples ! nat i) (filter (\<lambda>i. i < int (length samples)) visible)))))"

section \<open>AMD\<close>

text \<open>\<open>card12\<close> to 12.\<close>

definition card_index :: "string \<Rightarrow> int option" where
  "card_index key = (if prefix ''card'' key \<and> is_numeric (drop 4 key) then Some (num_of (drop 4 key)) else None)"

text \<open>The first value whose key begins with one of the prefixes, tried in turn; keys are lower-cased, a
  later one of two equal keys wins in the earlier's place.\<close>

definition rocm_field :: "(json \<Rightarrow> string) \<Rightarrow> jdict \<Rightarrow> string list \<Rightarrow> string option" where
  "rocm_field repr entry labels =
     (let lowered = fold (\<lambda>(k, v) d. dict_set (lower k) v d) entry [];
          hits = concat (map (\<lambda>p. filter (\<lambda>e. prefix (lower p) (fst e)) lowered) labels)
      in (case hits of [] \<Rightarrow> None | (k, v) # _ \<Rightarrow> Some (py_str repr v)))"

definition card_entry :: "string \<times> json \<Rightarrow> (int \<times> jdict) list \<Rightarrow> (int \<times> jdict) list" where
  "card_entry e d = (case (card_index (fst e), snd e) of
       (Some i, JObj c) \<Rightarrow> dict_set i c d
     | _ \<Rightarrow> d)"

text \<open>The cards in the order of their index; None when the output is no JSON object.\<close>

definition parse_rocm_json :: "loads \<Rightarrow> string \<Rightarrow> (int \<times> jdict) list option" where
  "parse_rocm_json loads raw = (case loads raw of
       Loaded (JObj d) \<Rightarrow> Some (sort_key fst (fold card_entry d []))
     | _ \<Rightarrow> None)"

definition rocm_system :: "loads \<Rightarrow> string \<Rightarrow> jdict" where
  "rocm_system loads raw = (case loads raw of
       Loaded (JObj d) \<Rightarrow> (case jget ''system'' d of JObj s \<Rightarrow> s | _ \<Rightarrow> []) | _ \<Rightarrow> [])"

definition amd_name :: "(json \<Rightarrow> string) \<Rightarrow> jdict \<Rightarrow> string" where
  "amd_name repr entry = (case List.find (\<lambda>x. x \<noteq> []) (map (\<lambda>p. or_blank (rocm_field repr entry [p]))
       [''Card series'', ''Card SKU'', ''Card model'']) of Some n \<Rightarrow> n | None \<Rightarrow> ''AMD GPU'')"

definition amd_gpu :: "(json \<Rightarrow> string) \<Rightarrow> py_float \<Rightarrow> py_round \<Rightarrow> string \<Rightarrow> string \<Rightarrow> int \<times> jdict \<Rightarrow> gpu option" where
  "amd_gpu repr flt rnd driver rocm c =
     (let total = or_blank (rocm_field repr (snd c) [''VRAM Total Memory'']) in
      map_option (\<lambda>v. \<lparr>gp_name = amd_name repr (snd c), gp_vendor = ''amd'', gp_vram_gb = v, gp_driver = driver,
          gp_cuda = [], gp_rocm = rocm, gp_index = fst c\<rparr>)
        (if total = [] then Some 0 else map_option (\<lambda>b. rnd 2 (b / 1073741824)) (flt total)))"

text \<open>The values of the rows before one that raises.\<close>

fun until_raise :: "('a \<Rightarrow> 'b option) \<Rightarrow> 'a list \<Rightarrow> 'b list" where
  "until_raise f [] = []"
| "until_raise f (x # xs) = (case f x of None \<Rightarrow> [] | Some y \<Rightarrow> y # until_raise f xs)"

text \<open>\<open>rocm\<close>: the release read from ROCm's version files.\<close>

definition detect_amd :: "loads \<Rightarrow> (json \<Rightarrow> string) \<Rightarrow> py_float \<Rightarrow> py_round \<Rightarrow> string \<Rightarrow> string option \<Rightarrow> gpu list" where
  "detect_amd loads repr flt rnd rocm out = (case out of
       None \<Rightarrow> []
     | Some raw \<Rightarrow> (case parse_rocm_json loads raw of
           None \<Rightarrow> []
         | Some cards \<Rightarrow> until_raise (amd_gpu repr flt rnd
             (or_blank (rocm_field repr (rocm_system loads raw) [''Driver version''])) rocm) cards))"

text \<open>A card without a memory total gives no sample.\<close>

definition amd_sample :: "(json \<Rightarrow> string) \<Rightarrow> py_float \<Rightarrow> int \<times> jdict \<Rightarrow> gpu_sample option option" where
  "amd_sample repr flt c =
     (let use = rocm_field repr (snd c) [''GPU use'']; total = rocm_field repr (snd c) [''VRAM Total Memory''];
          used = or_blank (rocm_field repr (snd c) [''VRAM Total Used Memory'']) in
      case total of
        None \<Rightarrow> Some None
      | Some b \<Rightarrow> (case (if or_blank use \<in> {[], ''N/A''} then Some 0 else flt (or_blank use),
                         if used = [] then Some 0 else map_option (\<lambda>v. v / 1048576) (flt used), flt b) of
            (Some x, Some y, Some z) \<Rightarrow> Some (Some \<lparr>gs_utilization = x, gs_used_mb = y, gs_total_mb = z / 1048576\<rparr>)
          | _ \<Rightarrow> None))"

definition amd_utilization :: "loads \<Rightarrow> (json \<Rightarrow> string) \<Rightarrow> py_float \<Rightarrow> string option \<Rightarrow> gpu_sample list" where
  "amd_utilization loads repr flt out = (case out of
       None \<Rightarrow> []
     | Some raw \<Rightarrow> (case parse_rocm_json loads raw of
           None \<Rightarrow> []
         | Some cards \<Rightarrow> List.map_filter id (until_raise (amd_sample repr flt) cards)))"

definition gpu_vendors_present :: "bool \<Rightarrow> bool \<Rightarrow> string list" where
  "gpu_vendors_present nvidia rocm = (if nvidia then [''nvidia''] else []) @ (if rocm then [''amd''] else [])"

section \<open>Apple Silicon\<close>

definition gib :: rat where "gib = 1073741824"

text \<open>\<open>translated\<close> and \<open>arm64\<close>: the two \<open>sysctl\<close> answers.\<close>

definition is_apple_silicon :: "string \<Rightarrow> string \<Rightarrow> string option \<Rightarrow> string option \<Rightarrow> bool" where
  "is_apple_silicon system machine translated arm64 \<longleftrightarrow> system = ''Darwin'' \<and>
     (machine = ''arm64'' \<or> translated = Some ''1'' \<or> arm64 = Some ''1'')"

definition numeric_opt :: "string option \<Rightarrow> int option" where
  "numeric_opt s = (case s of None \<Rightarrow> None | Some t \<Rightarrow> if is_numeric t then Some (num_of t) else None)"

text \<open>Metal's own figure, the operator's wired limit in MB, or 0.66 of the memory.\<close>

definition probe_apple_vram :: "py_round \<Rightarrow> rat option \<Rightarrow> string option \<Rightarrow> string option \<Rightarrow> rat" where
  "probe_apple_vram rnd metal wired memsize =
     (if metal \<noteq> None \<and> the metal \<noteq> 0 then the metal
      else if numeric_opt wired \<noteq> None \<and> the (numeric_opt wired) > 0 then rnd 2 (of_int (the (numeric_opt wired)) / 1024)
      else (case numeric_opt memsize of
          Some b \<Rightarrow> rnd 2 (of_int b / gib * (66 / 100))
        | None \<Rightarrow> 0))"

text \<open>Only a usable answer is memoised. The answer and the memo.\<close>

definition apple_vram :: "rat \<Rightarrow> rat option \<Rightarrow> rat \<times> rat option" where
  "apple_vram probed memo = (case memo of
       Some v \<Rightarrow> if v \<noteq> 0 then (v, memo) else (probed, if probed \<noteq> 0 then Some probed else memo)
     | None \<Rightarrow> (probed, if probed \<noteq> 0 then Some probed else memo))"

text \<open>\<open>displays\<close>: the entries of \<open>system_profiler\<close>, None when reading them raised. Name, cores and the
  digits of the Metal family of the built-in one.\<close>

fun metal_digits :: "string \<Rightarrow> string option" where
  "metal_digits [] = None"
| "metal_digits (c # s) =
     (let ds = takeWhile (\<lambda>d. is_numeric [d]) (drop 5 (c # s)) in
      if prefix ''metal'' (c # s) \<and> ds \<noteq> [] then Some ds else metal_digits s)"

definition metal_name :: "json \<Rightarrow> string" where
  "metal_name v = (case v of
       JStr s \<Rightarrow> (case metal_digits s of None \<Rightarrow> [] | Some ds \<Rightarrow> ''Metal '' @ ds)
     | _ \<Rightarrow> [])"

definition apple_name :: "jdict option \<Rightarrow> string" where
  "apple_name e = (case e of None \<Rightarrow> ''Apple GPU'' | Some d \<Rightarrow>
     (case (jget ''sppci_model'' d, jget ''_name'' d) of
        (JStr (c # s), _) \<Rightarrow> c # s
      | (_, JStr (c # s)) \<Rightarrow> c # s
      | _ \<Rightarrow> ''Apple GPU''))"

definition apple_gpu :: "(json \<Rightarrow> string) \<Rightarrow> jdict list option \<Rightarrow> rat \<Rightarrow> gpu option" where
  "apple_gpu repr displays vram =
     (let e = Option.bind displays (List.find (\<lambda>d. jget ''sppci_bus'' d = JStr ''spdisplays_builtin''));
          name = apple_name e;
          cores = (case e of None \<Rightarrow> JNull | Some d \<Rightarrow> jget ''sppci_cores'' d);
          family = (case e of None \<Rightarrow> JNull | Some d \<Rightarrow> jget ''spdisplays_mtlgpufamilysupport'' d) in
      if vram = 0 then None
      else Some \<lparr>gp_name = (if jtruthy cores then name @ '' ('' @ py_str repr cores @ ''-core GPU)'' else name),
        gp_vendor = ''apple'', gp_vram_gb = vram, gp_driver = metal_name family, gp_cuda = [], gp_rocm = [],
        gp_index = 0\<rparr>)"

section \<open>The machine\<close>

text \<open>\<open>line.split()\<close>.\<close>

function words_of :: "string \<Rightarrow> string list" where
  "words_of s = (let t = dropWhile is_space s in
     if t = [] then [] else takeWhile (\<lambda>c. \<not> is_space c) t # words_of (dropWhile (\<lambda>c. \<not> is_space c) t))"
  by pat_completeness auto
termination
proof (relation "measure length")
  fix s t :: string
  assume t: "t = dropWhile is_space s" "t \<noteq> []"
  have "length (dropWhile (\<lambda>c. \<not> is_space c) t) < length t"
  proof -
    obtain c cs where c: "t = c # cs" using t(2) by (cases t) auto
    have "\<not> is_space c" using t(1) c by (metis dropWhile_eq_Cons_conv)
    then show ?thesis using c length_dropWhile_le [of "\<lambda>c. \<not> is_space c" cs] by simp
  qed
  also have "length t \<le> length s" using t(1) length_dropWhile_le by simp
  finally show "(dropWhile (\<lambda>c. \<not> is_space c) t, s) \<in> measure length" by simp
qed simp

declare words_of.simps [simp del]

text \<open>The kilobytes of the first line of \<open>/proc/meminfo\<close> with the given label, in GiB; None when there is
  no such line or it cannot be read.\<close>

definition meminfo_gb :: "py_round \<Rightarrow> string \<Rightarrow> string list option \<Rightarrow> rat option" where
  "meminfo_gb rnd label lines = (case Option.bind lines (List.find (prefix label)) of
       None \<Rightarrow> None
     | Some line \<Rightarrow> (case words_of line of
           _ # kb # _ \<Rightarrow> map_option (\<lambda>n. rnd 2 (of_int n / 1048576)) (py_int kb)
         | _ \<Rightarrow> None))"

definition cpu_model :: "string list option \<Rightarrow> string" where
  "cpu_model lines = (case Option.bind lines (List.find (prefix ''model name'')) of
       None \<Rightarrow> ''Unknown CPU''
     | Some line \<Rightarrow> if CHR '':'' \<in> set line then strip (snd (partition_at (CHR '':'') line)) else ''Unknown CPU'')"

record hardware =
  hw_cpu_model :: string
  hw_ram_gb :: rat
  hw_gpus :: "gpu list"

text \<open>On an M-series Mac only the built-in GPU is reported; everywhere else what the SMI tools list.
  \<open>brand\<close> and \<open>memsize\<close> are macOS's \<open>sysctl\<close> answers.\<close>

definition detect_hardware :: "py_round \<Rightarrow> string \<Rightarrow> bool \<Rightarrow> string list option \<Rightarrow> string list option \<Rightarrow>
    string option \<Rightarrow> string option \<Rightarrow> gpu option \<Rightarrow> gpu list \<Rightarrow> gpu list \<Rightarrow> hardware" where
  "detect_hardware rnd system apple cpuinfo meminfo brand memsize built_in nvidia amd =
     (let ram = (if system = ''Linux'' then (case meminfo_gb rnd ''MemTotal:'' meminfo of None \<Rightarrow> 0 | Some g \<Rightarrow> g)
                 else if system = ''Darwin'' then
                   (case numeric_opt memsize of None \<Rightarrow> 0 | Some b \<Rightarrow> rnd 2 (of_int b / gib))
                 else 0);
          cpu = (if system = ''Linux'' then cpu_model cpuinfo
                 else if system = ''Darwin'' \<and> truthy brand then the brand else ''Unknown CPU'')
      in \<lparr>hw_cpu_model = cpu, hw_ram_gb = ram,
          hw_gpus = (if system = ''Darwin'' \<and> apple then (case built_in of None \<Rightarrow> [] | Some g \<Rightarrow> [g])
                     else nvidia @ amd)\<rparr>)"

record gpu_stats =
  st_utilization :: rat
  st_used_gb :: "rat option"
  st_total_gb :: rat

definition gpu_utilization :: "py_round \<Rightarrow> rat option \<Rightarrow> gpu_sample list \<Rightarrow> gpu_stats" where
  "gpu_utilization rnd apple samples = (case apple of
       Some vram \<Rightarrow> \<lparr>st_utilization = 0, st_used_gb = None, st_total_gb = vram\<rparr>
     | None \<Rightarrow> if samples = [] then \<lparr>st_utilization = 0, st_used_gb = Some 0, st_total_gb = 0\<rparr>
         else \<lparr>st_utilization = rnd 1 (sum_list (map gs_utilization samples) / of_nat (length samples)),
               st_used_gb = Some (rnd 2 (sum_list (map gs_used_mb samples) / 1024)),
               st_total_gb = rnd 2 (sum_list (map gs_total_mb samples) / 1024)\<rparr>)"

text \<open>\<open>vm_pages\<close>: page size and the numbers found for free and inactive pages.\<close>

definition available_ram_gb :: "py_round \<Rightarrow> string \<Rightarrow> string list option \<Rightarrow> (int option \<times> int list) option \<Rightarrow>
    rat option" where
  "available_ram_gb rnd system meminfo vm_pages =
     (if system = ''Linux'' then meminfo_gb rnd ''MemAvailable:'' meminfo
      else if system = ''Darwin'' then (case vm_pages of
          None \<Rightarrow> None
        | Some (page, counts) \<Rightarrow>
            let n = sum_list counts; bytes = (case page of None \<Rightarrow> 4096 | Some b \<Rightarrow> b) in
            if n = 0 then None else Some (rnd 2 (of_int (n * bytes) / gib)))
      else None)"

section \<open>Declared capacity\<close>

definition declared_gpu :: "py_round \<Rightarrow> string \<Rightarrow> rat \<Rightarrow> gpu" where
  "declared_gpu rnd name gb = \<lparr>gp_name = name, gp_vendor = ''other'', gp_vram_gb = rnd 2 gb, gp_driver = [],
     gp_cuda = [], gp_rocm = [], gp_index = 0\<rparr>"

definition apply_declared_vram :: "py_round \<Rightarrow> rat \<Rightarrow> string \<Rightarrow> gpu list \<Rightarrow> gpu list" where
  "apply_declared_vram rnd declared name gpus =
     (if declared \<le> 0 then gpus
      else if gpus = [] then [declared_gpu rnd name declared]
      else let probed = sum_list (map gp_vram_gb gpus) in
        map (\<lambda>g. g\<lparr>gp_vram_gb := (if length gpus = 1 \<or> probed \<le> 0
            then rnd 2 (declared / of_nat (length gpus))
            else rnd 2 (declared * gp_vram_gb g / probed))\<rparr>) gpus)"

section \<open>Lemmas\<close>

text \<open>The mask's entries up to the first that names no card, each card once.\<close>

lemma visible_loop_append: "distinct acc \<Longrightarrow> visible_loop uuids ts acc =
  acc @ filter (\<lambda>i. i \<notin> set acc) (fromkeys (map the (takeWhile (\<lambda>x. x \<noteq> None) (map (resolve_token uuids) ts))))"
proof (induction ts arbitrary: acc)
  case (Cons t ts)
  show ?case
  proof (cases "resolve_token uuids t")
    case (Some i)
    let ?acc = "if i \<in> set acc then acc else acc @ [i]"
    let ?rest = "fromkeys (map the (takeWhile (\<lambda>x. x \<noteq> None) (map (resolve_token uuids) ts)))"
    have "visible_loop uuids ts ?acc = ?acc @ filter (\<lambda>j. j \<notin> set ?acc) ?rest"
      using Cons by auto
    moreover have "filter (\<lambda>j. j \<notin> set acc) (filter (\<lambda>y. y \<noteq> i) ?rest) =
        filter (\<lambda>j. j \<notin> set acc \<and> j \<noteq> i) ?rest" by (simp add: conj_commute)
    moreover have "filter (\<lambda>j. j \<notin> set acc \<and> j \<noteq> i) ?rest = filter (\<lambda>j. j \<notin> set acc) ?rest" if "i \<in> set acc"
      using that by (intro filter_cong) auto
    ultimately show ?thesis using Some by (auto simp: conj_commute)
  qed simp
qed simp

lemma resolve_token_known: "resolve_token uuids t = Some i \<Longrightarrow> i \<in> fst ` set uuids"
proof -
  assume r: "resolve_token uuids t = Some i"
  show ?thesis
  proof (cases "is_numeric t \<and> map_of uuids (num_of t) \<noteq> None")
    case True
    then show ?thesis using r by (auto simp: resolve_token_def dest: map_of_SomeD intro: rev_image_eqI)
  next
    case False
    then have "map fst (filter (\<lambda>e. t \<noteq> [] \<and> prefix t (snd e)) uuids) = [i]"
      using r by (auto simp: resolve_token_def split: list.splits if_splits)
    then have "i \<in> set (map fst (filter (\<lambda>e. t \<noteq> [] \<and> prefix t (snd e)) uuids))" by simp
    then show ?thesis by auto
  qed
qed

text \<open>A row that raises leaves the rows before it, and the mask is not applied to them.\<close>

lemma broken_row_skips_mask:
  "read_rows (nvidia_row flt rnd (or_blank (search_version ''Driver Version:'' b))
       (or_blank (search_version ''CUDA Version:'' b))) (csv_rows t) = (gpus, True) \<Longrightarrow>
   detect_nvidia flt rnd True (Some b) (Some t) cuda_mask listing = gpus"
  by (simp add: detect_nvidia_def)

end
