(* ===== verification/Daemon_Control.thy ===== *)
theory Daemon_Control
  imports Hardware
begin

text \<open>
  The daemon around its jobs: configuration (\<open>daemon/daemon/config.py\<close>), the choice of executors
  (\<open>executor_factory.py\<close>), the way to the control plane (\<open>client.py\<close>), registration
  (\<open>registration.py\<close>, \<open>main.py\<close>), the heartbeat (\<open>heartbeat.py\<close>) and the main loop (\<open>worker.py\<close>). The
  payloads are built as the requests \<open>register_request\<close> and \<open>heartbeat_request\<close> that theory Workers_Api
  handles; the fields the control plane does not read (user agent, uptime, time stamp) are left out.
\<close>

section \<open>Configuration\<close>

datatype runtime_arg = RtString string | RtList "string list" | RtOther

definition runtime_parts :: "runtime_arg \<Rightarrow> string list option" where
  "runtime_parts v = (case v of
       RtString s \<Rightarrow> Some (map strip (split_on (CHR '','') s))
     | RtList xs \<Rightarrow> Some (map strip xs)
     | RtOther \<Rightarrow> None)"

definition normalize_runtime :: "runtime_arg \<Rightarrow> py_exn + string list" where
  "normalize_runtime v = (case runtime_parts v of
       None \<Rightarrow> Inl ValueError
     | Some ps \<Rightarrow> let rts = fromkeys (filter (\<lambda>p. p \<noteq> []) ps) in
         if rts = [] then Inl ValueError else Inr rts)"

definition known_runtimes :: "string list" where
  "known_runtimes = [''ollama'', ''vllm'', ''llamacpp'']"

definition validate_runtime :: "runtime_arg \<Rightarrow> py_exn + string list" where
  "validate_runtime v = ebind (normalize_runtime v) (\<lambda>rts.
     if list_all (\<lambda>r. r \<in> set known_runtimes) rts then Inr rts else Inl ValueError)"

text \<open>The environment: one variable a field, coerced for the numeric ones; \<open>env\<close> is \<open>os.getenv\<close>.\<close>

definition env_map :: "(string \<times> string) list" where
  "env_map = [(''worker_id'', ''DAEMON_WORKER_ID''), (''backend_url'', ''DAEMON_BACKEND_URL''),
     (''vllm_url'', ''DAEMON_VLLM_URL''), (''hf_hub_cache'', ''DAEMON_HF_HUB_CACHE''),
     (''ollama_url'', ''DAEMON_OLLAMA_URL''), (''llamacpp_url'', ''DAEMON_LLAMACPP_URL''),
     (''ollama_models_dir'', ''DAEMON_OLLAMA_MODELS_DIR''), (''llamacpp_models_dir'', ''DAEMON_LLAMACPP_MODELS_DIR''),
     (''poll_interval'', ''DAEMON_POLL_INTERVAL''), (''log_level'', ''DAEMON_LOG_LEVEL''),
     (''work_dir'', ''DAEMON_WORK_DIR''), (''api_key'', ''DAEMON_API_KEY''), (''gpu_name'', ''DAEMON_GPU_NAME''),
     (''vram_gb'', ''DAEMON_VRAM_GB''), (''inference_timeout'', ''DAEMON_INFERENCE_TIMEOUT''),
     (''heartbeat_interval'', ''DAEMON_HEARTBEAT_INTERVAL''),
     (''progress_interval_seconds'', ''DAEMON_PROGRESS_INTERVAL_SECONDS''),
     (''max_concurrent_prompts'', ''DAEMON_MAX_CONCURRENT_PROMPTS'')]"

definition int_fields :: "string list" where
  "int_fields = [''poll_interval'', ''heartbeat_interval'', ''max_concurrent_prompts'']"

definition float_fields :: "string list" where
  "float_fields = [''vram_gb'', ''inference_timeout'', ''progress_interval_seconds'']"

text \<open>\<open>flt\<close> reads the finite numbers. \<open>float()\<close> also reads \<open>inf\<close> and \<open>nan\<close>, which the configuration's range checks may
  let pass; they are no rationals, and a setting of that kind is outside the model.\<close>

definition coerce_field :: "py_float \<Rightarrow> string \<Rightarrow> string \<Rightarrow> py_exn + json" where
  "coerce_field flt field v =
     (if field \<in> set int_fields then (case py_int v of None \<Rightarrow> Inl ValueError | Some n \<Rightarrow> Inr (JInt n))
      else if field \<in> set float_fields then (case flt v of None \<Rightarrow> Inl ValueError | Some r \<Rightarrow> Inr (JFloat r))
      else Inr (JStr v))"

fun env_fields :: "py_float \<Rightarrow> (string \<Rightarrow> string option) \<Rightarrow> (string \<times> string) list \<Rightarrow> py_exn + jdict" where
  "env_fields flt env [] = Inr []"
| "env_fields flt env ((field, var) # rest) = (case env var of
       None \<Rightarrow> env_fields flt env rest
     | Some v \<Rightarrow> ebind (coerce_field flt field v) (\<lambda>x. ebind (env_fields flt env rest) (\<lambda>d. Inr ((field, x) # d))))"

definition comma_list :: "string \<Rightarrow> json" where
  "comma_list s = JArr (map JStr (filter (\<lambda>p. p \<noteq> []) (map strip (split_on (CHR '','') s))))"

text \<open>A runtime that is set but blank stays, to be refused; blank models fall through.\<close>

definition read_env :: "py_float \<Rightarrow> (string \<Rightarrow> string option) \<Rightarrow> py_exn + jdict" where
  "read_env flt env = ebind (env_fields flt env env_map) (\<lambda>d.
     Inr (d @ (if truthy (env ''DAEMON_MODELS'') then [(''models'', comma_list (the (env ''DAEMON_MODELS'')))] else []) @
          (case env ''DAEMON_RUNTIME'' of None \<Rightarrow> [] | Some r \<Rightarrow> [(''runtime'', comma_list r)])))"

text \<open>\<open>base.update(d)\<close>.\<close>

definition dict_update :: "jdict \<Rightarrow> jdict \<Rightarrow> jdict" where
  "dict_update d base = fold (\<lambda>(k, v). dict_set k v) d base"

definition cli_given :: "(string \<times> json) list \<Rightarrow> jdict" where
  "cli_given cli = filter (\<lambda>e. snd e \<noteq> JNull) cli"

text \<open>The fields handed to the configuration's constructor: file, then environment, then command line.\<close>

definition load_fields :: "py_float \<Rightarrow> jdict option \<Rightarrow> (string \<Rightarrow> string option) \<Rightarrow> jdict \<Rightarrow> py_exn + jdict" where
  "load_fields flt yaml env cli = ebind (read_env flt env) (\<lambda>e.
     Inr (dict_update (cli_given cli) (dict_update e (case yaml of None \<Rightarrow> [] | Some y \<Rightarrow> dict_update y []))))"

definition flatten_runtime :: "string list list option \<Rightarrow> string list option" where
  "flatten_runtime groups = map_option concat groups"

section \<open>Executors\<close>

datatype executor_spec = OllamaSpec | VllmSpec "string list option" | LlamacppSpec

fun create_executors :: "string list \<Rightarrow> string list \<Rightarrow> string list \<Rightarrow> py_exn + (string \<times> executor_spec) list" where
  "create_executors models runtimes [] = Inr []"
| "create_executors models runtimes (r # rs) =
     ebind (if r = ''ollama'' then Inr OllamaSpec
            else if r = ''vllm'' then Inr (VllmSpec (if models \<noteq> [] \<and> length runtimes = 1 then Some models else None))
            else if r = ''llamacpp'' then Inr LlamacppSpec
            else Inl ValueError) (\<lambda>x.
     ebind (create_executors models runtimes rs) (\<lambda>xs. Inr ((r, x) # xs)))"

section \<open>Reaching the control plane\<close>

definition proxy_entry_matches :: "string \<Rightarrow> string \<Rightarrow> bool" where
  "proxy_entry_matches host raw =
     (let entry = lower (strip raw) in
      if entry = [] then False
      else if entry = ''*'' then True
      else if prefix ''.'' entry then suffix (CHR ''.'' # drop 1 entry) host
      else host = entry \<or> suffix (CHR ''.'' # entry) host)"

definition no_proxy_matches :: "string option \<Rightarrow> string \<Rightarrow> bool" where
  "no_proxy_matches value host =
     (if \<not> truthy value \<or> host = [] then False
      else list_ex (proxy_entry_matches (rev (dropWhile (\<lambda>c. c = CHR ''.'') (rev (lower host)))))
             (split_on (CHR '','') (the value)))"

definition proxy_vars :: "string \<Rightarrow> string list" where
  "proxy_vars scheme = (if scheme = ''https'' then [''HTTPS_PROXY'', ''https_proxy'', ''ALL_PROXY'', ''all_proxy'']
     else [''HTTP_PROXY'', ''http_proxy'', ''ALL_PROXY'', ''all_proxy''])"

definition env_or :: "string option \<Rightarrow> string option \<Rightarrow> string option" where
  "env_or a b = (if truthy a then a else b)"

definition env_proxy :: "(string \<Rightarrow> string option) \<Rightarrow> string option \<Rightarrow> string option \<Rightarrow> string option" where
  "env_proxy env scheme host =
     (if no_proxy_matches (env_or (env ''NO_PROXY'') (env ''no_proxy'')) (or_blank host) then None
      else Option.bind (List.find (\<lambda>v. truthy (env v))
        (proxy_vars (lower (if truthy scheme then the scheme else ''http'')))) env)"

text \<open>Polling: the status and the \<open>job\<close> of the body. None is an exception.\<close>

definition client_poll_job :: "int \<Rightarrow> 'j option \<Rightarrow> 'j option option" where
  "client_poll_job status body =
     (if status = 204 then Some None else if status < 200 \<or> 300 \<le> status then None else Some body)"

definition failure_report :: "string \<Rightarrow> string \<Rightarrow> string \<Rightarrow> string \<times> string \<times> string" where
  "failure_report job_id worker_id error = (job_id, worker_id, take 2000 error)"

section \<open>Heartbeat\<close>

text \<open>A callback that is not configured or raises yields the empty answer.\<close>

definition best_effort :: "'a list option \<Rightarrow> 'a list" where
  "best_effort x = (case x of None \<Rightarrow> [] | Some xs \<Rightarrow> xs)"

text \<open>Total and available memory of the payload.\<close>

definition lent_memory :: "py_round \<Rightarrow> rat \<Rightarrow> gpu_stats \<Rightarrow> rat \<times> rat option" where
  "lent_memory rnd declared stats =
     (let total_gb = (if declared \<noteq> 0 then declared else st_total_gb stats) in
      (total_gb, map_option (\<lambda>used. rnd 2 (max (total_gb - min used total_gb) 0)) (st_used_gb stats)))"

text \<open>An item that carries its own loaded flag keeps it (\<open>None\<close>: it carries none).\<close>

definition build_heartbeat :: "py_round \<Rightarrow> activity \<Rightarrow> rat \<Rightarrow> gpu_stats \<Rightarrow> rat option \<Rightarrow> string list option \<Rightarrow>
    (inventory_item \<times> bool option) list option \<Rightarrow> (string \<times> string) list option \<Rightarrow> heartbeat_request" where
  "build_heartbeat rnd act declared stats ram loaded inventory statuses =
     (let (total_gb, available) = lent_memory rnd declared stats; names = best_effort loaded in
      \<lparr>hb_activity = act, hb_vram_total_gb = total_gb, hb_vram_available_gb = available, hb_ram_available_gb = ram,
       hb_loaded_models = names,
       hb_inventory = map (\<lambda>(it, flag). it\<lparr>it_loaded := (case flag of Some b \<Rightarrow> b | None \<Rightarrow> it_name it \<in> set names)\<rparr>)
         (best_effort inventory),
       hb_runtimes = best_effort statuses\<rparr>)"

text \<open>\<open>_get_inventory\<close>: each runtime's items, stamped with what is resident in that runtime (None:
  asking raised).\<close>

definition stamp_inventory :: "(inventory_item list \<times> string list option) list \<Rightarrow> inventory_item list" where
  "stamp_inventory runtimes = concat (map (\<lambda>(items, resident).
     map (\<lambda>it. it\<lparr>it_loaded := it_name it \<in> set (best_effort resident)\<rparr>) items) runtimes)"

text \<open>\<open>_get_loaded_model_digests\<close>.\<close>

definition loaded_model_digests :: "(string \<times> 'd) list list \<Rightarrow> (string \<times> 'd) list" where
  "loaded_model_digests listings = fold (\<lambda>(m, d). dict_set m d) (concat listings) []"

section \<open>Registration\<close>

text \<open>What one runtime can tell when it is asked: its names (None: asking raised), the names of its
  detailed listing (None: it has none or raised), its inventory, capabilities and version.\<close>

record runtime_view =
  rv_name :: string
  rv_listed :: "string list option"
  rv_detailed :: "string list option"
  rv_inventory :: "inventory_item list"
  rv_capabilities :: capabilities
  rv_version :: "string option"

definition capability_list :: "capabilities \<Rightarrow> (string \<times> bool) list" where
  "capability_list c = [(''logprobs'', cap_logprobs c), (''completions'', cap_completions c),
     (''prompt_scoring'', cap_prompt_scoring c)]"

text \<open>One bundle per configured runtime, ready or not.\<close>

definition bundle_names :: "string list \<Rightarrow> bool \<Rightarrow> runtime_view \<Rightarrow> string list" where
  "bundle_names configured single v =
     (let names = fromkeys (best_effort (rv_detailed v)); mine = best_effort (rv_listed v) in
      if single then fromkeys (configured @ names)
      else if configured \<noteq> [] \<and> mine \<noteq> [] then fromkeys (filter (\<lambda>m. m \<in> set mine) configured @ names)
      else names)"

definition runtime_bundle :: "string list \<Rightarrow> bool \<Rightarrow> string list option \<Rightarrow> runtime_view \<Rightarrow> runtime_info" where
  "runtime_bundle configured single ready v = \<lparr>ri_type = rv_name v, ri_endpoint = ''localhost'',
     ri_status = (if (case ready of None \<Rightarrow> True | Some rs \<Rightarrow> rv_name v \<in> set rs) then ''ready'' else ''unavailable''),
     ri_models = bundle_names configured single v, ri_inventory = rv_inventory v,
     ri_capabilities = Some (capability_list (rv_capabilities v)), ri_version = rv_version v\<rparr>"

definition collect_bundles :: "string list \<Rightarrow> string list option \<Rightarrow> runtime_view list \<Rightarrow> runtime_info list" where
  "collect_bundles configured ready views = map (runtime_bundle configured (length views = 1) ready) views"

text \<open>The configured names no runtime claims, which are logged.\<close>

definition unclaimed_models :: "string list \<Rightarrow> runtime_view list \<Rightarrow> string list" where
  "unclaimed_models configured views =
     (if length views > 1 then filter (\<lambda>m. \<not> list_ex (\<lambda>v. m \<in> set (best_effort (rv_listed v))) views) (fromkeys configured)
      else [])"

definition blank_to_none :: "string \<Rightarrow> string option" where
  "blank_to_none s = (if s = [] then None else Some s)"

definition gpu_payload :: "gpu \<Rightarrow> gpu_row" where
  "gpu_payload g = \<lparr>g_index = gp_index g, g_vendor = Some (gp_vendor g), g_name = Some (gp_name g),
     g_vram_gb = Some (gp_vram_gb g), g_driver = blank_to_none (gp_driver g), g_cuda = blank_to_none (gp_cuda g),
     g_rocm = blank_to_none (gp_rocm g)\<rparr>"

definition registration_payload :: "py_round \<Rightarrow> rat \<Rightarrow> string \<Rightarrow> string \<Rightarrow> string \<Rightarrow> int \<Rightarrow> hardware \<Rightarrow>
    runtime_info list \<Rightarrow> register_request" where
  "registration_payload rnd declared gpu_name hostname os cores hw bundles = \<lparr>rr_hostname = hostname,
     rr_os = Some os, rr_cpu_cores = Some cores, rr_ram_gb = Some (hw_ram_gb hw),
     rr_gpus = map gpu_payload (apply_declared_vram rnd declared gpu_name (hw_gpus hw)), rr_runtimes = bundles\<rparr>"

text \<open>Start-up: the key, and the worker id of the registration or, when that fails, the saved one.
  \<open>Inl\<close> is the exit code.\<close>

definition api_key_of :: "string option \<Rightarrow> string option \<Rightarrow> nat + string" where
  "api_key_of configured saved = (let k = env_or configured saved in if truthy k then Inr (the k) else Inl 1)"

definition worker_id_of :: "string \<Rightarrow> string option option \<Rightarrow> string option \<Rightarrow> nat + string" where
  "worker_id_of placeholder answer saved = (case answer of
       Some (Some assigned) \<Rightarrow> Inr assigned
     | Some None \<Rightarrow> Inr placeholder
     | None \<Rightarrow> if truthy saved then Inr (the saved) else Inl 1)"

text \<open>The credentials file: None when there is none, \<open>Some None\<close> when it cannot be read.\<close>

definition read_credential :: "string \<Rightarrow> json option option \<Rightarrow> string option" where
  "read_credential key file = (case file of Some (Some (JObj d)) \<Rightarrow> jstr (jget key d) | _ \<Rightarrow> None)"

definition credentials :: "string \<Rightarrow> string \<Rightarrow> json" where
  "credentials api_key worker_id = JObj [(''api_key'', JStr api_key), (''worker_id'', JStr worker_id)]"

text \<open>The start-up of \<open>_run\<close>: \<open>answer\<close> is the id that the registration's answer carries, None when registering
  raised; \<open>written\<close> whether saving succeeds. The exit code, or the key and the id the daemon works under, and the
  file afterwards.\<close>

definition start_up :: "string option \<Rightarrow> string \<Rightarrow> string option option \<Rightarrow> bool \<Rightarrow> json option option \<Rightarrow>
    (nat + string \<times> string) \<times> json option option" where
  "start_up configured placeholder answer written file =
     (case api_key_of configured (read_credential ''api_key'' file) of
        Inl code \<Rightarrow> (Inl code, file)
      | Inr key \<Rightarrow> (case worker_id_of placeholder answer (read_credential ''worker_id'' file) of
            Inl code \<Rightarrow> (Inl code, file)
          | Inr wid \<Rightarrow> (Inr (key, wid), if answer \<noteq> None \<and> written then Some (Some (credentials key wid)) else file)))"

section \<open>Readiness and the main loop\<close>

definition readiness_max_retries :: nat where "readiness_max_retries = 12"

text \<open>\<open>checks\<close>: the outcome of the n-th health check (an exception counts as unhealthy).\<close>

definition wait_one_runtime :: "(nat \<Rightarrow> bool) \<Rightarrow> bool" where
  "wait_one_runtime checks = list_ex checks [0..<readiness_max_retries]"

definition wait_for_runtimes :: "(string \<times> (nat \<Rightarrow> bool)) list \<Rightarrow> string list \<times> (string \<times> bool) list" where
  "wait_for_runtimes runtimes =
     (let outcomes = map (\<lambda>(name, checks). (name, wait_one_runtime checks)) runtimes in
      (map fst (filter snd outcomes), outcomes))"

text \<open>One turn of the loop: what polling and executing came to.\<close>

datatype turn = NoJob | JobDone | JobRaised | Cancelled | Refused int | OtherError

definition keeps_running :: "turn \<Rightarrow> bool" where
  "keeps_running t = (case t of Cancelled \<Rightarrow> False | Refused code \<Rightarrow> code \<noteq> 401 | _ \<Rightarrow> True)"

text \<open>The turns taken until the loop ends, given what each would come to and the turn after which a
  signal clears \<open>_running\<close>.\<close>

fun main_loop :: "turn list \<Rightarrow> nat option \<Rightarrow> turn list" where
  "main_loop [] stop = []"
| "main_loop (t # ts) stop =
     (if \<not> keeps_running t \<or> stop = Some 0 then [t]
      else t # main_loop ts (map_option (\<lambda>n. n - 1) stop))"

section \<open>Lemmas\<close>

lemma map_of_dict_update: "distinct (map fst d) \<Longrightarrow>
  map_of (dict_update d base) k = (case map_of d k of Some v \<Rightarrow> Some v | None \<Rightarrow> map_of base k)"
proof (induction d arbitrary: base)
  case (Cons e d)
  obtain k' v where e: "e = (k', v)" by (rule prod.exhaust)
  have "dict_update (e # d) base = dict_update d (dict_set k' v base)" by (simp add: dict_update_def e)
  then show ?case using Cons e by (auto simp: map_of_eq_None_iff rev_image_eqI split: option.splits)
qed (simp add: dict_update_def)

text \<open>The list form is not split at commas, although the string form is.\<close>

lemma comma_list_refused:
  "validate_runtime (RtList [''vllm,ollama'']) = Inl ValueError"
  "validate_runtime (RtString ''vllm,ollama'') = Inr [''vllm'', ''ollama'']"
  by code_simp+

lemma normalize_runtime_Inr:
  "normalize_runtime v = Inr rts \<Longrightarrow> rts \<noteq> [] \<and> distinct rts \<and> [] \<notin> set rts"
  by (auto simp: normalize_runtime_def Let_def split: option.splits if_splits)

text \<open>Every runtime that passes validation has an executor.\<close>

lemma create_executors_total:
  "list_all (\<lambda>r. r \<in> set known_runtimes) rs \<Longrightarrow> \<exists>xs. create_executors models runtimes rs = Inr xs \<and> map fst xs = rs"
  by (induction rs) (auto simp: known_runtimes_def)

lemma validated_runtimes_run:
  "validate_runtime v = Inr rts \<Longrightarrow> \<exists>xs. create_executors models rts rts = Inr xs \<and> map fst xs = rts"
  by (rule create_executors_total) (auto simp: validate_runtime_def split: if_splits)

text \<open>A daemon that was once registered comes back as the same worker when the control plane is down, also
  without a configured key.\<close>

lemma restart_keeps_id:
  assumes "start_up configured placeholder (Some answer) True file = (Inr (key, wid), file')" "wid \<noteq> []"
  shows "start_up None placeholder' None written file' = (Inr (key, wid), file')"
proof -
  have "the v \<noteq> []" if "truthy v" for v :: "string option"
    using that by (cases v) auto
  then have "key \<noteq> []" "file' = Some (Some (credentials key wid))"
    using assms(1) by (auto simp: start_up_def api_key_of_def Let_def split: sum.splits if_splits)
  then show ?thesis
    using assms(2) by (simp add: start_up_def read_credential_def credentials_def api_key_of_def worker_id_of_def env_or_def
        jget_def Let_def)
qed

text \<open>A 401 on polling ends the loop, any other refusal does not.\<close>

lemma main_loop_prefix: "prefix (main_loop ts stop) ts"
  by (induction ts arbitrary: stop) auto

lemma main_loop_401: "Refused 401 \<in> set (main_loop ts stop) \<Longrightarrow> last (main_loop ts stop) = Refused 401"
proof (induction ts arbitrary: stop)
  case (Cons t ts)
  then show ?case by (auto simp: keeps_running_def split: if_splits turn.splits)
qed simp

lemma env_fields_lookup:
  "env_fields flt env m = Inr d \<Longrightarrow> distinct (map fst m) \<Longrightarrow> (k, var) \<in> set m \<Longrightarrow> env var = Some s \<Longrightarrow>
   \<exists>x. coerce_field flt k s = Inr x \<and> map_of d k = Some x"
proof (induction m arbitrary: d)
  case (Cons e m)
  obtain f v where e: "e = (f, v)" by (rule prod.exhaust)
  show ?case
  proof (cases "(k, var) = e")
    case True
    then show ?thesis using Cons.prems e by (auto simp: ebind_eq_Inr)
  next
    case False
    then have "f \<noteq> k" using Cons.prems(2,3) e by force
    then show ?thesis using Cons False e by (auto simp: ebind_eq_Inr split: option.splits)
  qed
qed simp

lemma env_fields_keys: "env_fields flt env m = Inr d \<Longrightarrow> distinct (map fst m) \<Longrightarrow>
   distinct (map fst d) \<and> fst ` set d \<subseteq> fst ` set m"
proof (induction m arbitrary: d)
  case (Cons e m)
  obtain f v where e: "e = (f, v)" by (rule prod.exhaust)
  show ?case
  proof (cases "env v")
    case None
    then show ?thesis using Cons e by auto
  next
    case (Some s)
    then obtain x d' where d: "env_fields flt env m = Inr d'" "d = (f, x) # d'"
      using Cons.prems(1) e by (auto simp: ebind_eq_Inr)
    have "f \<notin> fst ` set m" "distinct (map fst m)" using Cons.prems(2) e by auto
    then show ?thesis using Cons.IH [OF d(1)] d(2) e by auto
  qed
qed simp

lemma env_map_distinct: "distinct (map fst env_map)" "''models'' \<notin> fst ` set env_map" "''runtime'' \<notin> fst ` set env_map"
  by code_simp+

text \<open>The environment's dict has one value a key, and a field of the map keeps its coerced one.\<close>

lemma read_env_lookup:
  assumes "read_env flt env = Inr e" "(k, var) \<in> set env_map" "env var = Some s"
  shows "distinct (map fst e) \<and> (\<exists>x. coerce_field flt k s = Inr x \<and> map_of e k = Some x)"
proof -
  obtain d where d: "env_fields flt env env_map = Inr d"
    "e = d @ (if truthy (env ''DAEMON_MODELS'') then [(''models'', comma_list (the (env ''DAEMON_MODELS'')))] else []) @
          (case env ''DAEMON_RUNTIME'' of None \<Rightarrow> [] | Some r \<Rightarrow> [(''runtime'', comma_list r)])"
    using assms(1) by (auto simp: read_env_def ebind_eq_Inr)
  note keys = env_fields_keys [OF d(1) env_map_distinct(1)]
  obtain x where x: "coerce_field flt k s = Inr x" "map_of d k = Some x"
    using env_fields_lookup [OF d(1) env_map_distinct(1) assms(2,3)] by blast
  have "''models'' \<notin> fst ` set d" "''runtime'' \<notin> fst ` set d" using keys env_map_distinct(2,3) by blast+
  then have "distinct (map fst e)" using keys d(2) by (auto split: option.split)
  moreover have "map_of e k = Some x" using d(2) x(2) by (simp add: map_add_def)
  ultimately show ?thesis using x(1) by blast
qed

section \<open>Property\<close>

text \<open>The configuration is typed, whatever the file says: once it loads, a field set in the environment and
  not on the command line has the type of its field (an integer for the intervals and the concurrency, a
  number for memory and time-outs, the text itself for the rest), parsed from the variable's
  value; and a field given on the command line has the value given there.\<close>

theorem configuration_typed:
  assumes "load_fields flt yaml env cli = Inr d" "(k, var) \<in> set env_map" "env var = Some s"
    "distinct (map fst cli)"
  shows "case map_of (cli_given cli) k of
      Some v \<Rightarrow> map_of d k = Some v \<and> v \<noteq> JNull
    | None \<Rightarrow>
        (if k \<in> set int_fields then \<exists>n. py_int s = Some n \<and> map_of d k = Some (JInt n)
         else if k \<in> set float_fields then \<exists>q. flt s = Some q \<and> map_of d k = Some (JFloat q)
         else map_of d k = Some (JStr s))"
proof -
  obtain e where e: "read_env flt env = Inr e"
    "d = dict_update (cli_given cli) (dict_update e (case yaml of None \<Rightarrow> [] | Some y \<Rightarrow> dict_update y []))"
    using assms(1) by (auto simp: load_fields_def ebind_eq_Inr)
  obtain x where x: "distinct (map fst e)" "coerce_field flt k s = Inr x" "map_of e k = Some x"
    using read_env_lookup [OF e(1) assms(2,3)] by blast
  have dist: "distinct (map fst (cli_given cli))" using assms(4) by (simp add: cli_given_def distinct_map_filter)
  have d: "map_of d k = (case map_of (cli_given cli) k of Some v \<Rightarrow> Some v | None \<Rightarrow> Some x)"
    by (simp add: e(2) map_of_dict_update dist x(1,3) split: option.split)
  show ?thesis
  proof (cases "map_of (cli_given cli) k")
    case None
    then show ?thesis using d x(2) by (auto simp: coerce_field_def split: if_splits option.splits)
  next
    case (Some v)
    then have "v \<noteq> JNull" by (auto dest!: map_of_SomeD simp: cli_given_def)
    then show ?thesis using Some d by simp
  qed
qed

theorem configuration_typed_witness:
  "map_option (\<lambda>d. (map_of d ''poll_interval'', map_of d ''worker_id'')) (case load_fields (\<lambda>_. None)
      (Some [(''poll_interval'', JStr ''often'')]) (\<lambda>v. if v = ''DAEMON_POLL_INTERVAL'' then Some ''15'' else None)
      [(''worker_id'', JStr ''w1''), (''log_level'', JNull)] of Inl _ \<Rightarrow> None | Inr d \<Rightarrow> Some d) =
   Some (Some (JInt 15), Some (JStr ''w1''))"
proof -
  let ?env = "\<lambda>v. if v = ''DAEMON_POLL_INTERVAL'' then Some ''15'' else None"
  let ?cli = "[(''worker_id'', JStr ''w1''), (''log_level'', JNull)]"
  let ?r = "load_fields (\<lambda>_. None) (Some [(''poll_interval'', JStr ''often'')]) ?env ?cli"
  have ev: "\<not> isl ?r" "map_of (projr ?r) ''worker_id'' = Some (JStr ''w1'')"
    "(''poll_interval'', ''DAEMON_POLL_INTERVAL'') \<in> set env_map" "map_of (cli_given ?cli) ''poll_interval'' = None"
    "''poll_interval'' \<in> set int_fields" "py_int ''15'' = Some 15" by code_simp+
  then obtain d where d: "?r = Inr d" by (cases ?r) auto
  have "?env ''DAEMON_POLL_INTERVAL'' = Some ''15''" "distinct (map fst ?cli)" by simp_all
  from configuration_typed [OF d ev(3) this] ev(4,5) have "\<exists>n. py_int ''15'' = Some n \<and> map_of d ''poll_interval'' = Some (JInt n)"
    by (simp only: option.case if_True)
  then have "map_of d ''poll_interval'' = Some (JInt 15)" using ev(6) by simp
  then show ?thesis using d ev(2) by simp
qed

end
