(* ===== verification/Fleet_Properties.thy ===== *)
theory Fleet_Properties
  imports Ollama_Properties Exec_Vllm Exec_Llamacpp Daemon_Control
begin

text \<open>
  Properties of the daemon and the control plane together: what the daemon reports is what the
  control plane confirms, registers and schedules by.
\<close>

section \<open>Hashes read on a worker and confirmed in the registry\<close>

text \<open>A part of a model's name: no separator and no white space in it.\<close>

definition clean :: "string \<Rightarrow> bool" where
  "clean w \<longleftrightarrow> w \<noteq> [] \<and> CHR ''/'' \<notin> set w \<and> CHR '':'' \<notin> set w \<and> (\<forall>c \<in> set w. \<not> is_space c)"

lemma parse_manifest_name:
  assumes "clean ns" "clean m" "clean t" "CHR ''.'' \<notin> set ns"
    "ns = ''library'' \<longrightarrow> lower m \<notin> set hf_hosts \<and> m \<noteq> default_registry"
  shows "parse_local_name (manifest_model_name default_registry ns m t) = Inr (Some (OllamaName ns m t))"
proof -
  have host: "manifest_model_name default_registry ns m t =
      (if ns = ''library'' then m @ CHR '':'' # t else (ns @ CHR ''/'' # m) @ CHR '':'' # t)"
    by (simp add: manifest_model_name_def)
  have dots: "CHR ''.'' \<in> set (lower ns) \<Longrightarrow> CHR ''.'' \<in> set ns"
  proof -
    have "lower_char c = CHR ''.'' \<Longrightarrow> c = CHR ''.''" for c
    proof -
      assume l: "lower_char c = CHR ''.''"
      have "(of_char (lower_char c) :: nat) \<ge> 97" if "65 \<le> (of_char c :: nat)" "(of_char c :: nat) \<le> 90"
        using that by (simp add: lower_char_def Let_def)
      moreover have "(of_char (lower_char c) :: nat) = 46" using l by simp
      ultimately have "\<not> (65 \<le> (of_char c :: nat) \<and> (of_char c :: nat) \<le> 90)" by auto
      then show "c = CHR ''.''" using l unfolding lower_char_def Let_def by (simp split: if_splits)
    qed
    then show "CHR ''.'' \<in> set (lower ns) \<Longrightarrow> CHR ''.'' \<in> set ns"
      unfolding lower_def set_map image_iff by metis
  qed
  have nohost: "lower ns \<notin> set hf_hosts" "ns \<noteq> default_registry"
    using assms(4) dots by (auto simp: hf_hosts_def default_registry_def)
  have spaces: "\<forall>c \<in> set (manifest_model_name default_registry ns m t). \<not> is_space c"
    using assms(1-3) by (auto simp: host clean_def is_space_def)
  show ?thesis
  proof (cases "ns = ''library''")
    case True
    have "partition_at (CHR '':'') (m @ CHR '':'' # t) = (m, t)"
      using assms(2) by (intro partition_at_append) (simp add: clean_def)
    moreover have "nonempty_parts m = [m]"
      using assms(2) by (simp add: nonempty_parts_def clean_def split_on_single)
    moreover have nm: "manifest_model_name default_registry ns m t = m @ CHR '':'' # t" using True host by simp
    moreover have "strip (m @ CHR '':'' # t) = m @ CHR '':'' # t" using strip_no_space [OF spaces] nm by simp
    ultimately show ?thesis using True assms unfolding parse_local_name_def nm
      by (simp add: clean_def Let_def)
  next
    case False
    have "partition_at (CHR '':'') ((ns @ CHR ''/'' # m) @ CHR '':'' # t) = (ns @ CHR ''/'' # m, t)"
      using assms(1,2) by (intro partition_at_append) (simp add: clean_def)
    moreover have "nonempty_parts (ns @ CHR ''/'' # m) = [ns, m]"
      using assms(1,2) split_on_append [of "CHR ''/''" ns m] split_on_single [of "CHR ''/''" m]
      by (simp add: nonempty_parts_def clean_def)
    moreover have nm: "manifest_model_name default_registry ns m t = (ns @ CHR ''/'' # m) @ CHR '':'' # t"
      using False host by simp
    moreover have "strip ((ns @ CHR ''/'' # m) @ CHR '':'' # t) = (ns @ CHR ''/'' # m) @ CHR '':'' # t"
      using strip_no_space [OF spaces] nm by simp
    ultimately show ?thesis using False assms nohost unfolding parse_local_name_def nm
      by (simp add: clean_def Let_def)
  qed
qed

text \<open>A digest as the registry writes it: lower case, no surrounding space.\<close>

definition canonical_layer :: "jdict \<Rightarrow> bool" where
  "canonical_layer l \<longleftrightarrow> (\<exists>mt dg. jget_or ''mediaType'' (JStr []) l = JStr mt \<and> jget_or ''digest'' (JStr []) l = JStr dg \<and>
     lower (strip dg) = dg)"

lemma jget_or_str: "jget_or k (JStr []) d = JStr s \<Longrightarrow> jget k d = JStr s \<or> (jget k d = JNull \<and> s = [])"
  by (auto simp: jget_or_def jget_def split: option.splits)

lemma first_layer_in_digests:
  assumes "first_model_layer repr name ls = Inr (Some it)" "it_sha256 it = Some s" "s \<noteq> []"
    "\<forall>l. JObj l \<in> set ls \<longrightarrow> canonical_layer l" "layers_digests repr ls = Inr ds"
  shows "s \<in> set ds"
  using assms
proof (induction ls arbitrary: ds)
  case (Cons v ls)
  then obtain l where v: "v = JObj l" by (auto simp: dict_or_raise_def split: json.splits)
  then obtain mt dg where lay: "jget_or ''mediaType'' (JStr []) l = JStr mt" "jget_or ''digest'' (JStr []) l = JStr dg"
    "lower (strip dg) = dg"
    using Cons.prems(4) by (auto simp: canonical_layer_def)
  obtain ds1 where ds1: "layers_digests repr ls = Inr ds1"
    "ds = (case layer_digest repr l of Some d \<Rightarrow> d # ds1 | None \<Rightarrow> ds1)"
    using Cons.prems(5) v by auto
  show ?case
  proof (cases "suffix ''image.model'' mt")
    case False
    then have "first_model_layer repr name ls = Inr (Some it)"
      using Cons.prems(1) v lay by (simp add: dict_or_raise_def)
    then have "s \<in> set ds1" using Cons ds1(1) by auto
    then show ?thesis using ds1(2) by (auto split: option.splits)
  next
    case True
    then have it: "it_sha256 it = (if dg = [] then None else Some (after_colon dg))"
      using Cons.prems(1) v lay by (auto simp: dict_or_raise_def new_item_def Let_def)
    then have dg: "dg \<noteq> []" "s = after_colon dg" using Cons.prems(2) by (auto split: if_splits)
    have mt: "jget ''mediaType'' l = JStr mt" "jget ''digest'' l = JStr dg"
      using jget_or_str [OF lay(1)] jget_or_str [OF lay(2)] True dg(1) by (auto simp: suffix_def)
    have "json_digest repr (JStr dg) = Some s"
      using dg lay(3) by (simp add: json_digest_def bare_digest_def after_colon_def)
    then have "layer_digest repr l = Some s"
      using mt True Cons.prems(3) by (simp add: layer_digest_def model_media_suffix_def)
    then show ?thesis using ds1(2) by simp
  qed
qed simp

text \<open>C26: The hash a worker reads from its own Ollama store is the one the control plane confirms: scanning
  the local manifest of a model of the default registry gives an inventory item whose name the resolver
  parses back to that model, and when the registry serves the same manifest the item's hash is confirmed.
  Hypotheses: the parts of the path are names, digests are written in canonical form, and all layers are
  objects (else the resolver raises).\<close>

theorem local_manifest_confirmed:
  assumes "scan_manifest repr \<lparr>mf_parts = [default_registry, ns, m, t], mf_json = Some (JObj man)\<rparr> = Inr (Some it)"
    "it_sha256 it = Some s" "s \<noteq> []"
    "clean ns" "clean m" "clean t" "CHR ''.'' \<notin> set ns"
    "ns = ''library'' \<longrightarrow> lower m \<notin> set hf_hosts \<and> m \<noteq> default_registry"
    "jget ''layers'' man = JArr ls" "\<forall>l. JObj l \<in> set ls \<longrightarrow> canonical_layer l" "model_layer_digests repr man = Inr ds"
    "client (manifest_url (OllamaName ns m t)) None = Response 200 (Some (JObj man)) nxt"
  shows "\<exists>c. resolve_fresh repr client (it_name it) s None None [s] = Inr (Confirmed c) \<and> cf_digest c = s"
proof -
  have layers: "jget_or ''layers'' (JArr []) man = JArr ls"
    using assms(9) by (auto simp: jget_def jget_or_def split: option.splits)
  have item: "first_model_layer repr (manifest_model_name default_registry ns m t) ls = Inr (Some it)"
    using assms(1) layers
    by (simp add: scan_manifest_def manifest_name_of_path_def manifest_model_name_def default_registry_def dict_or_raise_def)
  have name: "first_model_layer repr nm xs = Inr (Some it) \<Longrightarrow> it_name it = nm" for nm xs
    by (induction xs) (auto simp: new_item_def Let_def split: if_splits)
  have "ls \<noteq> []" using item by auto
  then have "layers_digests repr ls = Inr ds"
    using assms(11) by (simp add: model_layer_digests_def assms(9))
  then have mem: "s \<in> set ds" using first_layer_in_digests [OF item assms(2,3,10)] by blast
  then have "ds \<noteq> []" by auto
  then have "\<exists>c. resolve_ollama repr client (OllamaName ns m t) s = Inr (Confirmed c) \<and> cf_digest c = s"
    using mem assms(11,12) by (simp add: resolve_ollama_def get_json_def)
  then show ?thesis
    using parse_manifest_name [OF assms(4-8)] name [OF item] by (simp add: resolve_fresh_def)
qed


definition local_manifest :: jdict where
  "local_manifest = [(''layers'', JArr [
     JObj [(''mediaType'', JStr ''application/vnd.ollama.image.template''), (''digest'', JStr ''sha256:ff'')],
     JObj [(''mediaType'', JStr ''application/vnd.ollama.image.model''), (''digest'', JStr ''sha256:ab''), (''size'', JInt 9)]])]"

theorem local_manifest_confirmed_witness:
  "\<exists>c. resolve_fresh (\<lambda>_. []) (\<lambda>_ _. Response 200 (Some (JObj local_manifest)) None) ''qwen3:4b'' ''ab'' None None [''ab''] =
     Inr (Confirmed c) \<and> cf_digest c = ''ab''"
proof -
  let ?ls = "[JObj [(''mediaType'', JStr ''application/vnd.ollama.image.template''), (''digest'', JStr ''sha256:ff'')],
     JObj [(''mediaType'', JStr ''application/vnd.ollama.image.model''), (''digest'', JStr ''sha256:ab''), (''size'', JInt 9)]]"
  have scan: "scan_manifest (\<lambda>_. []) \<lparr>mf_parts = [default_registry, ''library'', ''qwen3'', ''4b''], mf_json = Some (JObj local_manifest)\<rparr> =
      Inr (Some (new_item ''qwen3:4b'' (Some ''ab'') (Some 9)))" by code_simp
  have ls: "jget ''layers'' local_manifest = JArr ?ls" by code_simp
  have ds: "model_layer_digests (\<lambda>_. []) local_manifest = Inr [''ab'']" by code_simp
  have parts: "clean ''library''" "clean ''qwen3''" "clean ''4b''" by code_simp+
  have canon: "canonical_layer l" if "JObj l \<in> set ?ls" for l
  proof -
    have "lower (strip ''sha256:ff'') = ''sha256:ff''" "lower (strip ''sha256:ab'') = ''sha256:ab''" by code_simp+
    then show ?thesis using that by (auto simp: canonical_layer_def jget_or_def)
  qed
  have "\<exists>c. resolve_fresh (\<lambda>_. []) (\<lambda>_ _. Response 200 (Some (JObj local_manifest)) None)
      (it_name (new_item ''qwen3:4b'' (Some ''ab'') (Some 9))) ''ab'' None None [''ab''] = Inr (Confirmed c) \<and> cf_digest c = ''ab''"
    by (rule local_manifest_confirmed [OF scan _ _ parts _ _ ls _ ds])
      (use canon in \<open>auto simp: new_item_def hf_hosts_def lower_def lower_char_def default_registry_def\<close>)
  then show ?thesis by (simp add: new_item_def)
qed

section \<open>Registration\<close>

lemma advertised_from_ready:
  "(m, d) \<in> set (advertised_models w) \<Longrightarrow> \<exists>rt \<in> set (w_runtimes w). rt_status rt = ''ready'' \<and> m \<in> m_name ` set (rt_models rt)"
  by (auto simp: advertised_models_def runtime_schedulable_def split: if_splits)

lemma registered_runtimes:
  assumes "register_worker key oid req new_wid new_rid now db = ((wid, is_new), db')"
    "get_worker_row db new_wid = None" "get_worker_row db' wid = Some w"
  shows "w_runtimes w = runtime_rows (catalog db) new_rid (rr_runtimes req)"
proof (cases "find (\<lambda>w. w_org_id w = oid \<and> w_hostname w = rr_hostname req) (workers db)")
  case None
  then have "wid = new_wid" using assms(1) by (simp add: register_worker_def Let_def)
  then show ?thesis using assms None by (auto simp: register_worker_def Let_def worker_table.get_add)
next
  case (Some w0)
  then have wid: "wid = w_id w0" using assms(1) by (simp add: register_worker_def Let_def)
  then show ?thesis using assms(1,3) Some
    by (auto simp: register_worker_def Let_def upd_worker_def worker_table.get_upd)
qed

lemma runtime_rows_mem:
  "rt \<in> set (runtime_rows cat new_id rs) \<Longrightarrow> \<exists>i r. r \<in> set rs \<and> rt = register_runtime cat new_id i r"
proof -
  assume "rt \<in> set (runtime_rows cat new_id rs)"
  then obtain p where "p \<in> set (enumerate 0 rs)" "rt = (case p of (i, r) \<Rightarrow> register_runtime cat new_id i r)"
    by (auto simp: runtime_rows_def)
  then have "snd p \<in> set rs" "rt = register_runtime cat new_id (fst p) (snd p)"
    by (auto simp: in_set_enumerate_eq split: prod.splits)
  then show ?thesis by blast
qed

text \<open>A registration keeps every configured runtime and offers only the ready ones: the worker's rows after
  it are one per configured runtime, in order, and each model the scheduler may match on was reported, by
  name or in the inventory, by a runtime that answered its health check.\<close>

theorem registration_offers_ready:
  assumes "register_worker key oid (registration_payload rnd declared gname host os cores hw
        (collect_bundles configured (Some ready) views)) new_wid new_rid now db = ((wid, is_new), db')"
    "get_worker_row db new_wid = None" "get_worker_row db' wid = Some w"
  shows "map rt_engine (w_runtimes w) = map rv_name views \<and>
    (\<forall>m d. (m, d) \<in> set (advertised_models w) \<longrightarrow> (\<exists>v \<in> set views. rv_name v \<in> set ready \<and>
       (m \<in> set (bundle_names configured (length views = 1) v) \<or> m \<in> it_name ` set (rv_inventory v))))"
proof (intro conjI allI impI)
  have rows: "w_runtimes w = runtime_rows (catalog db) new_rid (collect_bundles configured (Some ready) views)"
    using registered_runtimes [OF assms] by (simp add: registration_payload_def)
  show "map rt_engine (w_runtimes w) = map rv_name views"
    by (rule nth_equalityI) (simp_all add: rows runtime_rows_def collect_bundles_def register_runtime_def
        runtime_bundle_def nth_enumerate_eq)
  fix m d
  assume "(m, d) \<in> set (advertised_models w)"
  then obtain rt where rt: "rt \<in> set (w_runtimes w)" "rt_status rt = ''ready''" "m \<in> m_name ` set (rt_models rt)"
    using advertised_from_ready by blast
  then obtain i v where v: "v \<in> set views"
    "rt = register_runtime (catalog db) new_rid i (runtime_bundle configured (length views = 1) (Some ready) v)"
    using runtime_rows_mem [of rt "catalog db" new_rid "collect_bundles configured (Some ready) views"] rows
    unfolding collect_bundles_def by fastforce
  have "rv_name v \<in> set ready"
    using rt(2) v(2) by (auto simp: register_runtime_def runtime_bundle_def split: if_splits)
  moreover have "m \<in> set (bundle_names configured (length views = 1) v) \<or> m \<in> it_name ` set (rv_inventory v)"
    using rt(3) v(2) by (auto simp: register_runtime_def register_model_def runtime_bundle_def Let_def split: prod.splits)
  ultimately show "\<exists>v \<in> set views. rv_name v \<in> set ready \<and>
       (m \<in> set (bundle_names configured (length views = 1) v) \<or> m \<in> it_name ` set (rv_inventory v))"
    using v(1) by blast
qed

definition two_views :: "runtime_view list" where
  "two_views = [\<lparr>rv_name = ''ollama'', rv_listed = Some [''m:4b''], rv_detailed = Some [''m:4b''],
      rv_inventory = [\<lparr>it_name = ''m:4b'', it_sha256 = Some ''abc'', it_size = None, it_loaded = False,
        it_runtime = Some ''ollama'', it_details = None, it_files = None\<rparr>],
      rv_capabilities = base_capabilities, rv_version = None\<rparr>,
     \<lparr>rv_name = ''vllm'', rv_listed = None, rv_detailed = Some [''org/m''], rv_inventory = [],
      rv_capabilities = base_capabilities, rv_version = None\<rparr>]"

definition joining :: "(string \<times> bool) \<times> srv" where
  "joining = register_worker ''k1'' ''o1'' (registration_payload (\<lambda>_ x. x) 8 ''card'' ''host'' ''linux'' 4
       \<lparr>hw_cpu_model = ''cpu'', hw_ram_gb = 16, hw_gpus = []\<rparr> (collect_bundles [] (Some [''ollama'']) two_views))
     ''w7'' (\<lambda>_. ''r'') 1000 sample_base"

theorem registration_offers_ready_witness:
  "map_option (\<lambda>w. (map rt_engine (w_runtimes w), advertised_models w)) (get_worker_row (snd joining) ''w1'') =
     Some ([''ollama'', ''vllm''], [(''m:4b'', Some ''abc'')]) \<and> fst joining = (''w1'', False)"
proof -
  have ev: "map_option (\<lambda>w. (map rt_engine (w_runtimes w), advertised_models w)) (get_worker_row (snd joining) ''w1'') =
      Some ([''ollama'', ''vllm''], [(''m:4b'', Some ''abc'')])" "fst joining = (''w1'', False)"
    "get_worker_row sample_base ''w7'' = None" by code_simp+
  have j: "joining = ((''w1'', False), snd joining)" using ev(2) by (metis prod.collapse)
  obtain w where w: "get_worker_row (snd joining) ''w1'' = Some w" using ev(1) by fastforce
  from registration_offers_ready [OF j [unfolded joining_def] ev(3) w [unfolded joining_def]]
  have "map rt_engine (w_runtimes w) = map rv_name two_views" by blast
  then show ?thesis using ev(1,2) by simp
qed

end
