(* ===== verification/Catalog_Admin.thy ===== *)
theory Catalog_Admin
  imports Catalog_Service
begin

text \<open>
  \<open>backend/routers/models.py\<close>: the catalogue as a user sees it, the quarantine of worker-reported
  artifacts that are not scheduled, and the adoption of one of them by a superadmin.
\<close>

section \<open>The visible catalogue\<close>

record listed_model =
  lm_id :: string
  lm_display_name :: string
  lm_runtime :: string
  lm_quantization :: "string option"
  lm_parameter_size :: "string option"
  lm_context_length :: "int option"
  lm_task_type :: "string option"
  lm_status :: catalog_status
  lm_adopted_by :: "string option"
  lm_capabilities :: "json option"
  lm_lineage :: "string option"
  lm_vram_gb :: "gb option"
  lm_size_gb :: "gb option"
  lm_source_type :: "string option"
  lm_source_ref :: "string option"
  lm_source_revision :: "string option"
  lm_homepage_url :: "string option"

definition listed :: "catalog_entry \<Rightarrow> listed_model" where
  "listed e = \<lparr>lm_id = c_id e, lm_display_name = c_display_name e, lm_runtime = c_runtime e,
     lm_quantization = c_quantization e, lm_parameter_size = c_parameter_size e,
     lm_context_length = c_context_length e, lm_task_type = c_task_type e, lm_status = c_status e,
     lm_adopted_by = c_adopted_by e, lm_capabilities = c_capabilities e, lm_lineage = c_lineage e,
     lm_vram_gb = c_vram_gb e, lm_size_gb = c_size_gb e, lm_source_type = c_source_type e,
     lm_source_ref = c_source_ref e, lm_source_revision = c_source_revision e, lm_homepage_url = c_homepage_url e\<rparr>"

definition may_see :: "srv \<Rightarrow> user_row \<Rightarrow> catalog_entry \<Rightarrow> bool" where
  "may_see db u e \<longleftrightarrow> (case c_org_id e of None \<Rightarrow> True
     | Some oid \<Rightarrow> usr_role u = RoleSuperadmin \<or>
         oid \<in> set (map mb_org_id (filter (\<lambda>m. mb_user_id m = usr_id u) (memberships db))))"

definition list_models :: "user_row \<Rightarrow> srv \<Rightarrow> listed_model list" where
  "list_models u db = map listed (filter (may_see db u) (sort_key c_id (filter selectable (catalog db))))"

section \<open>The quarantine\<close>

record quarantine_worker =
  qw_worker_id :: string
  qw_hostname :: string
  qw_org_id :: string
  qw_runtime :: string
  qw_loaded :: bool

record quarantine_group =
  qg_sha256 :: "string option"
  qg_status :: model_status
  qg_names :: "string list"
  qg_details :: "jdict option"
  qg_workers :: "quarantine_worker list"
  qg_claimed :: "(string \<times> string option) list"

definition held_rows :: "srv \<Rightarrow> (model_row \<times> runtime_row \<times> worker) list" where
  "held_rows db = [(m, rt, w). w \<leftarrow> workers db, rt \<leftarrow> w_runtimes w, m \<leftarrow> rt_models rt,
     m_status m = Unregistered \<or> m_status m = Drift]"

text \<open>By hash, and by name where there is none; the two states are kept apart.\<close>

definition group_key :: "model_row \<Rightarrow> string \<times> model_status" where
  "group_key m = (if truthy (m_digest m) then the (m_digest m) else ''name:'' @ m_name m, m_status m)"

definition new_group :: "model_row \<Rightarrow> quarantine_group" where
  "new_group m = \<lparr>qg_sha256 = m_digest m, qg_status = m_status m, qg_names = [], qg_details = None,
     qg_workers = [], qg_claimed = []\<rparr>"

definition worker_line :: "model_row \<Rightarrow> runtime_row \<Rightarrow> worker \<Rightarrow> quarantine_worker" where
  "worker_line m rt w = \<lparr>qw_worker_id = w_id w, qw_hostname = w_hostname w, qw_org_id = w_org_id w,
     qw_runtime = rt_engine rt, qw_loaded = m_loaded m\<rparr>"

definition add_to_group :: "catalog_entry list \<Rightarrow> model_row \<Rightarrow> runtime_row \<Rightarrow> worker \<Rightarrow> quarantine_group \<Rightarrow>
    quarantine_group" where
  "add_to_group cat m rt w g = g\<lparr>
     qg_names := (if m_name m \<in> set (qg_names g) then qg_names g else qg_names g @ [m_name m]),
     qg_details := (if qg_details g = None \<and> truthy (m_details m) then m_details m else qg_details g),
     qg_workers := qg_workers g @ [worker_line m rt w],
     qg_claimed := (if m_status m = Drift \<and> qg_claimed g = []
        then map (\<lambda>e. (c_id e, c_digest e)) (find_entries_by_name cat (m_name m)) else qg_claimed g)\<rparr>"

definition put_row :: "catalog_entry list \<Rightarrow> model_row \<times> runtime_row \<times> worker \<Rightarrow>
    ((string \<times> model_status) \<times> quarantine_group) list \<Rightarrow> ((string \<times> model_status) \<times> quarantine_group) list" where
  "put_row cat row groups = (case row of (m, rt, w) \<Rightarrow>
     dict_set (group_key m)
       (add_to_group cat m rt w (case map_of groups (group_key m) of None \<Rightarrow> new_group m | Some g \<Rightarrow> g)) groups)"

definition list_quarantine :: "srv \<Rightarrow> quarantine_group list" where
  "list_quarantine db = map (\<lambda>(k, g). g\<lparr>qg_names := sort (qg_names g)\<rparr>)
     (fold (put_row (catalog db)) (held_rows db) [])"

section \<open>Adoption\<close>

record adopt_body =
  ab_sha256 :: string
  ab_id :: string
  ab_display_name :: string
  ab_runtime :: string
  ab_runtime_model_id :: string
  ab_vram_gb :: gb
  ab_quantization :: "string option"
  ab_task_type :: "string option"
  ab_capabilities :: "json option"
  ab_lineage :: "string option"
  ab_size_gb :: "gb option"
  ab_org_id :: "string option"

text \<open>An absent task type is chat.\<close>

definition adopt_request_of :: "adopt_body \<Rightarrow> user_row \<Rightarrow> adopt_request" where
  "adopt_request_of req admin = \<lparr>ad_sha256 = ab_sha256 req, ad_id = ab_id req, ad_display_name = ab_display_name req,
     ad_runtime = ab_runtime req, ad_runtime_model_id = ab_runtime_model_id req, ad_vram_gb = Some (ab_vram_gb req),
     ad_extra_names = [], ad_quantization = ab_quantization req,
     ad_task_type = (case ab_task_type req of None \<Rightarrow> ''chat'' | Some t \<Rightarrow> t),
     ad_capabilities = ab_capabilities req, ad_lineage = ab_lineage req, ad_size_gb = ab_size_gb req,
     ad_parameter_size = None, ad_context_length = None, ad_org_id = ab_org_id req,
     ad_source_type = ''worker-adopted'', ad_source_ref = None, ad_source_revision = None, ad_homepage_url = None,
     ad_adopted_by = Some (usr_id admin), ad_enabled = True\<rparr>"

definition adopt_model :: "adopt_body \<Rightarrow> user_row \<Rightarrow> srv \<Rightarrow> ((string \<times> nat) \<times> srv) api" where
  "adopt_model req admin db = adopt (adopt_request_of req admin) db"

text \<open>With the authentication of the two administrative endpoints in front.\<close>

definition quarantine_endpoint :: "jwt_decode \<Rightarrow> string \<Rightarrow> srv \<Rightarrow> quarantine_group list api" where
  "quarantine_endpoint decode token db =
     ebind (require_role decode [RoleSuperadmin] token db) (\<lambda>_. Inr (list_quarantine db))"

definition adopt_endpoint :: "jwt_decode \<Rightarrow> string \<Rightarrow> adopt_body \<Rightarrow> srv \<Rightarrow> ((string \<times> nat) \<times> srv) api" where
  "adopt_endpoint decode token req db =
     ebind (require_role decode [RoleSuperadmin] token db) (\<lambda>admin. adopt_model req admin db)"

section \<open>Lemmas\<close>

text \<open>A digest as the daemons report it.\<close>

definition plain_digest :: "string \<Rightarrow> bool" where
  "plain_digest d \<longleftrightarrow> d \<noteq> [] \<and> lower d = d \<and> CHR '':'' \<notin> set d \<and> list_all (\<lambda>c. \<not> is_space c) d"

lemma plain_digest_forms:
  assumes "plain_digest d" "sha \<in> sha_forms d"
  shows "bare_digest sha = Some d" "truthy sha"
proof -
  have ns: "\<forall>c \<in> set (''sha256:'' @ d). \<not> is_space c"
    using assms(1) by (auto simp: plain_digest_def list_all_iff is_space_def)
  then have "strip (''sha256:'' @ d) = ''sha256:'' @ d" by (rule strip_no_space)
  moreover have "strip d = d" using ns by (intro strip_no_space) simp
  moreover have low: "lower (''sha256:'' @ d) = ''sha256'' @ CHR '':'' # d"
    using assms(1) by (simp add: plain_digest_def lower_def lower_char_def)
  moreover have "partition_at (CHR '':'') (''sha256'' @ CHR '':'' # d) = (''sha256'', d)"
    by (rule partition_at_append) simp
  ultimately show "bare_digest sha = Some d"
    using assms by (auto simp: sha_forms_def plain_digest_def bare_digest_def Let_def)
  show "truthy sha" using assms by (auto simp: sha_forms_def plain_digest_def)
qed

lemma plain_digest_bare: "plain_digest d \<Longrightarrow> bare_digest (Some d) = Some d"
  by (rule plain_digest_forms) (simp_all add: sha_forms_def)

definition pinned :: "string \<Rightarrow> catalog_entry list \<Rightarrow> bool" where
  "pinned d cat \<longleftrightarrow> Some d \<in> set (map c_digest cat)"

lemma pinned_classify:
  assumes "plain_digest d" "pinned d cat" "sha \<in> sha_forms d"
  shows "\<exists>e. classify_entry cat name sha = (Available, Some e)"
proof -
  have "find (\<lambda>e. c_digest e \<in> sha_forms d) cat \<noteq> None"
    using assms(2) unfolding pinned_def find_None_iff by (auto simp: sha_forms_def)
  moreover have "d \<noteq> []" using assms(1) by (simp add: plain_digest_def)
  ultimately show ?thesis
    using plain_digest_forms [OF assms(1,3)] by (auto simp: classify_entry_def find_entry_by_hash_def)
qed

lemma ensure_serving_name_digests:
  "map c_digest (fst (ensure_serving_name cat e name engine)) = map c_digest cat"
  by (auto simp: ensure_serving_name_def Let_def tbl_upd_def split: option.splits)

lemma set_state_digests:
  "set_state cat engine row status entry = (cat', row', ch) \<Longrightarrow> map c_digest cat' = map c_digest cat"
  by (auto simp: set_state_def Let_def ensure_serving_name_digests split: if_splits option.splits)

text \<open>A row of the hash after re-classification, given that the catalogue pins the hash.\<close>

definition settled :: "string \<Rightarrow> model_row \<Rightarrow> bool" where
  "settled d m \<longleftrightarrow> (m_digest m \<in> sha_forms d \<longrightarrow> m_status m = Available \<and> m_catalog_id m \<noteq> None)"

lemma reclassify_rows_settled:
  "reclassify_rows d engine ms cat = (cat', ms', n) \<Longrightarrow> plain_digest d \<Longrightarrow> pinned d cat \<Longrightarrow>
   pinned d cat' \<and> list_all (settled d) ms'"
proof (induction ms arbitrary: cat cat' ms' n)
  case (Cons m ms)
  show ?case
  proof (cases "m_digest m \<in> sha_forms d")
    case True
    obtain e where e: "classify_entry cat (m_name m) (m_digest m) = (Available, Some e)"
      using pinned_classify Cons.prems(2,3) True by blast
    obtain cat1 m1 ch where st: "set_state cat engine m Available (Some e) = (cat1, m1, ch)"
      by (rule prod_cases3)
    obtain cat2 ms2 k where rest: "reclassify_rows d engine ms cat1 = (cat2, ms2, k)" by (rule prod_cases3)
    have "pinned d cat1" using Cons.prems(3) set_state_digests [OF st] by (simp add: pinned_def)
    then have "pinned d cat2 \<and> list_all (settled d) ms2" using Cons.IH [OF rest] Cons.prems(2) by simp
    moreover have "settled d m1" using set_state_row [OF st] by (simp add: settled_def)
    ultimately show ?thesis using Cons.prems(1) True e st rest by auto
  next
    case False
    obtain cat2 ms2 k where rest: "reclassify_rows d engine ms cat = (cat2, ms2, k)" by (rule prod_cases3)
    then have "pinned d cat2 \<and> list_all (settled d) ms2" using Cons.IH Cons.prems(2,3) by blast
    moreover have "settled d m" using False by (simp add: settled_def)
    ultimately show ?thesis using Cons.prems(1) False rest by auto
  qed
qed simp

lemma reclassify_runtimes_settled:
  "reclassify_runtimes d rts cat = (cat', rts', n) \<Longrightarrow> plain_digest d \<Longrightarrow> pinned d cat \<Longrightarrow>
   pinned d cat' \<and> list_all (\<lambda>rt. list_all (settled d) (rt_models rt)) rts'"
proof (induction rts arbitrary: cat cat' rts' n)
  case (Cons rt rts)
  obtain cat1 ms k where ms: "reclassify_rows d (rt_engine rt) (rt_models rt) cat = (cat1, ms, k)" by (rule prod_cases3)
  obtain cat2 rts2 k2 where rest: "reclassify_runtimes d rts cat1 = (cat2, rts2, k2)" by (rule prod_cases3)
  have "pinned d cat1 \<and> list_all (settled d) ms" using reclassify_rows_settled [OF ms Cons.prems(2,3)] .
  then show ?case using Cons.IH [OF rest Cons.prems(2)] Cons.prems(1) ms rest by auto
qed simp

lemma reclassify_workers_settled:
  "reclassify_workers d ws cat = (cat', ws', n) \<Longrightarrow> plain_digest d \<Longrightarrow> pinned d cat \<Longrightarrow>
   pinned d cat' \<and> list_all (\<lambda>w. list_all (\<lambda>rt. list_all (settled d) (rt_models rt)) (w_runtimes w)) ws'"
proof (induction ws arbitrary: cat cat' ws' n)
  case (Cons w ws)
  obtain cat1 rts k where rts: "reclassify_runtimes d (w_runtimes w) cat = (cat1, rts, k)" by (rule prod_cases3)
  obtain cat2 ws2 k2 where rest: "reclassify_workers d ws cat1 = (cat2, ws2, k2)" by (rule prod_cases3)
  have "pinned d cat1 \<and> list_all (\<lambda>rt. list_all (settled d) (rt_models rt)) rts"
    using reclassify_runtimes_settled [OF rts Cons.prems(2,3)] .
  then show ?case using Cons.IH [OF rest Cons.prems(2)] Cons.prems(1) rts rest by auto
qed simp

text \<open>Every group of the quarantine is about a row that is held.\<close>

lemma put_rows_groups:
  "(k, g) \<in> set (fold (put_row cat) rows groups) \<Longrightarrow>
   (k, g) \<in> set groups \<or> (\<exists>m \<in> fst ` set rows. qg_sha256 g = m_digest m) \<or> (\<exists>g' \<in> snd ` set groups. qg_sha256 g = qg_sha256 g')"
proof (induction rows arbitrary: groups)
  case (Cons row rows)
  obtain m rt w where row: "row = (m, rt, w)" by (rule prod_cases3)
  have put: "(k', h) \<in> set (put_row cat row groups) \<Longrightarrow>
      (k', h) \<in> set groups \<or> qg_sha256 h = m_digest m \<or> (\<exists>g' \<in> snd ` set groups. qg_sha256 h = qg_sha256 g')" for k' h
  proof -
    have sub: "set (dict_set a b d) \<subseteq> insert (a, b) (set d)" for a b and d :: "((string \<times> model_status) \<times> quarantine_group) list"
      by (induction a b d rule: dict_set.induct) auto
    assume "(k', h) \<in> set (put_row cat row groups)"
    then show ?thesis using sub row
      by (fastforce simp: put_row_def add_to_group_def new_group_def dest!: map_of_SomeD subsetD [OF sub] split: option.splits intro: rev_image_eqI)
  qed
  then show ?case using Cons.IH [of "put_row cat row groups"] Cons.prems row by fastforce
qed simp

lemma quarantine_groups_held:
  "g \<in> set (list_quarantine db) \<Longrightarrow> \<exists>m rt w. (m, rt, w) \<in> set (held_rows db) \<and> qg_sha256 g = m_digest m"
proof -
  assume "g \<in> set (list_quarantine db)"
  then obtain k h where "(k, h) \<in> set (fold (put_row (catalog db)) (held_rows db) [])" "qg_sha256 g = qg_sha256 h"
    by (auto simp: list_quarantine_def)
  then show ?thesis using put_rows_groups [of k h "catalog db" "held_rows db" "[]"] by auto blast
qed

lemma held_rows_mem:
  "(m, rt, w) \<in> set (held_rows db) \<Longrightarrow> m \<in> set (all_model_rows db) \<and> m_status m \<in> {Unregistered, Drift}"
  by (auto simp: held_rows_def all_model_rows_def)

lemma adopt_settles:
  assumes "adopt req db = Inr ((eid, n), db')" "plain_digest (adopt_digest (ad_sha256 req))"
  shows "eid = ad_id req" "pinned (adopt_digest (ad_sha256 req)) (catalog db')"
    "\<forall>m \<in> set (all_model_rows db'). settled (adopt_digest (ad_sha256 req)) m"
proof -
  let ?d = "adopt_digest (ad_sha256 req)"
  let ?cat = "tbl_add (adopted_entry req) (catalog db)"
  have eq: "eid = ad_id req" "reclassify_hash (db\<lparr>catalog := ?cat\<rparr>) ?d = (db', n)"
    using assms(1) by (auto simp: adopt_def ebind_eq_Inr Let_def split: prod.splits)
  then show "eid = ad_id req" by simp
  obtain cat ws k where re: "reclassify_workers ?d (workers db) ?cat = (cat, ws, k)" by (rule prod_cases3)
  have "pinned ?d ?cat" by (simp add: pinned_def tbl_add_def adopted_entry_def)
  from reclassify_workers_settled [OF re assms(2) this]
  have st: "pinned ?d cat" "list_all (\<lambda>w. list_all (\<lambda>rt. list_all (settled ?d) (rt_models rt)) (w_runtimes w)) ws"
    by auto
  have "db' = db\<lparr>catalog := cat, workers := ws\<rparr>"
    using eq(2) re plain_digest_bare [OF assms(2)] by (simp add: reclassify_hash_def)
  then show "pinned ?d (catalog db')" "\<forall>m \<in> set (all_model_rows db'). settled ?d m"
    using st by (auto simp: all_model_rows_def list_all_iff)
qed

section \<open>Properties\<close>

text \<open>An adoption releases the artifact everywhere, and too much: once a superadmin has adopted a hash, every worker row
  that carries it is available and linked to a catalogue entry, and no group of the quarantine is about
  it. The row's earlier status is not looked at, so a copy that was missing from its worker's last inventory becomes
  servable without having been reported again, against the docstring of \<open>reconciliation.py\<close> and
  \<open>docs/reference/model-catalogue.md\<close>. (The hash is plain: in lower case without a separator.)\<close>

theorem adopt_clears_quarantine:
  assumes "adopt_model req admin db = Inr ((eid, n), db')" "plain_digest (adopt_digest (ab_sha256 req))"
  shows "(\<forall>m \<in> set (all_model_rows db'). m_digest m \<in> sha_forms (adopt_digest (ab_sha256 req)) \<longrightarrow>
      m_status m = Available \<and> model_schedulable m \<and> m_catalog_id m \<noteq> None) \<and>
    (\<forall>g \<in> set (list_quarantine db'). qg_sha256 g \<notin> sha_forms (adopt_digest (ab_sha256 req)))"
proof -
  have "ad_sha256 (adopt_request_of req admin) = ab_sha256 req" by (simp add: adopt_request_of_def)
  then have st: "\<forall>m \<in> set (all_model_rows db'). settled (adopt_digest (ab_sha256 req)) m"
    using adopt_settles(3) [of "adopt_request_of req admin" db eid n db'] assms by (simp add: adopt_model_def)
  have "qg_sha256 g \<notin> sha_forms (adopt_digest (ab_sha256 req))" if "g \<in> set (list_quarantine db')" for g
    using quarantine_groups_held [OF that] held_rows_mem st by (fastforce simp: settled_def)
  then show ?thesis using st by (auto simp: settled_def model_schedulable_def)
qed

definition gone_model :: model_row where
  "gone_model = sample_model\<lparr>m_digest := Some ''fee'', m_catalog_id := None, m_status := Missing, m_loaded := False\<rparr>"

definition held_model :: model_row where
  "held_model = gone_model\<lparr>m_name := ''q:1b'', m_status := Unregistered\<rparr>"

definition held_db :: srv where
  "held_db = sample_base\<lparr>workers := [sample_worker\<lparr>w_runtimes := [sample_runtime\<lparr>rt_models := [gone_model, held_model]\<rparr>]\<rparr>]\<rparr>"

definition sample_adoption :: adopt_body where
  "sample_adoption = \<lparr>ab_sha256 = ''sha256:FEE'', ab_id = ''q-1b'', ab_display_name = ''Q'', ab_runtime = ''ollama'',
     ab_runtime_model_id = ''q:1b'', ab_vram_gb = 1, ab_quantization = None, ab_task_type = None,
     ab_capabilities = None, ab_lineage = None, ab_size_gb = None, ab_org_id = None\<rparr>"

theorem adopt_clears_quarantine_witness:
  "map qg_sha256 (list_quarantine held_db) = [Some ''fee''] \<and>
   (\<exists>eid n db'. adopt_model sample_adoption sample_super held_db = Inr ((eid, n), db') \<and> n = 2 \<and>
      Some ''fee'' \<notin> qg_sha256 ` set (list_quarantine db') \<and>
      map m_status (all_model_rows held_db) = [Missing, Unregistered] \<and>
      map m_status (all_model_rows db') = [Available, Available])"
proof -
  have q: "map qg_sha256 (list_quarantine held_db) = [Some ''fee'']" by code_simp
  let ?r = "adopt_model sample_adoption sample_super held_db"
  have "map_sum id (\<lambda>((eid, n), db'). (n, map m_status (all_model_rows db'))) ?r = Inr (2, [Available, Available])"
    by code_simp
  then obtain eid n db' where r: "?r = Inr ((eid, n), db')" "n = 2" "map m_status (all_model_rows db') = [Available, Available]"
    by (cases ?r) auto
  have d: "adopt_digest (ab_sha256 sample_adoption) = ''fee''" by code_simp
  have "plain_digest (adopt_digest (ab_sha256 sample_adoption))" unfolding d by code_simp
  from adopt_clears_quarantine [OF r(1) this]
  have "Some ''fee'' \<notin> qg_sha256 ` set (list_quarantine db')" unfolding d by (force simp: sha_forms_def)
  moreover have "map m_status (all_model_rows held_db) = [Missing, Unregistered]" by code_simp
  ultimately show ?thesis using q r by (intro conjI exI [of _ eid] exI [of _ n] exI [of _ db']) simp_all
qed

end
