(* ===== verification/Catalog_Seed.thy ===== *)
theory Catalog_Seed
  imports Catalog_Service
begin

text \<open>
  \<open>backend/catalog_seed.py\<close>: the catalogue is synchronised with the shipped manifest at every start.
  The manifest is a list of items as the YAML reader gives them, None for one that is no mapping; its
  text and number fields are read with their types, None when absent. The session is committed
  at the end only: a seeding that raises leaves the database as it was. Creation times are not modelled.
\<close>

section \<open>The manifest\<close>

record manifest_profile =
  mp_runtime :: "string option"
  mp_model_id :: "string option"
  mp_params :: "json option"

text \<open>\<open>mf_role\<close>: None when absent, \<open>Some None\<close> an explicit null.\<close>

record manifest_artifact =
  mf_file :: "string option"
  mf_role :: "string option option"
  mf_sha256 :: "string option"
  mf_size :: "int option"

record manifest_entry =
  me_id :: "string option"
  me_renamed_from :: "string option"
  me_enabled :: "json option"
  me_display_name :: "string option"
  me_runtime :: "string option"
  me_model_id :: "string option"
  me_digest :: "string option"
  me_quantization :: "string option"
  me_parameter_size :: "string option"
  me_context_length :: "int option"
  me_vram_gb :: "gb option"
  me_size_gb :: "gb option"
  me_task_type :: "string option"
  me_capabilities :: "json option"
  me_lineage :: "string option"
  me_source_type :: "string option"
  me_source_ref :: "string option"
  me_source_revision :: "string option"
  me_homepage_url :: "string option"
  me_profiles :: "manifest_profile option list"
  me_files :: "manifest_artifact option list"

text \<open>What ends a seeding: \<open>.get\<close> of an item that is no mapping, or the insertion of a null into a
  column that has none.\<close>

datatype seed_error = NotAMapping | NullColumn

section \<open>Profiles and files of an entry\<close>

fun usable_profiles :: "string list \<Rightarrow> manifest_profile option list \<Rightarrow> profile_row list" where
  "usable_profiles seen [] = []"
| "usable_profiles seen (None # ps) = usable_profiles seen ps"
| "usable_profiles seen (Some p # ps) =
     (if \<not> truthy (mp_runtime p) \<or> \<not> truthy (mp_model_id p) then usable_profiles seen ps
      else if the (mp_runtime p) \<in> set seen then usable_profiles seen ps
      else \<lparr>p_runtime = the (mp_runtime p), p_runtime_model_id = the (mp_model_id p), p_extra_ids = None,
             p_params = mp_params p\<rparr> # usable_profiles (the (mp_runtime p) # seen) ps)"

definition entry_profiles :: "manifest_entry \<Rightarrow> profile_row list" where
  "entry_profiles e = usable_profiles []
     (if me_profiles e \<noteq> [] then me_profiles e
      else if truthy (me_runtime e) \<and> truthy (me_model_id e)
      then [Some \<lparr>mp_runtime = me_runtime e, mp_model_id = me_model_id e, mp_params = None\<rparr>] else [])"

definition artifact_roles :: "string list" where
  "artifact_roles = [''weights'', ''mmproj'', ''shard'']"

text \<open>The wanted files by name: of two items with one name the later one counts.\<close>

fun wanted_files :: "manifest_artifact option list \<Rightarrow> (string \<times> artifact_row) list \<Rightarrow>
    seed_error + (string \<times> artifact_row) list" where
  "wanted_files [] acc = Inr acc"
| "wanted_files (None # fs) acc = Inl NotAMapping"
| "wanted_files (Some f # fs) acc =
     (let role = (case mf_role f of None \<Rightarrow> Some ''weights'' | Some r \<Rightarrow> r) in
      if \<not> truthy (mf_file f) \<or> role \<notin> Some ` set artifact_roles then wanted_files fs acc
      else wanted_files fs (dict_set (the (mf_file f))
        \<lparr>ca_file = the (mf_file f), ca_role = the role, ca_sha256 = mf_sha256 f, ca_size = mf_size f\<rparr> acc))"

text \<open>Rows that the manifest does not want go, wanted ones are updated in place, new ones are added.\<close>

definition sync_rows :: "('r \<Rightarrow> string) \<Rightarrow> ('r \<Rightarrow> 'r \<Rightarrow> 'r) \<Rightarrow> 'r list \<Rightarrow> 'r list \<Rightarrow> 'r list" where
  "sync_rows key merge wanted existing =
     List.map_filter (\<lambda>r. map_option (\<lambda>w. merge w r) (find (\<lambda>w. key w = key r) wanted)) existing
     @ filter (\<lambda>w. key w \<notin> key ` set existing) wanted"

text \<open>The names that workers taught a profile are kept.\<close>

definition merge_profile :: "profile_row \<Rightarrow> profile_row \<Rightarrow> profile_row" where
  "merge_profile w r = r\<lparr>p_runtime_model_id := p_runtime_model_id w, p_params := p_params w\<rparr>"

definition merge_file :: "artifact_row \<Rightarrow> artifact_row \<Rightarrow> artifact_row" where
  "merge_file w r = r\<lparr>ca_role := ca_role w, ca_sha256 := ca_sha256 w, ca_size := ca_size w\<rparr>"

definition sync_profiles :: "profile_row list \<Rightarrow> profile_row list \<Rightarrow> profile_row list" where
  "sync_profiles = sync_rows p_runtime merge_profile"

definition sync_files :: "artifact_row list \<Rightarrow> artifact_row list \<Rightarrow> artifact_row list" where
  "sync_files = sync_rows ca_file merge_file"

section \<open>Entries\<close>

text \<open>An entry under a new id: the row with its children moves, and the workers' rows that were verified
  against the old one lose their link (\<open>ON DELETE SET NULL\<close>).\<close>

definition unlink :: "string \<Rightarrow> worker \<Rightarrow> worker" where
  "unlink old w = w\<lparr>w_runtimes := map (\<lambda>rt. rt\<lparr>rt_models := map (\<lambda>m.
     if m_catalog_id m = Some old then m\<lparr>m_catalog_id := None\<rparr> else m) (rt_models rt)\<rparr>) (w_runtimes w)\<rparr>"

definition apply_rename :: "string \<Rightarrow> string option \<Rightarrow> srv \<Rightarrow> srv" where
  "apply_rename mid renamed_from db =
     (if \<not> truthy renamed_from \<or> tbl_get c_id mid (catalog db) \<noteq> None then db
      else (case tbl_get c_id (the renamed_from) (catalog db) of
          None \<Rightarrow> db
        | Some old \<Rightarrow> db\<lparr>catalog := tbl_add (old\<lparr>c_id := mid\<rparr>) (tbl_del c_id (c_id old) (catalog db)),
            workers := map (unlink (c_id old)) (workers db)\<rparr>))"

definition is_enabled :: "manifest_entry \<Rightarrow> bool" where
  "is_enabled e = (case me_enabled e of None \<Rightarrow> True | Some v \<Rightarrow> jtruthy v)"

text \<open>The managed fields; \<open>the\<close> is applied to columns checked for null.\<close>

definition managed :: "manifest_entry \<Rightarrow> catalog_entry \<Rightarrow> catalog_entry" where
  "managed e row = row\<lparr>c_display_name := the (me_display_name e), c_runtime := the (me_runtime e),
     c_runtime_model_id := the (me_model_id e), c_digest := me_digest e, c_quantization := me_quantization e,
     c_parameter_size := me_parameter_size e, c_context_length := me_context_length e,
     c_vram_gb := me_vram_gb e, c_size_gb := me_size_gb e, c_task_type := me_task_type e,
     c_capabilities := me_capabilities e, c_lineage := me_lineage e, c_source_type := me_source_type e,
     c_source_ref := me_source_ref e, c_source_revision := me_source_revision e,
     c_homepage_url := me_homepage_url e, c_enabled := is_enabled e\<rparr>"

definition fresh_entry :: "string \<Rightarrow> catalog_entry" where
  "fresh_entry mid = \<lparr>c_id = mid, c_display_name = [], c_runtime = [], c_runtime_model_id = [],
     c_digest = None, c_quantization = None, c_vram_gb = None, c_size_gb = None, c_task_type = None,
     c_parameter_size = None, c_context_length = None, c_capabilities = None, c_lineage = None,
     c_source_type = None, c_source_ref = None, c_source_revision = None, c_homepage_url = None,
     c_org_id = None, c_status = CatActive, c_enabled = True, c_adopted_by = None, c_profiles = [], c_files = []\<rparr>"

definition no_nulls :: "manifest_entry \<Rightarrow> bool" where
  "no_nulls e \<longleftrightarrow> me_display_name e \<noteq> None \<and> me_runtime e \<noteq> None \<and> me_model_id e \<noteq> None"

definition synced_row :: "manifest_entry \<Rightarrow> artifact_row list \<Rightarrow> catalog_entry \<Rightarrow> catalog_entry" where
  "synced_row e fs row = (managed e row)\<lparr>c_profiles := sync_profiles (entry_profiles e) (c_profiles row),
     c_files := sync_files fs (c_files row)\<rparr>"

datatype seed_effect = Skipped | Inserted | Updated | Unchanged

definition upsert_entry :: "manifest_entry \<Rightarrow> string \<Rightarrow> srv \<Rightarrow> seed_error + srv \<times> seed_effect" where
  "upsert_entry e mid db =
     (if \<not> no_nulls e then Inl NullColumn
      else ebind (wanted_files (me_files e) []) (\<lambda>fs.
        let sync = synced_row e (map snd fs) in
        case tbl_get c_id mid (catalog db) of
          None \<Rightarrow> Inr (db\<lparr>catalog := tbl_add (sync (fresh_entry mid)) (catalog db)\<rparr>, Inserted)
        | Some row \<Rightarrow> Inr (db\<lparr>catalog := tbl_upd c_id mid sync (catalog db)\<rparr>,
            if sync row = row then Unchanged else Updated)))"

definition seed_entry :: "manifest_entry \<Rightarrow> srv \<Rightarrow> seed_error + srv \<times> seed_effect" where
  "seed_entry e db =
     (if \<not> truthy (me_id e) then Inr (db, Skipped)
      else let mid = the (me_id e) in
        if validate_entry_id mid (me_quantization e) \<noteq> [] then Inr (db, Skipped)
        else upsert_entry e mid (apply_rename mid (me_renamed_from e) db))"

fun seed_all :: "manifest_entry option list \<Rightarrow> srv \<Rightarrow> seed_error + srv \<times> seed_effect list" where
  "seed_all [] db = Inr (db, [])"
| "seed_all (None # es) db = Inl NotAMapping"
| "seed_all (Some e # es) db = ebind (seed_entry e db) (\<lambda>(db1, x).
     ebind (seed_all es db1) (\<lambda>(db2, xs). Inr (db2, x # xs)))"

text \<open>The outcome, and the database after it.\<close>

definition seed_model_catalog :: "manifest_entry option list \<Rightarrow> srv \<Rightarrow> (seed_error + seed_effect list) \<times> srv" where
  "seed_model_catalog es db = (case seed_all es db of
       Inl err \<Rightarrow> (Inl err, db)
     | Inr (db', effects) \<Rightarrow> (Inr effects, db'))"

section \<open>Synchronised child rows\<close>

text \<open>The laws of a child table: updating a row from the manifest keeps its key, settles it, and
  leaves a row that is the manifest's own alone.\<close>

locale child_table =
  fixes key :: "'r \<Rightarrow> string" and merge :: "'r \<Rightarrow> 'r \<Rightarrow> 'r"
  assumes merge_key [simp]: "key (merge w r) = key r"
    and merge_settles [simp]: "merge w (merge w r) = merge w r"
    and merge_self [simp]: "merge w w = w"
begin

text \<open>A table in step with the manifest: one row per wanted key, each settled.\<close>

definition in_step :: "'r list \<Rightarrow> 'r list \<Rightarrow> bool" where
  "in_step wanted rows \<longleftrightarrow> key ` set rows = key ` set wanted \<and>
     (\<forall>r \<in> set rows. \<forall>w. find (\<lambda>w. key w = key r) wanted = Some w \<longrightarrow> merge w r = r)"

lemma map_filter_all_Some: "(\<And>r. r \<in> set xs \<Longrightarrow> f r = Some r) \<Longrightarrow> List.map_filter f xs = xs"
  by (induction xs) (simp_all add: List.map_filter_simps)

lemma find_wanted: "key r \<in> key ` set wanted \<Longrightarrow> \<exists>w. find (\<lambda>w. key w = key r) wanted = Some w"
  by (cases "find (\<lambda>w. key w = key r) wanted") (auto simp: find_None_iff)

lemma find_self: "distinct (map key wanted) \<Longrightarrow> w \<in> set wanted \<Longrightarrow> find (\<lambda>v. key v = key w) wanted = Some w"
  using tbl_get_distinct [of key wanted w] by (simp add: tbl_get_def)

lemma set_sync: "set (sync_rows key merge wanted rows) =
    {merge w r | w r. r \<in> set rows \<and> find (\<lambda>w. key w = key r) wanted = Some w} \<union>
    {w \<in> set wanted. key w \<notin> key ` set rows}"
  by (force simp: sync_rows_def List.map_filter_def)

lemma keys_sync: "key ` set (sync_rows key merge wanted rows) = key ` set wanted"
proof
  show "key ` set (sync_rows key merge wanted rows) \<subseteq> key ` set wanted"
    by (auto simp: set_sync dest!: find_SomeD intro: rev_image_eqI)
next
  show "key ` set wanted \<subseteq> key ` set (sync_rows key merge wanted rows)"
  proof
    fix k assume k: "k \<in> key ` set wanted"
    show "k \<in> key ` set (sync_rows key merge wanted rows)"
    proof (cases "k \<in> key ` set rows")
      case True
      then obtain r w where r: "r \<in> set rows" "key r = k" "find (\<lambda>w. key w = key r) wanted = Some w"
        using k find_wanted by blast
      then have "merge w r \<in> set (sync_rows key merge wanted rows)" by (auto simp: set_sync)
      then show ?thesis using r(2) merge_key by (metis imageI)
    next
      case False
      then show ?thesis using k by (auto simp: set_sync)
    qed
  qed
qed

lemma sync_in_step: "distinct (map key wanted) \<Longrightarrow> in_step wanted (sync_rows key merge wanted rows)"
  unfolding in_step_def keys_sync by (auto simp: set_sync find_self)

lemma in_step_fixed: "in_step wanted rows \<Longrightarrow> sync_rows key merge wanted rows = rows"
proof -
  assume st: "in_step wanted rows"
  have "map_option (\<lambda>w. merge w r) (find (\<lambda>w. key w = key r) wanted) = Some r" if "r \<in> set rows" for r
  proof -
    have "key r \<in> key ` set wanted" using st that by (auto simp: in_step_def)
    then obtain w where "find (\<lambda>w. key w = key r) wanted = Some w" using find_wanted by blast
    then show ?thesis using st that by (simp add: in_step_def)
  qed
  then have "List.map_filter (\<lambda>r. map_option (\<lambda>w. merge w r) (find (\<lambda>w. key w = key r) wanted)) rows = rows"
    by (rule map_filter_all_Some)
  moreover have "filter (\<lambda>w. key w \<notin> key ` set rows) wanted = []"
    using st by (auto simp: in_step_def filter_empty_conv)
  ultimately show ?thesis by (simp add: sync_rows_def)
qed

lemma sync_twice:
  "distinct (map key wanted) \<Longrightarrow>
   sync_rows key merge wanted (sync_rows key merge wanted rows) = sync_rows key merge wanted rows"
  by (rule in_step_fixed [OF sync_in_step])

end

interpretation profile_rows: child_table p_runtime merge_profile
  by unfold_locales (simp_all add: merge_profile_def)

interpretation file_rows: child_table ca_file merge_file
  by unfold_locales (simp_all add: merge_file_def)

lemma usable_profiles_distinct:
  "distinct (map p_runtime (usable_profiles seen ps)) \<and> p_runtime ` set (usable_profiles seen ps) \<inter> set seen = {}"
  by (induction seen ps rule: usable_profiles.induct) auto

definition keyed_files :: "(string \<times> artifact_row) list \<Rightarrow> bool" where
  "keyed_files d \<longleftrightarrow> distinct (map fst d) \<and> (\<forall>p \<in> set d. ca_file (snd p) = fst p)"

lemma keyed_files_set: "keyed_files d \<Longrightarrow> ca_file r = k \<Longrightarrow> keyed_files (dict_set k r d)"
proof -
  assume d: "keyed_files d" and r: "ca_file r = k"
  have "\<forall>p \<in> set (dict_set k r d). ca_file (snd p) = fst p" if "\<forall>p \<in> set d. ca_file (snd p) = fst p"
    using that r by (induction k r d rule: dict_set.induct) auto
  then show ?thesis using d by (simp add: keyed_files_def distinct_dict_set)
qed

lemma wanted_files_keys: "wanted_files fs acc = Inr d \<Longrightarrow> keyed_files acc \<Longrightarrow> keyed_files d"
proof (induction fs acc rule: wanted_files.induct)
  case (3 f fs acc)
  let ?role = "case mf_role f of None \<Rightarrow> Some ''weights'' | Some r \<Rightarrow> r"
  show ?case
  proof (cases "\<not> truthy (mf_file f) \<or> ?role \<notin> Some ` set artifact_roles")
    case True
    then show ?thesis using "3.IH"(1) [OF refl] "3.prems" by (simp add: Let_def)
  next
    case False
    then show ?thesis using "3.IH"(2) [OF refl] "3.prems" by (simp add: Let_def keyed_files_set)
  qed
qed simp_all

lemma wanted_distinct: "wanted_files fs [] = Inr d \<Longrightarrow> distinct (map ca_file (map snd d))"
proof -
  assume "wanted_files fs [] = Inr d"
  then have d: "keyed_files d" by (rule wanted_files_keys) (simp add: keyed_files_def)
  then have "map ca_file (map snd d) = map fst d" by (simp add: keyed_files_def)
  then show ?thesis using d by (simp only: keyed_files_def)
qed

lemma synced_row_twice:
  assumes "wanted_files fs [] = Inr d"
  shows "synced_row e (map snd d) (synced_row e (map snd d) row) = synced_row e (map snd d) row"
proof -
  have "distinct (map p_runtime (entry_profiles e))" using usable_profiles_distinct by (simp add: entry_profiles_def)
  then show ?thesis
    using profile_rows.sync_twice file_rows.sync_twice [OF wanted_distinct [OF assms]]
    by (simp add: synced_row_def managed_def sync_profiles_def sync_files_def)
qed

lemma synced_row_id [simp]: "c_id (synced_row e fs row) = c_id row"
  by (simp add: synced_row_def managed_def)

section \<open>Seeding one entry\<close>

text \<open>An item the seeding looks at, and the ids it may touch.\<close>

definition usable_entry :: "manifest_entry \<Rightarrow> bool" where
  "usable_entry e \<longleftrightarrow> truthy (me_id e) \<and> validate_entry_id (the (me_id e)) (me_quantization e) = []"

definition touched :: "manifest_entry \<Rightarrow> string set" where
  "touched e = {i. Some i = me_id e \<or> Some i = me_renamed_from e}"

text \<open>The row of the item is there and already as the manifest wants it.\<close>

definition synced :: "manifest_entry \<Rightarrow> srv \<Rightarrow> bool" where
  "synced e db \<longleftrightarrow> (usable_entry e \<longrightarrow> no_nulls e \<and> (\<exists>fs row. wanted_files (me_files e) [] = Inr fs \<and>
     tbl_get c_id (the (me_id e)) (catalog db) = Some row \<and> synced_row e (map snd fs) row = row))"

lemma seed_entry_cases:
  assumes "seed_entry e db = Inr (db', x)"
  obtains (skipped) "\<not> usable_entry e" "db' = db" "x = Skipped"
  | (written) fs where "usable_entry e" "no_nulls e" "wanted_files (me_files e) [] = Inr fs"
      "upsert_entry e (the (me_id e)) (apply_rename (the (me_id e)) (me_renamed_from e) db) = Inr (db', x)"
proof (cases "usable_entry e")
  case False
  then have "seed_entry e db = Inr (db, Skipped)" by (auto simp: usable_entry_def seed_entry_def Let_def)
  then show thesis using False assms that(1) by simp
next
  case True
  then have u: "upsert_entry e (the (me_id e)) (apply_rename (the (me_id e)) (me_renamed_from e) db) = Inr (db', x)"
    using assms by (simp add: usable_entry_def seed_entry_def Let_def)
  then have "no_nulls e" by (simp add: upsert_entry_def split: if_splits)
  moreover then obtain fs where "wanted_files (me_files e) [] = Inr fs"
    using u by (auto simp: upsert_entry_def ebind_eq_Inr)
  ultimately show thesis using True u that(2) by blast
qed

lemma upsert_get:
  assumes "upsert_entry e mid db = Inr (db', x)" "wanted_files (me_files e) [] = Inr fs"
  shows "tbl_get c_id i (catalog db') = (if i = mid
    then Some (synced_row e (map snd fs) (case tbl_get c_id mid (catalog db) of None \<Rightarrow> fresh_entry mid | Some r \<Rightarrow> r))
    else tbl_get c_id i (catalog db))"
proof (cases "tbl_get c_id mid (catalog db)")
  case None
  then have "db' = db\<lparr>catalog := tbl_add (synced_row e (map snd fs) (fresh_entry mid)) (catalog db)\<rparr>"
    using assms by (auto simp: upsert_entry_def Let_def split: if_splits)
  then show ?thesis using None by (auto simp: catalog_table.get_add fresh_entry_def split: option.splits)
next
  case (Some row)
  then have "db' = db\<lparr>catalog := tbl_upd c_id mid (synced_row e (map snd fs)) (catalog db)\<rparr>"
    using assms by (auto simp: upsert_entry_def Let_def split: if_splits)
  then show ?thesis using Some by (simp add: catalog_table.get_upd)
qed

lemma rename_get_other:
  "i \<noteq> mid \<Longrightarrow> Some i \<noteq> renamed_from \<Longrightarrow>
   tbl_get c_id i (catalog (apply_rename mid renamed_from db)) = tbl_get c_id i (catalog db)"
  by (cases renamed_from)
    (auto simp: apply_rename_def catalog_table.get_add catalog_table.get_del dest: tbl_get_SomeD split: option.splits)

lemma seed_entry_other:
  assumes "seed_entry e db = Inr (db', x)" "i \<notin> touched e"
  shows "tbl_get c_id i (catalog db') = tbl_get c_id i (catalog db)"
  using assms(1)
proof (cases rule: seed_entry_cases)
  case (written fs)
  have "i \<noteq> the (me_id e)" using written(1) assms(2) by (cases "me_id e") (auto simp: usable_entry_def touched_def)
  then show ?thesis
    using upsert_get [OF written(4,3), of i] rename_get_other [of i "the (me_id e)" "me_renamed_from e" db] assms(2)
    by (simp add: touched_def)
qed simp

lemma seed_entry_synced:
  assumes "seed_entry e db = Inr (db', x)"
  shows "synced e db'"
  using assms
proof (cases rule: seed_entry_cases)
  case skipped
  then show ?thesis by (simp add: synced_def)
next
  case (written fs)
  then show ?thesis
    using upsert_get [OF written(4,3), of "the (me_id e)"] synced_row_twice [OF written(3)] by (simp add: synced_def)
qed

lemma tbl_upd_same:
  assumes "distinct (map key rows)" "tbl_get key k rows = Some r" "f r = r"
  shows "tbl_upd key k f rows = rows"
proof -
  have "(if key s = k then f s else s) = s" if "s \<in> set rows" for s
    using tbl_get_distinct [OF assms(1) that] assms(2,3) by auto
  then show ?thesis unfolding tbl_upd_def by (intro map_idI) blast
qed

text \<open>A synchronised entry is left alone.\<close>

lemma synced_fixed:
  assumes "synced e db" "distinct (map c_id (catalog db))"
  shows "seed_entry e db = Inr (db, if usable_entry e then Unchanged else Skipped)"
proof (cases "usable_entry e")
  case False
  then show ?thesis by (auto simp: usable_entry_def seed_entry_def Let_def)
next
  case True
  then obtain fs row where r: "no_nulls e" "wanted_files (me_files e) [] = Inr fs"
    "tbl_get c_id (the (me_id e)) (catalog db) = Some row" "synced_row e (map snd fs) row = row"
    using assms(1) by (auto simp: synced_def)
  then have "apply_rename (the (me_id e)) (me_renamed_from e) db = db" by (simp add: apply_rename_def)
  moreover have "tbl_upd c_id (the (me_id e)) (synced_row e (map snd fs)) (catalog db) = catalog db"
    using assms(2) r(3,4) by (rule tbl_upd_same)
  ultimately show ?thesis using True r
    by (simp add: usable_entry_def seed_entry_def upsert_entry_def Let_def)
qed

lemma distinct_tbl_add: "distinct (map key rows) \<Longrightarrow> tbl_get key (key r) rows = None \<Longrightarrow> distinct (map key (tbl_add r rows))"
  by (auto simp: tbl_add_def tbl_get_None)

lemma distinct_tbl_del: "distinct (map key rows) \<Longrightarrow> distinct (map key (tbl_del key k rows))"
  by (simp add: tbl_del_def distinct_map_filter)

lemma rename_distinct: "distinct (map c_id (catalog db)) \<Longrightarrow> distinct (map c_id (catalog (apply_rename mid from db)))"
  by (auto simp: apply_rename_def catalog_table.get_del distinct_tbl_del intro!: distinct_tbl_add split: option.splits)

lemma seed_entry_distinct:
  assumes "seed_entry e db = Inr (db', x)" "distinct (map c_id (catalog db))"
  shows "distinct (map c_id (catalog db'))"
  using assms(1)
proof (cases rule: seed_entry_cases)
  case (written fs)
  let ?db = "apply_rename (the (me_id e)) (me_renamed_from e) db"
  have "distinct (map c_id (catalog ?db))" by (rule rename_distinct [OF assms(2)])
  moreover have "distinct (map c_id (tbl_add (synced_row e (map snd fs) (fresh_entry (the (me_id e)))) (catalog ?db)))"
    if "tbl_get c_id (the (me_id e)) (catalog ?db) = None"
    using that calculation by (intro distinct_tbl_add) (simp_all add: fresh_entry_def)
  ultimately show ?thesis using written(2-4)
    by (auto simp: upsert_entry_def Let_def split: option.splits)
qed (use assms(2) in simp)

section \<open>Seeding the manifest\<close>

definition usable_entries :: "manifest_entry option list \<Rightarrow> manifest_entry list" where
  "usable_entries es = filter usable_entry (List.map_filter id es)"

lemma usable_entries_simps [simp]:
  "usable_entries [] = []" "usable_entries (None # es) = usable_entries es"
  "usable_entries (Some e # es) = (if usable_entry e then e # usable_entries es else usable_entries es)"
  by (simp_all add: usable_entries_def List.map_filter_simps)

text \<open>The manifest names no entry twice and renames none of its own.\<close>

definition tidy :: "manifest_entry option list \<Rightarrow> bool" where
  "tidy es \<longleftrightarrow> distinct (map me_id (usable_entries es)) \<and>
     (\<forall>e \<in> set (usable_entries es). \<forall>e' \<in> set (usable_entries es). me_renamed_from e \<noteq> me_id e')"

lemma seed_all_Cons:
  assumes "seed_all (Some e # es) db = Inr (db', xs)"
  obtains db1 x ys where "seed_entry e db = Inr (db1, x)" "seed_all es db1 = Inr (db', ys)" "xs = x # ys"
  using assms by (auto simp: ebind_eq_Inr split: prod.splits)

lemma not_usable_seed: "\<not> usable_entry e \<Longrightarrow> seed_entry e db = Inr (db', x) \<Longrightarrow> db' = db"
  by (erule seed_entry_cases) simp_all

lemma seed_all_other:
  "seed_all es db = Inr (db', xs) \<Longrightarrow> \<forall>e \<in> set (usable_entries es). i \<notin> touched e \<Longrightarrow>
   tbl_get c_id i (catalog db') = tbl_get c_id i (catalog db)"
proof (induction es arbitrary: db xs)
  case (Cons m es)
  then obtain e where m: "m = Some e" by (cases m) auto
  then obtain db1 x ys where st: "seed_entry e db = Inr (db1, x)" "seed_all es db1 = Inr (db', ys)"
    using Cons.prems(1) by (blast elim: seed_all_Cons)
  have "tbl_get c_id i (catalog db1) = tbl_get c_id i (catalog db)"
  proof (cases "usable_entry e")
    case True
    then show ?thesis using Cons.prems(2) m by (intro seed_entry_other [OF st(1)]) simp
  qed (use not_usable_seed [OF _ st(1)] in simp)
  then show ?case using Cons.IH [OF st(2)] Cons.prems(2) m by (auto split: if_splits)
qed simp

lemma seed_all_distinct:
  "seed_all es db = Inr (db', xs) \<Longrightarrow> distinct (map c_id (catalog db)) \<Longrightarrow> distinct (map c_id (catalog db'))"
proof (induction es arbitrary: db xs)
  case (Cons m es)
  then obtain e where "m = Some e" by (cases m) auto
  then obtain db1 x ys where "seed_entry e db = Inr (db1, x)" "seed_all es db1 = Inr (db', ys)"
    using Cons.prems(1) by (blast elim: seed_all_Cons)
  then show ?case using Cons seed_entry_distinct by blast
qed simp

lemma synced_get_eq:
  "synced e db \<Longrightarrow> (usable_entry e \<Longrightarrow> tbl_get c_id (the (me_id e)) (catalog db') = tbl_get c_id (the (me_id e)) (catalog db)) \<Longrightarrow>
   synced e db'"
  by (auto simp: synced_def)

lemma seed_all_synced:
  "seed_all es db = Inr (db', xs) \<Longrightarrow> tidy es \<Longrightarrow> \<forall>e. Some e \<in> set es \<longrightarrow> synced e db'"
proof (induction es arbitrary: db xs)
  case (Cons m es)
  then obtain e where m: "m = Some e" by (cases m) auto
  then obtain db1 x ys where st: "seed_entry e db = Inr (db1, x)" "seed_all es db1 = Inr (db', ys)"
    using Cons.prems(1) by (blast elim: seed_all_Cons)
  have "tidy es" using Cons.prems(2) m by (auto simp: tidy_def split: if_splits)
  then have rest: "\<forall>e. Some e \<in> set es \<longrightarrow> synced e db'" using Cons.IH st(2) by blast
  have "tbl_get c_id (the (me_id e)) (catalog db') = tbl_get c_id (the (me_id e)) (catalog db1)" if u: "usable_entry e"
  proof (rule seed_all_other [OF st(2)])
    have id: "me_id e = Some (the (me_id e))" using u by (cases "me_id e") (auto simp: usable_entry_def)
    show "\<forall>e' \<in> set (usable_entries es). the (me_id e) \<notin> touched e'"
      using Cons.prems(2) m u id by (force simp: tidy_def touched_def)
  qed
  then have "synced e db'" using seed_entry_synced [OF st(1)] by (rule synced_get_eq [rotated])
  then show ?case using rest m by auto
qed simp

lemma seed_all_fixed:
  "\<forall>e. Some e \<in> set es \<longrightarrow> synced e db \<Longrightarrow> None \<notin> set es \<Longrightarrow> distinct (map c_id (catalog db)) \<Longrightarrow>
   \<exists>ys. seed_all es db = Inr (db, ys) \<and> set ys \<subseteq> {Skipped, Unchanged}"
proof (induction es)
  case (Cons m es)
  then obtain e where m: "m = Some e" by (cases m) auto
  obtain ys where "seed_all es db = Inr (db, ys)" "set ys \<subseteq> {Skipped, Unchanged}" using Cons by auto
  moreover have "seed_entry e db = Inr (db, if usable_entry e then Unchanged else Skipped)"
    using Cons.prems m by (intro synced_fixed) auto
  ultimately show ?case using m by auto
qed simp

lemma seed_all_mappings: "seed_all es db = Inr (db', xs) \<Longrightarrow> None \<notin> set es"
proof (induction es arbitrary: db xs)
  case (Cons m es)
  then obtain e where m: "m = Some e" by (cases m) auto
  then show ?case using Cons by (auto elim!: seed_all_Cons)
qed simp

text \<open>Seeding is safe to repeat: when a manifest that names no entry twice and renames none of its own
  has been seeded, seeding it again changes nothing, and reports no entry as inserted or updated.
  Profiles, learned serving names and artifact files included.\<close>

theorem seed_idempotent:
  assumes "seed_model_catalog es db = (Inr effects, db')" "tidy es" "distinct (map c_id (catalog db))"
  shows "\<exists>again. seed_model_catalog es db' = (Inr again, db') \<and> set again \<subseteq> {Skipped, Unchanged}"
proof -
  have s: "seed_all es db = Inr (db', effects)"
    using assms(1) by (auto simp: seed_model_catalog_def split: sum.splits prod.splits)
  obtain ys where "seed_all es db' = Inr (db', ys)" "set ys \<subseteq> {Skipped, Unchanged}"
    using seed_all_fixed [OF seed_all_synced [OF s assms(2)] seed_all_mappings [OF s] seed_all_distinct [OF s assms(3)]]
    by blast
  then show ?thesis by (simp add: seed_model_catalog_def)
qed

definition shipped_manifest :: "manifest_entry option list" where
  "shipped_manifest = [Some \<lparr>me_id = Some ''n-4b'', me_renamed_from = Some ''m-4b'', me_enabled = None,
     me_display_name = Some ''N'', me_runtime = Some ''ollama'', me_model_id = Some ''m:4b'', me_digest = Some ''abc'',
     me_quantization = None, me_parameter_size = Some ''4B'', me_context_length = None, me_vram_gb = Some 4,
     me_size_gb = None, me_task_type = Some ''chat'', me_capabilities = None, me_lineage = None,
     me_source_type = None, me_source_ref = None, me_source_revision = None, me_homepage_url = None,
     me_profiles = [], me_files = [Some \<lparr>mf_file = Some ''w.gguf'', mf_role = None, mf_sha256 = Some ''abc'', mf_size = None\<rparr>]\<rparr>]"

theorem seed_idempotent_witness:
  "fst (seed_model_catalog shipped_manifest sample_base) = Inr [Updated] \<and>
   (\<exists>again. seed_model_catalog shipped_manifest (snd (seed_model_catalog shipped_manifest sample_base)) =
      (Inr again, snd (seed_model_catalog shipped_manifest sample_base)) \<and> set again \<subseteq> {Skipped, Unchanged})"
proof -
  let ?r = "seed_model_catalog shipped_manifest sample_base"
  have run: "fst ?r = Inr [Updated]" by code_simp
  have "?r = (Inr [Updated], snd ?r)" using run by (metis prod.collapse)
  moreover have "tidy shipped_manifest" "distinct (map c_id (catalog sample_base))" by code_simp+
  ultimately show ?thesis using run seed_idempotent by blast
qed

definition curation :: "catalog_entry \<Rightarrow> string option \<times> catalog_status \<times> string option" where
  "curation row = (c_org_id row, c_status row, c_adopted_by row)"

lemma curation_synced [simp]: "curation (synced_row e fs row) = curation row"
  by (simp add: curation_def synced_row_def managed_def)

lemma rename_get_kept:
  assumes "tbl_get c_id i (catalog db) = Some row" "renamed_from \<noteq> Some i"
  shows "tbl_get c_id i (catalog (apply_rename mid renamed_from db)) = Some row"
proof (cases "truthy renamed_from \<and> tbl_get c_id mid (catalog db) = None")
  case True
  then obtain from_id where f: "renamed_from = Some from_id" "from_id \<noteq> i" using assms(2) by (cases renamed_from) auto
  have "i \<noteq> mid" using True assms(1) by auto
  then show ?thesis using True f assms(1)
    by (auto simp: apply_rename_def catalog_table.get_add catalog_table.get_del dest: tbl_get_SomeD split: option.splits)
qed (use assms in \<open>auto simp: apply_rename_def\<close>)

lemma seed_entry_curation:
  assumes "seed_entry e db = Inr (db', x)" "tbl_get c_id i (catalog db) = Some row"
    "usable_entry e \<longrightarrow> me_renamed_from e \<noteq> Some i"
  shows "\<exists>row'. tbl_get c_id i (catalog db') = Some row' \<and> curation row' = curation row"
  using assms(1)
proof (cases rule: seed_entry_cases)
  case (written fs)
  have "tbl_get c_id i (catalog (apply_rename (the (me_id e)) (me_renamed_from e) db)) = Some row"
    using assms(2,3) written(1) by (intro rename_get_kept) simp_all
  then show ?thesis using upsert_get [OF written(4,3), of i] by auto
qed (use assms(2) in simp)

lemma seed_all_curation:
  "seed_all es db = Inr (db', xs) \<Longrightarrow> tbl_get c_id i (catalog db) = Some row \<Longrightarrow>
   \<forall>e \<in> set (usable_entries es). me_renamed_from e \<noteq> Some i \<Longrightarrow>
   \<exists>row'. tbl_get c_id i (catalog db') = Some row' \<and> curation row' = curation row"
proof (induction es arbitrary: db xs row)
  case (Cons m es)
  then obtain e where m: "m = Some e" by (cases m) auto
  then obtain db1 x ys where st: "seed_entry e db = Inr (db1, x)" "seed_all es db1 = Inr (db', ys)"
    using Cons.prems(1) by (blast elim: seed_all_Cons)
  obtain row1 where "tbl_get c_id i (catalog db1) = Some row1" "curation row1 = curation row"
    using seed_entry_curation [OF st(1) Cons.prems(2)] Cons.prems(3) m by auto
  then show ?case using Cons.IH [OF st(2)] Cons.prems(3) m by (auto split: if_splits)
qed simp

text \<open>C25: Seeding never clobbers what an administrator decided: an entry that the manifest does not name stays
  as it is, and one that it names keeps its organization, status and adopter. A seeding that fails
  half-way leaves the whole database as it was. (Hypothesis: the entry is not renamed by the manifest.)\<close>

theorem seed_keeps_curation:
  assumes "seed_model_catalog es db = (outcome, db')" "tbl_get c_id i (catalog db) = Some row"
    "Some i \<notin> me_renamed_from ` set (usable_entries es)"
  shows "\<exists>row'. tbl_get c_id i (catalog db') = Some row' \<and> c_org_id row' = c_org_id row \<and>
      c_status row' = c_status row \<and> c_adopted_by row' = c_adopted_by row \<and>
      (Some i \<notin> me_id ` set (usable_entries es) \<longrightarrow> row' = row) \<and> (isl outcome \<longrightarrow> db' = db)"
proof (cases "seed_all es db")
  case (Inl err)
  then show ?thesis using assms(1,2) by (auto simp: seed_model_catalog_def)
next
  case (Inr r)
  then have s: "seed_all es db = Inr (db', snd r)" and out: "\<not> isl outcome"
    using assms(1) by (auto simp: seed_model_catalog_def split: prod.splits)
  obtain row' where row': "tbl_get c_id i (catalog db') = Some row'" "curation row' = curation row"
    using seed_all_curation [OF s assms(2)] assms(3) by force
  have "row' = row" if "Some i \<notin> me_id ` set (usable_entries es)"
  proof -
    have "\<forall>e \<in> set (usable_entries es). i \<notin> touched e" using that assms(3) by (auto simp: touched_def)
    then show ?thesis using seed_all_other [OF s] assms(2) row'(1) by auto
  qed
  then show ?thesis using row' out by (auto simp: curation_def)
qed

definition private_entry :: catalog_entry where
  "private_entry = sample_entry\<lparr>c_id := ''n-4b'', c_org_id := Some ''o1'', c_status := CatUnverified\<rparr>"

theorem seed_keeps_curation_witness:
  "\<exists>row'. tbl_get c_id ''n-4b'' (catalog (snd (seed_model_catalog shipped_manifest (sample_base\<lparr>catalog := [private_entry]\<rparr>)))) =
      Some row' \<and> c_org_id row' = Some ''o1'' \<and> c_status row' = CatUnverified \<and> row' \<noteq> private_entry"
proof -
  let ?db = "sample_base\<lparr>catalog := [private_entry]\<rparr>"
  have get: "tbl_get c_id ''n-4b'' (catalog ?db) = Some private_entry" by code_simp
  have "Some ''n-4b'' \<notin> me_renamed_from ` set (usable_entries shipped_manifest)" by code_simp
  from seed_keeps_curation [OF prod.collapse [symmetric] get this]
  obtain row' where "tbl_get c_id ''n-4b'' (catalog (snd (seed_model_catalog shipped_manifest ?db))) = Some row'"
    "c_org_id row' = Some ''o1''" "c_status row' = CatUnverified"
    by (auto simp: private_entry_def)
  moreover have "tbl_get c_id ''n-4b'' (catalog (snd (seed_model_catalog shipped_manifest ?db))) \<noteq> Some private_entry"
    by code_simp
  ultimately show ?thesis by auto
qed

text \<open>A rename strands the queue: seeding an entry under a new id moves its row, learned state and all, but a
  batch that was queued under the old id is not eligible for any worker, at any time, from then on
  (as long as no entry takes the old id again).\<close>

theorem rename_strands_queue:
  assumes "seed_entry e db = Inr (db', x)" "usable_entry e" "me_renamed_from e = Some old_id" "old_id \<noteq> []"
    "tbl_get c_id (the (me_id e)) (catalog db) = None" "tbl_get c_id old_id (catalog db) = Some row"
  shows "(\<exists>row'. tbl_get c_id (the (me_id e)) (catalog db') = Some row' \<and> c_org_id row' = c_org_id row \<and>
      c_status row' = c_status row \<and> c_adopted_by row' = c_adopted_by row) \<and>
    (\<forall>wall now w b. b_model b = Some old_id \<longrightarrow> \<not> eligible wall now db' w b)"
  using assms(1)
proof (cases rule: seed_entry_cases)
  case (written fs)
  let ?mid = "the (me_id e)" and ?db = "apply_rename (the (me_id e)) (me_renamed_from e) db"
  have old: "c_id row = old_id" using assms(6) by (auto dest: tbl_get_SomeD)
  have ne: "old_id \<noteq> ?mid" using assms(5,6) by auto
  have cat: "catalog ?db = tbl_add (row\<lparr>c_id := ?mid\<rparr>) (tbl_del c_id old_id (catalog db))"
    using assms(3-6) old by (simp add: apply_rename_def)
  have "tbl_get c_id ?mid (catalog ?db) = Some (row\<lparr>c_id := ?mid\<rparr>)"
    using assms(5) ne unfolding cat by (simp add: catalog_table.get_add catalog_table.get_del)
  then have new: "tbl_get c_id ?mid (catalog db') = Some (synced_row e (map snd fs) (row\<lparr>c_id := ?mid\<rparr>))"
    using upsert_get [OF written(4,3), of ?mid] by simp
  have "tbl_get c_id old_id (catalog ?db) = None"
    using ne unfolding cat by (simp add: catalog_table.get_add catalog_table.get_del)
  then have "tbl_get c_id old_id (catalog db') = None"
    using upsert_get [OF written(4,3), of old_id] ne by simp
  then have "get_catalog_entry db' (Some old_id) = None"
    by (auto simp: get_catalog_entry_def tbl_get_None find_None_iff)
  then show ?thesis using new by (auto simp: eligible_def synced_row_def managed_def)
qed (use assms(2) in simp)

theorem rename_strands_queue_witness:
  "get_catalog_entry (sample_db Validated) (b_model (sample_batch Validated)) = Some sample_entry \<and>
   \<not> eligible sample_wall 1000 (snd (seed_model_catalog shipped_manifest (sample_db Validated))) sample_worker (sample_batch Validated)"
proof -
  let ?db = "sample_db Validated" and ?e = "the (hd shipped_manifest)"
  let ?s = "snd (seed_model_catalog shipped_manifest ?db)"
  have before: "get_catalog_entry ?db (b_model (sample_batch Validated)) = Some sample_entry" by code_simp
  have u: "usable_entry ?e" "me_renamed_from ?e = Some ''m-4b''" "(''m-4b'' :: string) \<noteq> []"
    "tbl_get c_id (the (me_id ?e)) (catalog ?db) = None" "tbl_get c_id ''m-4b'' (catalog ?db) = Some sample_entry"
    by code_simp+
  obtain db' x where run: "seed_entry ?e ?db = Inr (db', x)"
  proof -
    have "\<not> isl (seed_entry ?e ?db)" by code_simp
    then show thesis using that by (cases "seed_entry ?e ?db") auto
  qed
  have "shipped_manifest = [Some ?e]" by (simp add: shipped_manifest_def)
  then have "seed_model_catalog shipped_manifest ?db = seed_model_catalog [Some ?e] ?db" by (rule arg_cong)
  then have "?s = db'" using run by (simp add: seed_model_catalog_def)
  moreover have "b_model (sample_batch Validated) = Some ''m-4b''" by code_simp
  ultimately show ?thesis using rename_strands_queue [OF run u] before by blast
qed

end
