(* ===== verification/Catalog_Capture.thy ===== *)
theory Catalog_Capture
  imports Catalog_Seed Exec_Ollama Hardware
begin

text \<open>
  The maintenance scripts: \<open>scripts/capture_catalog.py\<close>, which fills the entries of the manifest from a
  reference machine's Ollama or stages stubs for models it does not name, and
  \<open>scripts/backfill_vllm_sizes.py\<close>, which re-estimates the sizes of vLLM entries from all their shards.
  The manifest is the one of theory Catalog_Seed, written back as a whole. \<open>rnd\<close> is \<open>round\<close>.
\<close>

section \<open>What Ollama reports\<close>

record tag_facts =
  tf_digest :: "string option"
  tf_resolved :: bool
  tf_size_gb :: "gb option"
  tf_quantization :: "string option"
  tf_parameter_size :: "string option"

definition bytes_to_gb :: "py_round \<Rightarrow> int option \<Rightarrow> gb option" where
  "bytes_to_gb rnd n = (if or0 n = 0 then None else Some (rnd 2 (of_int (or0 n) / 1024 ^ 3)))"

text \<open>One model of \<open>/api/tags\<close>; its fields have the types Ollama gives them.\<close>

definition tag_facts_of :: "py_round \<Rightarrow> jdict \<Rightarrow> tag_facts" where
  "tag_facts_of rnd m =
     (let details = (case jget ''details'' m of JObj d \<Rightarrow> d | _ \<Rightarrow> []) in
      \<lparr>tf_digest = bare_digest (jstr (jget ''digest'' m)), tf_resolved = False,
       tf_size_gb = bytes_to_gb rnd (case jget ''size'' m of JInt n \<Rightarrow> Some n | _ \<Rightarrow> None),
       tf_quantization = jstr (jget ''quantization_level'' details),
       tf_parameter_size = jstr (jget ''parameter_size'' details)\<rparr>)"

definition fetch_tags :: "py_round \<Rightarrow> jdict list \<Rightarrow> (string \<times> tag_facts) list" where
  "fetch_tags rnd models = fold (\<lambda>m tags. case jstr (jget ''name'' m) of
       None \<Rightarrow> tags
     | Some name \<Rightarrow> if name = [] then tags else dict_set name (tag_facts_of rnd m) tags) models []"

section \<open>File hashes\<close>

text \<open>From the manifests on disk: a file that cannot be read is skipped, one that is no object raises.\<close>

fun local_file_digests :: "(json \<Rightarrow> string) \<Rightarrow> manifest_file list \<Rightarrow> (string \<times> string) list \<Rightarrow>
    py_exn + (string \<times> string) list" where
  "local_file_digests repr [] out = Inr out"
| "local_file_digests repr (f # fs) out = (case (mf_parts f, mf_json f) of
       ([host, ns, m, t], Some v) \<Rightarrow>
         ebind (dict_or_raise v) (\<lambda>d. ebind (model_layer_digest repr d) (\<lambda>dg.
         local_file_digests repr fs (case dg of
             None \<Rightarrow> out
           | Some x \<Rightarrow> if x = [] then out else dict_set (manifest_model_name host ns m t) x out)))
     | _ \<Rightarrow> local_file_digests repr fs out)"

definition file_digest :: "(json \<Rightarrow> string) \<Rightarrow> client option \<Rightarrow> (string \<times> string) list \<Rightarrow> string \<Rightarrow>
    py_exn + string option" where
  "file_digest repr registry local name = (case map_of local name of
       Some d \<Rightarrow> Inr (Some d)
     | None \<Rightarrow> (case registry of None \<Rightarrow> Inr None | Some client \<Rightarrow> registry_file_digest repr client name))"

text \<open>Each wanted tag gets the hash of its file, or none, in place of Ollama's own digest. \<open>registry\<close> is
  None under \<open>--no-registry\<close>; \<open>wanted\<close> are the names of \<open>--only\<close>, None for all.\<close>

fun resolve_digests :: "(json \<Rightarrow> string) \<Rightarrow> client option \<Rightarrow> (string \<times> string) list \<Rightarrow> string list option \<Rightarrow>
    (string \<times> tag_facts) list \<Rightarrow> py_exn + (string \<times> tag_facts) list" where
  "resolve_digests repr registry local wanted [] = Inr []"
| "resolve_digests repr registry local wanted ((name, t) # tags) =
     ebind (if case wanted of None \<Rightarrow> True | Some ns \<Rightarrow> name \<in> set ns
            then ebind (file_digest repr registry local name) (\<lambda>d. Inr (t\<lparr>tf_digest := d, tf_resolved := True\<rparr>))
            else Inr t) (\<lambda>t'.
     ebind (resolve_digests repr registry local wanted tags) (\<lambda>rest. Inr ((name, t') # rest)))"

section \<open>VRAM and slugs\<close>

definition estimate_from_size :: "py_round \<Rightarrow> gb option \<Rightarrow> gb option" where
  "estimate_from_size rnd size_gb =
     (if or0 size_gb = 0 then None else Some (rnd 1 (or0 size_gb * (12 / 10) + 1 / 2)))"

text \<open>\<open>measured\<close>: the footprint read after loading a model, None without \<open>--measure-vram\<close>.\<close>

definition resolve_vram :: "py_round \<Rightarrow> (string \<Rightarrow> gb option) option \<Rightarrow> string \<Rightarrow> gb option \<Rightarrow> gb option" where
  "resolve_vram rnd measured model size_gb = (case Option.bind measured (\<lambda>f. f model) of
       Some v \<Rightarrow> Some v
     | None \<Rightarrow> estimate_from_size rnd size_gb)"

definition stub_slug :: "string \<Rightarrow> string option \<Rightarrow> string" where
  "stub_slug rmid quantization =
     (let base = lower (map (\<lambda>c. if c \<in> {CHR '':'', CHR ''/'', CHR ''.''} then CHR ''-'' else c) rmid) in
      if truthy quantization then base @ CHR ''-'' # norm_word (the quantization) else base)"

section \<open>Enriching the entries of the manifest\<close>

definition or_text :: "string option \<Rightarrow> string option \<Rightarrow> string option" where
  "or_text a b = (if truthy a then a else b)"

definition or_gb :: "gb option \<Rightarrow> gb option \<Rightarrow> gb option" where
  "or_gb a b = (if or0 a \<noteq> 0 then a else b)"

text \<open>\<open>d[k] = v\<close> only for a value that is not null.\<close>

definition keep_null :: "'a option \<Rightarrow> 'a option \<Rightarrow> 'a option" where
  "keep_null new old = (case new of None \<Rightarrow> old | Some v \<Rightarrow> Some v)"

text \<open>The facts of its tag on an entry: a digest that was looked up is written even when it is none, a
  curated VRAM figure is kept. \<open>ctx\<close>: the context length \<open>/api/show\<close> gives.\<close>

definition enrich_facts :: "py_round \<Rightarrow> (string \<Rightarrow> gb option) option \<Rightarrow> (string \<Rightarrow> int option) \<Rightarrow> tag_facts \<Rightarrow>
    manifest_entry \<Rightarrow> manifest_entry" where
  "enrich_facts rnd measured ctx t e =
     (let rmid = the (me_model_id e); size_gb = or_gb (tf_size_gb t) (me_size_gb e) in
      e\<lparr>me_digest := (if tf_resolved t then tf_digest t else keep_null (tf_digest t) (me_digest e)),
        me_quantization := keep_null (or_text (tf_quantization t) (me_quantization e)) (me_quantization e),
        me_parameter_size := keep_null (or_text (tf_parameter_size t) (me_parameter_size e)) (me_parameter_size e),
        me_size_gb := keep_null size_gb (me_size_gb e),
        me_context_length := (if or0 (ctx rmid) \<noteq> 0 then ctx rmid else me_context_length e),
        me_vram_gb := (if me_vram_gb e = None then resolve_vram rnd measured rmid size_gb else me_vram_gb e)\<rparr>)"

definition enriches :: "string list option \<Rightarrow> (string \<times> tag_facts) list \<Rightarrow> manifest_entry \<Rightarrow> tag_facts option" where
  "enriches wanted tags e =
     (if me_runtime e \<noteq> Some ''ollama'' \<or> \<not> truthy (me_model_id e) then None
      else if (case wanted of None \<Rightarrow> False | Some ns \<Rightarrow> ns \<noteq> [] \<and> the (me_model_id e) \<notin> set ns) then None
      else map_of tags (the (me_model_id e)))"

text \<open>The entries and how many of them changed; the report of an entry without an id raises.\<close>

fun enrich :: "py_round \<Rightarrow> (string \<Rightarrow> gb option) option \<Rightarrow> (string \<Rightarrow> int option) \<Rightarrow> string list option \<Rightarrow>
    (string \<times> tag_facts) list \<Rightarrow> manifest_entry list \<Rightarrow> py_exn + manifest_entry list \<times> nat" where
  "enrich rnd measured ctx wanted tags [] = Inr ([], 0)"
| "enrich rnd measured ctx wanted tags (e # es) = (case enriches wanted tags e of
       None \<Rightarrow> map_sum id (\<lambda>(es', n). (e # es', n)) (enrich rnd measured ctx wanted tags es)
     | Some t \<Rightarrow> if me_id e = None then Inl KeyError
         else let e' = enrich_facts rnd measured ctx t e in
           map_sum id (\<lambda>(es', n). (e' # es', if e' = e then n else Suc n)) (enrich rnd measured ctx wanted tags es))"

section \<open>Staging models the manifest does not name\<close>

definition discovered_stub :: "py_round \<Rightarrow> (string \<Rightarrow> gb option) option \<Rightarrow> (string \<Rightarrow> int option) \<Rightarrow> string \<Rightarrow>
    tag_facts \<Rightarrow> manifest_entry" where
  "discovered_stub rnd measured ctx rmid t =
     \<lparr>me_id = Some (stub_slug rmid (tf_quantization t)), me_renamed_from = None, me_enabled = Some (JBool False),
      me_display_name = Some (''TODO: '' @ rmid), me_runtime = Some ''ollama'', me_model_id = Some rmid,
      me_digest = tf_digest t, me_quantization = tf_quantization t, me_parameter_size = tf_parameter_size t,
      me_context_length = ctx rmid, me_vram_gb = resolve_vram rnd measured rmid (tf_size_gb t),
      me_size_gb = tf_size_gb t, me_task_type = Some ''chat'', me_capabilities = None, me_lineage = None,
      me_source_type = Some ''ollama-library'', me_source_ref = Some (hd (split_on (CHR '':'') rmid)),
      me_source_revision = None,
      me_homepage_url = Some (''https://ollama.com/library/'' @ hd (split_on (CHR '':'') rmid)),
      me_profiles = [], me_files = []\<rparr>"

definition discover :: "py_round \<Rightarrow> (string \<Rightarrow> gb option) option \<Rightarrow> (string \<Rightarrow> int option) \<Rightarrow>
    (string \<times> tag_facts) list \<Rightarrow> manifest_entry list \<Rightarrow> manifest_entry list \<times> nat" where
  "discover rnd measured ctx tags es =
     (let known = map me_model_id (filter (\<lambda>e. me_runtime e = Some ''ollama'') es);
          stubs = map (\<lambda>(rmid, t). discovered_stub rnd measured ctx rmid t)
            (filter (\<lambda>(rmid, t). Some rmid \<notin> set known) (sort_key fst tags))
      in (es @ stubs, length stubs))"

text \<open>The whole run: the entries of the manifest it writes, the old ones when nothing changed.\<close>

definition capture :: "py_round \<Rightarrow> (json \<Rightarrow> string) \<Rightarrow> client option \<Rightarrow> (string \<Rightarrow> gb option) option \<Rightarrow>
    (string \<Rightarrow> int option) \<Rightarrow> bool \<Rightarrow> string list option \<Rightarrow> jdict list \<Rightarrow> manifest_file list \<Rightarrow>
    manifest_entry list \<Rightarrow> py_exn + manifest_entry list" where
  "capture rnd repr registry measured ctx staging wanted models disk_files es =
     ebind (local_file_digests repr disk_files []) (\<lambda>local.
     ebind (resolve_digests repr registry local (if staging \<or> wanted = Some [] then None else wanted)
       (fetch_tags rnd models)) (\<lambda>tags.
     ebind (if staging then Inr (discover rnd measured ctx tags es) else enrich rnd measured ctx wanted tags es) (\<lambda>(es', n).
     Inr (if n = 0 then es else es'))))"

section \<open>The command line\<close>

text \<open>The first candidate whose \<open>manifests\<close> can be listed: \<open>--models-dir\<close>, \<open>$OLLAMA_MODELS\<close>, the user's own
  directory and the system's. \<open>tree\<close>: the files below the \<open>manifests\<close> of a models directory, None where it
  is missing or unreadable.\<close>

definition capture_models_dir :: "string \<Rightarrow> (string \<Rightarrow> manifest_file list option) \<Rightarrow> string option \<Rightarrow> string option \<Rightarrow>
    string option" where
  "capture_models_dir home tree explicit env =
     Option.bind (find (\<lambda>c. truthy c \<and> tree (the c) \<noteq> None)
       [explicit, env, Some (home @ ''/.ollama/models''), Some ''/usr/share/ollama/.ollama/models'']) id"

text \<open>\<open>/api/show\<close>, best effort: whatever goes wrong is no context length.\<close>

definition fetch_context_length :: "(string \<Rightarrow> answer) \<Rightarrow> string \<Rightarrow> int option" where
  "fetch_context_length show_model model =
     (case ebind (dict_answer (show_model model)) (\<lambda>d.
           ebind (raised (or_dict (jget ''model_info'' d))) context_length_of) of
        Inl _ \<Rightarrow> None | Inr ctx \<Rightarrow> ctx)"

text \<open>The footprint of the first loaded model of that name with one. Whatever raises ends the search.\<close>

fun loaded_footprint :: "py_round \<Rightarrow> string \<Rightarrow> json list \<Rightarrow> gb option" where
  "loaded_footprint rnd model [] = None"
| "loaded_footprint rnd model (JObj m # ms) =
     (if jget ''name'' m = JStr model \<and> jtruthy (jget ''size_vram'' m)
      then map_option (\<lambda>n. rnd 2 (n / 1024 ^ 3)) (jnum (jget ''size_vram'' m))
      else loaded_footprint rnd model ms)"
| "loaded_footprint rnd model (_ # ms) = None"

text \<open>The model is loaded by a tiny request, whose status is not looked at, then \<open>/api/ps\<close> is read. The body
  of an error status of \<open>/api/ps\<close> lists no models.\<close>

definition measure_vram :: "py_round \<Rightarrow> (string \<Rightarrow> answer) \<Rightarrow> (string \<Rightarrow> answer) \<Rightarrow> string \<Rightarrow> gb option" where
  "measure_vram rnd warm ps model =
     (if (case warm model of TimedOut \<Rightarrow> True | Broken _ \<Rightarrow> True | _ \<Rightarrow> False) then None
      else (case dict_answer (ps model) of
          Inl _ \<Rightarrow> None
        | Inr d \<Rightarrow> (case jiter (jget_or ''models'' (JArr []) d) of
              Inl _ \<Rightarrow> None | Inr ms \<Rightarrow> loaded_footprint rnd model ms)))"

record capture_args =
  ca_only :: "string list option"
  ca_discover :: bool
  ca_models_dir :: "string option"
  ca_no_registry :: bool
  ca_measure_vram :: bool

text \<open>The reference machine and the registry: \<open>/api/tags\<close>, \<open>/api/show\<close>, a generate request, \<open>/api/ps\<close> after it,
  the disk, the home directory and \<open>$OLLAMA_MODELS\<close>.\<close>

record reference_box =
  rb_tags :: "jdict list"
  rb_show :: "string \<Rightarrow> answer"
  rb_generate :: "string \<Rightarrow> answer"
  rb_ps :: "string \<Rightarrow> answer"
  rb_disk :: "string \<Rightarrow> manifest_file list option"
  rb_home :: string
  rb_models_env :: "string option"
  rb_registry :: client

definition capture_main :: "py_round \<Rightarrow> (json \<Rightarrow> string) \<Rightarrow> reference_box \<Rightarrow> capture_args \<Rightarrow>
    manifest_entry list \<Rightarrow> py_exn + manifest_entry list" where
  "capture_main rnd repr box args es =
     capture rnd repr (if ca_no_registry args then None else Some (rb_registry box))
       (if ca_measure_vram args then Some (measure_vram rnd (rb_generate box) (rb_ps box)) else None)
       (fetch_context_length (rb_show box)) (ca_discover args) (ca_only args) (rb_tags box)
       (case capture_models_dir (rb_home box) (rb_disk box) (ca_models_dir args) (rb_models_env box) of
          None \<Rightarrow> [] | Some dir \<Rightarrow> the (rb_disk box dir)) es"

section \<open>Sizes of vLLM entries\<close>

definition shard_total :: "model_row \<Rightarrow> int" where
  "shard_total m = sum_list (map (\<lambda>f. or0 (af_size f)) (case m_files m of None \<Rightarrow> [] | Some fs \<Rightarrow> fs))"

text \<open>\<open>_norm\<close>: None for no digest and for one with nothing in it.\<close>

definition norm_digest :: "string option \<Rightarrow> string option" where
  "norm_digest d = (let s = after_colon (lower (strip (case d of None \<Rightarrow> [] | Some x \<Rightarrow> x))) in if s = [] then None else Some s)"

definition shard_totals :: "srv \<Rightarrow> (string \<times> int) list" where
  "shard_totals db = fold (\<lambda>m totals. case norm_digest (m_digest m) of
       None \<Rightarrow> totals
     | Some d \<Rightarrow> if shard_total m = 0 then totals
         else dict_set d (max (case map_of totals d of None \<Rightarrow> 0 | Some n \<Rightarrow> n) (shard_total m)) totals)
     (filter (\<lambda>m. m_digest m \<noteq> None \<and> m_files m \<noteq> None) (all_model_rows db)) []"

definition is_vllm_entry :: "catalog_entry \<Rightarrow> bool" where
  "is_vllm_entry e \<longleftrightarrow> c_runtime e = ''vllm'' \<or> list_ex (\<lambda>p. p_runtime p = ''vllm'') (c_profiles e)"

definition backfill_entry :: "py_round \<Rightarrow> (string \<times> int) list \<Rightarrow> catalog_entry \<Rightarrow> catalog_entry" where
  "backfill_entry rnd totals e =
     (if c_digest e = None \<or> \<not> is_vllm_entry e then e
      else (case Option.bind (norm_digest (c_digest e)) (map_of totals) of
          None \<Rightarrow> e
        | Some n \<Rightarrow> if n = 0 then e
            else e\<lparr>c_size_gb := Some (rnd 2 (of_int n / 1024 ^ 3)), c_vram_gb := estimate_vram_gb (rnd 1) (Some n)\<rparr>))"

text \<open>The entries that would change, and the database after \<open>--apply\<close>.\<close>

definition backfill :: "py_round \<Rightarrow> bool \<Rightarrow> srv \<Rightarrow> nat \<times> srv" where
  "backfill rnd commit db =
     (let f = backfill_entry rnd (shard_totals db) in
      (length (filter (\<lambda>e. f e \<noteq> e) (catalog db)),
       if commit then db\<lparr>catalog := map f (catalog db)\<rparr> else db))"

section \<open>Lemmas\<close>

lemma local_digests_from_files:
  "local_file_digests repr fs out = Inr res \<Longrightarrow> map_of res name = Some d \<Longrightarrow>
   map_of out name = Some d \<or> (\<exists>f h ns m t man. f \<in> set fs \<and> mf_parts f = [h, ns, m, t] \<and>
     manifest_model_name h ns m t = name \<and> mf_json f = Some (JObj man) \<and> model_layer_digest repr man = Inr (Some d))"
proof (induction fs arbitrary: out)
  case (Cons f fs)
  show ?case
  proof (cases "\<exists>h ns m t v. mf_parts f = [h, ns, m, t] \<and> mf_json f = Some v")
    case False
    then have "local_file_digests repr fs out = Inr res"
      using Cons.prems(1) by (auto split: list.splits option.splits)
    then show ?thesis using Cons.IH Cons.prems(2) by fastforce
  next
    case True
    then obtain h ns m t v where f: "mf_parts f = [h, ns, m, t]" "mf_json f = Some v" by blast
    then obtain man dg where v: "v = JObj man" "model_layer_digest repr man = Inr dg"
      "local_file_digests repr fs (case dg of None \<Rightarrow> out | Some x \<Rightarrow> if x = [] then out
         else dict_set (manifest_model_name h ns m t) x out) = Inr res"
      using Cons.prems(1) by (auto simp: ebind_eq_Inr dict_or_raise_def split: json.splits)
    show ?thesis
    proof (cases "\<exists>x. dg = Some x \<and> x \<noteq> [] \<and> manifest_model_name h ns m t = name \<and> x = d")
      case True
      then show ?thesis using f v by auto
    next
      case no: False
      have "map_of (case dg of None \<Rightarrow> out | Some x \<Rightarrow> if x = [] then out
          else dict_set (manifest_model_name h ns m t) x out) name = Some d \<Longrightarrow> map_of out name = Some d"
        using no by (auto split: option.splits if_splits)
      then show ?thesis using Cons.IH [OF v(3) Cons.prems(2)] by fastforce
    qed
  qed
qed simp

lemma resolve_digests_tag:
  "resolve_digests repr registry local wanted tags = Inr tags' \<Longrightarrow> (name, t) \<in> set tags' \<Longrightarrow>
   (case wanted of None \<Rightarrow> True | Some ns \<Rightarrow> name \<in> set ns) \<Longrightarrow>
   tf_resolved t \<and> file_digest repr registry local name = Inr (tf_digest t)"
proof (induction tags arbitrary: tags')
  case (Cons p tags)
  obtain nm t0 where p: "p = (nm, t0)" by (rule prod.exhaust)
  then obtain t1 rest where st: "resolve_digests repr registry local wanted tags = Inr rest" "tags' = (nm, t1) # rest"
    "(if case wanted of None \<Rightarrow> True | Some ns \<Rightarrow> nm \<in> set ns
      then ebind (file_digest repr registry local nm) (\<lambda>d. Inr (t0\<lparr>tf_digest := d, tf_resolved := True\<rparr>))
      else Inr t0) = Inr t1"
    using Cons.prems(1) by (auto simp: ebind_eq_Inr)
  show ?case
  proof (cases "(name, t) = (nm, t1)")
    case True
    then show ?thesis using st(3) Cons.prems(3) by (auto simp: ebind_eq_Inr)
  next
    case False
    then show ?thesis using Cons.IH [OF st(1)] st(2) Cons.prems(2,3) by auto
  qed
qed simp

lemma capture_models_dir_listed:
  assumes "capture_models_dir home tree explicit env = Some dir"
  shows "tree dir \<noteq> None \<and> (\<forall>x. explicit = Some x \<and> x \<noteq> [] \<and> tree x \<noteq> None \<longrightarrow> dir = x)"
proof -
  let ?ok = "\<lambda>c. truthy c \<and> tree (the c) \<noteq> None"
  from assms have "find ?ok [explicit, env, Some (home @ ''/.ollama/models''), Some ''/usr/share/ollama/.ollama/models'']
      = Some (Some dir)"
    by (auto simp only: capture_models_dir_def bind_eq_Some_conv id_apply)
  then show ?thesis by (auto simp: truthy_def split: if_splits option.splits)
qed

lemma enrich_mem:
  "enrich rnd measured ctx wanted tags es = Inr (es', n) \<Longrightarrow> e' \<in> set es' \<Longrightarrow> e' \<in> set es \<or>
   (\<exists>e t. enriches wanted tags e = Some t \<and> e' = enrich_facts rnd measured ctx t e)"
proof (induction es arbitrary: es' n)
  case (Cons e es)
  then show ?case
    by (cases "enrich rnd measured ctx wanted tags es")
      (fastforce split: option.splits if_splits simp: Let_def)+
qed simp

lemma discover_mem:
  "s \<in> set (fst (discover rnd measured ctx tags es)) \<Longrightarrow> s \<in> set es \<or>
   (\<exists>rmid t. (rmid, t) \<in> set tags \<and> s = discovered_stub rnd measured ctx rmid t)"
  by (auto simp: discover_def Let_def)

text \<open>An entry that a run changes or adds is about one of the tags, whose digest was replaced by that of the file.\<close>

lemma capture_touched:
  assumes "capture rnd repr registry measured ctx staging wanted models disk_files es = Inr es'" "e' \<in> set es'" "e' \<notin> set es"
  shows "\<exists>local name. local_file_digests repr disk_files [] = Inr local \<and> me_runtime e' = Some ''ollama'' \<and>
    me_model_id e' = Some name \<and> file_digest repr registry local name = Inr (me_digest e')"
proof -
  let ?wanted = "if staging \<or> wanted = Some [] then None else wanted"
  obtain local tags es1 n where st: "local_file_digests repr disk_files [] = Inr local"
    "resolve_digests repr registry local ?wanted (fetch_tags rnd models) = Inr tags"
    "(if staging then Inr (discover rnd measured ctx tags es) else enrich rnd measured ctx wanted tags es) = Inr (es1, n)"
    "es' = (if n = 0 then es else es1)"
    using assms(1) by (auto simp: capture_def ebind_eq_Inr)
  have mem: "e' \<in> set es1" using assms(2,3) st(4) by (auto split: if_splits)
  note tag = resolve_digests_tag [OF st(2)]
  show ?thesis
  proof (cases staging)
    case True
    then have "e' \<in> set (fst (discover rnd measured ctx tags es))" using st(3) mem by simp
    then obtain rmid t where e: "(rmid, t) \<in> set tags" "e' = discovered_stub rnd measured ctx rmid t"
      using discover_mem assms(3) by blast
    from tag [OF e(1)] True st(1) show ?thesis by (simp add: e(2) discovered_stub_def)
  next
    case False
    then obtain e t where e: "enriches wanted tags e = Some t" "e' = enrich_facts rnd measured ctx t e"
      using enrich_mem [of rnd measured ctx wanted tags es es1 n e'] st(3) mem assms(3) by auto
    let ?name = "the (me_model_id e)"
    have t: "me_runtime e = Some ''ollama''" "me_model_id e = Some ?name" "(?name, t) \<in> set tags"
      "case ?wanted of None \<Rightarrow> True | Some ns \<Rightarrow> ?name \<in> set ns"
      using e(1) False by (auto simp: enriches_def dest: map_of_SomeD split: if_splits option.splits) (cases "me_model_id e"; simp)+
    have "me_runtime e' = Some ''ollama''" "me_model_id e' = Some ?name" "me_digest e' = tf_digest t"
      using tag [OF t(3,4)] t(1,2) by (simp_all add: e(2) enrich_facts_def Let_def)
    then show ?thesis using tag [OF t(3,4)] st(1) by auto
  qed
qed

section \<open>Properties\<close>

lemma capture_pin:
  assumes "capture rnd repr registry measured ctx staging wanted models disk_files es = Inr es'"
    "e' \<in> set es'" "e' \<notin> set es" "me_digest e' = Some d"
  shows "me_runtime e' = Some ''ollama'' \<and>
    ((\<exists>f h ns m t man. f \<in> set disk_files \<and> mf_parts f = [h, ns, m, t] \<and>
        me_model_id e' = Some (manifest_model_name h ns m t) \<and> mf_json f = Some (JObj man) \<and>
        model_layer_digest repr man = Inr (Some d)) \<or>
     (\<exists>client. registry = Some client \<and> registry_file_digest repr client (the (me_model_id e')) = Inr (Some d)))"
proof -
  obtain local where st: "local_file_digests repr disk_files [] = Inr local" "me_runtime e' = Some ''ollama''"
    "me_model_id e' = Some (the (me_model_id e'))" "file_digest repr registry local (the (me_model_id e')) = Inr (Some d)"
    using capture_touched [OF assms(1-3)] assms(4) by auto
  let ?name = "the (me_model_id e')"
  show ?thesis
  proof (cases "map_of local ?name")
    case None
    then show ?thesis using st(2-4) by (auto simp: file_digest_def split: option.splits)
  next
    case (Some x)
    then have "map_of local ?name = Some d" using st(4) by (simp add: file_digest_def)
    from local_digests_from_files [OF st(1) this] st(2,3) show ?thesis by auto
  qed
qed

text \<open>C27: A captured pin is a file hash: an entry that a run of the script changes, or drafts under
  \<open>--discover\<close>, is an Ollama entry whose digest, when it is left with one, is the model layer's of a manifest under that very name
  in the models directory the script chose, or, unless \<open>--no-registry\<close>, of the manifest that the registry
  serves for it, and never the digest of \<open>/api/tags\<close>. The directory is \<open>--models-dir\<close> when that can be read.\<close>

theorem captured_pin_is_file_hash:
  assumes "capture_main rnd repr box args es = Inr es'"
    "e' \<in> set es'" "e' \<notin> set es" "me_digest e' = Some d"
  shows "me_runtime e' = Some ''ollama'' \<and>
    ((\<exists>dir files f h ns m t man.
        capture_models_dir (rb_home box) (rb_disk box) (ca_models_dir args) (rb_models_env box) = Some dir \<and>
        rb_disk box dir = Some files \<and> f \<in> set files \<and> mf_parts f = [h, ns, m, t] \<and>
        me_model_id e' = Some (manifest_model_name h ns m t) \<and> mf_json f = Some (JObj man) \<and>
        model_layer_digest repr man = Inr (Some d) \<and>
        (\<forall>x. ca_models_dir args = Some x \<and> x \<noteq> [] \<and> rb_disk box x \<noteq> None \<longrightarrow> dir = x)) \<or>
     (\<not> ca_no_registry args \<and>
      registry_file_digest repr (rb_registry box) (the (me_model_id e')) = Inr (Some d)))"
proof -
  let ?root = "capture_models_dir (rb_home box) (rb_disk box) (ca_models_dir args) (rb_models_env box)"
  let ?files = "case ?root of None \<Rightarrow> [] | Some dir \<Rightarrow> the (rb_disk box dir)"
  have "capture rnd repr (if ca_no_registry args then None else Some (rb_registry box))
      (if ca_measure_vram args then Some (measure_vram rnd (rb_generate box) (rb_ps box)) else None)
      (fetch_context_length (rb_show box)) (ca_discover args) (ca_only args) (rb_tags box) ?files es = Inr es'"
    using assms(1) by (simp add: capture_main_def)
  from capture_pin [OF this assms(2-4)] have pin: "me_runtime e' = Some ''ollama''"
    "(\<exists>f \<in> set ?files. \<exists>h ns m t man. mf_parts f = [h, ns, m, t] \<and>
        me_model_id e' = Some (manifest_model_name h ns m t) \<and> mf_json f = Some (JObj man) \<and>
        model_layer_digest repr man = Inr (Some d)) \<or>
     (\<not> ca_no_registry args \<and>
      registry_file_digest repr (rb_registry box) (the (me_model_id e')) = Inr (Some d))"
    by (metis option.distinct(1) option.sel)+
  show ?thesis
  proof (cases ?root)
    case None
    then show ?thesis using pin by simp
  next
    case (Some dir)
    obtain files where files: "rb_disk box dir = Some files" using capture_models_dir_listed [OF Some] by blast
    then have "?files = files" using Some by simp
    then show ?thesis using pin files Some capture_models_dir_listed [OF Some] by metis
  qed
qed

definition stale_entry :: manifest_entry where
  "stale_entry = (the (hd shipped_manifest))\<lparr>me_digest := Some ''old'', me_model_id := Some ''m:4b''\<rparr>"

definition layer_manifest :: jdict where
  "layer_manifest = [(''layers'', JArr [JObj [(''mediaType'', JStr ''application/vnd.ollama.image.model''),
     (''digest'', JStr ''sha256:ab'')]])]"

definition reference_disk :: "manifest_file list" where
  "reference_disk = [\<lparr>mf_parts = [default_registry, ''library'', ''m'', ''4b''], mf_json = Some (JObj layer_manifest)\<rparr>]"

definition reference_machine :: reference_box where
  "reference_machine = \<lparr>rb_tags = [[(''name'', JStr ''m:4b''), (''digest'', JStr ''tagdigest'')]],
     rb_show = (\<lambda>_. TimedOut), rb_generate = (\<lambda>_. TimedOut), rb_ps = (\<lambda>_. TimedOut),
     rb_disk = (\<lambda>d. if d = ''/m'' then Some reference_disk else None), rb_home = ''/root'', rb_models_env = Some ''/m'',
     rb_registry = (\<lambda>_ _. NetworkError ''ConnectError'')\<rparr>"

definition offline_args :: "bool \<Rightarrow> capture_args" where
  "offline_args staging = \<lparr>ca_only = None, ca_discover = staging, ca_models_dir = None, ca_no_registry = True,
     ca_measure_vram = True\<rparr>"

text \<open>Once the entry of the manifest is captured, once the model is drafted as a new entry: both get the hash of the
  file, not the digest of the tag.\<close>

definition captured_entries :: "bool \<Rightarrow> manifest_entry list" where
  "captured_entries staging = projr (capture_main (\<lambda>_ x. x) (\<lambda>_. []) reference_machine (offline_args staging)
     (if staging then [] else [stale_entry]))"

lemma captured_entries_run:
  "capture_main (\<lambda>_ x. x) (\<lambda>_. []) reference_machine (offline_args staging) (if staging then [] else [stale_entry]) =
     Inr (captured_entries staging)"
  "map me_digest (captured_entries staging) = [Some ''ab'']" "me_digest stale_entry = Some ''old''"
proof -
  have "\<not> isl (capture_main (\<lambda>_ x. x) (\<lambda>_. []) reference_machine (offline_args True) [])"
    "\<not> isl (capture_main (\<lambda>_ x. x) (\<lambda>_. []) reference_machine (offline_args False) [stale_entry])" by code_simp+
  then show "capture_main (\<lambda>_ x. x) (\<lambda>_. []) reference_machine (offline_args staging) (if staging then [] else [stale_entry]) =
     Inr (captured_entries staging)"
    by (cases staging) (auto simp: captured_entries_def)
  have "map me_digest (captured_entries True) = [Some ''ab'']" "map me_digest (captured_entries False) = [Some ''ab'']" by code_simp+
  then show "map me_digest (captured_entries staging) = [Some ''ab'']" by (cases staging) simp_all
  show "me_digest stale_entry = Some ''old''" by code_simp
qed

theorem captured_pin_is_file_hash_witness:
  "\<forall>staging. \<exists>e'. captured_entries staging = [e'] \<and> me_digest e' = Some ''ab'' \<and>
    model_layer_digest (\<lambda>_. []) layer_manifest = Inr (Some ''ab'')"
proof
  fix staging
  obtain e' where e': "captured_entries staging = [e']" "me_digest e' = Some ''ab''"
    using captured_entries_run(2) [of staging] by auto
  then have mem: "e' \<in> set (captured_entries staging)" by simp
  have changed: "e' \<notin> set (if staging then [] else [stale_entry])" using e'(2) captured_entries_run(3) by auto
  have args: "ca_no_registry (offline_args staging)" by (simp add: offline_args_def)
  from captured_pin_is_file_hash [OF captured_entries_run(1) mem changed e'(2)] args
  obtain dir files f man where "rb_disk reference_machine dir = Some files" "f \<in> set files" "mf_json f = Some (JObj man)"
    "model_layer_digest (\<lambda>_. []) man = Inr (Some ''ab'')"
    by auto
  then have "model_layer_digest (\<lambda>_. []) layer_manifest = Inr (Some ''ab'')"
    by (auto simp: reference_machine_def reference_disk_def split: if_splits)
  then show "\<exists>e'. captured_entries staging = [e'] \<and> me_digest e' = Some ''ab'' \<and>
    model_layer_digest (\<lambda>_. []) layer_manifest = Inr (Some ''ab'')" using e' by blast
qed

text \<open>A discovered stub stays staged: seeding a manifest entry that \<open>--discover\<close> wrote never makes a model
  selectable. An entry that already had the drafted id is disabled by it, an adopted one too, and
  the batches queued for it are no longer eligible.\<close>

theorem discovered_stub_staged:
  assumes "s \<in> set (fst (discover rnd measured ctx tags es))" "s \<notin> set es"
    "seed_entry s db = Inr (db', x)" "distinct (map c_id (catalog db))"
  shows "(x = Skipped \<and> db' = db) \<or>
    (get_catalog_entry db' (me_id s) = None \<and> tbl_get c_id (the (me_id s)) (catalog db') \<noteq> None \<and>
     (\<forall>wall now w b. b_model b = me_id s \<longrightarrow> \<not> eligible wall now db' w b))"
  using assms(3)
proof (cases rule: seed_entry_cases)
  case (written fs)
  obtain rmid t where s: "s = discovered_stub rnd measured ctx rmid t" using discover_mem assms(1,2) by blast
  let ?mid = "the (me_id s)"
  obtain row where row: "tbl_get c_id ?mid (catalog db') = Some row" "\<not> c_enabled row"
  proof -
    have "\<not> is_enabled s" by (simp add: s discovered_stub_def is_enabled_def)
    then show thesis using upsert_get [OF written(4,3), of ?mid] that by (simp add: synced_row_def managed_def)
  qed
  have d: "distinct (map c_id (catalog db'))" by (rule seed_entry_distinct [OF assms(3,4)])
  have "\<not> (Some (c_id e) = me_id s \<and> selectable e)" if "e \<in> set (catalog db')" for e
  proof
    assume "Some (c_id e) = me_id s \<and> selectable e"
    moreover then have "tbl_get c_id ?mid (catalog db') = Some e"
      using tbl_get_distinct [OF d that] by (metis option.sel)
    ultimately show False using row by (simp add: selectable_def)
  qed
  then have "get_catalog_entry db' (me_id s) = None"
    by (auto simp: get_catalog_entry_def find_None_iff)
  then show ?thesis using row(1) by (auto simp: eligible_def)
qed simp

text \<open>The model of an adopted entry is discovered on the reference machine: the drafted ids coincide.\<close>

definition adopted_db :: srv where
  "adopted_db = sample_base\<lparr>catalog := [sample_entry\<lparr>c_status := CatUnverified, c_adopted_by := Some ''auto''\<rparr>]\<rparr>"

theorem discovered_stub_staged_witness:
  "get_catalog_entry adopted_db (Some ''m-4b'') \<noteq> None \<and>
   get_catalog_entry (snd (seed_model_catalog (map Some (fst (discover (\<lambda>_ x. x) None (\<lambda>_. None)
     (fetch_tags (\<lambda>_ x. x) [[(''name'', JStr ''m:4b'')]]) []))) adopted_db)) (Some ''m-4b'') = None"
proof -
  let ?tags = "fetch_tags (\<lambda>_ x. x) [[(''name'', JStr ''m:4b'')]]"
  let ?es = "fst (discover (\<lambda>_ x. x) None (\<lambda>_. None) ?tags [])"
  have before: "get_catalog_entry adopted_db (Some ''m-4b'') \<noteq> None" by code_simp
  have "map me_id ?es = [Some ''m-4b'']" by code_simp
  then obtain s where s: "?es = [s]" "me_id s = Some ''m-4b''" by auto
  have d: "distinct (map c_id (catalog adopted_db))" by code_simp
  have "map_sum id snd (seed_entry (hd ?es) adopted_db) = Inr Updated" by code_simp
  then have "map_sum id snd (seed_entry s adopted_db) = Inr Updated" using s(1) by simp
  then obtain db' where run: "seed_entry s adopted_db = Inr (db', Updated)"
    by (cases "seed_entry s adopted_db") auto
  have "s \<in> set ?es" "s \<notin> set []" using s(1) by simp_all
  from discovered_stub_staged [OF this run d] s(2) have "get_catalog_entry db' (Some ''m-4b'') = None" by simp
  then show ?thesis using before s(1) run by (simp add: seed_model_catalog_def)
qed

end
