(* ===== verification/Startup.thy ===== *)
theory Startup
  imports Accounts Catalog_Service Usage_Ingest Workers_Api
begin

text \<open>
  What the control plane does by itself: the default administrator made at start-up
  (\<open>create_default_admin\<close> of \<open>backend/main.py\<close>), and one turn of the loop of \<open>run_sweeper\<close>
  (\<open>backend/sweeper.py\<close>) with the automatic adoption it calls (\<open>run_auto_adopt_once\<close> of
  \<open>backend/catalog_service.py\<close>); an exception of one part of a turn does not stop the others.
\<close>

section \<open>The default administrator\<close>

definition admin_email :: string where "admin_email = ''admin@platform.com''"

definition default_admin :: "(nat list \<Rightarrow> string) \<Rightarrow> string \<Rightarrow> seconds \<Rightarrow> user_row" where
  "default_admin bhash uid now = \<lparr>usr_id = uid, usr_email = admin_email,
     usr_password_hash = Some (bhash (map of_char ''admin'')), usr_full_name = ''Platform Admin'',
     usr_role = RoleSuperadmin, usr_active = True, usr_must_change = True, usr_google_id = None,
     usr_auth_provider = LocalAuth, usr_created_at = now\<rparr>"

definition owns_some :: "string \<Rightarrow> srv \<Rightarrow> bool" where
  "owns_some uid db \<longleftrightarrow> list_ex (\<lambda>m. mb_user_id m = uid \<and> mb_role m = Owner) (memberships db)"

text \<open>The commit is inside the branch that adds the membership; a new administrator has none yet.\<close>

definition create_default_admin :: "(nat list \<Rightarrow> string) \<Rightarrow> fresh_ids \<Rightarrow> seconds \<Rightarrow> srv \<Rightarrow> srv" where
  "create_default_admin bhash ids now db =
     (let (admin, db1) = (case user_by_email admin_email db of
            Some u \<Rightarrow> (u, db)
          | None \<Rightarrow> let u = default_admin bhash (fr_user ids) now in (u, db\<lparr>users := tbl_add u (users db)\<rparr>))
      in if owns_some (usr_id admin) db1 then db
         else add_membership (fr_membership ids) (fr_org ids) (usr_id admin) Owner
           (db1\<lparr>orgs := tbl_add \<lparr>org_id = fr_org ids, org_name = ''Platform Admin Org'', org_created_at = now\<rparr> (orgs db1)\<rparr>))"

section \<open>One turn of the sweeper\<close>

definition auto_adopt_off :: "string option \<Rightarrow> bool" where
  "auto_adopt_off setting \<longleftrightarrow> (case setting of None \<Rightarrow> False | Some s \<Rightarrow> lower (strip s) = ''off'')"

definition auto_adopt_enabled :: "string option \<Rightarrow> bool" where
  "auto_adopt_enabled setting \<longleftrightarrow> (case setting of None \<Rightarrow> True
     | Some s \<Rightarrow> lower (strip s) \<notin> set [''0'', ''false'', ''no''])"

record 'r sweeper_env =
  se_loads :: loads
  se_repr :: "json \<Rightarrow> string"
  se_new_id :: "string \<Rightarrow> nat \<Rightarrow> string"
  se_crash :: "string \<Rightarrow> nat option"
  se_resolve :: "'r resolve_fn"
  se_rnd1 :: "gb \<Rightarrow> gb"
  se_rnd2 :: "gb \<Rightarrow> gb"
  se_mode :: "string option"
  se_enabled :: "string option"

text \<open>The pass commits candidate by candidate: what it adopted before it raised stays.\<close>

definition run_auto_adopt_once :: "('r, 'b) sweeper_env_scheme \<Rightarrow> srv \<times> 'r \<Rightarrow> (py_exn + nat) \<times> srv \<times> 'r" where
  "run_auto_adopt_once env s =
     (if auto_adopt_off (se_mode env) then (Inr 0, s)
      else auto_adopt_pass (se_resolve env) (se_rnd1 env) (se_rnd2 env) (auto_adopt_enabled (se_enabled env)) s)"

definition sweeper_turn :: "('r, 'b) sweeper_env_scheme \<Rightarrow> seconds \<Rightarrow> srv \<times> 'r \<Rightarrow> srv \<times> 'r" where
  "sweeper_turn env now s = (case s of (db, r) \<Rightarrow>
     let db1 = fst (sweep_stale_workers now db);
         db2 = fst (sweep_pending_ingestions (se_loads env) (se_repr env) now (se_new_id env) (se_crash env) db1)
     in snd (run_auto_adopt_once env (db2, r)))"

section \<open>Lemmas\<close>

lemma default_admin_no_conflict:
  "user_by_email admin_email db = None \<Longrightarrow> \<not> user_conflict (default_admin bhash uid now) db"
  by (auto simp: user_by_email_def find_None_iff user_conflict_def list_ex_iff default_admin_def)

definition admin_present :: "srv \<Rightarrow> bool" where
  "admin_present db \<longleftrightarrow> (case user_by_email admin_email db of None \<Rightarrow> False | Some u \<Rightarrow> owns_some (usr_id u) db)"

lemma admin_present_fixed: "admin_present db \<Longrightarrow> create_default_admin bhash ids now db = db"
  by (auto simp: admin_present_def create_default_admin_def split: option.splits)

lemma user_by_email_added:
  "user_by_email e db = None \<Longrightarrow> usr_email u = e \<Longrightarrow> find (\<lambda>u. usr_email u = e) (tbl_add u (users db)) = Some u"
  by (simp add: user_by_email_def tbl_add_def find_append)

lemma user_by_email_set_users: "user_by_email e (db\<lparr>users := us\<rparr>) = find (\<lambda>u. usr_email u = e) us"
  by (simp add: user_by_email_def)

text \<open>The state before the organization is added: the administrator is there.\<close>

definition with_admin :: "(nat list \<Rightarrow> string) \<Rightarrow> fresh_ids \<Rightarrow> seconds \<Rightarrow> srv \<Rightarrow> srv" where
  "with_admin bhash ids now db = (case user_by_email admin_email db of Some u \<Rightarrow> db
     | None \<Rightarrow> db\<lparr>users := tbl_add (default_admin bhash (fr_user ids) now) (users db)\<rparr>)"

lemma with_admin_found: "\<exists>u. user_by_email admin_email (with_admin bhash ids now db) = Some u"
  by (auto simp: with_admin_def user_by_email_set_users default_admin_def user_by_email_added split: option.splits)

lemma create_default_admin_new:
  assumes "\<not> admin_present db" "fr_user ids \<notin> mb_user_id ` set (memberships db)"
    "user_by_email admin_email (with_admin bhash ids now db) = Some u"
  shows "create_default_admin bhash ids now db = add_membership (fr_membership ids) (fr_org ids) (usr_id u) Owner
    ((with_admin bhash ids now db)\<lparr>orgs := tbl_add \<lparr>org_id = fr_org ids, org_name = ''Platform Admin Org'',
        org_created_at = now\<rparr> (orgs db)\<rparr>)"
proof (cases "user_by_email admin_email db")
  case (Some v)
  then have "v = u" "\<not> owns_some (usr_id v) db" using assms(1,3) by (auto simp: with_admin_def admin_present_def)
  then show ?thesis using Some by (simp add: create_default_admin_def with_admin_def)
next
  case None
  let ?u = "default_admin bhash (fr_user ids) now"
  have "find (\<lambda>u. usr_email u = admin_email) (tbl_add ?u (users db)) = Some ?u"
    by (rule user_by_email_added [OF None]) (simp add: default_admin_def)
  then have "u = ?u" using assms(3) None by (simp add: with_admin_def user_by_email_set_users)
  moreover have "\<not> owns_some (usr_id ?u) db"
    using assms(2) by (force simp: owns_some_def list_ex_iff default_admin_def)
  ultimately show ?thesis using None by (simp add: create_default_admin_def with_admin_def owns_some_def Let_def)
qed

lemma with_admin_users:
  "accounts_ok db \<Longrightarrow> ids_fresh ids db \<Longrightarrow>
   distinct (map usr_id (users (with_admin bhash ids now db))) \<and> distinct (map usr_email (users (with_admin bhash ids now db))) \<and>
   google_ids (with_admin bhash ids now db) = google_ids db"
  by (auto simp: with_admin_def accounts_ok_def ids_fresh_def tbl_add_def default_admin_def google_ids_def
      user_by_email_def find_None_iff split: option.splits)

section \<open>Properties\<close>

text \<open>After start-up there is an administrator who owns an organization, whatever was deleted before; the
  accounts stay consistent, and starting again changes nothing. (Hypotheses: the accounts were
  consistent and the identifiers generated are fresh.)\<close>

theorem admin_ready:
  assumes "accounts_ok db" "ids_fresh ids db" "fr_user ids \<notin> mb_user_id ` set (memberships db)"
  shows "admin_present (create_default_admin bhash ids now db) \<and> accounts_ok (create_default_admin bhash ids now db) \<and>
    (\<forall>ids' now'. create_default_admin bhash ids' now' (create_default_admin bhash ids now db) =
       create_default_admin bhash ids now db)"
proof (cases "admin_present db")
  case True
  then show ?thesis using assms(1) by (simp add: admin_present_fixed)
next
  case False
  obtain u where u: "user_by_email admin_email (with_admin bhash ids now db) = Some u" using with_admin_found by blast
  note eq = create_default_admin_new [OF False assms(3) u]
  have "admin_present (create_default_admin bhash ids now db)"
    using u unfolding eq by (auto simp: admin_present_def user_by_email_def owns_some_def add_membership_def tbl_add_def)
  moreover have "accounts_ok (create_default_admin bhash ids now db)"
  proof -
    let ?d = "create_default_admin bhash ids now db"
    have "users ?d = users (with_admin bhash ids now db)" unfolding eq by (simp add: add_membership_def)
    moreover have mem: "memberships ?d = memberships db @ [\<lparr>mb_id = fr_membership ids, mb_org_id = fr_org ids,
        mb_user_id = usr_id u, mb_role = Owner\<rparr>]"
      unfolding eq by (simp add: add_membership_def tbl_add_def with_admin_def split: option.split)
    moreover have "orgs ?d = orgs db @ [\<lparr>org_id = fr_org ids, org_name = ''Platform Admin Org'', org_created_at = now\<rparr>]"
      unfolding eq by (simp add: add_membership_def tbl_add_def)
    ultimately show ?thesis
      using assms(1,2) with_admin_users [OF assms(1,2), of bhash now]
      by (auto simp: accounts_ok_def owned_def ids_fresh_def google_ids_def)
  qed
  ultimately show ?thesis by (simp add: admin_present_fixed)
qed

theorem admin_ready_witness:
  "\<not> admin_present raced_db \<and> admin_present (create_default_admin (\<lambda>_. ''h'') sample_ids 5 raced_db)"
proof -
  have "fr_user sample_ids \<notin> mb_user_id ` set (memberships raced_db)" "\<not> admin_present raced_db"
    by code_simp+
  then show ?thesis using admin_ready [OF sample_accounts_ok(2,3)] by blast
qed

end
