(* ===== verification/Liveness.thy ===== *)
theory Liveness
  imports Startup
begin

text \<open>
  Progress: what the control plane guarantees to happen. A running batch whose worker fell silent is
  released by the next turn of the sweeper, and a worker that keeps polling empties the queue of
  everything it can serve.
\<close>

section \<open>A turn of the sweeper\<close>

definition status_of :: "srv \<Rightarrow> string \<Rightarrow> batch_status option" where
  "status_of db j = map_option b_status (get_batch_row db j)"

lemma upd_batch_status:
  "(\<And>b. b_id (f b) = b_id b) \<Longrightarrow> (\<And>b. b_status (f b) = b_status b) \<Longrightarrow> status_of (upd_batch i f db) j = status_of db j"
  by (simp add: status_of_def upd_batch_get option.map_comp comp_def)

lemma mark_done_frame [simp]:
  "status_of (mark_ingestion_done i db) j = status_of db j" "assignments (mark_ingestion_done i db) = assignments db"
  by (simp_all add: mark_ingestion_done_def upd_batch_status)

lemma failed_attempt_frame [simp]:
  "status_of (record_failed_attempt i db) j = status_of db j" "assignments (record_failed_attempt i db) = assignments db"
  by (simp_all add: record_failed_attempt_def upd_batch_status)

lemma rollups_frame [simp]:
  "status_of (write_rollups i db) j = status_of db j" "assignments (write_rollups i db) = assignments db"
  by (simp_all add: write_rollups_def upd_batch_status Let_def)

lemma write_chunks_frame [simp]:
  "status_of (write_chunks cs db) j = status_of db j" "assignments (write_chunks cs db) = assignments db"
  by (simp_all add: write_chunks_def status_of_def)

lemma ingest_frame [simp]:
  "status_of (ingest_usage_records loads repr now new_id crash bid path db) j = status_of db j"
  "assignments (ingest_usage_records loads repr now new_id crash bid path db) = assignments db"
  by (simp_all add: ingest_usage_records_def Let_def split: option.split)

lemma retry_frame:
  "status_of (fst (retry_ingestions loads repr now new_id crash bs db)) j = status_of db j \<and>
   assignments (fst (retry_ingestions loads repr now new_id crash bs db)) = assignments db"
  by (induction bs arbitrary: db) (auto split: option.split prod.split simp: case_prod_beta)

text \<open>The workers without what they serve.\<close>

definition bare_workers :: "srv \<Rightarrow> worker list" where
  "bare_workers db = map (\<lambda>w. w\<lparr>w_runtimes := []\<rparr>) (workers db)"

definition same_fleet :: "srv \<Rightarrow> srv \<Rightarrow> bool" where
  "same_fleet db db' \<longleftrightarrow> batches db' = batches db \<and> assignments db' = assignments db \<and> bare_workers db' = bare_workers db"

lemma same_fleet_trans: "same_fleet a b \<Longrightarrow> same_fleet b c \<Longrightarrow> same_fleet a c"
  by (simp add: same_fleet_def)

lemma same_fleet_catalog [simp]: "same_fleet db (db'\<lparr>catalog := c\<rparr>) = same_fleet db db'"
  by (simp add: same_fleet_def bare_workers_def)

lemma adopt_frame:
  assumes "adopt req db = Inr (r, db')"
  shows "same_fleet db db'"
proof -
  have "db' = fst (reclassify_hash (db\<lparr>catalog := tbl_add (adopted_entry req) (catalog db)\<rparr>) (adopt_digest (ad_sha256 req)))"
    using assms by (auto simp: adopt_def Let_def split: prod.splits)
  then show ?thesis
    using reclassify_workers_frame by (simp add: same_fleet_def bare_workers_def reclassify_hash_def Let_def split_beta)
qed

lemma adopt_candidate_frame: "same_fleet db (fst (adopt_candidate rnd1 rnd2 en c name cf db))"
  by (auto simp: adopt_candidate_def same_fleet_def [of db db] split: option.splits sum.splits dest: adopt_frame)

lemma adopt_all_frame: "adopt_all res rnd1 rnd2 en cs (db, r) = (n, db', r') \<Longrightarrow> same_fleet db db'"
proof (induction cs arbitrary: db r n db' r')
  case (Cons c cs)
  obtain v r1 where c: "confirm_names res c (case cd_details c of None \<Rightarrow> [] | Some d \<Rightarrow> d) (cd_names c) r = (v, r1)"
    by (rule prod.exhaust)
  show ?case
  proof (cases v)
    case (Inl e)
    then show ?thesis using Cons.prems c by (simp add: same_fleet_def)
  next
    case (Inr x)
    show ?thesis
    proof (cases x)
      case None
      then show ?thesis using Cons.prems Cons.IH c Inr by simp
    next
      case (Some p)
      obtain name cf where p: "p = (name, cf)" by (rule prod.exhaust)
      obtain db1 did where a: "adopt_candidate rnd1 rnd2 en c name cf db = (db1, did)" by (rule prod.exhaust)
      obtain m db2 r2 where rest: "adopt_all res rnd1 rnd2 en cs (db1, r1) = (m, db2, r2)" by (rule prod_cases3)
      have "db' = db2" using Cons.prems c Inr Some p a rest by (auto split: sum.splits)
      moreover have "same_fleet db db1" using adopt_candidate_frame [of db rnd1 rnd2 en c name cf] a by simp
      ultimately show ?thesis using Cons.IH [OF rest] by (auto intro: same_fleet_trans)
    qed
  qed
qed (simp add: same_fleet_def)

lemma sweeper_turn_frame:
  "status_of (fst (sweeper_turn env now (db, r))) j = status_of (fst (sweep_stale_workers now db)) j \<and>
   assignments (fst (sweeper_turn env now (db, r))) = assignments (fst (sweep_stale_workers now db)) \<and>
   bare_workers (fst (sweeper_turn env now (db, r))) = bare_workers (fst (sweep_stale_workers now db))"
proof -
  let ?db1 = "fst (sweep_stale_workers now db)"
  let ?db2 = "fst (sweep_pending_ingestions (se_loads env) (se_repr env) now (se_new_id env) (se_crash env) ?db1)"
  have two: "status_of ?db2 j = status_of ?db1 j \<and> assignments ?db2 = assignments ?db1 \<and> bare_workers ?db2 = bare_workers ?db1"
    by (simp add: sweep_pending_ingestions_def retry_frame bare_workers_def)
  obtain n db3 r3 where run: "run_auto_adopt_once env (?db2, r) = (n, db3, r3)" by (rule prod_cases3)
  then have "same_fleet ?db2 db3"
    by (auto simp: run_auto_adopt_once_def auto_adopt_pass_def same_fleet_def [of db3 db3] split: if_splits dest: adopt_all_frame)
  then show ?thesis using two run by (simp add: sweeper_turn_def status_of_def same_fleet_def)
qed

lemma sweep_workers_releases:
  "one_assignment db \<Longrightarrow> get_batch_row db j = Some b \<Longrightarrow> b_status b = InProgress \<Longrightarrow> get_assignment db j = Some a \<Longrightarrow>
   a_worker_id a \<in> w_id ` set ws \<Longrightarrow> get_assignment (fst (sweep_workers now ws db)) j = None"
proof (induction ws arbitrary: db)
  case (Cons w ws)
  let ?db = "fst (sweep_worker now w db)"
  have one: "one_assignment ?db" by (rule sweep_worker_one [OF Cons.prems(1)])
  show ?case
  proof (cases "a_worker_id a = w_id w")
    case True
    then have hit: "assigned_to db j (w_id w)" using assigned_to_get [OF Cons.prems(1)] Cons.prems(4) by blast
    have none: "get_assignment ?db j = None" using Cons.prems(2,3) hit by (simp add: sweep_worker_assignment)
    have "get_assignment (fst (sweep_workers now vs d)) j = None" if "get_assignment d j = None" for vs d
      using that by (induction vs arbitrary: d) (auto simp: split_beta sweep_worker_assignment split: option.split)
    then show ?thesis using none by (simp add: split_beta)
  next
    case False
    then have "\<not> assigned_to db j (w_id w)" using assigned_to_get [OF Cons.prems(1)] Cons.prems(4) by auto
    then have "get_batch_row ?db j = Some b" "get_assignment ?db j = Some a"
      using Cons.prems(2,4) by (auto simp: sweep_worker_batch sweep_worker_assignment)
    then show ?thesis using Cons.IH [OF one _ Cons.prems(3)] Cons.prems(5) False by (simp add: split_beta)
  qed
qed simp

section \<open>A worker that keeps polling\<close>

fun poll_at :: "wall_clock \<Rightarrow> string \<Rightarrow> string \<Rightarrow> seconds list \<Rightarrow> srv \<Rightarrow> srv" where
  "poll_at wall oid wid [] db = db"
| "poll_at wall oid wid (t # ts) db =
     poll_at wall oid wid ts (case poll_job wall oid wid t db of Inl _ \<Rightarrow> db | Inr (_, db') \<Rightarrow> db')"

definition queued :: "srv \<Rightarrow> batch list" where
  "queued db = filter (\<lambda>b. b_status b = Validated) (batches db)"

text \<open>What polling relies on: one row per id, and no queued batch with an assignment left over.\<close>

definition queue_ok :: "string \<Rightarrow> string \<Rightarrow> worker \<Rightarrow> srv \<Rightarrow> bool" where
  "queue_ok oid wid w db \<longleftrightarrow> get_org_worker db oid wid = Inr w \<and> w_status w \<noteq> Draining \<and> distinct (map b_id (batches db)) \<and>
     list_all (\<lambda>b. get_assignment db (b_id b) = None) (queued db)"

lemma dispatch_batches:
  "batches (dispatch oid t w b db) = map (\<lambda>c. if b_id c = b_id b then c\<lparr>b_status := InProgress\<rparr> else c) (batches db)"
  by (simp add: dispatch_def upd_batch_def tbl_upd_def)

lemma dispatch_frame [simp]:
  "workers (dispatch oid t w b db) = workers db" "catalog (dispatch oid t w b db) = catalog db"
  by (simp_all add: dispatch_def upd_batch_def)

lemma eligible_cong:
  "catalog db' = catalog db \<Longrightarrow> eligible wall t db' w b = eligible wall t db w b"
  by (simp add: eligible_def get_catalog_entry_def)

lemma dispatch_assignment:
  "get_assignment (dispatch oid t w b db) j =
    (if j = b_id b \<and> get_assignment db j = None
     then Some \<lparr>a_batch_id = b_id b, a_worker_id = w_id w, a_org_id = oid, a_hostname = Some (w_hostname w), a_assigned_at = t\<rparr>
     else get_assignment db j)"
  by (auto simp: dispatch_def assignment_table.get_add split: option.split)

lemma queued_row:
  "distinct (map b_id (batches db)) \<Longrightarrow> b \<in> set (queued db) \<longleftrightarrow>
    get_batch_row db (b_id b) = Some b \<and> b_status b = Validated"
  by (auto simp: queued_def tbl_get_distinct dest: tbl_get_SomeD)

lemma queued_dispatch:
  "queued (dispatch oid t w b db) = filter (\<lambda>c. b_id c \<noteq> b_id b) (queued db)"
proof -
  have "filter (\<lambda>b. b_status b = Validated) (map (\<lambda>c. if b_id c = b_id b then c\<lparr>b_status := InProgress\<rparr> else c) bs) =
      filter (\<lambda>c. b_id c \<noteq> b_id b) (filter (\<lambda>b. b_status b = Validated) bs)" for bs
    by (induction bs) auto
  then show ?thesis by (simp add: queued_def dispatch_batches)
qed

lemma queue_ok_dispatch:
  assumes "queue_ok oid wid w db"
  shows "queue_ok oid wid w (dispatch oid t w b db)"
proof -
  have "map b_id (batches (dispatch oid t w b db)) = map b_id (batches db)"
    by (simp add: dispatch_batches)
  then show ?thesis
    using assms by (auto simp: queue_ok_def queued_dispatch list_all_iff dispatch_assignment get_org_worker_iff)
qed

text \<open>A poll either changes nothing or dispatches a queued batch; with an eligible batch in the queue
  it does the latter.\<close>

lemma poll_cases:
  assumes "queue_ok oid wid w db"
  obtains "poll_job wall oid wid t db = Inr (None, db)" "\<And>c. c \<in> set (queued db) \<Longrightarrow> \<not> eligible wall t db w c"
  | b j where "poll_job wall oid wid t db = Inr (Some j, dispatch oid t w b db)" "b \<in> set (queued db)"
proof (cases "find_best_batch wall t db w (available_batches db)")
  case None
  have "find (eligible wall t db w) (available_batches db) = None"
    using None by (auto simp: find_best_batch_eq split: option.splits)
  then have "\<And>c. c \<in> set (queued db) \<Longrightarrow> \<not> eligible wall t db w c"
    by (auto simp: find_None_iff available_batches_def queued_def)
  moreover have "poll_job wall oid wid t db = Inr (None, db)"
    using None assms by (simp add: poll_job_eq queue_ok_def)
  ultimately show thesis using that(1) by blast
next
  case (Some b)
  then have mem: "b \<in> set (queued db)"
    by (auto dest!: find_best_batch_SomeD simp: available_batches_def queued_def)
  then have "b_status b = Validated" "get_assignment db (b_id b) = None" "available_batches db \<noteq> []"
    using assms Some by (auto simp: queued_def queue_ok_def list_all_iff find_best_batch_def)
  then have "poll_job wall oid wid t db = Inr (Some (job_for db w b), dispatch oid t w b db)"
    using Some assms by (simp add: poll_job_eq queue_ok_def validate_transition_def)
  then show thesis using mem that(2) by blast
qed

definition runs_on :: "string \<Rightarrow> string \<Rightarrow> srv \<Rightarrow> bool" where
  "runs_on wid j db \<longleftrightarrow> status_of db j = Some InProgress \<and> map_option a_worker_id (get_assignment db j) = Some wid"

lemma runs_on_poll:
  "queue_ok oid wid w db \<Longrightarrow> runs_on wid j db \<Longrightarrow> runs_on wid j (poll_at wall oid wid ts db)"
proof (induction ts arbitrary: db)
  case (Cons t ts)
  show ?case
  proof (cases rule: poll_cases [OF Cons.prems(1), of wall t])
    case 1
    then show ?thesis using Cons by simp
  next
    case (2 b x)
    have "status_of (dispatch oid t w b db) j = Some InProgress"
      using Cons.prems(2) upd_batch_get [where f = "\<lambda>b. b\<lparr>b_status := InProgress\<rparr>" and i = "b_id b" and db = db and j = j]
      by (auto simp: runs_on_def status_of_def dispatch_def)
    moreover have "get_assignment (dispatch oid t w b db) j = get_assignment db j"
      using Cons.prems(2) by (auto simp: runs_on_def dispatch_assignment)
    ultimately have "runs_on wid j (dispatch oid t w b db)" using Cons.prems(2) by (simp add: runs_on_def)
    then show ?thesis using Cons.IH [OF queue_ok_dispatch [OF Cons.prems(1)]] 2 by simp
  qed
qed simp

lemma poll_drains:
  "queue_ok oid wid w db \<Longrightarrow> b \<in> set (queued db) \<Longrightarrow> (\<And>t. t \<in> set ts \<Longrightarrow> eligible wall t db w b) \<Longrightarrow>
   length (queued db) \<le> length ts \<Longrightarrow> runs_on wid (b_id b) (poll_at wall oid wid ts db)"
proof (induction ts arbitrary: db)
  case (Cons t ts)
  note ok = Cons.prems(1)
  show ?case
  proof (cases rule: poll_cases [OF ok, of wall t])
    case 1
    then show ?thesis using Cons.prems(2,3) by auto
  next
    case (2 c x)
    let ?db = "dispatch oid t w c db"
    note ok' = queue_ok_dispatch [OF ok, of t c]
    have dist: "distinct (map b_id (batches db))" using ok by (simp add: queue_ok_def)
    show ?thesis
    proof (cases "b_id c = b_id b")
      case True
      have "get_batch_row db (b_id b) = Some b" using Cons.prems(2) queued_row [OF dist] by blast
      then have "status_of ?db (b_id b) = Some InProgress"
        using upd_batch_get [where f = "\<lambda>b. b\<lparr>b_status := InProgress\<rparr>" and i = "b_id c" and db = db and j = "b_id b"] True
        by (simp add: status_of_def dispatch_def)
      moreover have "get_assignment db (b_id b) = None" "w_id w = wid"
        using ok Cons.prems(2) by (auto simp: queue_ok_def list_all_iff get_org_worker_iff dest: find_SomeD)
      ultimately have "runs_on wid (b_id b) ?db" using True by (simp add: runs_on_def dispatch_assignment)
      then show ?thesis using runs_on_poll [OF ok'] 2 by simp
    next
      case False
      have "length (queued ?db) < length (queued db)"
        unfolding queued_dispatch using 2(2) by (intro length_filter_less) auto
      moreover have "b \<in> set (queued ?db)" using Cons.prems(2) False by (simp add: queued_dispatch)
      moreover have "eligible wall u ?db w b" if "u \<in> set ts" for u
        using Cons.prems(3) that by (simp add: eligible_cong [of ?db db])
      ultimately show ?thesis using Cons.IH [OF ok'] Cons.prems(4) 2 by simp
    qed
  qed
qed simp

section \<open>Properties\<close>

text \<open>C11: What a turn of the sweeper does for a running batch, whatever else the turn does (retrying ingestions,
  adopting models, exceptions included): when its worker is online or draining with a last heartbeat more than 120
  seconds old, the batch has no assignment after the turn and is queued again, or has failed for good if that was
  its last attempt; in every other case it goes on running on that worker.\<close>

theorem stuck_batch_released:
  assumes "distinct (map a_batch_id (assignments db))" "get_batch_row db j = Some b" "b_status b = InProgress"
    "get_assignment db j = Some a"
  shows "let after = fst (sweeper_turn env now (db, r)) in
    if \<exists>w \<in> set (workers db). w_id w = a_worker_id a \<and> w_status w \<in> {Online, Draining} \<and> w_last_heartbeat w < now - 120
    then get_assignment after j = None \<and>
      status_of after j = Some (if next_attempt b \<ge> max_batch_attempts then Failed else Validated)
    else get_assignment after j = Some a \<and> status_of after j = Some InProgress"
proof -
  let ?stale = "filter (is_stale now) (workers db)" and ?swept = "fst (sweep_stale_workers now db)"
  have one: "one_assignment db" using assms(1) by (simp add: one_assignment_def)
  have stale: "(\<exists>w \<in> set (workers db). w_id w = a_worker_id a \<and> w_status w \<in> {Online, Draining} \<and> w_last_heartbeat w < now - 120) \<longleftrightarrow>
      a_worker_id a \<in> w_id ` set ?stale"
    by (force simp: is_stale_def heartbeat_timeout_seconds_def)
  note frame = sweeper_turn_frame [of env now db r j]
  show ?thesis
  proof (cases "a_worker_id a \<in> w_id ` set ?stale")
    case True
    have "get_assignment ?swept j = None"
      unfolding sweep_stale_fst by (rule sweep_workers_releases [OF one assms(2-4) True])
    moreover have "get_batch_row ?swept j = Some (requeue_row now (Some (offline_error (a_worker_id a))) b)"
      unfolding sweep_stale_fst sweep_workers_row [OF one assms(2)] using assms(3,4) True by simp
    ultimately show ?thesis
      using frame True unfolding Let_def stale by (simp add: status_of_def requeue_row_status)
  next
    case False
    then have "\<forall>w \<in> set (workers db). w_id w = a_worker_id a \<longrightarrow> \<not> is_stale now w" by force
    from sweep_running_row [OF assms(1,2,4) this] show ?thesis
      using frame False assms(3) unfolding Let_def stale by (simp add: status_of_def)
  qed
qed

definition idle_env :: "unit sweeper_env" where
  "idle_env = \<lparr>se_loads = (\<lambda>_. DecodeError), se_repr = (\<lambda>_. []), se_new_id = (\<lambda>_ _. []), se_crash = (\<lambda>_. None),
     se_resolve = (\<lambda>_ _ _ _ _ r. (Inl ValueError, r)), se_rnd1 = id, se_rnd2 = id, se_mode = None, se_enabled = None\<rparr>"

theorem stuck_batch_released_witness:
  "get_assignment (fst (sweeper_turn idle_env 1121 (sample_db InProgress, ()))) ''b1'' = None \<and>
   get_assignment (fst (sweeper_turn idle_env 1120 (sample_db InProgress, ()))) ''b1'' = Some sample_assignment"
proof -
  have h: "distinct (map a_batch_id (assignments (sample_db InProgress)))"
    "get_batch_row (sample_db InProgress) ''b1'' = Some (sample_batch InProgress)"
    "b_status (sample_batch InProgress) = InProgress"
    "get_assignment (sample_db InProgress) ''b1'' = Some sample_assignment" by code_simp+
  have w: "\<exists>w \<in> set (workers (sample_db InProgress)). w_id w = a_worker_id sample_assignment \<and>
      w_status w \<in> {Online, Draining} \<and> w_last_heartbeat w < 1121 - 120"
    "\<not> (\<exists>w \<in> set (workers (sample_db InProgress)). w_id w = a_worker_id sample_assignment \<and>
      w_status w \<in> {Online, Draining} \<and> w_last_heartbeat w < 1120 - 120)"
    by code_simp+
  show ?thesis
    using stuck_batch_released [OF h, where env = idle_env and r = "()" and now = 1121]
      stuck_batch_released [OF h, where env = idle_env and r = "()" and now = 1120] w
    by (simp only: Let_def if_True if_False simp_thms)
qed

text \<open>Turns of the sweeper one after the other, each with the registry answers and the time it has.\<close>

fun sweeper_turns :: "('r sweeper_env \<times> seconds) list \<Rightarrow> srv \<times> 'r \<Rightarrow> srv \<times> 'r" where
  "sweeper_turns [] s = s"
| "sweeper_turns ((env, now) # ts) s = sweeper_turns ts (sweeper_turn env now s)"

text \<open>A running batch of a worker whose every row is offline.\<close>

definition stranded :: "string \<Rightarrow> string \<Rightarrow> srv \<Rightarrow> bool" where
  "stranded wid j db \<longleftrightarrow> one_assignment db \<and> status_of db j = Some InProgress \<and>
     map_option a_worker_id (get_assignment db j) = Some wid \<and>
     (\<forall>w \<in> set (bare_workers db). w_id w = wid \<longrightarrow> w_status w = Offline)"

lemma stranded_workers:
  "(\<forall>w \<in> set (bare_workers db). w_id w = wid \<longrightarrow> w_status w = Offline) \<longleftrightarrow>
   (\<forall>w \<in> set (workers db). w_id w = wid \<longrightarrow> w_status w = Offline)"
  by (auto simp: bare_workers_def)

lemma stranded_turn:
  assumes "stranded wid j db"
  shows "stranded wid j (fst (sweeper_turn env now (db, r)))"
proof -
  let ?swept = "fst (sweep_stale_workers now db)"
  obtain b a where row: "get_batch_row db j = Some b" "b_status b = InProgress" "get_assignment db j = Some a" "a_worker_id a = wid"
    using assms by (auto simp: stranded_def status_of_def)
  have one: "one_assignment db" and off: "\<forall>w \<in> set (workers db). w_id w = wid \<longrightarrow> w_status w = Offline"
    using assms by (simp_all add: stranded_def stranded_workers)
  then have "\<forall>w \<in> set (workers db). w_id w = a_worker_id a \<longrightarrow> \<not> is_stale now w" using row(4) by (auto simp: is_stale_def)
  from sweep_running_row [OF one [unfolded one_assignment_def] row(1,3) this]
  have "get_batch_row ?swept j = Some b" "get_assignment ?swept j = Some a" by simp_all
  moreover have "one_assignment ?swept"
    unfolding sweep_stale_fst by (rule sweep_workers_rule [where P = one_assignment]) (simp_all add: one sweep_worker_one)
  moreover have "\<forall>w \<in> set (workers ?swept). w_id w = wid \<longrightarrow> w_status w = Offline"
    unfolding sweep_stale_fst sweep_workers_mono_status using off by auto
  ultimately show ?thesis
    using sweeper_turn_frame [of env now db r j] row(2,4)
    by (simp add: stranded_def status_of_def one_assignment_def stranded_workers [symmetric])
qed

lemma stranded_turns: "stranded wid j (fst s) \<Longrightarrow> stranded wid j (fst (sweeper_turns ts s))"
proof (induction ts arbitrary: s)
  case (Cons t ts)
  then show ?case using stranded_turn [of wid j "fst s" "fst t" "snd t" "snd s"] by (cases t) simp
qed simp

lemma poll_job_dispatches:
  assumes "poll_job wall oid wid now db = Inr (Some jb, db')"
  shows "\<exists>w b. db' = dispatch oid now w b db \<and> b \<in> set (batches db) \<and> b_id b = j_job_id jb \<and> w_id w = wid \<and>
    get_assignment db (b_id b) = None"
proof -
  from assms obtain w b where "get_org_worker db oid wid = Inr w" "find_best_batch wall now db w (available_batches db) = Some b"
    "db' = dispatch oid now w b db" "jb = job_for db w b" "get_assignment db (b_id b) = None"
    by (auto simp: poll_job_def poll_pick_def poll_commit_def require_def split: option.splits if_splits)
  moreover from this have "b \<in> set (batches db)" "w_id w = wid"
    by (auto dest!: find_best_batch_SomeD find_SomeD simp: get_org_worker_iff available_batches_def)
  ultimately show ?thesis by (auto simp: job_for_def)
qed

text \<open>C32: The sweeper does not cover a worker that polls while it is already offline (one that slept past the sweep,
  say): a poll refuses only draining workers, so it is handed a batch; and however often the sweeper turns, and
  whatever its turns do besides, that batch stays assigned and in progress for as long as the worker is not heard
  again - "a crashed daemon never strands a batch" does not hold for it.\<close>

theorem offline_poll_strands:
  assumes "distinct (map a_batch_id (assignments db))" "\<forall>w \<in> set (workers db). w_id w = wid \<longrightarrow> w_status w = Offline"
    "poll_job wall oid wid now db = Inr (Some jb, db')"
  shows "let later = fst (sweeper_turns ts (db', r)) in
    map_option b_status (get_batch_row later (j_job_id jb)) = Some InProgress \<and>
    map_option a_worker_id (get_assignment later (j_job_id jb)) = Some wid"
proof -
  obtain w b where d: "db' = dispatch oid now w b db" "b \<in> set (batches db)" "b_id b = j_job_id jb" "w_id w = wid"
    "get_assignment db (b_id b) = None" using poll_job_dispatches [OF assms(3)] by blast
  have "get_batch_row db (b_id b) \<noteq> None" using d(2) by (auto simp: tbl_get_def find_None_iff)
  then have "status_of db' (j_job_id jb) = Some InProgress"
    using d(1,3) by (auto simp: status_of_def dispatch_def upd_batch_def batch_table.get_upd)
  moreover have "one_assignment db'"
    using assms(1) d(1,5) by (auto simp: one_assignment_def dispatch_def upd_batch_def tbl_add_def tbl_get_def find_None_iff)
  moreover have "map_option a_worker_id (get_assignment db' (j_job_id jb)) = Some wid"
    unfolding d(1) dispatch_assignment using d(3-5) by simp
  ultimately have "stranded wid (j_job_id jb) db'"
    using assms(2) d(1) by (simp add: stranded_def stranded_workers)
  then show ?thesis using stranded_turns [of wid "j_job_id jb" "(db', r)" ts] by (simp add: stranded_def status_of_def)
qed

definition offline_fleet :: srv where
  "offline_fleet = (sample_db Validated)\<lparr>workers := [sample_worker\<lparr>w_status := Offline\<rparr>]\<rparr>"

theorem offline_poll_strands_witness:
  "map_option b_status (get_batch_row (fst (sweeper_turns [(idle_env, 2000), (idle_env, 9000)]
     (snd (projr (poll_job sample_wall ''o1'' ''w1'' 1500 offline_fleet)), ()))) ''b1'') = Some InProgress"
proof -
  have h: "distinct (map a_batch_id (assignments offline_fleet))"
    "\<forall>w \<in> set (workers offline_fleet). w_id w = ''w1'' \<longrightarrow> w_status w = Offline" by code_simp+
  have "map_sum id (map_option j_job_id \<circ> fst) (poll_job sample_wall ''o1'' ''w1'' 1500 offline_fleet) = Inr (Some ''b1'')"
    by code_simp
  then obtain jb db' where p: "poll_job sample_wall ''o1'' ''w1'' 1500 offline_fleet = Inr (Some jb, db')" "j_job_id jb = ''b1''"
    by (cases "poll_job sample_wall ''o1'' ''w1'' 1500 offline_fleet") auto
  show ?thesis
    using offline_poll_strands [OF h p(1), where r = "()" and ts = "[(idle_env, 2000), (idle_env, 9000)]"] p
    by (simp add: Let_def)
qed

text \<open>C10: No queued batch starves: when a worker that is not draining polls as many times as there are
  queued batches, every queued batch it stays eligible for runs on it afterwards, however
  the polls are timed and whatever else it was given first.\<close>

theorem eligible_batch_dispatched:
  assumes "get_org_worker db oid wid = Inr w" "w_status w \<noteq> Draining" "distinct (map b_id (batches db))"
    "\<And>c. c \<in> set (batches db) \<Longrightarrow> b_status c = Validated \<Longrightarrow> get_assignment db (b_id c) = None"
    "b \<in> set (batches db)" "b_status b = Validated" "\<And>t. t \<in> set ts \<Longrightarrow> eligible wall t db w b"
    "length (filter (\<lambda>c. b_status c = Validated) (batches db)) \<le> length ts"
  shows "map_option b_status (get_batch_row (poll_at wall oid wid ts db) (b_id b)) = Some InProgress \<and>
    map_option a_worker_id (get_assignment (poll_at wall oid wid ts db) (b_id b)) = Some wid"
proof -
  have "queue_ok oid wid w db" using assms(1-4) by (auto simp: queue_ok_def queued_def list_all_iff)
  moreover have "b \<in> set (queued db)" "length (queued db) \<le> length ts" using assms(5,6,8) by (simp_all add: queued_def)
  ultimately show ?thesis using poll_drains assms(7) unfolding runs_on_def status_of_def by blast
qed

definition two_queued :: srv where
  "two_queued = (sample_db Validated)\<lparr>batches := [sample_batch Validated, (sample_batch Validated)\<lparr>b_id := ''b2''\<rparr>]\<rparr>"

theorem eligible_batch_dispatched_witness:
  "map b_status (batches two_queued) = [Validated, Validated] \<and>
   map_option b_status (get_batch_row (poll_at sample_wall ''o1'' ''w1'' [1000, 1040] two_queued) ''b2'') = Some InProgress"
proof -
  have none: "assignments two_queued = []" by code_simp
  then have no: "get_assignment two_queued i = None" for i by (simp add: tbl_get_def)
  have h: "get_org_worker two_queued ''o1'' ''w1'' = Inr sample_worker" "w_status sample_worker \<noteq> Draining"
    "distinct (map b_id (batches two_queued))" by code_simp+
  have b: "(sample_batch Validated)\<lparr>b_id := ''b2''\<rparr> \<in> set (batches two_queued)"
    "b_status ((sample_batch Validated)\<lparr>b_id := ''b2''\<rparr>) = Validated" "map b_status (batches two_queued) = [Validated, Validated]"
    by code_simp+
  have e: "eligible sample_wall t two_queued sample_worker ((sample_batch Validated)\<lparr>b_id := ''b2''\<rparr>)"
    if "t \<in> set [1000, 1040]" for t
  proof -
    have "list_all (\<lambda>t. eligible sample_wall t two_queued sample_worker ((sample_batch Validated)\<lparr>b_id := ''b2''\<rparr>)) [1000, 1040]"
      by code_simp
    then show ?thesis using that by auto
  qed
  have l: "length (filter (\<lambda>c. b_status c = Validated) (batches two_queued)) \<le> length [1000, 1040 :: seconds]" by code_simp
  show ?thesis using eligible_batch_dispatched [OF h no b(1,2) e l] b(3) by simp
qed

end
