(* ===== verification/Fleet_Run.thy ===== *)
theory Fleet_Run
  imports Life_Properties Validator_Properties Daemon_Worker
begin

text \<open>
  A daemon and the control plane at work on one job: the turn of the daemon's loop (\<open>_poll_and_execute\<close> of
  \<open>daemon/daemon/worker.py\<close> over \<open>daemon/daemon/client.py\<close>) against the handlers of the control
  plane, with every request and every answer that the network may lose; and what can release a running
  batch. The daemon's own run of the job is \<open>execute_job\<close> of theory Daemon_Worker.
\<close>

section \<open>What releases a running batch\<close>

lemma same_core_status:
  "same_core db db' \<Longrightarrow> get_batch_row db j = Some b \<Longrightarrow> get_batch_row db' j = Some b' \<Longrightarrow> b_status b' = b_status b"
  using same_core_row [of db db' j] by (auto simp: core_def)

lemmas quiet_steps = same_core_ingest same_core_retry same_core_backfill same_core_progress quiet_core same_core_adopt

text \<open>Of a step, for the batch that ran before it: it still runs, or its own worker or a sweep ended the run.\<close>

definition released_by :: "string \<Rightarrow> string \<Rightarrow> srv \<Rightarrow> srv \<Rightarrow> bool" where
  "released_by j wid db db' \<longleftrightarrow>
     (\<exists>oid content n c f fid now x. upload_results oid wid j content n c f fid now db = Inr (x, db')) \<or>
     (\<exists>oid err now x. report_failure oid wid j err now db = Inr (x, db')) \<or>
     (\<exists>now. db' = fst (sweep_stale_workers now db) \<and> (\<exists>w \<in> set (workers db). w_id w = wid \<and> is_stale now w))"

lemma poll_other_row:
  assumes "poll_job wall oid wid now db = Inr (x, db')" "get_batch_row db j = Some b" "b_status b = InProgress"
    "distinct (map b_id (batches db))"
  shows "get_batch_row db' j = Some b"
proof (cases x)
  case None
  then show ?thesis using assms by (auto simp: poll_job_eq split: if_splits option.splits)
next
  case (Some jb)
  then obtain w c where c: "find_best_batch wall now db w (available_batches db) = Some c" "db' = dispatch oid now w c db"
    using assms(1) by (auto simp: poll_job_eq split: if_splits option.splits)
  have "c \<in> set (batches db)" "b_status c = Validated"
    using find_best_batch_SomeD [OF c(1)] by (auto simp: available_batches_def)
  then have "b_id c \<noteq> j" using assms(2-4) tbl_get_distinct [of b_id "batches db" c] by auto
  then show ?thesis using c(2) assms(2) upd_batch_get [of "\<lambda>b. b\<lparr>b_status := InProgress\<rparr>"]
    by (simp add: dispatch_def upd_batch_def batch_table.get_upd)
qed

lemma create_other_row:
  assumes "create_batch ctx req bid now db = Inr (x, db')" "get_batch_row db bid = None" "get_batch_row db j = Some b"
  shows "get_batch_row db' j = Some b \<and> assignments db' = assignments db"
proof -
  have "bid \<noteq> j" using assms(2,3) by auto
  moreover have "db' = db\<lparr>batches := tbl_add (new_batch bid ctx req now) (batches db)\<rparr>"
    using assms(1) by (auto simp: create_batch_def Let_def)
  ultimately show ?thesis using assms(3) by (simp add: batch_table.get_add)
qed

lemma verdict_other_row:
  assumes "persist_result commit_ok m2s now bid r db = (ok, db')" "bid \<noteq> j" "get_batch_row db j = Some b"
  shows "get_batch_row db' j = Some b \<and> assignments db' = assignments db"
  using assms by (auto simp: persist_result_def upd_batch_def batch_table.get_upd verdict_row_def persist_failed_row_def
      set_expires_at_def Let_def split: if_splits option.splits)

text \<open>Only the worker that holds the assignment of a batch can answer for it.\<close>

lemma upload_other_row:
  assumes "upload_results oid wid jid content n c f fid now db = Inr (x, db')" "get_batch_row db j = Some b"
    "get_assignment db j = Some a" "(wid, jid) \<noteq> (a_worker_id a, j)"
  shows "get_batch_row db' j = Some b \<and> get_assignment db' j = Some a"
proof -
  obtain b0 where g: "get_assigned_batch db jid wid = Inr b0"
    and db': "db' = db \<or> db' = upd_batch (b_id b0) (complete_row fid now c f) (store_upload fid content n now b0 db)"
    using assms(1) by (auto simp: upload_results_def split: if_splits)
  from assigned_row [OF g] have id: "b_id b0 = jid" "\<exists>a0. get_assignment db jid = Some a0 \<and> a_worker_id a0 = wid" by auto
  then have "jid \<noteq> j" using assms(3,4) by auto
  then have "get_batch_row (upd_batch jid (complete_row fid now c f) (store_upload fid content n now b0 db)) j = Some b"
    using assms(2) upd_batch_get [where f = "complete_row fid now c f" and i = jid and j = j]
    by (auto simp: complete_row_def store_upload_def)
  then show ?thesis using db' assms(2,3) id(1) by (auto simp: upd_batch_def store_upload_def)
qed

lemma failure_other_row:
  assumes "report_failure oid wid jid err now db = Inr (x, db')" "get_batch_row db j = Some b"
    "get_assignment db j = Some a" "(wid, jid) \<noteq> (a_worker_id a, j)"
  shows "get_batch_row db' j = Some b \<and> get_assignment db' j = Some a"
proof -
  obtain b0 where g: "get_assigned_batch db jid wid = Inr b0" and db': "db' = fst (requeue_or_fail_batch now b0 err db)"
    using assms(1) by (auto simp: report_failure_def Let_def split_beta)
  from assigned_row [OF g] have id: "b_id b0 = jid" "\<exists>a0. get_assignment db jid = Some a0 \<and> a_worker_id a0 = wid" by auto
  then have "jid \<noteq> j" using assms(3,4) by auto
  then show ?thesis using db' id(1) assms(2,3) by (simp add: requeue_batch_rows requeue_assignments)
qed

lemma poll_assignment:
  assumes "poll_job wall oid wid now db = Inr (x, db')" "get_assignment db j = Some a"
  shows "get_assignment db' j = Some a"
proof (cases x)
  case None
  then show ?thesis using assms by (auto simp: poll_job_eq split: if_splits option.splits)
next
  case (Some jb)
  then obtain w c where "db' = dispatch oid now w c db"
    using assms(1) by (auto simp: poll_job_eq split: if_splits option.splits)
  then show ?thesis using assms(2) by (simp add: dispatch_def upd_batch_def assignment_table.get_add)
qed

lemma step_release:
  assumes "step wall s s'" "life_inv s" "get_batch_row (sdb s) j = Some b" "b_status b = InProgress"
    "get_assignment (sdb s) j = Some a" "get_batch_row (sdb s') j = Some b'" "b_status b' \<noteq> InProgress"
  shows "released_by j (a_worker_id a) (sdb s) (sdb s')"
proof -
  have quiet: "\<not> same_core (sdb s) (sdb s')" using same_core_status assms(3,4,6,7) by metis
  have ids: "distinct (map b_id (batches (sdb s)))" "distinct (map a_batch_id (assignments (sdb s)))"
    using inv_ids [OF assms(2)] by (simp_all add: ids_ok_def)
  have changed: "get_batch_row (sdb s') j \<noteq> Some b" using assms(4,6,7) by auto
  from assms(1) show ?thesis
  proof cases
    case (create ctx req bid now out bid' path db')
    then show ?thesis using create_other_row [OF create(2,3) assms(3)] changed by simp
  next
    case (verdict bid commit_ok m2s now r ok db')
    have "bid \<noteq> j" using verdict(2) inv_row [OF assms(2,3)] assms(4) by (auto simp: row_ok_def)
    then show ?thesis using verdict_other_row [OF verdict(3) _ assms(3)] changed verdict(1) by simp
  next
    case (poll oid wid now x db')
    then show ?thesis using poll_other_row [OF _ assms(3,4) ids(1)] changed by (simp add: set_db_def)
  next
    case (upload oid wid jid content n c f fid now x db')
    then have "(wid, jid) = (a_worker_id a, j)"
      using upload_other_row [OF upload(2) assms(3,5)] changed by (auto simp: set_db_def)
    then show ?thesis using upload by (auto simp: released_by_def set_db_def)
  next
    case (failure oid wid jid err now x db')
    then have "(wid, jid) = (a_worker_id a, j)"
      using failure_other_row [OF failure(2) assms(3,5)] changed by (auto simp: set_db_def)
    then have "report_failure oid (a_worker_id a) j err now (sdb s) = Inr (x, sdb s')"
      using failure by (simp add: set_db_def)
    then show ?thesis unfolding released_by_def by blast
  next
    case (sweep now)
    then have "\<exists>w \<in> set (workers (sdb s)). w_id w = a_worker_id a \<and> is_stale now w"
      using sweep_running_row [OF ids(2) assms(3,5), of now] changed by (auto simp: set_db_def)
    then show ?thesis using sweep by (auto simp: released_by_def set_db_def)
  qed (use quiet in \<open>auto simp: set_db_def sweep_pending_ingestions_def same_core_refl intro: quiet_steps\<close>)
qed

section \<open>A turn of the daemon\<close>

text \<open>What the network does: whether the answer to the poll, the input, the upload, its answer and the
  failure report arrive.\<close>

record link =
  lk_job :: bool
  lk_input :: bool
  lk_upload :: bool
  lk_answer :: bool
  lk_report :: bool

text \<open>\<open>_pull_unrouted_model\<close>: \<open>ensured\<close> is what asking a runtime's manager for the model comes to (None: it
  raises), \<open>routes\<close> where the model routes after that runtime has it. The answer is \<open>je_pulled\<close>.\<close>

fun pull_unrouted :: "(string \<Rightarrow> bool option) \<Rightarrow> (string \<Rightarrow> string option) \<Rightarrow> string list \<Rightarrow> string option option" where
  "pull_unrouted ensured routes [] = Some None"
| "pull_unrouted ensured routes (r # rs) = (case ensured r of
       None \<Rightarrow> None
     | Some ok \<Rightarrow> if ok \<and> routes r \<noteq> None then Some (routes r) else pull_unrouted ensured routes rs)"

text \<open>\<open>Job(**job_data)\<close>: \<open>max_tokens\<close> and \<open>temperature\<close> are not sent and keep their defaults.\<close>

definition job_of :: "job \<Rightarrow> djob" where
  "job_of j = \<lparr>dj_id = j_job_id j, dj_model = (case j_model j of None \<Rightarrow> [] | Some m \<Rightarrow> m),
     dj_max_tokens = 512, dj_temperature = 7 / 10\<rparr>"

text \<open>\<open>download_input\<close>: the content endpoint under the worker key of organization \<open>g\<close>; None when it raises.\<close>

definition download_input :: "link \<Rightarrow> org_row \<Rightarrow> string \<Rightarrow> srv \<Rightarrow> string list option" where
  "download_input l g fid db =
     (if lk_input l then (case download_file_content (AsWorker g) fid db of Inl _ \<Rightarrow> None | Inr (_, c) \<Rightarrow> Some c) else None)"

text \<open>\<open>_write_output\<close>: one line a row; \<open>dump\<close> is \<open>model_dump_json\<close>.\<close>

definition write_output :: "(completion \<Rightarrow> string) \<Rightarrow> completion list \<Rightarrow> string list" where
  "write_output dump rows = map dump rows"

definition output_bytes :: "string list \<Rightarrow> int" where
  "output_bytes content = int (sum_list (map (\<lambda>s. length s + 1) content))"

text \<open>\<open>BackendClient.upload_results\<close>: whether it returns rather than raises, and the control plane after it.\<close>

definition client_upload :: "link \<Rightarrow> string \<Rightarrow> string \<Rightarrow> string \<Rightarrow> string list \<Rightarrow> nat \<Rightarrow> nat \<Rightarrow> string \<Rightarrow> seconds \<Rightarrow>
    srv \<Rightarrow> bool \<times> srv" where
  "client_upload l oid wid jid content completed n_total new_fid now db =
     (if \<not> lk_upload l then (False, db)
      else (case upload_results oid wid jid content (output_bytes content) (Some (int completed))
              (Some (int n_total - int completed)) new_fid now db of
          Inl _ \<Rightarrow> (False, db)
        | Inr (_, db') \<Rightarrow> (lk_answer l, db')))"

text \<open>\<open>BackendClient.report_failure\<close> is best effort: it returns whatever happens.\<close>

definition client_report_failure :: "link \<Rightarrow> string \<Rightarrow> string \<Rightarrow> string \<Rightarrow> string \<Rightarrow> seconds \<Rightarrow> srv \<Rightarrow> srv" where
  "client_report_failure l oid wid jid err now db =
     (if \<not> lk_report l then db
      else (case report_failure oid wid jid (Some (take 2000 err)) now db of Inl _ \<Rightarrow> db | Inr (_, db') \<Rightarrow> db'))"

text \<open>The job's run and its end at the control plane. \<open>execute_job\<close> is asked what it would upload; when the
  upload then raises, it ends as \<open>execute_job\<close> does when \<open>je_upload\<close> is false (\<open>upload_raises\<close> below); when the
  sum of the tokens raises after it, the failure is reported although the rows are stored.
  \<open>exn\<close> is the text of the exception.\<close>

definition finish_job :: "loads \<Rightarrow> (completion \<Rightarrow> string) \<Rightarrow> string \<Rightarrow> link \<Rightarrow> org_row \<Rightarrow> string \<Rightarrow> job \<Rightarrow> job_env \<Rightarrow>
    string \<Rightarrow> seconds \<Rightarrow> activity \<Rightarrow> srv \<Rightarrow> activity \<times> srv" where
  "finish_job loads dump exn l g wid j env new_fid now act db =
     (let content = download_input l g (j_input_file_id j) db;
          report = (\<lambda>err. client_report_failure l (org_id g) wid (j_job_id j) err now) in
      case execute_job loads (job_of j) (env\<lparr>je_input := content, je_upload := True\<rparr>) act of
        (a, Uploaded rows) \<Rightarrow>
          (let n = length (parse_input loads (job_of j) (the content));
               (ok, db1) = client_upload l (org_id g) wid (j_job_id j) (write_output dump rows)
                 (length (filter is_success rows)) n new_fid now db
           in if ok \<and> tokens_summed rows then (a, db1) else (Busy, report exn db1))
      | (a, Reported err) \<Rightarrow> (a, report err db)
      | (a, Raised) \<Rightarrow> (a, report exn db))"

text \<open>\<open>_poll_and_execute\<close>, whose job is finished at once: what other requests do meanwhile is left to the
  step relation of theory Lifecycle.\<close>

definition daemon_turn :: "wall_clock \<Rightarrow> loads \<Rightarrow> (completion \<Rightarrow> string) \<Rightarrow> string \<Rightarrow> link \<Rightarrow> org_row \<Rightarrow> string \<Rightarrow>
    (job \<Rightarrow> job_env) \<Rightarrow> string \<Rightarrow> seconds \<Rightarrow> activity \<Rightarrow> srv \<Rightarrow> activity \<times> srv" where
  "daemon_turn wall loads dump exn l g wid env new_fid now act db =
     (case poll_job wall (org_id g) wid now db of
        Inl _ \<Rightarrow> (act, db)
      | Inr (None, db') \<Rightarrow> (act, db')
      | Inr (Some j, db') \<Rightarrow> if lk_job l then finish_job loads dump exn l g wid j (env j) new_fid now act db' else (act, db'))"

section \<open>Lemmas\<close>

lemma upload_raises:
  "execute_job loads d (env\<lparr>je_upload := True\<rparr>) act = (a, Uploaded rows) \<Longrightarrow>
   execute_job loads d (env\<lparr>je_upload := False\<rparr>) act = (Busy, Raised)"
  by (auto simp: execute_job_def run_job_def Let_def split: option.splits if_splits dest: job_gate_cases)

lemma uploaded_rows:
  assumes "execute_job loads d env act = (a, Uploaded rows)"
  shows "a = (if tokens_summed rows then Idle else Busy) \<and> (\<exists>content. je_input env = Some content \<and> je_run env (parse_input loads d content) = Some rows)"
proof (cases "job_gate d env act")
  case None
  then show ?thesis using assms run_job_ends [of loads d env a "Uploaded rows"] by (auto simp: execute_job_def)
next
  case (Some x)
  then show ?thesis using assms job_gate_cases [of d env act] by (auto simp: execute_job_def)
qed

text \<open>The control plane's side of a job that runs on worker \<open>wid\<close>.\<close>

definition runs_job :: "string \<Rightarrow> string \<Rightarrow> string \<Rightarrow> batch \<Rightarrow> srv \<Rightarrow> bool" where
  "runs_job oid wid jid b db \<longleftrightarrow> \<not> isl (get_org_worker db oid wid) \<and> get_batch_row db jid = Some b \<and> b_status b = InProgress \<and>
     map_option a_worker_id (get_assignment db jid) = Some wid"

lemma runs_job_assigned: "runs_job oid wid jid b db \<Longrightarrow> get_assigned_batch db jid wid = Inr b \<and> b_id b = jid"
  by (auto simp: runs_job_def get_assigned_batch_iff dest: batch_row_id)

lemma report_requeues:
  assumes "runs_job oid wid jid b db" "lk_report l"
  shows "get_batch_row (client_report_failure l oid wid jid err now db) jid =
      Some (requeue_row now (Some (take 2000 err)) b) \<and>
    get_assignment (client_report_failure l oid wid jid err now db) jid = None"
proof -
  obtain w where w: "get_org_worker db oid wid = Inr w"
    using assms(1) by (cases "get_org_worker db oid wid") (auto simp: runs_job_def)
  note r = assms(1) [unfolded runs_job_def] runs_job_assigned [OF assms(1)]
  let ?db = "fst (requeue_or_fail_batch now b (Some (take 2000 err)) db)"
  have "client_report_failure l oid wid jid err now db = ?db"
    using w r assms(2) by (auto simp: client_report_failure_def report_failure_def validate_transition_def Let_def split_beta)
  moreover have "get_batch_row ?db jid = Some (requeue_row now (Some (take 2000 err)) b)"
    using r by (simp add: requeue_batch_rows)
  moreover have "get_assignment ?db jid = None" using r by (simp add: requeue_assignments)
  ultimately show ?thesis by simp
qed

lemma upload_stores:
  assumes "runs_job oid wid jid b db" "lk_upload l"
    "client_upload l oid wid jid content c n fid now db = (ok, db')"
  shows "ok = lk_answer l \<and> disk db' (output_path fid) = Some content \<and>
    get_batch_row db' jid = Some (complete_row fid now (Some (int c)) (Some (int n - int c)) b) \<and>
    client_report_failure l oid wid jid err now' db' = db'"
proof -
  obtain w where w: "get_org_worker db oid wid = Inr w"
    using assms(1) by (cases "get_org_worker db oid wid") (auto simp: runs_job_def)
  note r = assms(1) [unfolded runs_job_def] runs_job_assigned [OF assms(1)]
  let ?row = "complete_row fid now (Some (int c)) (Some (int n - int c))"
  have db': "ok = lk_answer l" "db' = upd_batch jid ?row (store_upload fid content (output_bytes content) now b db)"
    using assms(2,3) w r by (auto simp: client_upload_def upload_results_def validate_transition_def)
  have id: "b_id (?row x) = b_id x" for x by (simp add: complete_row_def)
  have row: "get_batch_row db' jid = Some (?row b)"
    using r upd_batch_get [OF id] by (simp add: db'(2) store_upload_def)
  have disk: "disk db' (output_path fid) = Some content" by (simp add: db'(2) store_upload_def)
  have "b_status (?row b) = Completed" by (simp add: complete_row_def)
  moreover have "get_org_worker db' oid wid = Inr w" using w by (simp add: db'(2) store_upload_def get_org_worker_def)
  moreover have "get_assigned_batch db' jid wid = Inr (?row b)"
    using row r by (auto simp: get_assigned_batch_iff db'(2) store_upload_def)
  ultimately have "isl (report_failure oid wid jid (Some (take 2000 err)) now' db')"
    by (simp add: report_failure_def validate_transition_def Let_def)
  then have "client_report_failure l oid wid jid err now' db' = db'"
    by (auto simp: client_report_failure_def split: sum.splits)
  then show ?thesis using disk db'(1) row by blast
qed

text \<open>What a job's turn makes of its batch when the failure report gets through: completed with the rows of the
  run, or requeued.\<close>

definition settled_job :: "loads \<Rightarrow> (completion \<Rightarrow> string) \<Rightarrow> link \<Rightarrow> org_row \<Rightarrow> job \<Rightarrow> job_env \<Rightarrow> string \<Rightarrow> batch \<Rightarrow>
    srv \<Rightarrow> srv \<Rightarrow> bool" where
  "settled_job loads dump l g j env fid b db db' \<longleftrightarrow> (\<exists>b'. get_batch_row db' (j_job_id j) = Some b' \<and>
     ((b_status b' = Completed \<and> b_output_file_id b' = Some fid \<and>
       (\<exists>content rows. download_input l g (j_input_file_id j) db = Some content \<and>
          je_run env (parse_input loads (job_of j) content) = Some rows \<and>
          disk db' (output_path fid) = Some (map dump rows) \<and>
          b_completed b' = Some (int (length (filter is_success rows))) \<and>
          b_failed b' = Some (int (length (parse_input loads (job_of j) content)) - int (length (filter is_success rows))))) \<or>
      (b_status b' \<in> {Validated, Failed} \<and> b_attempts b' = Some (next_attempt b) \<and> get_assignment db' (j_job_id j) = None)))"

lemma settled_report:
  assumes "runs_job oid wid (j_job_id j) b db" "lk_report l"
  shows "settled_job loads dump l g j env fid b db0 (client_report_failure l oid wid (j_job_id j) err now db)"
  using report_requeues [OF assms, of err now]
  by (auto simp: settled_job_def requeue_row_status requeue_row_attempts)

lemma finish_settles:
  assumes run: "runs_job (org_id g) wid (j_job_id j) b db" and rep: "lk_report l"
    and f: "finish_job loads dump exn l g wid j env fid now act db = (act', db')"
  shows "settled_job loads dump l g j env fid b db db'"
proof -
  let ?content = "download_input l g (j_input_file_id j) db"
  obtain a e where x: "execute_job loads (job_of j) (env\<lparr>je_input := ?content, je_upload := True\<rparr>) act = (a, e)"
    by (rule prod.exhaust)
  note report = settled_report [OF run rep, of loads dump g env fid db _ now]
  show ?thesis
  proof (cases e)
    case (Reported err)
    then show ?thesis using f x report by (auto simp: finish_job_def)
  next
    case Raised
    then show ?thesis using f x report by (auto simp: finish_job_def)
  next
    case (Uploaded rows)
    obtain content where c: "?content = Some content" "je_run env (parse_input loads (job_of j) content) = Some rows"
      using uploaded_rows [OF x [unfolded Uploaded]] by auto
    let ?n = "length (parse_input loads (job_of j) content)" and ?k = "length (filter is_success rows)"
    obtain ok db1 where u: "client_upload l (org_id g) wid (j_job_id j) (write_output dump rows) ?k ?n fid now db = (ok, db1)"
      by (rule prod.exhaust)
    have db': "db' = (if ok \<and> tokens_summed rows then db1 else client_report_failure l (org_id g) wid (j_job_id j) exn now db1)"
      using f x Uploaded u c(1) by (auto simp: finish_job_def Let_def split: if_splits)
    show ?thesis
    proof (cases "lk_upload l")
      case False
      then show ?thesis using u db' report by (auto simp: client_upload_def)
    next
      case True
      note st = upload_stores [OF run True u, of exn now]
      then have "db' = db1" using db' by auto
      then show ?thesis using st c by (auto simp: settled_job_def complete_row_def write_output_def)
    qed
  qed
qed

lemma poll_runs_job:
  assumes "poll_job wall oid wid now db = Inr (Some j, db')" "distinct (map b_id (batches db))"
  obtains b where "get_batch_row db (j_job_id j) = Some b" "runs_job oid wid (j_job_id j) (b\<lparr>b_status := InProgress\<rparr>) db'"
proof -
  obtain w b where w: "get_org_worker db oid wid = Inr w"
    and b: "find_best_batch wall now db w (available_batches db) = Some b" "get_assignment db (b_id b) = None"
    and j: "j = job_for db w b" "db' = dispatch oid now w b db"
    using assms(1) by (auto simp: poll_job_eq split: if_splits option.splits)
  have row: "get_batch_row db (b_id b) = Some b"
    using find_best_batch_SomeD [OF b(1)] assms(2) by (auto simp: available_batches_def tbl_get_distinct)
  have "get_batch_row db' (b_id b) = Some (b\<lparr>b_status := InProgress\<rparr>)"
    using row by (simp add: j(2) dispatch_def upd_batch_def batch_table.get_upd)
  moreover have "map_option a_worker_id (get_assignment db' (b_id b)) = Some wid"
    using b(2) find_SomeD [OF w [unfolded get_org_worker_iff]] by (simp add: j(2) dispatch_def assignment_table.get_add)
  moreover have "get_org_worker db' oid wid = Inr w" using w by (simp add: j(2) dispatch_def get_org_worker_def)
  ultimately show thesis using that [of b] row j(1) by (simp add: runs_job_def job_for_def)
qed

text \<open>What the validator accepts the daemon parses, line for line.\<close>

lemma jget_JStr: "jget k d = JStr v \<Longrightarrow> map_of d k = Some (JStr v)"
  by (auto simp: jget_def split: option.splits)

lemma accepted_prompt:
  assumes "validate_schema d i = []"
  shows "\<exists>p. prompt_of (JObj d) = Some p \<and> JStr (pq_id p) = jget ''custom_id'' d"
proof -
  obtain c b where c: "jget ''custom_id'' d = JStr c" "jget ''body'' d = JObj b" using schema_ok_shape [OF assms] by blast
  have m: "jget ''method'' d = JStr ''POST''" and u: "jget ''url'' d \<in> JStr ` set supported_endpoints"
    using assms by (auto simp: validate_schema_def schema_validators_def validate_method_def validate_url_def Let_def
        split: if_splits)
  then obtain url where "jget ''url'' d = JStr url" by blast
  then have "map_of d ''url'' = Some (JStr url)" "map_of d ''method'' = Some (JStr ''POST'')" "map_of d ''custom_id'' = Some (JStr c)"
    using jget_JStr m c(1) by blast+
  moreover have "map_of d ''body'' = Some (JObj b)" using c(2) by (auto simp: jget_def split: option.splits)
  ultimately show ?thesis using c(1) by (simp add: prompt_of_def str_field_def)
qed

lemma parse_accepted:
  "map (\<lambda>l. loads (strip l)) (filter (\<lambda>l. strip l \<noteq> []) content) = map (\<lambda>d. Loaded (JObj d)) ds \<Longrightarrow>
   \<forall>d \<in> set ds. validate_schema d 0 = [] \<Longrightarrow>
   map (\<lambda>p. JStr (pq_id p)) (parse_input loads j content) = map (jget ''custom_id'') ds"
proof (induction content arbitrary: ds)
  case Nil
  then show ?case by (simp add: parse_input_def List.map_filter_simps)
next
  case (Cons l content)
  show ?case
  proof (cases "strip l = []")
    case True
    then show ?thesis using Cons by (simp add: parse_input_def List.map_filter_simps parse_prompt_line_def)
  next
    case False
    then obtain d ds' where ds: "ds = d # ds'" "loads (strip l) = Loaded (JObj d)" using Cons.prems(1) by (cases ds) auto
    obtain p where "prompt_of (JObj d) = Some p" "JStr (pq_id p) = jget ''custom_id'' d"
      using accepted_prompt Cons.prems(2) ds(1) by force
    then show ?thesis using Cons.IH [of ds'] Cons.prems False ds
      by (simp add: parse_input_def List.map_filter_simps parse_prompt_line_def apply_job_defaults_def Let_def)
  qed
qed

section \<open>Properties\<close>

text \<open>C5: No job is left in the air: when a worker is handed a job and the poll's answer and, where one is made,
  its failure report get through, then whatever else is lost, refused or raised on the way, the
  batch ends completed with exactly the rows the run made of the file the worker downloaded, and their
  counts, or it is queued again or failed with one attempt more and its assignment gone. An upload whose
  answer is lost stays completed: the failure report that follows it changes nothing.\<close>

theorem turn_settles:
  assumes "reachable wall s" "poll_job wall (org_id g) wid now (sdb s) = Inr (Some j, db1)"
    "get_batch_row (sdb s) (j_job_id j) = Some b"
    "daemon_turn wall loads dump exn l g wid env fid now act (sdb s) = (act', db')" "lk_job l" "lk_report l"
  shows "\<exists>b'. get_batch_row db' (j_job_id j) = Some b' \<and>
     ((b_status b' = Completed \<and> b_output_file_id b' = Some fid \<and>
       (\<exists>content rows. download_input l g (j_input_file_id j) db1 = Some content \<and>
          je_run (env j) (parse_input loads (job_of j) content) = Some rows \<and>
          disk db' (output_path fid) = Some (map dump rows) \<and>
          b_completed b' = Some (int (length (filter is_success rows))) \<and>
          b_failed b' = Some (int (length (parse_input loads (job_of j) content)) - int (length (filter is_success rows))))) \<or>
      (b_status b' \<in> {Validated, Failed} \<and> b_attempts b' = Some (next_attempt b) \<and> get_assignment db' (j_job_id j) = None))"
proof -
  have ids: "distinct (map b_id (batches (sdb s)))"
    using inv_ids [OF reachable_life [OF assms(1)]] by (simp add: ids_ok_def)
  have run: "runs_job (org_id g) wid (j_job_id j) (b\<lparr>b_status := InProgress\<rparr>) db1"
    using poll_runs_job [OF assms(2) ids] assms(3) by (metis option.inject)
  have "finish_job loads dump exn l g wid j (env j) fid now act db1 = (act', db')"
    using assms(2,4,5) by (simp add: daemon_turn_def)
  from finish_settles [OF run assms(6) this] show ?thesis
    unfolding settled_job_def by (simp add: next_attempt_def)
qed

definition demo_org :: org_row where
  "demo_org = \<lparr>org_id = ''o1'', org_name = ''Org'', org_created_at = 800\<rparr>"

definition demo_loads :: loads where
  "demo_loads line = (if line = ''row'' then Loaded (sample_request ''a'' (JStr ''m-4b'')) else DecodeError)"

definition demo_env :: "job \<Rightarrow> job_env" where
  "demo_env j = \<lparr>je_dir = True, je_routed = Some ''ollama'', je_pulled = Some None, je_managers = [], je_ensured = None, je_input = None,
     je_run = (\<lambda>ps. Some (map (\<lambda>p. \<lparr>cr_id = pq_id p, cr_response = Some [], cr_error = None\<rparr>) ps)), je_upload = True\<rparr>"

definition deaf_link :: link where
  "deaf_link = \<lparr>lk_job = True, lk_input = True, lk_upload = True, lk_answer = False, lk_report = True\<rparr>"

theorem turn_settles_witness:
  "\<exists>b'. get_batch_row (snd (daemon_turn sample_wall demo_loads cr_id ''e'' deaf_link demo_org ''w1'' demo_env ''f2'' 970 Idle
      demo_validated)) ''b1'' = Some b' \<and> b_status b' = Completed \<and> b_completed b' = Some 1 \<and> b_failed b' = Some 0"
proof -
  let ?p = "poll_job sample_wall (org_id demo_org) ''w1'' 970 demo_validated"
  let ?t = "daemon_turn sample_wall demo_loads cr_id ''e'' deaf_link demo_org ''w1'' demo_env ''f2'' 970 Idle demo_validated"
  have ev: "\<not> isl ?p" "fst (projr ?p) \<noteq> None" "j_job_id (the (fst (projr ?p))) = ''b1''"
    "get_batch_row demo_validated ''b1'' \<noteq> None" "lk_job deaf_link" "lk_report deaf_link"
    "map_option (\<lambda>b. (b_status b, b_completed b, b_failed b)) (get_batch_row (snd ?t) ''b1'') = Some (Completed, Some 1, Some 0)"
    by code_simp+
  then obtain j db1 where p: "?p = Inr (Some j, db1)" and j: "j_job_id j = ''b1''" by (cases ?p) auto
  obtain b where b: "get_batch_row demo_validated ''b1'' = Some b" using ev(4) by auto
  let ?s = "\<lparr>sdb = demo_validated, pend = {}\<rparr>"
  have h: "poll_job sample_wall (org_id demo_org) ''w1'' 970 (sdb ?s) = Inr (Some j, db1)"
    "get_batch_row (sdb ?s) (j_job_id j) = Some b"
    "daemon_turn sample_wall demo_loads cr_id ''e'' deaf_link demo_org ''w1'' demo_env ''f2'' 970 Idle (sdb ?s) = (fst ?t, snd ?t)"
    using p b j by simp_all
  obtain b' where "get_batch_row (snd ?t) ''b1'' = Some b'"
    using turn_settles [OF demo_validated_reachable h ev(5,6)] unfolding j by blast
  then show ?thesis using ev(7) by auto
qed

text \<open>C13: Only its own worker or that worker's silence ends a run: in a reachable state, a step after which a running
  batch no longer runs is an upload or a failure report of the worker that holds its assignment, or a sweep
  that finds this worker stale. So a run whose poll answer or whose failure report was lost goes on for as long
  as the worker keeps sending heartbeats, since no other request and no clock ends it.\<close>

theorem running_release_reasons:
  assumes "reachable wall s" "step wall s s'" "get_batch_row (sdb s) j = Some b" "b_status b = InProgress"
    "get_assignment (sdb s) j = Some a" "get_batch_row (sdb s') j = Some b'" "b_status b' \<noteq> InProgress"
  shows "(\<exists>oid content n c f fid now x. upload_results oid (a_worker_id a) j content n c f fid now (sdb s) = Inr (x, sdb s')) \<or>
    (\<exists>oid err now x. report_failure oid (a_worker_id a) j err now (sdb s) = Inr (x, sdb s')) \<or>
    (\<exists>now. sdb s' = fst (sweep_stale_workers now (sdb s)) \<and>
       (\<exists>w \<in> set (workers (sdb s)). w_id w = a_worker_id a \<and> is_stale now w))"
  using step_release [OF assms(2) reachable_life [OF assms(1)] assms(3-7)] unfolding released_by_def .

theorem running_release_reasons_witness: "released_by ''b1'' ''w1'' demo_running demo_done"
proof -
  have a: "get_assignment demo_running ''b1'' \<noteq> None" "a_worker_id (the (get_assignment demo_running ''b1'')) = ''w1''"
    by code_simp+
  then obtain a where a: "get_assignment demo_running ''b1'' = Some a" "a_worker_id a = ''w1''" by auto
  obtain b' where b': "get_batch_row demo_done ''b1'' = Some b'" "b_status b' \<noteq> InProgress" using demo_rows(3,4) by auto
  show ?thesis
    using running_release_reasons [OF demo_running_reachable demo_done_step, of "''b1''" demo_row a b'] demo_rows(1,2) a b'
    by (simp add: released_by_def)
qed

text \<open>A file used twice cannot be served twice: the content endpoint looks at the first batch over an input
  file only, so when that one has no assignment (it failed, or still waits), a worker running another
  batch over the same file is refused its input, whatever it could run: the batch is never completed, and
  a report that gets through costs it an attempt.\<close>

theorem shared_input_refused:
  assumes "get_org_worker db (org_id g) wid = Inr w" "get_batch_row db (j_job_id j) = Some b" "b_status b = InProgress"
    "map_option a_worker_id (get_assignment db (j_job_id j)) = Some wid"
    "find (\<lambda>c. b_input_file_id c = j_input_file_id j) (batches db) = Some c" "get_assignment db (b_id c) = None"
    "finish_job loads dump exn l g wid j env fid now act db = (act', db')"
  shows "\<exists>b'. get_batch_row db' (j_job_id j) = Some b' \<and> b_status b' \<noteq> Completed \<and>
    (if lk_report l then b_status b' \<in> {Validated, Failed} \<and> b_attempts b' = Some (next_attempt b) else b' = b)"
proof -
  have run: "runs_job (org_id g) wid (j_job_id j) b db" using assms(1-4) by (simp add: runs_job_def)
  have "\<not> may_read_file db (AsWorker g) f" if "f_id f = j_input_file_id j" for f
    using that assms(5,6) by (simp add: may_read_file_def file_assigned_worker_org_def)
  then have none: "download_input l g (j_input_file_id j) db = None"
    by (auto simp: download_input_def download_file_content_def dest: tbl_get_SomeD split: option.splits sum.splits)
  have no_rows: "snd (execute_job loads (job_of j) (env\<lparr>je_input := None, je_upload := True\<rparr>) act) \<noteq> Uploaded rows" for rows
    using uploaded_rows [of loads "job_of j" "env\<lparr>je_input := None, je_upload := True\<rparr>" act _ rows]
    by (cases "execute_job loads (job_of j) (env\<lparr>je_input := None, je_upload := True\<rparr>) act") auto
  obtain err where db': "db' = client_report_failure l (org_id g) wid (j_job_id j) err now db"
    using assms(7) no_rows unfolding finish_job_def none Let_def
    by (cases "execute_job loads (job_of j) (env\<lparr>je_input := None, je_upload := True\<rparr>) act") (auto split: job_end.splits)
  show ?thesis
  proof (cases "lk_report l")
    case True
    then show ?thesis using report_requeues [OF run True, of err now] db'
      by (auto simp: requeue_row_status requeue_row_attempts)
  next
    case False
    then show ?thesis using db' assms(2,3) by (simp add: client_report_failure_def)
  qed
qed

definition shared_db :: srv where
  "shared_db = (sample_db InProgress)\<lparr>batches := [(sample_batch Failed)\<lparr>b_id := ''b0''\<rparr>, sample_batch InProgress]\<rparr>"

definition shared_job :: job where
  "shared_job = \<lparr>j_job_id = ''b1'', j_input_file_id = ''f1'', j_input_path = ''/v1/files/f1/content'', j_model = Some ''m:4b''\<rparr>"

theorem shared_input_refused_witness:
  "\<exists>b'. get_batch_row (snd (finish_job demo_loads cr_id ''e'' deaf_link demo_org ''w1'' shared_job (demo_env shared_job) ''f2'' 990
      Idle shared_db)) ''b1'' = Some b' \<and> b_status b' = Validated \<and> b_attempts b' = Some 1"
proof -
  let ?f = "finish_job demo_loads cr_id ''e'' deaf_link demo_org ''w1'' shared_job (demo_env shared_job) ''f2'' 990 Idle shared_db"
  have h: "get_org_worker shared_db (org_id demo_org) ''w1'' = Inr sample_worker"
    "get_batch_row shared_db (j_job_id shared_job) = Some (sample_batch InProgress)" "b_status (sample_batch InProgress) = InProgress"
    "map_option a_worker_id (get_assignment shared_db (j_job_id shared_job)) = Some ''w1''"
    "find (\<lambda>c. b_input_file_id c = j_input_file_id shared_job) (batches shared_db) = Some ((sample_batch Failed)\<lparr>b_id := ''b0''\<rparr>)"
    "get_assignment shared_db (b_id ((sample_batch Failed)\<lparr>b_id := ''b0''\<rparr>)) = None" by code_simp+
  have ev: "lk_report deaf_link" "next_attempt (sample_batch InProgress) = 1" "j_job_id shared_job = ''b1''"
    "map_option b_status (get_batch_row (snd ?f) ''b1'') = Some Validated" by code_simp+
  show ?thesis using shared_input_refused [OF h prod.collapse [symmetric], of demo_loads cr_id "''e''" deaf_link
      "demo_env shared_job" "''f2''" 990 Idle] ev by auto
qed

text \<open>C15: Every request of an accepted file is answered once: the rows that a job's run writes for a file the
  validator accepted carry, in the file's order, exactly the custom ids of its non-blank lines, pairwise
  different and as many as the batch counts, whatever the interleaving of the prompt pool, its crashes
  and a shutdown. (Hypothesis: the executor answers a single prompt under its own id, which every
  runtime of the daemon does.)\<close>

theorem accepted_file_answered:
  assumes "validate_content wall loads now db fsize content = Inr r" "vr_valid r"
    "(pool_step res)\<^sup>*\<^sup>* (start_pool declared can running (parse_input loads j content)) st"
    "\<forall>i p x xs. res [(i, p)] = Returned (x # xs) \<longrightarrow> cr_id x = pq_id p"
  shows "\<exists>ds. map (\<lambda>l. loads (strip l)) (filter (\<lambda>l. strip l \<noteq> []) content) = map (\<lambda>d. Loaded (JObj d)) ds \<and>
    map (\<lambda>row. JStr (cr_id row)) (final_rows (parse_input loads j content) st) = map (jget ''custom_id'') ds \<and>
    distinct (map cr_id (final_rows (parse_input loads j content) st)) \<and>
    length (final_rows (parse_input loads j content) st) = vr_total r"
proof -
  let ?ps = "parse_input loads j content"
  obtain ds st' where ds: "accepted loads content \<lparr>vs_result = new_result, vs_cross = new_cross, vs_model = None\<rparr> st' ds"
    "vr_total r = vr_total (vs_result st')"
    using accepted_content [OF assms(1,2)] by blast
  then have lines: "map (\<lambda>l. loads (strip l)) (filter (\<lambda>l. strip l \<noteq> []) content) = map (\<lambda>d. Loaded (JObj d)) ds"
    and ok: "\<forall>d \<in> set ds. validate_schema d 0 = []" and dist: "distinct (map (jget ''custom_id'') ds)"
    and len: "vr_total r = length ds"
    by (auto simp: accepted_def line_ok_def new_result_def)
  have own: "answers_own_id res" using assms(4) by (auto simp: answers_own_id_def)
  have "map cr_id (final_rows ?ps st) = map pq_id ?ps" by (rule final_ids [OF assms(3) own])
  then have ids: "map (\<lambda>row. JStr (cr_id row)) (final_rows ?ps st) = map (jget ''custom_id'') ds"
    using parse_accepted [OF lines ok, of j] by (metis (no_types, lifting) list.map_comp comp_def map_eq_conv)
  then have "distinct (map (\<lambda>row. JStr (cr_id row)) (final_rows ?ps st))" using dist by simp
  then have "distinct (map cr_id (final_rows ?ps st))" by (auto simp: distinct_map inj_on_def)
  moreover have "length (final_rows ?ps st) = vr_total r" using ids len by (metis length_map)
  ultimately show ?thesis using lines ids by blast
qed

definition two_lines :: "string list" where
  "two_lines = [''a'', '' '', ''b'']"

theorem accepted_file_answered_witness:
  "\<exists>st. (pool_step echo_executor)\<^sup>*\<^sup>* (start_pool None None True (parse_input sample_loads (job_of shared_job) two_lines)) st \<and>
     po_held st = [] \<and> length (final_rows (parse_input sample_loads (job_of shared_job) two_lines) st) = 2 \<and>
     distinct (map cr_id (final_rows (parse_input sample_loads (job_of shared_job) two_lines) st))"
proof -
  let ?r = "validate_content sample_wall sample_loads 1000 sample_base (Some 10) two_lines"
  let ?st = "start_pool None None True (parse_input sample_loads (job_of shared_job) two_lines)"
  have ev: "\<not> isl ?r" "vr_valid (projr ?r)" "vr_total (projr ?r) = 2" "po_running ?st" "po_queue ?st \<noteq> []" "po_held ?st = []"
    by code_simp+
  then obtain r u q where r: "?r = Inr r" "vr_valid r" "vr_total r = 2" and u: "po_queue ?st = u # q"
    by (cases ?r; cases "po_queue ?st") auto
  let ?st1 = "?st\<lparr>po_queue := q, po_held := u # po_held ?st\<rparr>"
  let ?st2 = "fold record_row (run_unit (echo_executor u) u) (?st1\<lparr>po_held := remove1 u (po_held ?st1)\<rparr>)"
  have "pool_step echo_executor ?st ?st1" by (rule pool_step.Take [OF ev(4) u])
  moreover have "pool_step echo_executor ?st1 ?st2" by (rule pool_step.Finish) simp
  ultimately have run: "(pool_step echo_executor)\<^sup>*\<^sup>* ?st ?st2" by (meson converse_rtranclp_into_rtranclp r_into_rtranclp)
  have own: "\<forall>i p x xs. echo_executor [(i, p)] = Returned (x # xs) \<longrightarrow> cr_id x = pq_id p" by (auto simp: echo_executor_def)
  have held: "po_held ?st2 = []" using ev(6) by simp
  have rows: "distinct (map cr_id (final_rows (parse_input sample_loads (job_of shared_job) two_lines) ?st2))"
    "length (final_rows (parse_input sample_loads (job_of shared_job) two_lines) ?st2) = vr_total r"
    using accepted_file_answered [OF r(1,2) run own] by blast+
  show ?thesis by (rule exI [of _ ?st2], intro conjI run held rows(1)) (simp only: rows(2) r(3))
qed

end
