(* ===== verification/Wire.thy ===== *)
theory Wire
  imports Daemon_Control "HOL-Library.Monad_Syntax"
begin

text \<open>
  What travels between a daemon and the control plane: the requests that \<open>daemon/daemon/client.py\<close> builds
  and what the schemas of \<open>backend/schemas.py\<close> and \<open>backend/routers/workers.py\<close> read from them. The
  daemon's side writes a path and a JSON or form body; the control plane's side routes the path and
  decodes the body field by field, with the schema's defaults for absent fields.

  Pydantic's conversions of a value that has not the type of its field (a numeral in a string, an integer
  for a float) are the parameter \<open>lax\<close>; of them only what the documentation states is used (\<open>lax_ok\<close>).
  \<open>json.dumps\<close> and \<open>json.loads\<close> are taken as the identity on JSON values.
\<close>

section \<open>Decoding a field\<close>

record lax =
  lx_int :: "json \<Rightarrow> int option"
  lx_float :: "json \<Rightarrow> rat option"
  lx_bool :: "json \<Rightarrow> bool option"

text \<open>A value of the field's type is kept, and a form field's decimal numeral is read as its number.\<close>

definition lax_ok :: "lax \<Rightarrow> bool" where
  "lax_ok lx \<longleftrightarrow> (\<forall>n. lx_int lx (JInt n) = Some n) \<and> (\<forall>q. lx_float lx (JFloat q) = Some q) \<and>
     (\<forall>b. lx_bool lx (JBool b) = Some b) \<and> (\<forall>n. lx_int lx (JStr (str_of_nat n)) = Some (int n))"

definition field :: "(json \<Rightarrow> 'a option) \<Rightarrow> string \<Rightarrow> jdict \<Rightarrow> 'a option" where
  "field dec k d = Option.bind (map_of d k) dec"

definition field_or :: "(json \<Rightarrow> 'a option) \<Rightarrow> 'a \<Rightarrow> string \<Rightarrow> jdict \<Rightarrow> 'a option" where
  "field_or dec dflt k d = (case map_of d k of None \<Rightarrow> Some dflt | Some v \<Rightarrow> dec v)"

definition nullable :: "(json \<Rightarrow> 'a option) \<Rightarrow> json \<Rightarrow> 'a option option" where
  "nullable dec v = (if v = JNull then Some None else map_option Some (dec v))"

definition list_of :: "(json \<Rightarrow> 'a option) \<Rightarrow> json \<Rightarrow> 'a list option" where
  "list_of dec v = (case v of JArr xs \<Rightarrow> those (map dec xs) | _ \<Rightarrow> None)"

definition model_of :: "(jdict \<Rightarrow> 'a option) \<Rightarrow> json \<Rightarrow> 'a option" where
  "model_of dec v = Option.bind (jdict_of v) dec"

definition flags_of :: "lax \<Rightarrow> json \<Rightarrow> (string \<times> bool) list option" where
  "flags_of lx v = Option.bind (jdict_of v) (\<lambda>d. those (map (\<lambda>(k, x). map_option (Pair k) (lx_bool lx x)) d))"

definition literal :: "(string \<times> 'a) list \<Rightarrow> json \<Rightarrow> 'a option" where
  "literal choices v = Option.bind (jstr v) (map_of choices)"

section \<open>The control plane's schemas\<close>

text \<open>\<open>InventoryFile\<close> and \<open>InventoryItem\<close>.\<close>

definition inventory_file_of :: "lax \<Rightarrow> jdict \<Rightarrow> artifact_ref option" where
  "inventory_file_of lx d = do {
     f \<leftarrow> field jstr ''file'' d;
     sha \<leftarrow> field_or (nullable jstr) None ''sha256'' d;
     size \<leftarrow> field_or (nullable (lx_int lx)) None ''size_bytes'' d;
     Some \<lparr>af_file = f, af_sha256 = sha, af_size = size\<rparr> }"

definition inventory_item_of :: "lax \<Rightarrow> jdict \<Rightarrow> inventory_item option" where
  "inventory_item_of lx d = do {
     name \<leftarrow> field jstr ''local_name'' d;
     sha \<leftarrow> field_or (nullable jstr) None ''sha256'' d;
     size \<leftarrow> field_or (nullable (lx_int lx)) None ''size_bytes'' d;
     loaded \<leftarrow> field_or (lx_bool lx) False ''loaded'' d;
     rt \<leftarrow> field_or (nullable jstr) None ''runtime'' d;
     details \<leftarrow> field_or (nullable jdict_of) None ''details'' d;
     fs \<leftarrow> field_or (nullable (list_of (model_of (inventory_file_of lx)))) None ''files'' d;
     Some \<lparr>it_name = name, it_sha256 = sha, it_size = size, it_loaded = loaded, it_runtime = rt,
       it_details = details, it_files = fs\<rparr> }"

definition activities :: "(string \<times> activity) list" where
  "activities = [(''idle'', Idle), (''busy'', Busy), (''downloading_model'', DownloadingModel)]"

definition liveness_values :: "(string \<times> string) list" where
  "liveness_values = [(''ready'', ''ready''), (''unavailable'', ''unavailable'')]"

definition liveness_of :: "jdict \<Rightarrow> (string \<times> string) option" where
  "liveness_of d = do {
     t \<leftarrow> field jstr ''type'' d;
     s \<leftarrow> field_or (literal liveness_values) ''ready'' ''status'' d;
     Some (t, s) }"

text \<open>\<open>WorkerHeartbeatRequest\<close>: the fields that the handler does not read are checked all the same.\<close>

definition heartbeat_of :: "lax \<Rightarrow> jdict \<Rightarrow> heartbeat_request option" where
  "heartbeat_of lx d = do {
     act \<leftarrow> field_or (literal activities) Idle ''activity'' d;
     _ \<leftarrow> field_or (nullable jstr) None ''current_job_id'' d;
     _ \<leftarrow> field_or (nullable jdict_of) None ''progress'' d;
     _ \<leftarrow> field_or (lx_float lx) 0 ''gpu_utilization'' d;
     _ \<leftarrow> field_or (lx_float lx) 0 ''gpu_memory_used_gb'' d;
     vram \<leftarrow> field_or (lx_float lx) 0 ''vram_total_gb'' d;
     avail \<leftarrow> field_or (nullable (lx_float lx)) None ''vram_available_gb'' d;
     ram \<leftarrow> field_or (nullable (lx_float lx)) None ''ram_available_gb'' d;
     loaded \<leftarrow> field_or (list_of jstr) [] ''loaded_models'' d;
     _ \<leftarrow> field_or jdict_of [] ''loaded_model_digests'' d;
     inv \<leftarrow> field_or (list_of (model_of (inventory_item_of lx))) [] ''inventory'' d;
     rts \<leftarrow> field_or (list_of (model_of liveness_of)) [] ''runtimes'' d;
     _ \<leftarrow> field_or (lx_int lx) 0 ''uptime_seconds'' d;
     Some \<lparr>hb_activity = act, hb_vram_total_gb = vram, hb_vram_available_gb = avail, hb_ram_available_gb = ram,
       hb_loaded_models = loaded, hb_inventory = inv, hb_runtimes = rts\<rparr> }"

definition gpu_info_of :: "lax \<Rightarrow> jdict \<Rightarrow> gpu_row option" where
  "gpu_info_of lx d = do {
     i \<leftarrow> field_or (lx_int lx) 0 ''index'' d;
     vendor \<leftarrow> field_or jstr ''nvidia'' ''vendor'' d;
     name \<leftarrow> field jstr ''name'' d;
     vram \<leftarrow> field (lx_float lx) ''vram_gb'' d;
     driver \<leftarrow> field_or (nullable jstr) None ''driver'' d;
     cuda \<leftarrow> field_or (nullable jstr) None ''cuda'' d;
     rocm \<leftarrow> field_or (nullable jstr) None ''rocm'' d;
     Some \<lparr>g_index = i, g_vendor = Some vendor, g_name = Some name, g_vram_gb = Some vram, g_driver = driver,
       g_cuda = cuda, g_rocm = rocm\<rparr> }"

definition runtime_info_of :: "lax \<Rightarrow> jdict \<Rightarrow> runtime_info option" where
  "runtime_info_of lx d = do {
     t \<leftarrow> field jstr ''type'' d;
     e \<leftarrow> field jstr ''endpoint'' d;
     s \<leftarrow> field_or jstr ''ready'' ''status'' d;
     ms \<leftarrow> field_or (list_of jstr) [] ''models'' d;
     _ \<leftarrow> field_or jdict_of [] ''model_digests'' d;
     inv \<leftarrow> field_or (list_of (model_of (inventory_item_of lx))) [] ''inventory'' d;
     caps \<leftarrow> field_or (nullable (flags_of lx)) None ''capabilities'' d;
     v \<leftarrow> field_or (nullable jstr) None ''version'' d;
     Some \<lparr>ri_type = t, ri_endpoint = e, ri_status = s, ri_models = ms, ri_inventory = inv,
       ri_capabilities = caps, ri_version = v\<rparr> }"

text \<open>\<open>WorkerRegisterRequest\<close>; \<open>req.cpu.get('cores')\<close> and \<open>req.ram.get('total_gb')\<close> of the handler are read here.
  A value of another type, which no daemon sends, counts as absent.\<close>

definition register_of :: "lax \<Rightarrow> jdict \<Rightarrow> register_request option" where
  "register_of lx d = do {
     host \<leftarrow> field jstr ''hostname'' d;
     os \<leftarrow> field_or (nullable jstr) None ''os'' d;
     cpu \<leftarrow> field_or (nullable jdict_of) None ''cpu'' d;
     ram \<leftarrow> field_or (nullable jdict_of) None ''ram'' d;
     gpus \<leftarrow> field_or (list_of (model_of (gpu_info_of lx))) [] ''gpus'' d;
     rts \<leftarrow> field_or (list_of (model_of (runtime_info_of lx))) [] ''runtimes'' d;
     Some \<lparr>rr_hostname = host, rr_os = os,
       rr_cpu_cores = Option.bind cpu (\<lambda>c. case jget ''cores'' c of JInt n \<Rightarrow> Some n | _ \<Rightarrow> None),
       rr_ram_gb = Option.bind ram (\<lambda>r. jnum (jget ''total_gb'' r)),
       rr_gpus = gpus, rr_runtimes = rts\<rparr> }"

section \<open>Requests and routes\<close>

text \<open>What a handler is called with. Upload carries the file as its lines.\<close>

datatype request =
    Register register_request
  | Heartbeat string heartbeat_request
  | Poll string
  | Progress string string int int int
  | ModelProgress string string string int int
  | Failure string string "string option"
  | Upload string string "string list" "int option" "int option"
  | Content string

datatype body = JsonBody jdict | FormBody "(string \<times> string) list" "string list" | NoBody

datatype http_method = Get | Post

record message =
  ms_method :: http_method
  ms_path :: string
  ms_body :: body

definition progress_of :: "lax \<Rightarrow> jdict \<Rightarrow> request option" where
  "progress_of lx d = do {
     j \<leftarrow> field jstr ''job_id'' d; w \<leftarrow> field jstr ''worker_id'' d;
     c \<leftarrow> field_or (lx_int lx) 0 ''completed'' d; f \<leftarrow> field_or (lx_int lx) 0 ''failed'' d;
     t \<leftarrow> field_or (lx_int lx) 0 ''total'' d;
     Some (Progress j w c f t) }"

definition model_progress_of :: "lax \<Rightarrow> jdict \<Rightarrow> request option" where
  "model_progress_of lx d = do {
     w \<leftarrow> field jstr ''worker_id'' d; m \<leftarrow> field jstr ''model_name'' d;
     s \<leftarrow> field_or jstr ''downloading'' ''status'' d;
     c \<leftarrow> field_or (lx_int lx) 0 ''completed'' d; t \<leftarrow> field_or (lx_int lx) 0 ''total'' d;
     Some (ModelProgress w m s c t) }"

definition failure_of :: "jdict \<Rightarrow> request option" where
  "failure_of d = do {
     j \<leftarrow> field jstr ''job_id'' d; w \<leftarrow> field jstr ''worker_id'' d;
     e \<leftarrow> field_or (nullable jstr) None ''error'' d;
     Some (Failure j w e) }"

definition form_int :: "lax \<Rightarrow> string \<Rightarrow> (string \<times> string) list \<Rightarrow> int option option" where
  "form_int lx k fm = (case map_of fm k of None \<Rightarrow> Some None | Some s \<Rightarrow> map_option Some (lx_int lx (JStr s)))"

definition upload_of :: "lax \<Rightarrow> (string \<times> string) list \<Rightarrow> string list \<Rightarrow> request option" where
  "upload_of lx fm content = do {
     j \<leftarrow> map_of fm ''job_id''; w \<leftarrow> map_of fm ''worker_id'';
     c \<leftarrow> form_int lx ''completed'' fm; f \<leftarrow> form_int lx ''failed'' fm;
     Some (Upload j w content c f) }"

text \<open>The routers under \<open>/workers\<close> and, for the download of an input file, \<open>/v1/files\<close>: None is a 404, a 405, or a
  422 from the schema.\<close>

definition json_route :: "lax \<Rightarrow> string \<Rightarrow> jdict \<Rightarrow> request option" where
  "json_route lx name d =
     (if name = ''register'' then map_option Register (register_of lx d)
      else if name = ''poll'' then map_option Poll (field jstr ''worker_id'' d)
      else if name = ''progress'' then progress_of lx d
      else if name = ''model-progress'' then model_progress_of lx d
      else if name = ''report-failure'' then failure_of d
      else None)"

definition route :: "lax \<Rightarrow> message \<Rightarrow> request option" where
  "route lx m = (case (ms_method m, split_on (CHR ''/'') (ms_path m), ms_body m) of
       (Post, [r, ws, name], JsonBody d) \<Rightarrow> if r = [] \<and> ws = ''workers'' then json_route lx name d else None
     | (Post, [r, ws, name], FormBody fm content) \<Rightarrow>
         if r = [] \<and> ws = ''workers'' \<and> name = ''upload-results'' then upload_of lx fm content else None
     | (Post, [r, ws, wid, op], JsonBody d) \<Rightarrow>
         if r = [] \<and> ws = ''workers'' \<and> op = ''heartbeat'' \<and> wid \<noteq> [] then map_option (Heartbeat wid) (heartbeat_of lx d) else None
     | (Get, [r, v, fs, fid, op], NoBody) \<Rightarrow>
         if r = [] \<and> v = ''v1'' \<and> fs = ''files'' \<and> op = ''content'' \<and> fid \<noteq> [] then Some (Content fid) else None
     | _ \<Rightarrow> None)"

section \<open>The daemon's requests\<close>

definition or_null :: "('a \<Rightarrow> json) \<Rightarrow> 'a option \<Rightarrow> json" where
  "or_null enc x = (case x of None \<Rightarrow> JNull | Some v \<Rightarrow> enc v)"

definition file_json :: "artifact_ref \<Rightarrow> json" where
  "file_json f = JObj [(''file'', JStr (af_file f)), (''sha256'', or_null JStr (af_sha256 f)),
     (''size_bytes'', or_null JInt (af_size f))]"

text \<open>An item of an executor's inventory. A beat stamps every item with \<open>loaded\<close>; at registration no executor has
  written that key. Ollama writes \<open>details\<close> always, the others when they have some, and \<open>files\<close> is there when vLLM
  knows them.\<close>

definition item_json :: "bool \<Rightarrow> inventory_item \<Rightarrow> json" where
  "item_json stamped it = JObj ([(''local_name'', JStr (it_name it)), (''sha256'', or_null JStr (it_sha256 it)),
     (''size_bytes'', or_null JInt (it_size it)), (''runtime'', or_null JStr (it_runtime it))] @
     (if stamped \<or> it_loaded it then [(''loaded'', JBool (it_loaded it))] else []) @
     (if it_details it = None \<and> it_runtime it \<noteq> Some ''ollama'' then [] else [(''details'', or_null JObj (it_details it))]) @
     (case it_files it of None \<Rightarrow> [] | Some fs \<Rightarrow> [(''files'', JArr (map file_json fs))]))"

text \<open>What the daemon knows when it registers: \<open>HardwareInfo\<close>, one \<open>WorkerRuntimeBundle\<close> a runtime and
  \<open>WorkerInfo\<close>.\<close>

record hardware_info = hardware +
  hi_os :: string
  hi_hostname :: string
  hi_cpu_cores :: int

record worker_bundle = runtime_info +
  bu_digests :: jdict

record worker_info =
  wi_worker_id :: string
  wi_hardware :: "hardware_info option"
  wi_runtimes :: "worker_bundle list"

definition gpu_json :: "gpu \<Rightarrow> json" where
  "gpu_json g = JObj [(''index'', JInt (gp_index g)), (''vendor'', JStr (gp_vendor g)), (''name'', JStr (gp_name g)),
     (''vram_gb'', JFloat (gp_vram_gb g)), (''driver'', or_null JStr (blank_to_none (gp_driver g))),
     (''cuda'', or_null JStr (blank_to_none (gp_cuda g))), (''rocm'', or_null JStr (blank_to_none (gp_rocm g)))]"

definition bundle_json :: "worker_bundle \<Rightarrow> json" where
  "bundle_json b = JObj [(''type'', JStr (ri_type b)), (''status'', JStr (ri_status b)), (''endpoint'', JStr ''localhost''),
     (''models'', JArr (map JStr (ri_models b))), (''model_digests'', JObj (bu_digests b)),
     (''inventory'', JArr (map (item_json False) (ri_inventory b))),
     (''capabilities'', or_null (\<lambda>c. JObj (map (\<lambda>(k, x). (k, JBool x)) c)) (ri_capabilities b)),
     (''version'', or_null JStr (ri_version b))]"

definition register_payload :: "worker_info \<Rightarrow> jdict" where
  "register_payload info = (let hw = wi_hardware info in
     [(''hostname'', JStr (case hw of Some h \<Rightarrow> hi_hostname h | None \<Rightarrow> wi_worker_id info)),
      (''os'', JStr (case hw of Some h \<Rightarrow> hi_os h | None \<Rightarrow> ''unknown'')),
      (''cpu'', or_null (\<lambda>h. JObj [(''cores'', JInt (hi_cpu_cores h))]) hw),
      (''ram'', or_null (\<lambda>h. JObj [(''total_gb'', JFloat (hw_ram_gb h))]) hw),
      (''gpus'', JArr (map gpu_json (case hw of Some h \<Rightarrow> hw_gpus h | None \<Rightarrow> []))),
      (''runtimes'', JArr (map bundle_json (wi_runtimes info)))])"

text \<open>The heartbeat's payload: beside what the control plane reads, the fields it only checks or ignores.\<close>

record beat_payload = heartbeat_request +
  bp_worker_id :: string
  bp_current_job :: "string option"
  bp_progress :: "jdict option"
  bp_utilization :: rat
  bp_memory_used :: rat
  bp_digests :: jdict
  bp_uptime :: int
  bp_timestamp :: string

definition activity_text :: "activity \<Rightarrow> string" where
  "activity_text a = (case a of Idle \<Rightarrow> ''idle'' | Busy \<Rightarrow> ''busy'' | DownloadingModel \<Rightarrow> ''downloading_model'')"

definition beat_json :: "beat_payload \<Rightarrow> jdict" where
  "beat_json p = [(''worker_id'', JStr (bp_worker_id p)), (''activity'', JStr (activity_text (hb_activity p))),
     (''current_job_id'', or_null JStr (bp_current_job p)), (''progress'', or_null JObj (bp_progress p)),
     (''gpu_utilization'', JFloat (bp_utilization p)), (''gpu_memory_used_gb'', JFloat (bp_memory_used p)),
     (''vram_total_gb'', JFloat (hb_vram_total_gb p)), (''vram_available_gb'', or_null JFloat (hb_vram_available_gb p)),
     (''ram_available_gb'', or_null JFloat (hb_ram_available_gb p)), (''loaded_models'', JArr (map JStr (hb_loaded_models p))),
     (''loaded_model_digests'', JObj (bp_digests p)), (''inventory'', JArr (map (item_json True) (hb_inventory p))),
     (''runtimes'', JArr (map (\<lambda>(t, s). JObj [(''type'', JStr t), (''status'', JStr s)]) (hb_runtimes p))),
     (''uptime_seconds'', JInt (bp_uptime p)), (''timestamp'', JStr (bp_timestamp p))]"

text \<open>A call of the client. \<open>wid\<close> is the id the client holds, but for the model downloads, which carry their
  manager's, and a download follows the path \<open>input_path\<close> that the poll answered.\<close>

definition input_path :: "string \<Rightarrow> string" where
  "input_path file_id = ''/v1/files/'' @ file_id @ ''/content''"

datatype call =
    CallRegister worker_info
  | CallBeat string beat_payload
  | CallPoll string
  | CallProgress string string nat nat nat
  | CallModelProgress string string string int int
  | CallFailure string string string
  | CallUpload string string "string list" nat nat
  | CallDownload string

fun sends :: "call \<Rightarrow> message" where
  "sends (CallRegister info) = \<lparr>ms_method = Post, ms_path = ''/workers/register'', ms_body = JsonBody (register_payload info)\<rparr>"
| "sends (CallBeat wid p) = \<lparr>ms_method = Post, ms_path = ''/workers/'' @ wid @ ''/heartbeat'', ms_body = JsonBody (beat_json p)\<rparr>"
| "sends (CallPoll wid) = \<lparr>ms_method = Post, ms_path = ''/workers/poll'', ms_body = JsonBody [(''worker_id'', JStr wid)]\<rparr>"
| "sends (CallProgress wid j c f t) = \<lparr>ms_method = Post, ms_path = ''/workers/progress'',
     ms_body = JsonBody [(''job_id'', JStr j), (''worker_id'', JStr wid), (''completed'', JInt (int c)),
       (''failed'', JInt (int f)), (''total'', JInt (int t))]\<rparr>"
| "sends (CallModelProgress wid m s c t) = \<lparr>ms_method = Post, ms_path = ''/workers/model-progress'',
     ms_body = JsonBody [(''worker_id'', JStr wid), (''model_name'', JStr m), (''status'', JStr s),
       (''completed'', JInt c), (''total'', JInt t)]\<rparr>"
| "sends (CallFailure wid j err) = \<lparr>ms_method = Post, ms_path = ''/workers/report-failure'',
     ms_body = (case failure_report j wid err of (j, w, e) \<Rightarrow>
       JsonBody [(''job_id'', JStr j), (''worker_id'', JStr w), (''error'', JStr e)])\<rparr>"
| "sends (CallUpload wid j content c f) = \<lparr>ms_method = Post, ms_path = ''/workers/upload-results'',
     ms_body = FormBody [(''job_id'', j), (''worker_id'', wid), (''completed'', str_of_nat c), (''failed'', str_of_nat f)]
       content\<rparr>"
| "sends (CallDownload fid) = \<lparr>ms_method = Get, ms_path = input_path fid, ms_body = NoBody\<rparr>"

text \<open>\<open>RegistrationManager.register\<close> builds the registration from the hardware, with the declared memory in place,
  and the bundles.\<close>

definition register_info :: "py_round \<Rightarrow> rat \<Rightarrow> string \<Rightarrow> string \<Rightarrow> hardware_info \<Rightarrow> worker_bundle list \<Rightarrow> worker_info" where
  "register_info rnd declared gpu_name wid hw bundles = \<lparr>wi_worker_id = wid,
     wi_hardware = Some (hw\<lparr>hw_gpus := apply_declared_vram rnd declared gpu_name (hw_gpus hw)\<rparr>), wi_runtimes = bundles\<rparr>"

section \<open>What a request means\<close>

definition registration_of :: "worker_info \<Rightarrow> register_request" where
  "registration_of info = (let hw = wi_hardware info in
     \<lparr>rr_hostname = (case hw of Some h \<Rightarrow> hi_hostname h | None \<Rightarrow> wi_worker_id info),
      rr_os = Some (case hw of Some h \<Rightarrow> hi_os h | None \<Rightarrow> ''unknown''),
      rr_cpu_cores = map_option hi_cpu_cores hw, rr_ram_gb = map_option hw_ram_gb hw,
      rr_gpus = (case hw of Some h \<Rightarrow> map gpu_payload (hw_gpus h) | None \<Rightarrow> []),
      rr_runtimes = map (\<lambda>b. (runtime_info.truncate b)\<lparr>ri_endpoint := ''localhost''\<rparr>) (wi_runtimes info)\<rparr>)"

fun meant :: "call \<Rightarrow> request" where
  "meant (CallRegister info) = Register (registration_of info)"
| "meant (CallBeat wid p) = Heartbeat wid (heartbeat_request.truncate p)"
| "meant (CallPoll wid) = Poll wid"
| "meant (CallProgress wid j c f t) = Progress j wid (int c) (int f) (int t)"
| "meant (CallModelProgress wid m s c t) = ModelProgress wid m s c t"
| "meant (CallFailure wid j err) = Failure j wid (Some (take 2000 err))"
| "meant (CallUpload wid j content c f) = Upload j wid content (Some (int c)) (Some (int f))"
| "meant (CallDownload fid) = Content fid"

text \<open>An id of the control plane is no path of several parts, and liveness is what \<open>_get_runtime_statuses\<close> reports.\<close>

fun call_ok :: "call \<Rightarrow> bool" where
  "call_ok (CallBeat wid p) \<longleftrightarrow> wid \<noteq> [] \<and> CHR ''/'' \<notin> set wid \<and> list_all (\<lambda>(t, s). s = ''ready'' \<or> s = ''unavailable'') (hb_runtimes p)"
| "call_ok (CallDownload fid) \<longleftrightarrow> fid \<noteq> [] \<and> CHR ''/'' \<notin> set fid"
| "call_ok _ \<longleftrightarrow> True"

section \<open>Lemmas\<close>

named_theorems wire_simps \<open>decoders on the values the encoders write\<close>

lemma those_map: "(\<And>x. x \<in> set xs \<Longrightarrow> dec (enc x) = Some (h x)) \<Longrightarrow> those (map dec (map enc xs)) = Some (map h xs)"
  by (induction xs) simp_all

lemma list_of_map [wire_simps]: "(\<And>x. x \<in> set xs \<Longrightarrow> dec (enc x) = Some (h x)) \<Longrightarrow> list_of dec (JArr (map enc xs)) = Some (map h xs)"
  unfolding list_of_def by (simp only: json.case those_map)

lemma list_of_strings [wire_simps]: "list_of jstr (JArr (map JStr xs)) = Some xs"
  using list_of_map [of xs jstr JStr "\<lambda>x. x"] by simp

lemma nullable_or_null [wire_simps]:
  "(\<And>v. enc v \<noteq> JNull) \<Longrightarrow> (\<And>v. x = Some v \<Longrightarrow> dec (enc v) = Some v) \<Longrightarrow> nullable dec (or_null enc x) = Some x"
  by (cases x) (simp_all add: nullable_def or_null_def)

lemma field_simps [wire_simps]:
  "field dec k ((k', v) # d) = (if k = k' then dec v else field dec k d)"
  "field_or dec dflt k ((k', v) # d) = (if k = k' then dec v else field_or dec dflt k d)"
  by (simp_all add: field_def field_or_def)

lemma flags_of_map [wire_simps]:
  assumes "lax_ok lx"
  shows "flags_of lx (JObj (map (\<lambda>(k, x). (k, JBool x)) c)) = Some c"
proof -
  have "those (map (\<lambda>(k, x). map_option (Pair k) (lx_bool lx x)) (map (\<lambda>(k, x). (k, JBool x)) c)) = Some (map (\<lambda>x. x) c)"
    by (rule those_map) (use assms in \<open>auto simp: lax_ok_def\<close>)
  then show ?thesis by (simp add: flags_of_def)
qed

lemma laxD:
  assumes "lax_ok lx"
  shows "lx_int lx (JInt n) = Some n" "lx_float lx (JFloat q) = Some q" "lx_bool lx (JBool b) = Some b"
    "lx_int lx (JStr (str_of_nat m)) = Some (int m)"
  using assms by (simp_all add: lax_ok_def)

lemma file_wire [wire_simps]: "lax_ok lx \<Longrightarrow> model_of (inventory_file_of lx) (file_json f) = Some f"
  by (simp add: model_of_def file_json_def inventory_file_of_def wire_simps laxD)

lemma item_wire [wire_simps]:
  assumes "lax_ok lx"
  shows "model_of (inventory_item_of lx) (item_json stamped it) = Some it"
proof -
  have "list_of (model_of (inventory_file_of lx)) (JArr (map file_json fs)) = Some (map (\<lambda>x. x) fs)" for fs
    by (rule list_of_map) (rule file_wire [OF assms])
  then have fs: "list_of (model_of (inventory_file_of lx)) (JArr (map file_json fs)) = Some fs" for fs by simp
  obtain d where d: "item_json stamped it = JObj d" by (simp add: item_json_def)
  note keys = d [unfolded item_json_def json.inject, symmetric]
  have "field jstr ''local_name'' d = Some (it_name it)" "field_or (nullable jstr) None ''sha256'' d = Some (it_sha256 it)"
    "field_or (nullable (lx_int lx)) None ''size_bytes'' d = Some (it_size it)"
    "field_or (nullable jstr) None ''runtime'' d = Some (it_runtime it)"
    unfolding keys by (simp_all add: wire_simps laxD [OF assms])
  moreover have "field_or (lx_bool lx) False ''loaded'' d = Some (it_loaded it)"
    unfolding keys by (auto simp: field_or_def laxD [OF assms] split: option.split)
  moreover have "field_or (nullable jdict_of) None ''details'' d = Some (it_details it)"
    unfolding keys by (cases "it_details it") (auto simp: field_or_def nullable_def or_null_def split: option.split)
  moreover have "field_or (nullable (list_of (model_of (inventory_file_of lx)))) None ''files'' d = Some (it_files it)"
    unfolding keys by (cases "it_files it") (auto simp: field_or_def nullable_def fs)
  ultimately show ?thesis by (simp add: d model_of_def inventory_item_of_def)
qed

lemma items_wire [wire_simps]:
  "lax_ok lx \<Longrightarrow> list_of (model_of (inventory_item_of lx)) (JArr (map (item_json stamped) items)) = Some items"
  using list_of_map [of items _ "item_json stamped" "\<lambda>x. x"] item_wire by simp

lemma gpu_wire [wire_simps]: "lax_ok lx \<Longrightarrow> model_of (gpu_info_of lx) (gpu_json g) = Some (gpu_payload g)"
  by (simp add: model_of_def gpu_json_def gpu_info_of_def gpu_payload_def wire_simps laxD)

lemma bundle_wire [wire_simps]:
  assumes "lax_ok lx"
  shows "model_of (runtime_info_of lx) (bundle_json b) = Some ((runtime_info.truncate b)\<lparr>ri_endpoint := ''localhost''\<rparr>)"
proof -
  have "nullable (flags_of lx) (or_null (\<lambda>c. JObj (map (\<lambda>(k, x). (k, JBool x)) c)) (ri_capabilities b)) = Some (ri_capabilities b)"
    using flags_of_map [OF assms] by (intro nullable_or_null) simp_all
  then show ?thesis using assms
    by (simp add: model_of_def bundle_json_def runtime_info_of_def runtime_info.truncate_def wire_simps laxD)
qed

lemma register_wire:
  assumes "lax_ok lx"
  shows "register_of lx (register_payload info) = Some (registration_of info)"
proof -
  have g: "list_of (model_of (gpu_info_of lx)) (JArr (map gpu_json gs)) = Some (map gpu_payload gs)" for gs
    by (rule list_of_map) (rule gpu_wire [OF assms])
  have b: "list_of (model_of (runtime_info_of lx)) (JArr (map bundle_json bs)) =
      Some (map (\<lambda>b. (runtime_info.truncate b)\<lparr>ri_endpoint := ''localhost''\<rparr>) bs)" for bs
    by (rule list_of_map) (rule bundle_wire [OF assms])
  show ?thesis
    using g [of "[]"]
    by (cases "wi_hardware info")
      (simp_all add: register_of_def register_payload_def registration_of_def wire_simps g b nullable_def or_null_def jget_def)
qed

lemma activity_wire [wire_simps]: "literal activities (JStr (activity_text a)) = Some a"
  by (cases a) (simp_all add: literal_def activities_def activity_text_def)

lemma liveness_wire:
  "list_all (\<lambda>(t, s). s = ''ready'' \<or> s = ''unavailable'') rts \<Longrightarrow>
   list_of (model_of liveness_of) (JArr (map (\<lambda>(t, s). JObj [(''type'', JStr t), (''status'', JStr s)]) rts)) = Some rts"
  by (subst list_of_map [where h = "\<lambda>x. x"])
    (auto simp: model_of_def liveness_of_def field_simps literal_def liveness_values_def list_all_iff)

lemma heartbeat_wire:
  assumes "lax_ok lx" "list_all (\<lambda>(t, s). s = ''ready'' \<or> s = ''unavailable'') (hb_runtimes p)"
  shows "heartbeat_of lx (beat_json p) = Some (heartbeat_request.truncate p)"
  using assms(1) by (simp add: heartbeat_of_def beat_json_def heartbeat_request.truncate_def wire_simps laxD liveness_wire [OF assms(2)])

text \<open>So what the control plane reads of a registration is \<open>registration_payload\<close>.\<close>

lemma registration_of_register_info:
  "list_all (\<lambda>b. ri_endpoint b = ''localhost'') bundles \<Longrightarrow>
   registration_of (register_info rnd declared gname wid hw bundles) =
     registration_payload rnd declared gname (hi_hostname hw) (hi_os hw) (hi_cpu_cores hw) (hardware.truncate hw)
       (map runtime_info.truncate bundles)"
  by (auto simp: registration_of_def register_info_def registration_payload_def hardware.truncate_def
      runtime_info.truncate_def list_all_iff)

text \<open>Every request is routed to its handler and read as it was meant.\<close>

lemma route_sends:
  assumes "lax_ok lx" "call_ok c"
  shows "route lx (sends c) = Some (meant c)"
proof (cases c)
  case (CallRegister info)
  then show ?thesis by (simp add: route_def json_route_def register_wire [OF assms(1)])
next
  case (CallBeat wid p)
  have "split_on (CHR ''/'') (''/workers/'' @ wid @ ''/heartbeat'') = [[], ''workers'', wid, ''heartbeat'']"
    using assms(2) CallBeat split_on_append [of "CHR ''/''" wid "''heartbeat''"] by simp
  then show ?thesis using CallBeat assms(2) by (simp add: route_def heartbeat_wire [OF assms(1)] del: split_on.simps)
next
  case (CallDownload fid)
  have "split_on (CHR ''/'') (''/v1/files/'' @ fid @ ''/content'') = [[], ''v1'', ''files'', fid, ''content'']"
    using assms(2) CallDownload split_on_append [of "CHR ''/''" fid "''content''"] by simp
  then show ?thesis using CallDownload assms(2) by (simp add: route_def input_path_def del: split_on.simps)
next
  case (CallUpload wid j content c f)
  then show ?thesis using assms(1) by (simp add: route_def upload_of_def form_int_def laxD)
qed (use assms(1) in \<open>simp_all add: route_def json_route_def wire_simps progress_of_def model_progress_of_def
    failure_of_def failure_report_def nullable_def laxD\<close>)

text \<open>Numerals are read, all else is kept or refused.\<close>

definition strict_lax :: lax where
  "strict_lax = \<lparr>lx_int = (\<lambda>v. case v of JInt n \<Rightarrow> Some n | JStr s \<Rightarrow> py_int s | _ \<Rightarrow> None), lx_float = jnum,
     lx_bool = (\<lambda>v. case v of JBool b \<Rightarrow> Some b | _ \<Rightarrow> None)\<rparr>"

lemma digit_code: "d < 10 \<Longrightarrow> (of_char (digit_char d) :: nat) = 48 + d"
  by (simp add: digit_char_def)

lemma str_of_nat_digits: "c \<in> set (str_of_nat n) \<Longrightarrow> 48 \<le> (of_char c :: nat) \<and> (of_char c :: nat) \<le> 57"
proof (induction n rule: str_of_nat.induct)
  case (1 n)
  then show ?case using digit_code [of n] digit_code [of "n mod 10"]
    by (cases "n < 10") (auto simp: str_of_nat.simps [of n])
qed

lemma digits_value_str_of_nat:
  "digits_value acc ok (str_of_nat n @ cs) = digits_value (acc * 10 ^ length (str_of_nat n) + n) True cs"
proof (induction n arbitrary: acc ok cs rule: str_of_nat.induct)
  case (1 n)
  show ?case
  proof (cases "n < 10")
    case True
    then show ?thesis by (simp add: str_of_nat.simps [of n] digit_code Let_def mult.commute)
  next
    case False
    have v: "10 * (acc * 10 ^ length (str_of_nat (n div 10)) + n div 10) + n mod 10
        = acc * 10 ^ Suc (length (str_of_nat (n div 10))) + n" by (simp add: distrib_left)
    have d: "digits_value a True (digit_char (n mod 10) # cs) = digits_value (10 * a + n mod 10) True cs" for a
    proof -
      have "n mod 10 \<le> 9" using mod_less_divisor [of 10 n] by linarith
      then show ?thesis by (simp add: digit_code Let_def)
    qed
    have "str_of_nat n = str_of_nat (n div 10) @ [digit_char (n mod 10)]" using False by (simp add: str_of_nat.simps [of n])
    then show ?thesis using "1.IH" [OF False] v d by (simp add: ac_simps del: digits_value.simps)
  qed
qed

lemma py_int_str_of_nat: "py_int (str_of_nat n) = Some (int n)"
proof -
  have ns: "\<forall>c \<in> set (str_of_nat n). \<not> is_space c" using str_of_nat_digits by (fastforce simp: is_space_def Let_def)
  obtain c cs where c: "str_of_nat n = c # cs" using str_of_nat_nonempty [of n] by (cases "str_of_nat n") auto
  have "48 \<le> (of_char c :: nat)" using str_of_nat_digits [of c n] c by simp
  then have "c \<noteq> CHR ''-''" "c \<noteq> CHR ''+''" by auto
  moreover have "digits_value 0 False (c # cs) = Some n" using digits_value_str_of_nat [of 0 False n "[]"] c by simp
  ultimately show ?thesis using strip_no_space [OF ns] c by (simp add: py_int_def del: digits_value.simps)
qed

lemma strict_lax_ok: "lax_ok strict_lax"
  by (simp add: lax_ok_def strict_lax_def py_int_str_of_nat)

end
