(* ===== verification/Daemon_Life.thy ===== *)
theory Daemon_Life
  imports Wire
begin

text \<open>
  The daemon as a process: the client's connection (\<open>daemon/daemon/client.py\<close>), the heartbeat manager
  (\<open>daemon/daemon/heartbeat.py\<close>), the worker around its jobs (\<open>daemon/daemon/worker.py\<close>) and the start-up and
  end of \<open>daemon/daemon/main.py\<close>. The process is a step relation: the main loop and the heartbeat's task
  interleave at every request, and a signal may arrive at any moment. The requests a process has
  made are its log; what a job does, call by call, is the plan \<open>job_plan\<close>, which refines \<open>execute_job\<close> of theory
  Daemon_Worker.
\<close>

section \<open>The client\<close>

text \<open>What an open HTTP client was built with.\<close>

record http_settings =
  hs_user_agent :: string
  hs_authorization :: "string option"
  hs_proxy :: "string option"

record client_state =
  cs_base_url :: string
  cs_worker_id :: string
  cs_api_key :: "string option"
  cs_open :: "http_settings option"

definition new_client :: "string \<Rightarrow> string \<Rightarrow> string option \<Rightarrow> client_state" where
  "new_client base_url worker_id api_key = \<lparr>cs_base_url = rev (dropWhile (\<lambda>c. c = CHR ''/'') (rev base_url)),
     cs_worker_id = worker_id, cs_api_key = api_key, cs_open = None\<rparr>"

definition bearer :: "string \<Rightarrow> string" where
  "bearer key = ''Bearer '' @ key"

text \<open>An open client gets the new key at once, the new worker id only in the requests: its user agent stays.\<close>

definition client_api_key :: "string \<Rightarrow> client_state \<Rightarrow> client_state" where
  "client_api_key key cs = cs\<lparr>cs_api_key := Some key,
     cs_open := map_option (\<lambda>h. h\<lparr>hs_authorization := Some (bearer key)\<rparr>) (cs_open cs)\<rparr>"

definition client_worker_id :: "string \<Rightarrow> client_state \<Rightarrow> client_state" where
  "client_worker_id wid cs = cs\<lparr>cs_worker_id := wid\<rparr>"

definition get_client :: "string option \<Rightarrow> client_state \<Rightarrow> client_state" where
  "get_client proxy cs = (case cs_open cs of
       Some _ \<Rightarrow> cs
     | None \<Rightarrow> cs\<lparr>cs_open := Some \<lparr>hs_user_agent = ''gpu-daemon/'' @ cs_worker_id cs,
         hs_authorization = (if truthy (cs_api_key cs) then Some (bearer (the (cs_api_key cs))) else None),
         hs_proxy = proxy\<rparr>\<rparr>)"

definition client_close :: "client_state \<Rightarrow> client_state" where
  "client_close cs = cs\<lparr>cs_open := None\<rparr>"

section \<open>The heartbeat manager\<close>

record heartbeat_state =
  hm_worker_id :: string
  hm_declared_gb :: rat
  hm_runtimes :: "string list"
  hm_warned :: bool
  hm_running :: bool
  hm_task :: bool
  hm_status :: activity
  hm_job :: "string option"
  hm_progress :: "jdict option"
  hm_started_at :: seconds

definition new_heartbeat :: "string \<Rightarrow> rat \<Rightarrow> string list \<Rightarrow> seconds \<Rightarrow> heartbeat_state" where
  "new_heartbeat wid declared runtimes now = \<lparr>hm_worker_id = wid, hm_declared_gb = declared, hm_runtimes = runtimes,
     hm_warned = False, hm_running = False, hm_task = False, hm_status = Idle, hm_job = None, hm_progress = None,
     hm_started_at = now\<rparr>"

datatype vram_warning = NoWarning | LlamacppOnly | NeverAssigned

definition maybe_warn_zero_vram :: "heartbeat_state \<Rightarrow> vram_warning \<times> heartbeat_state" where
  "maybe_warn_zero_vram hm =
     (if hm_warned hm then (NoWarning, hm)
      else (if ''llamacpp'' \<in> set (hm_runtimes hm) then LlamacppOnly else NeverAssigned, hm\<lparr>hm_warned := True\<rparr>))"

definition heartbeat_start :: "heartbeat_state \<Rightarrow> heartbeat_state" where
  "heartbeat_start hm = hm\<lparr>hm_running := True, hm_task := True\<rparr>"

definition heartbeat_stop :: "heartbeat_state \<Rightarrow> heartbeat_state" where
  "heartbeat_stop hm = hm\<lparr>hm_running := False, hm_task := False\<rparr>"

definition update_status :: "activity \<Rightarrow> string option \<Rightarrow> jdict option \<Rightarrow> heartbeat_state \<Rightarrow> heartbeat_state" where
  "update_status status job progress hm = hm\<lparr>hm_status := status, hm_job := job, hm_progress := progress\<rparr>"

definition heartbeat_worker_id :: "string \<Rightarrow> heartbeat_state \<Rightarrow> heartbeat_state" where
  "heartbeat_worker_id wid hm = hm\<lparr>hm_worker_id := wid\<rparr>"

text \<open>What a beat finds: the GPUs' and the memory's state, what the runtimes hold and report (None: the callback
  raised), and which of them answer.\<close>

record probe =
  pr_stats :: gpu_stats
  pr_ram :: "rat option"
  pr_loaded :: "string list option"
  pr_inventory :: "(inventory_item \<times> bool option) list option"
  pr_live :: "(string \<times> bool) list"
  pr_digests :: "jdict option"
  pr_now :: seconds
  pr_stamp :: string

definition live_statuses :: "(string \<times> bool) list \<Rightarrow> (string \<times> string) list" where
  "live_statuses live = fst (get_runtime_statuses live [] (live, []))"

definition build_payload :: "py_round \<Rightarrow> probe \<Rightarrow> heartbeat_state \<Rightarrow> beat_payload \<times> heartbeat_state" where
  "build_payload rnd pr hm =
     (let req = build_heartbeat rnd (hm_status hm) (hm_declared_gb hm) (pr_stats pr) (pr_ram pr) (pr_loaded pr)
                  (pr_inventory pr) (Some (live_statuses (pr_live pr)));
          hm1 = (if hb_vram_total_gb req = 0 then snd (maybe_warn_zero_vram hm) else hm)
      in (heartbeat_request.extend req (beat_payload.fields (hm_worker_id hm) (hm_job hm) (hm_progress hm)
            (st_utilization (pr_stats pr))
            (case st_used_gb (pr_stats pr) of None \<Rightarrow> 0 | Some u \<Rightarrow> min u (hb_vram_total_gb req))
            (best_effort (pr_digests pr)) (pr_now pr - hm_started_at hm) (pr_stamp pr)), hm1))"

section \<open>A job, call by call\<close>

text \<open>What the job's code does in turn: it sets the heartbeat's status, waits for a pull that may report its
  progress, runs the pool of prompts, or makes a call. Of a pool: the number of prompts, how many units of them may
  still end (a unit has at least one prompt), and how many progress reports are due.\<close>

datatype action =
    SetStatus activity "string option"
  | Pull string
  | Pool nat nat nat
  | Send call

definition pull_actions :: "djob \<Rightarrow> action list" where
  "pull_actions j = [SetStatus DownloadingModel (Some (dj_id j)), Pull (dj_model j)]"

text \<open>The steps before the download; whether the job goes on after them.\<close>

definition gate_plan :: "string \<Rightarrow> string \<Rightarrow> djob \<Rightarrow> job_env \<Rightarrow> action list \<times> bool" where
  "gate_plan wid exn j env =
     (let fail = (\<lambda>err. [Send (CallFailure wid (dj_id j) err)]);
          unserved = fail (unserved_model (dj_model j));
          ensure = (\<lambda>r. if r \<notin> set (je_managers env) then ([], True)
            else (case je_ensured env of
                None \<Rightarrow> (pull_actions j @ fail exn, False)
              | Some True \<Rightarrow> (pull_actions j, True)
              | Some False \<Rightarrow> (pull_actions j @ fail (pull_failed (dj_model j)) @ [SetStatus Idle None], False)))
      in if \<not> je_dir env then (fail exn, False)
         else if dj_model j = [] then ([], True)
         else (case je_routed env of
             Some r \<Rightarrow> ensure r
           | None \<Rightarrow>
               if je_managers env = [] then (unserved, False)
               else (case je_pulled env of
                   None \<Rightarrow> (pull_actions j @ fail exn, False)
                 | Some None \<Rightarrow> (pull_actions j @ [SetStatus Idle None] @ unserved, False)
                 | Some (Some r) \<Rightarrow> (pull_actions j @ fst (ensure r), snd (ensure r)))))"

definition run_plan :: "loads \<Rightarrow> (completion \<Rightarrow> string) \<Rightarrow> string \<Rightarrow> string \<Rightarrow> djob \<Rightarrow> string \<Rightarrow> job_env \<Rightarrow> action list" where
  "run_plan loads dump wid exn j fid env =
     (let failed = [Send (CallFailure wid (dj_id j) exn)] in
      [SetStatus Busy (Some (dj_id j)), Send (CallDownload fid)] @
      (case je_input env of
         None \<Rightarrow> failed
       | Some content \<Rightarrow>
           let ps = parse_input loads j content in
           if ps = [] then [Send (CallFailure wid (dj_id j) empty_input)]
           else Pool (length ps) (length ps) 0 # (case je_run env ps of
               None \<Rightarrow> failed
             | Some rows \<Rightarrow> let n = length (filter is_success rows) in
                 Send (CallUpload wid (dj_id j) (map dump rows) n (length ps - n)) #
                 (if je_upload env \<and> tokens_summed rows then [SetStatus Idle None] else failed))))"

definition job_plan :: "loads \<Rightarrow> (completion \<Rightarrow> string) \<Rightarrow> string \<Rightarrow> string \<Rightarrow> djob \<Rightarrow> string \<Rightarrow> job_env \<Rightarrow> action list" where
  "job_plan loads dump wid exn j fid env = (case gate_plan wid exn j env of
       (acts, True) \<Rightarrow> acts @ run_plan loads dump wid exn j fid env
     | (acts, False) \<Rightarrow> acts)"

text \<open>Of a plan, the activity the heartbeats report after it and the calls that answer the job.\<close>

fun plan_activity :: "action list \<Rightarrow> activity \<Rightarrow> activity" where
  "plan_activity [] act = act"
| "plan_activity (SetStatus a _ # as) act = plan_activity as a"
| "plan_activity (_ # as) act = plan_activity as act"

fun plan_calls :: "action list \<Rightarrow> call list" where
  "plan_calls [] = []"
| "plan_calls (Send c # as) = c # plan_calls as"
| "plan_calls (_ # as) = plan_calls as"

section \<open>The process\<close>

datatype phase = Booting | Looping | Executing "action list" | Leaving | Ended | Exited nat

record daemon =
  dm_client :: client_state
  dm_heartbeat :: heartbeat_state
  dm_executors :: "string list"
  dm_managers :: "(string \<times> string) list"
  dm_running :: bool
  dm_job :: "string option"
  dm_phase :: phase
  dm_closed :: "string list"
  dm_log :: "call list"

text \<open>\<open>Worker(config, client, executors)\<close> with a manager for each runtime that can fetch models.\<close>

definition construct :: "string \<Rightarrow> string \<Rightarrow> string \<Rightarrow> rat \<Rightarrow> (string \<times> bool) list \<Rightarrow> seconds \<Rightarrow> daemon" where
  "construct base_url placeholder key declared executors now = \<lparr>dm_client = new_client base_url placeholder (Some key),
     dm_heartbeat = new_heartbeat placeholder declared (map fst executors) now,
     dm_executors = map fst executors, dm_managers = map (\<lambda>(r, _). (r, placeholder)) (filter snd executors),
     dm_running = False, dm_job = None, dm_phase = Booting, dm_closed = [], dm_log = []\<rparr>"

definition send :: "string option \<Rightarrow> call \<Rightarrow> daemon \<Rightarrow> daemon" where
  "send proxy c d = d\<lparr>dm_client := get_client proxy (dm_client d), dm_log := dm_log d @ [c]\<rparr>"

definition in_phase :: "phase \<Rightarrow> daemon \<Rightarrow> daemon" where
  "in_phase ph d = d\<lparr>dm_phase := ph\<rparr>"

text \<open>\<open>Worker.update_worker_id\<close> beside \<open>BackendClient.update_worker_id\<close>.\<close>

definition worker_update_id :: "string \<Rightarrow> daemon \<Rightarrow> daemon" where
  "worker_update_id wid d = d\<lparr>dm_heartbeat := heartbeat_worker_id wid (dm_heartbeat d),
     dm_managers := map (\<lambda>(r, _). (r, wid)) (dm_managers d)\<rparr>"

definition adopt_id :: "string \<Rightarrow> daemon \<Rightarrow> daemon" where
  "adopt_id wid d = worker_update_id wid (d\<lparr>dm_client := client_worker_id wid (dm_client d)\<rparr>)"

definition worker_start :: "daemon \<Rightarrow> daemon" where
  "worker_start d = in_phase Looping (d\<lparr>dm_running := True, dm_heartbeat := heartbeat_start (dm_heartbeat d)\<rparr>)"

definition report_status :: "activity \<Rightarrow> string option \<Rightarrow> jdict option \<Rightarrow> daemon \<Rightarrow> daemon" where
  "report_status a j p d = d\<lparr>dm_heartbeat := update_status a j p (dm_heartbeat d)\<rparr>"

definition pool_progress :: "nat \<Rightarrow> nat \<Rightarrow> nat \<Rightarrow> jdict" where
  "pool_progress total_n done bad = [(''total_prompts'', JInt (int total_n)), (''completed_prompts'', JInt (int done)),
     (''failed_prompts'', JInt (int bad))]"

text \<open>Every executor is closed, whether or not one of them raises on it, and then the client.\<close>

definition shutdown :: "daemon \<Rightarrow> daemon" where
  "shutdown d = in_phase Ended (d\<lparr>dm_running := False, dm_heartbeat := heartbeat_stop (dm_heartbeat d),
     dm_closed := dm_closed d @ dm_executors d, dm_client := client_close (dm_client d)\<rparr>)"

text \<open>
  The steps. Registering may fail before its request is sent (\<open>sent\<close>); \<open>saved\<close> is the id in the credentials file.
  An empty turn is one without a job or whose poll raised something other than a 401. A unit of the pool that ends
  sets the heartbeat's progress, and a progress report is due, which the throttle may drop (\<open>due\<close>); the pool ends with
  a last report, but for a run that raises. How many reports a pull makes is up to the runtime's stream. \<open>Fatal\<close> is an
  exception that the loop does not catch; the shutdown follows it as it follows the loop's end.
\<close>

inductive proc :: "loads \<Rightarrow> (completion \<Rightarrow> string) \<Rightarrow> py_round \<Rightarrow> string option \<Rightarrow> daemon \<Rightarrow> daemon \<Rightarrow> bool"
  for loads dump rnd proxy where
  Register: "dm_phase d = Booting \<Longrightarrow> (answer \<noteq> None \<longrightarrow> sent) \<Longrightarrow> wi_worker_id info = cs_worker_id (dm_client d) \<Longrightarrow>
     worker_id_of (cs_worker_id (dm_client d)) answer saved = Inr wid \<Longrightarrow>
     proc loads dump rnd proxy d (worker_start (adopt_id wid (if sent then send proxy (CallRegister info) d else d)))"
| GiveUp: "dm_phase d = Booting \<Longrightarrow> wi_worker_id info = cs_worker_id (dm_client d) \<Longrightarrow>
     worker_id_of (cs_worker_id (dm_client d)) None saved = Inl code \<Longrightarrow>
     proc loads dump rnd proxy d (in_phase (Exited code) (if sent then send proxy (CallRegister info) d else d))"
| Beat: "hm_task (dm_heartbeat d) \<Longrightarrow> build_payload rnd pr (dm_heartbeat d) = (p, hm) \<Longrightarrow>
     proc loads dump rnd proxy d (send proxy (CallBeat (cs_worker_id (dm_client d)) p) (d\<lparr>dm_heartbeat := hm\<rparr>))"
| EmptyTurn: "dm_phase d = Looping \<Longrightarrow> dm_running d \<Longrightarrow>
     proc loads dump rnd proxy d (send proxy (CallPoll (cs_worker_id (dm_client d))) d)"
| JobTurn: "dm_phase d = Looping \<Longrightarrow> dm_running d \<Longrightarrow> je_managers env = map fst (dm_managers d) \<Longrightarrow>
     proc loads dump rnd proxy d (in_phase (Executing (job_plan loads dump (cs_worker_id (dm_client d)) exn j fid env))
       ((send proxy (CallPoll (cs_worker_id (dm_client d))) d)\<lparr>dm_job := Some (dj_id j)\<rparr>))"
| Unauthorized: "dm_phase d = Looping \<Longrightarrow> dm_running d \<Longrightarrow>
     proc loads dump rnd proxy d (in_phase Leaving (send proxy (CallPoll (cs_worker_id (dm_client d))) d))"
| LoopEnd: "dm_phase d = Looping \<Longrightarrow> \<not> dm_running d \<Longrightarrow> proc loads dump rnd proxy d (in_phase Leaving d)"
| Status: "dm_phase d = Executing (SetStatus a j # as) \<Longrightarrow>
     proc loads dump rnd proxy d (in_phase (Executing as) (report_status a j None d))"
| PullReport: "dm_phase d = Executing (Pull m # as) \<Longrightarrow> (r, wid) \<in> set (dm_managers d) \<Longrightarrow>
     proc loads dump rnd proxy d (send proxy (CallModelProgress wid m s c t) d)"
| PullEnd: "dm_phase d = Executing (Pull m # as) \<Longrightarrow> proc loads dump rnd proxy d (in_phase (Executing as) d)"
| PoolRows: "dm_phase d = Executing (Pool n (Suc k) r # as) \<Longrightarrow> c + f \<le> n \<Longrightarrow>
     proc loads dump rnd proxy d (in_phase (Executing (Pool n k (if due then Suc r else r) # as))
       (report_status Busy (dm_job d) (Some (pool_progress n c f)) d))"
| PoolReport: "dm_phase d = Executing (Pool n k (Suc r) # as) \<Longrightarrow> c + f \<le> n \<Longrightarrow> dm_job d = Some jid \<Longrightarrow>
     proc loads dump rnd proxy d (in_phase (Executing (Pool n k r # as))
       (send proxy (CallProgress (cs_worker_id (dm_client d)) jid c f n) d))"
| PoolEnd: "dm_phase d = Executing (Pool n k 0 # as) \<Longrightarrow> dm_job d = Some jid \<Longrightarrow> c + f = n \<Longrightarrow>
     proc loads dump rnd proxy d (in_phase (Executing as)
       (send proxy (CallProgress (cs_worker_id (dm_client d)) jid c f n) d))"
| PoolRaise: "dm_phase d = Executing (Pool n k r # as) \<Longrightarrow> proc loads dump rnd proxy d (in_phase (Executing as) d)"
| MakeCall: "dm_phase d = Executing (Send c # as) \<Longrightarrow> proc loads dump rnd proxy d (in_phase (Executing as) (send proxy c d))"
| JobEnd: "dm_phase d = Executing [] \<Longrightarrow> proc loads dump rnd proxy d (in_phase Looping (d\<lparr>dm_job := None\<rparr>))"
| Signal: "dm_phase d \<in> {Looping, Leaving} \<or> (\<exists>as. dm_phase d = Executing as) \<Longrightarrow>
     proc loads dump rnd proxy d (d\<lparr>dm_running := False\<rparr>)"
| Fatal: "dm_phase d = Looping \<or> (\<exists>as. dm_phase d = Executing as) \<Longrightarrow>
     proc loads dump rnd proxy d (in_phase Leaving (d\<lparr>dm_job := None\<rparr>))"
| Shutdown: "dm_phase d = Leaving \<Longrightarrow> proc loads dump rnd proxy d (shutdown d)"

section \<open>A plan and the job it runs\<close>

text \<open>The calls that matter to a job's fate, and who signs a call.\<close>

fun chatter :: "call \<Rightarrow> bool" where
  "chatter (CallBeat _ _) \<longleftrightarrow> True"
| "chatter (CallProgress _ _ _ _ _) \<longleftrightarrow> True"
| "chatter (CallModelProgress _ _ _ _ _) \<longleftrightarrow> True"
| "chatter _ \<longleftrightarrow> False"

fun signed :: "call \<Rightarrow> string option" where
  "signed (CallBeat w _) = Some w"
| "signed (CallPoll w) = Some w"
| "signed (CallProgress w _ _ _ _) = Some w"
| "signed (CallModelProgress w _ _ _ _) = Some w"
| "signed (CallFailure w _ _) = Some w"
| "signed (CallUpload w _ _ _ _) = Some w"
| "signed _ = None"

text \<open>How a job is answered: by a failure report, before or after its download, or by an upload, or by an upload
  that raised and the failure report after it.\<close>

inductive answered :: "string \<Rightarrow> string \<Rightarrow> call list \<Rightarrow> bool" for wid jid where
  refused: "answered wid jid [CallFailure wid jid err]"
| failed: "answered wid jid [CallDownload fid, CallFailure wid jid err]"
| uploaded: "answered wid jid [CallDownload fid, CallUpload wid jid content c f]"
| lost: "answered wid jid [CallDownload fid, CallUpload wid jid content c f, CallFailure wid jid err]"

inductive turn_of :: "string \<Rightarrow> call list \<Rightarrow> bool" for wid where
  empty: "turn_of wid [CallPoll wid]"
| job: "answered wid jid cs \<Longrightarrow> turn_of wid (CallPoll wid # cs)"

inductive_cases answered_cases: "answered wid jid cs"
inductive_cases turn_cases: "turn_of wid cs"

lemma plan_append [simp]:
  "plan_activity (as @ bs) act = plan_activity bs (plan_activity as act)"
  "plan_calls (as @ bs) = plan_calls as @ plan_calls bs"
proof -
  show "plan_activity (as @ bs) act = plan_activity bs (plan_activity as act)"
    by (induction as act rule: plan_activity.induct) simp_all
  show "plan_calls (as @ bs) = plan_calls as @ plan_calls bs" by (induction as rule: plan_calls.induct) simp_all
qed

lemma plan_pull [simp]: "plan_activity (pull_actions j) act = DownloadingModel" "plan_calls (pull_actions j) = []"
  by (simp_all add: pull_actions_def)

text \<open>The gate agrees with \<open>job_gate\<close>: a job that goes on has made no call and, one that does not, a report.\<close>

lemma gate_plan_agrees:
  assumes "gate_plan wid exn j env = (acts, ok)"
  shows "(case job_gate j env act of
      None \<Rightarrow> ok \<and> plan_calls acts = []
    | Some (a, Reported err) \<Rightarrow> \<not> ok \<and> plan_activity acts act = a \<and> plan_calls acts = [CallFailure wid (dj_id j) err]
    | Some (a, Raised) \<Rightarrow> \<not> ok \<and> plan_activity acts act = a \<and> plan_calls acts = [CallFailure wid (dj_id j) exn]
    | Some (a, Uploaded _) \<Rightarrow> False)"
  using assms by (auto simp: gate_plan_def job_gate_def routed_to_def Let_def split: option.splits if_splits bool.splits)

lemma run_plan_agrees:
  "run_job loads j env = (a, e) \<Longrightarrow> plan_activity (run_plan loads dump wid exn j fid env) act = a \<and>
   answered wid (dj_id j) (plan_calls (run_plan loads dump wid exn j fid env))"
  by (auto simp: run_job_def run_plan_def Let_def intro: answered.intros split: option.splits if_splits)

text \<open>A plan does what \<open>execute_job\<close> says: it leaves the same activity behind and answers the job.\<close>

lemma job_plan_refines:
  assumes "execute_job loads j env act = (a, e)"
  shows "plan_activity (job_plan loads dump wid exn j fid env) act = a \<and>
    answered wid (dj_id j) (plan_calls (job_plan loads dump wid exn j fid env))"
proof -
  obtain acts ok where g: "gate_plan wid exn j env = (acts, ok)" by (rule prod.exhaust)
  note agree = gate_plan_agrees [OF g, of act]
  show ?thesis
  proof (cases "job_gate j env act")
    case None
    then have "job_plan loads dump wid exn j fid env = acts @ run_plan loads dump wid exn j fid env" "plan_calls acts = []"
      using agree g by (simp_all add: job_plan_def)
    then show ?thesis using run_plan_agrees [of loads j env a e] None assms by (simp add: execute_job_def)
  next
    case (Some x)
    then have "job_plan loads dump wid exn j fid env = acts" using agree g
      by (cases x) (auto simp: job_plan_def split: job_end.splits)
    then show ?thesis using agree Some assms
      by (cases x) (auto simp: execute_job_def intro: answered.intros split: job_end.splits)
  qed
qed

lemma job_plan_answered: "answered wid (dj_id j) (plan_calls (job_plan loads dump wid exn j fid env))"
  by (metis surj_pair job_plan_refines)

lemma answered_quiet:
  "answered wid jid cs \<Longrightarrow> c \<in> set cs \<Longrightarrow> \<not> chatter c \<and> signed c \<in> {None, Some wid} \<and> (\<forall>i. c \<noteq> CallRegister i) \<and> (\<forall>w. c \<noteq> CallPoll w)"
  by (auto elim!: answered_cases)

section \<open>The invariant\<close>

definition spoken :: "call list \<Rightarrow> call list" where
  "spoken cs = filter (\<lambda>c. \<not> chatter c) cs"

lemma spoken_snoc: "spoken (cs @ [c]) = (if chatter c then spoken cs else spoken cs @ [c])"
  by (simp add: spoken_def)

text \<open>A process that has started and has not ended.\<close>

definition at_work :: "daemon \<Rightarrow> bool" where
  "at_work d \<longleftrightarrow> dm_phase d \<in> {Looping, Leaving} \<or> (\<exists>as. dm_phase d = Executing as)"

lemma at_work_phase [simp]:
  "dm_phase d = Looping \<Longrightarrow> at_work d" "dm_phase d = Leaving \<Longrightarrow> at_work d" "dm_phase d = Executing as \<Longrightarrow> at_work d"
  "dm_phase d = Booting \<Longrightarrow> \<not> at_work d" "dm_phase d = Ended \<Longrightarrow> \<not> at_work d" "dm_phase d = Exited n \<Longrightarrow> \<not> at_work d"
  by (simp_all add: at_work_def)

text \<open>What is under way beside the finished turns.\<close>

definition under_way :: "string \<Rightarrow> phase \<Rightarrow> string option \<Rightarrow> call list \<Rightarrow> bool" where
  "under_way wid ph job cur = (case ph of
       Executing as \<Rightarrow> (\<exists>jid made. job = Some jid \<and> cur = CallPoll wid # made \<and> answered wid jid (made @ plan_calls as))
     | Looping \<Rightarrow> cur = []
     | _ \<Rightarrow> cur = [] \<or> (\<exists>rest. turn_of wid (cur @ rest)))"

definition conversation :: "string \<Rightarrow> phase \<Rightarrow> string option \<Rightarrow> call list \<Rightarrow> bool" where
  "conversation wid ph job cs \<longleftrightarrow> (\<exists>reg turns cur. cs = reg @ concat turns @ cur \<and>
     (reg = [] \<or> (\<exists>info. reg = [CallRegister info])) \<and> (\<forall>t \<in> set turns. turn_of wid t) \<and> under_way wid ph job cur)"

definition started :: "daemon \<Rightarrow> bool" where
  "started d \<longleftrightarrow> at_work d \<or> dm_phase d = Ended"

definition daemon_inv :: "daemon \<Rightarrow> bool" where
  "daemon_inv d \<longleftrightarrow> (let wid = cs_worker_id (dm_client d) in
     hm_worker_id (dm_heartbeat d) = wid \<and> (\<forall>m \<in> set (dm_managers d). snd m = wid) \<and>
     hm_task (dm_heartbeat d) = at_work d \<and>
     (\<forall>c \<in> set (dm_log d). signed c \<in> {None, Some wid}) \<and>
     (if started d then conversation wid (dm_phase d) (dm_job d) (spoken (dm_log d))
      else set (dm_log d) \<subseteq> range CallRegister \<and> length (dm_log d) \<le> 1 \<and> (dm_phase d = Booting \<longrightarrow> dm_log d = [])))"

named_theorems proc_simps \<open>the updates of the process read field by field\<close>

lemma client_reads [proc_simps]:
  "cs_worker_id (get_client proxy cs) = cs_worker_id cs" "cs_worker_id (client_worker_id wid cs) = wid"
  "cs_worker_id (client_close cs) = cs_worker_id cs" "cs_worker_id (new_client url wid key) = wid"
  by (simp_all add: get_client_def client_worker_id_def client_close_def new_client_def split: option.split)

lemma heartbeat_reads [proc_simps]:
  "hm_worker_id (update_status a j p hm) = hm_worker_id hm" "hm_task (update_status a j p hm) = hm_task hm"
  "hm_worker_id (heartbeat_worker_id wid hm) = wid" "hm_task (heartbeat_worker_id wid hm) = hm_task hm"
  "hm_worker_id (heartbeat_start hm) = hm_worker_id hm" "hm_task (heartbeat_start hm)"
  "hm_worker_id (heartbeat_stop hm) = hm_worker_id hm" "\<not> hm_task (heartbeat_stop hm)"
  by (simp_all add: update_status_def heartbeat_worker_id_def heartbeat_start_def heartbeat_stop_def)

lemma warn_reads [proc_simps]:
  "hm_worker_id (snd (maybe_warn_zero_vram hm)) = hm_worker_id hm" "hm_task (snd (maybe_warn_zero_vram hm)) = hm_task hm"
  "hm_status (snd (maybe_warn_zero_vram hm)) = hm_status hm" "hm_job (snd (maybe_warn_zero_vram hm)) = hm_job hm"
  by (simp_all add: maybe_warn_zero_vram_def)

lemma build_heartbeat_reads:
  "hb_activity (build_heartbeat rnd act declared stats ram loaded items statuses) = act"
  "hb_runtimes (build_heartbeat rnd act declared stats ram loaded items statuses) = best_effort statuses"
  by (simp_all add: build_heartbeat_def Let_def split: prod.split)

lemma build_payload_fst:
  "hb_activity (fst (build_payload rnd pr hm)) = hm_status hm"
  "hb_runtimes (fst (build_payload rnd pr hm)) = live_statuses (pr_live pr)"
  "bp_current_job (fst (build_payload rnd pr hm)) = hm_job hm"
  by (simp_all add: build_payload_def Let_def heartbeat_request.defs beat_payload.defs build_heartbeat_reads best_effort_def)

lemma build_payload_snd:
  "hm_worker_id (snd (build_payload rnd pr hm)) = hm_worker_id hm" "hm_task (snd (build_payload rnd pr hm)) = hm_task hm"
  "hm_status (snd (build_payload rnd pr hm)) = hm_status hm" "hm_job (snd (build_payload rnd pr hm)) = hm_job hm"
  by (simp_all add: build_payload_def Let_def proc_simps)

lemma build_payload_reads:
  assumes "build_payload rnd pr hm = (p, hm')"
  shows "hm_worker_id hm' = hm_worker_id hm" "hm_task hm' = hm_task hm" "hm_status hm' = hm_status hm" "hm_job hm' = hm_job hm"
    "hb_activity p = hm_status hm" "hb_runtimes p = live_statuses (pr_live pr)"
  using build_payload_fst [of rnd pr hm] build_payload_snd [of rnd pr hm] by (simp_all add: assms)

lemma send_reads [proc_simps]:
  "dm_log (send proxy c d) = dm_log d @ [c]" "dm_phase (send proxy c d) = dm_phase d"
  "dm_heartbeat (send proxy c d) = dm_heartbeat d" "dm_managers (send proxy c d) = dm_managers d"
  "dm_job (send proxy c d) = dm_job d" "cs_worker_id (dm_client (send proxy c d)) = cs_worker_id (dm_client d)"
  "dm_running (send proxy c d) = dm_running d" "dm_executors (send proxy c d) = dm_executors d"
  by (simp_all add: send_def proc_simps)

lemma phase_reads [proc_simps]:
  "dm_phase (in_phase ph d) = ph" "dm_log (in_phase ph d) = dm_log d" "dm_heartbeat (in_phase ph d) = dm_heartbeat d"
  "dm_managers (in_phase ph d) = dm_managers d" "dm_job (in_phase ph d) = dm_job d" "dm_client (in_phase ph d) = dm_client d"
  "dm_running (in_phase ph d) = dm_running d" "dm_executors (in_phase ph d) = dm_executors d"
  by (simp_all add: in_phase_def)

lemma status_reads [proc_simps]:
  "dm_log (report_status a j p d) = dm_log d" "dm_phase (report_status a j p d) = dm_phase d"
  "dm_managers (report_status a j p d) = dm_managers d" "dm_job (report_status a j p d) = dm_job d"
  "dm_client (report_status a j p d) = dm_client d" "dm_running (report_status a j p d) = dm_running d"
  "dm_executors (report_status a j p d) = dm_executors d"
  "dm_heartbeat (report_status a j p d) = update_status a j p (dm_heartbeat d)"
  by (simp_all add: report_status_def)

lemma conversationI:
  "cs = reg @ concat turns @ cur \<Longrightarrow> reg = [] \<or> (\<exists>info. reg = [CallRegister info]) \<Longrightarrow> \<forall>t \<in> set turns. turn_of wid t \<Longrightarrow>
   under_way wid ph job cur \<Longrightarrow> conversation wid ph job cs"
  unfolding conversation_def by blast

lemma conversationE:
  assumes "conversation wid ph job cs"
  obtains reg turns cur where "cs = reg @ concat turns @ cur" "reg = [] \<or> (\<exists>info. reg = [CallRegister info])"
    "\<forall>t \<in> set turns. turn_of wid t" "under_way wid ph job cur"
  using assms unfolding conversation_def by blast

lemma under_way_simps [simp]:
  "under_way wid Looping job cur \<longleftrightarrow> cur = []"
  "under_way wid (Executing as) job cur \<longleftrightarrow>
     (\<exists>jid made. job = Some jid \<and> cur = CallPoll wid # made \<and> answered wid jid (made @ plan_calls as))"
  "under_way wid Leaving job cur \<longleftrightarrow> cur = [] \<or> (\<exists>rest. turn_of wid (cur @ rest))"
  "under_way wid Ended job cur \<longleftrightarrow> cur = [] \<or> (\<exists>rest. turn_of wid (cur @ rest))"
  by (simp_all add: under_way_def)

text \<open>A turn that is over joins the turns; one that starts, goes on or is broken off is under way.\<close>

lemma conversation_turn:
  assumes "conversation wid ph job cs" "\<And>cur. under_way wid ph job cur \<Longrightarrow> turn_of wid (cur @ t)"
  shows "conversation wid Looping job' (cs @ t)" "conversation wid Leaving job' (cs @ t)"
proof -
  obtain reg turns cur where c: "cs = reg @ concat turns @ cur" "reg = [] \<or> (\<exists>info. reg = [CallRegister info])"
    "\<forall>t \<in> set turns. turn_of wid t" "under_way wid ph job cur" using assms(1) by (rule conversationE)
  have "cs @ t = reg @ concat (turns @ [cur @ t]) @ []" "\<forall>t \<in> set (turns @ [cur @ t]). turn_of wid t"
    using c assms(2) by auto
  then show "conversation wid Looping job' (cs @ t)" "conversation wid Leaving job' (cs @ t)"
    by (intro conversationI [of _ reg "turns @ [cur @ t]" "[]"]; use c(2) in simp)+
qed

lemma conversation_goes_on:
  assumes "conversation wid ph job cs" "\<And>cur. under_way wid ph job cur \<Longrightarrow> under_way wid ph' job' (cur @ new)"
  shows "conversation wid ph' job' (cs @ new)"
proof -
  obtain reg turns cur where "cs = reg @ concat turns @ cur" "reg = [] \<or> (\<exists>info. reg = [CallRegister info])"
    "\<forall>t \<in> set turns. turn_of wid t" "under_way wid ph job cur" using assms(1) by (rule conversationE)
  then show ?thesis using assms(2) by (intro conversationI [of _ reg turns "cur @ new"]) auto
qed

text \<open>A plan is under way from its poll on.\<close>

lemma start_job:
  "conversation wid Looping job cs \<Longrightarrow>
   conversation wid (Executing (job_plan loads dump wid exn j fid env)) (Some (dj_id j)) (cs @ [CallPoll wid])"
  by (rule conversation_goes_on) (auto intro: job_plan_answered)

lemma make_call:
  assumes "conversation wid (Executing (Send c # as)) job cs"
  shows "\<not> chatter c \<and> signed c \<in> {None, Some wid} \<and> conversation wid (Executing as) job (cs @ [c]) \<and> (\<forall>w. c \<noteq> CallPoll w)"
proof -
  obtain cur where "under_way wid (Executing (Send c # as)) job cur" using assms by (rule conversationE)
  then have "\<not> chatter c" "signed c \<in> {None, Some wid}" "\<forall>w. c \<noteq> CallPoll w" using answered_quiet by (fastforce)+
  moreover have "conversation wid (Executing as) job (cs @ [c])"
    by (rule conversation_goes_on [OF assms]) auto
  ultimately show ?thesis by blast
qed

lemma quiet_action:
  "conversation wid (Executing as) job cs \<Longrightarrow> plan_calls as = plan_calls bs \<Longrightarrow> conversation wid (Executing bs) job cs"
  using conversation_goes_on [of wid "Executing as" job cs "Executing bs" job "[]"] by simp

lemma end_job: "conversation wid (Executing []) job cs \<Longrightarrow> conversation wid Looping None cs"
  using conversation_turn(1) [of wid "Executing []" job cs "[]" None] by (auto intro: turn_of.job)

lemma break_off:
  assumes "conversation wid ph job cs" "ph = Looping \<or> (\<exists>as. ph = Executing as) \<or> ph = Leaving"
  shows "conversation wid Leaving job' cs \<and> conversation wid Ended job' cs"
proof -
  have "cur = [] \<or> (\<exists>rest. turn_of wid (cur @ rest))" if "under_way wid ph job cur" for cur
    using assms(2) that by (fastforce intro: turn_of.job)
  then have "under_way wid ph' job' (cur @ [])" if "under_way wid ph job cur" "ph' \<in> {Leaving, Ended}" for cur ph'
    using that by auto
  then show ?thesis
    using conversation_goes_on [OF assms(1), of Leaving job' "[]"] conversation_goes_on [OF assms(1), of Ended job' "[]"]
    by (metis append_Nil2 insertCI)
qed

lemma inv_construct: "daemon_inv (construct url placeholder key declared executors now)"
  by (auto simp: daemon_inv_def construct_def new_client_def new_heartbeat_def started_def at_work_def)

lemma invE:
  assumes "daemon_inv d" "started d"
  shows "hm_worker_id (dm_heartbeat d) = cs_worker_id (dm_client d)" "\<forall>m \<in> set (dm_managers d). snd m = cs_worker_id (dm_client d)"
    "hm_task (dm_heartbeat d) = at_work d" "\<forall>c \<in> set (dm_log d). signed c \<in> {None, Some (cs_worker_id (dm_client d))}"
    "conversation (cs_worker_id (dm_client d)) (dm_phase d) (dm_job d) (spoken (dm_log d))"
  using assms by (auto simp: daemon_inv_def Let_def)

lemma invI:
  assumes "hm_worker_id (dm_heartbeat d) = cs_worker_id (dm_client d)" "\<forall>m \<in> set (dm_managers d). snd m = cs_worker_id (dm_client d)"
    "hm_task (dm_heartbeat d) = at_work d" "\<forall>c \<in> set (dm_log d). signed c \<in> {None, Some (cs_worker_id (dm_client d))}"
    "started d" "conversation (cs_worker_id (dm_client d)) (dm_phase d) (dm_job d) (spoken (dm_log d))"
  shows "daemon_inv d"
  using assms by (simp add: daemon_inv_def Let_def)

lemma inv_chatter:
  assumes "daemon_inv d" "started d" "chatter c" "signed c = Some (cs_worker_id (dm_client d))"
  shows "daemon_inv (send proxy c d)"
  using invE [OF assms(1,2)] assms(2-4)
  by (intro invI) (auto simp: proc_simps spoken_snoc started_def at_work_def)

lemma inv_phase:
  assumes "daemon_inv d" "at_work d" "at_work (in_phase ph d)"
    "conversation (cs_worker_id (dm_client d)) ph job (spoken (dm_log d))"
  shows "daemon_inv (in_phase ph (d\<lparr>dm_job := job\<rparr>))"
  using invE [OF assms(1)] assms(2-4) by (intro invI) (auto simp: proc_simps started_def at_work_def)

lemma inv_send:
  assumes "daemon_inv d" "at_work d" "at_work (in_phase ph d)" "\<not> chatter c"
    "signed c \<in> {None, Some (cs_worker_id (dm_client d))}"
    "conversation (cs_worker_id (dm_client d)) ph job (spoken (dm_log d) @ [c])"
  shows "daemon_inv (in_phase ph ((send proxy c d)\<lparr>dm_job := job\<rparr>))"
  using invE [OF assms(1)] assms(2-6) by (intro invI) (auto simp: proc_simps started_def at_work_def spoken_snoc)

lemma inv_heartbeat:
  assumes "daemon_inv d" "at_work d" "hm_worker_id hm = hm_worker_id (dm_heartbeat d)" "hm_task hm = hm_task (dm_heartbeat d)"
  shows "daemon_inv (d\<lparr>dm_heartbeat := hm\<rparr>)"
  using invE [OF assms(1)] assms(2-4) by (intro invI) (auto simp: started_def at_work_def)

lemma same_job [simp]: "d\<lparr>dm_job := dm_job d\<rparr> = d" "(send proxy c d)\<lparr>dm_job := dm_job d\<rparr> = send proxy c d"
  by (simp_all add: send_def)

lemma same_phase: "dm_phase d = ph \<Longrightarrow> in_phase ph d = d"
  by (auto simp: in_phase_def)

lemma phase_status:
  "in_phase ph (report_status a j p d) = (in_phase ph d)\<lparr>dm_heartbeat := update_status a j p (dm_heartbeat d)\<rparr>"
  by (cases d) (simp add: in_phase_def report_status_def)

lemma phase_send: "in_phase ph (send proxy c d) = send proxy c (in_phase ph d)"
  by (simp add: in_phase_def send_def)

text \<open>A step within a plan that makes no call of the plan.\<close>

lemma inv_plan:
  assumes "daemon_inv d" "dm_phase d = Executing as" "plan_calls as = plan_calls bs"
  shows "daemon_inv (in_phase (Executing bs) d)"
proof -
  have "started d" using assms(2) by (simp add: started_def)
  then have "conversation (cs_worker_id (dm_client d)) (Executing bs) (dm_job d) (spoken (dm_log d))"
    using quiet_action [of _ as _ _ bs] invE(5) [OF assms(1)] assms(2,3) by simp
  then have "daemon_inv (in_phase (Executing bs) (d\<lparr>dm_job := dm_job d\<rparr>))"
    using assms(2) by (intro inv_phase [OF assms(1)]) (auto simp: at_work_def proc_simps)
  then show ?thesis by simp
qed

lemma inv_plan_send:
  assumes "daemon_inv d" "dm_phase d = Executing as" "plan_calls as = plan_calls bs" "chatter c"
    "signed c = Some (cs_worker_id (dm_client d))"
  shows "daemon_inv (in_phase (Executing bs) (send proxy c d))"
  unfolding phase_send using inv_plan [OF assms(1-3)] assms(4,5)
  by (intro inv_chatter) (simp_all add: started_def at_work_def proc_simps)

lemma inv_started_up:
  assumes "dm_log d = [] \<or> dm_log d = [CallRegister info]"
  shows "daemon_inv (worker_start (adopt_id wid d))"
proof -
  have "conversation wid Looping (dm_job d) (spoken (dm_log d))"
    using assms by (intro conversationI [of _ "dm_log d" "[]" "[]"]) (auto simp: spoken_def)
  then show ?thesis using assms
    by (intro invI) (auto simp: worker_start_def adopt_id_def worker_update_id_def proc_simps started_def at_work_def)
qed

lemma inv_step:
  assumes "proc loads dump rnd proxy d d'" "daemon_inv d"
  shows "daemon_inv d'"
  using assms(1)
proof cases
  case (Register answer sent info saved wid)
  have "dm_log d = []" using assms(2) Register by (auto simp: daemon_inv_def Let_def started_def at_work_def split: if_splits)
  then have "dm_log (if sent then send proxy (CallRegister info) d else d) \<in> {[], [CallRegister info]}" by (simp add: proc_simps)
  then show ?thesis unfolding Register(1) by (intro inv_started_up) blast
next
  case (GiveUp info saved code sent)
  have "\<not> started d" using GiveUp by (simp add: started_def at_work_def)
  then show ?thesis using assms(2) GiveUp by (auto simp: daemon_inv_def Let_def proc_simps started_def at_work_def)
next
  case (Beat pr p hm)
  note reads = build_payload_reads [OF Beat(3)]
  have w: "at_work d" using assms(2) Beat(2) by (simp add: daemon_inv_def Let_def)
  then have "daemon_inv (d\<lparr>dm_heartbeat := hm\<rparr>)" using inv_heartbeat assms(2) reads by simp
  moreover have "started (d\<lparr>dm_heartbeat := hm\<rparr>)" using w by (simp add: started_def at_work_def)
  ultimately show ?thesis unfolding Beat(1) by (rule inv_chatter) simp_all
next
  case EmptyTurn
  have "started d" using EmptyTurn by (simp add: started_def)
  note c = conversation_turn(1) [OF invE(5) [OF assms(2) this], of "[CallPoll (cs_worker_id (dm_client d))]" "dm_job d"]
  have "daemon_inv (in_phase Looping ((send proxy (CallPoll (cs_worker_id (dm_client d))) d)\<lparr>dm_job := dm_job d\<rparr>))"
    using c EmptyTurn by (intro inv_send [OF assms(2)]) (auto simp: at_work_def proc_simps intro: turn_of.empty)
  then show ?thesis using EmptyTurn by (simp add: same_phase proc_simps)
next
  case (JobTurn env exn j fid)
  have "started d" using JobTurn by (simp add: started_def)
  note c = invE(5) [OF assms(2) this, unfolded JobTurn(2)]
  show ?thesis unfolding JobTurn(1) using JobTurn(2) start_job [OF c]
    by (intro inv_send [OF assms(2)]) (simp_all add: at_work_def proc_simps)
next
  case Unauthorized
  have "started d" using Unauthorized by (simp add: started_def)
  note c = conversation_turn(2) [OF invE(5) [OF assms(2) this], of "[CallPoll (cs_worker_id (dm_client d))]" "dm_job d"]
  have "daemon_inv (in_phase Leaving ((send proxy (CallPoll (cs_worker_id (dm_client d))) d)\<lparr>dm_job := dm_job d\<rparr>))"
    using c Unauthorized by (intro inv_send [OF assms(2)]) (auto simp: at_work_def proc_simps intro: turn_of.empty)
  then show ?thesis using Unauthorized by simp
next
  case LoopEnd
  have "started d" using LoopEnd by (simp add: started_def)
  then have "daemon_inv (in_phase Leaving (d\<lparr>dm_job := dm_job d\<rparr>))"
    using LoopEnd break_off [OF invE(5) [OF assms(2)]] by (intro inv_phase [OF assms(2)]) (auto simp: at_work_def proc_simps)
  then show ?thesis using LoopEnd by simp
next
  case (Status a j as)
  then have "daemon_inv (in_phase (Executing as) d)" using inv_plan [OF assms(2)] by simp
  then show ?thesis unfolding Status(1)
    using inv_heartbeat [of "in_phase (Executing as) d" "update_status a j None (dm_heartbeat d)"]
    by (simp add: phase_status proc_simps at_work_def)
next
  case (PullReport m as r wid s c t)
  have st: "started d" using PullReport by (simp add: started_def)
  then show ?thesis unfolding PullReport(1) using invE(2) [OF assms(2) st] PullReport(3)
    by (intro inv_chatter [OF assms(2)]) auto
next
  case (PullEnd m as)
  then show ?thesis using inv_plan [OF assms(2)] by simp
next
  case (PoolRows n k r as c f due)
  let ?bs = "Pool n k (if due then Suc r else r) # as"
  have "daemon_inv (in_phase (Executing ?bs) d)" using inv_plan [OF assms(2) PoolRows(2), of ?bs] by simp
  then show ?thesis unfolding PoolRows(1)
    using inv_heartbeat [of "in_phase (Executing ?bs) d" "update_status Busy (dm_job d) (Some (pool_progress n c f)) (dm_heartbeat d)"]
    by (simp add: phase_status proc_simps at_work_def)
next
  case (PoolReport n k r as c f jid)
  then show ?thesis using inv_plan_send [OF assms(2) PoolReport(2), of "Pool n k r # as"] by simp
next
  case (PoolEnd n k as jid c f)
  then show ?thesis using inv_plan_send [OF assms(2) PoolEnd(2), of as] by simp
next
  case (PoolRaise n k r as)
  then show ?thesis using inv_plan [OF assms(2)] by simp
next
  case (MakeCall c as)
  have "started d" using MakeCall by (simp add: started_def)
  note c = make_call [OF invE(5) [OF assms(2) this, unfolded MakeCall(2)]]
  then have "daemon_inv (in_phase (Executing as) ((send proxy c d)\<lparr>dm_job := dm_job d\<rparr>))"
    using MakeCall by (intro inv_send [OF assms(2)]) (auto simp: at_work_def proc_simps)
  then show ?thesis using MakeCall by simp
next
  case JobEnd
  have "started d" using JobEnd by (simp add: started_def)
  note c = end_job [OF invE(5) [OF assms(2) this, unfolded JobEnd(2)]]
  then show ?thesis unfolding JobEnd(1) using JobEnd(2) by (intro inv_phase [OF assms(2)]) (auto simp: at_work_def proc_simps)
next
  case Signal
  then have "started d" by (auto simp: started_def at_work_def)
  then show ?thesis unfolding Signal(1) using invE [OF assms(2)] by (intro invI) (auto simp: started_def at_work_def)
next
  case Fatal
  then have st: "started d" "at_work d" by (auto simp: started_def at_work_def)
  note c = break_off [OF invE(5) [OF assms(2) st(1)], of None]
  show ?thesis unfolding Fatal(1) using c Fatal(2) st(2)
    by (intro inv_phase [OF assms(2)]) (auto simp: at_work_def proc_simps)
next
  case Shutdown
  then have st: "started d" by (simp add: started_def)
  note c = break_off [OF invE(5) [OF assms(2) st], of "dm_job d"]
  show ?thesis unfolding Shutdown(1) using invE [OF assms(2) st] c Shutdown(2)
    by (intro invI) (auto simp: shutdown_def proc_simps started_def at_work_def)
qed

lemma inv_reachable:
  "(proc loads dump rnd proxy)\<^sup>*\<^sup>* (construct url placeholder key declared executors now) d \<Longrightarrow> daemon_inv d"
  by (induction rule: rtranclp_induct) (auto intro: inv_construct inv_step)

section \<open>The end of a process\<close>

text \<open>The steps of its own that a process whose loop has been told to stop may still take: a unit of a pool that ends
  counts twice, for its rows and its report.\<close>

fun action_steps :: "action \<Rightarrow> nat" where
  "action_steps (Pool n k r) = 2 * k + r + 1"
| "action_steps _ = 1"

definition remaining :: "daemon \<Rightarrow> nat" where
  "remaining d = (case dm_phase d of
     Executing as \<Rightarrow> sum_list (map action_steps as) + 3 | Looping \<Rightarrow> 2 | Leaving \<Rightarrow> 1 | _ \<Rightarrow> 0)"

text \<open>The steps that are not its own: a heartbeat, a report of the runtime's download, a signal once more. \<open>paced\<close>
  counts the other steps of a run.\<close>

fun idle_call :: "call \<Rightarrow> bool" where
  "idle_call (CallBeat _ _) \<longleftrightarrow> True"
| "idle_call (CallModelProgress _ _ _ _ _) \<longleftrightarrow> True"
| "idle_call _ \<longleftrightarrow> False"

definition waits :: "daemon \<Rightarrow> daemon \<Rightarrow> bool" where
  "waits d e \<longleftrightarrow> dm_phase e = dm_phase d \<and> (dm_log e = dm_log d \<or> (\<exists>c. dm_log e = dm_log d @ [c] \<and> idle_call c))"

inductive paced :: "loads \<Rightarrow> (completion \<Rightarrow> string) \<Rightarrow> py_round \<Rightarrow> string option \<Rightarrow> daemon \<Rightarrow> nat \<Rightarrow> daemon \<Rightarrow> bool"
  for loads dump rnd proxy d where
  paced_start: "paced loads dump rnd proxy d 0 d"
| paced_wait: "paced loads dump rnd proxy d n e \<Longrightarrow> proc loads dump rnd proxy e f \<Longrightarrow> waits e f \<Longrightarrow> paced loads dump rnd proxy d n f"
| paced_own: "paced loads dump rnd proxy d n e \<Longrightarrow> proc loads dump rnd proxy e f \<Longrightarrow> \<not> waits e f \<Longrightarrow>
     paced loads dump rnd proxy d (Suc n) f"

definition polls :: "daemon \<Rightarrow> call list" where
  "polls d = filter (\<lambda>c. \<exists>w. c = CallPoll w) (dm_log d)"

definition shut_down :: "string list \<Rightarrow> daemon \<Rightarrow> bool" where
  "shut_down executors e \<longleftrightarrow> dm_phase e = Ended \<and> cs_open (dm_client e) = None \<and> set executors \<subseteq> set (dm_closed e) \<and>
     \<not> hm_task (dm_heartbeat e)"

text \<open>A stopped process: each step is not its own and costs nothing, or is and brings it nearer to its end.\<close>

definition nearer :: "daemon \<Rightarrow> daemon \<Rightarrow> bool" where
  "nearer d e \<longleftrightarrow> \<not> dm_running e \<and> polls e = polls d \<and> dm_executors e = dm_executors d \<and>
     (if waits d e then remaining e = remaining d else remaining e < remaining d) \<and> (at_work e \<or> shut_down (dm_executors d) e)"

lemma stopped_step:
  assumes "proc loads dump rnd proxy d e" "at_work d" "\<not> dm_running d" "daemon_inv d"
  shows "nearer d e"
  using assms(1)
proof cases
  case (Beat pr p hm)
  then show ?thesis using assms(2,3)
    by (simp add: nearer_def at_work_def proc_simps polls_def waits_def remaining_def)
next
  case (MakeCall c as)
  have "started d" using MakeCall by (simp add: started_def)
  then have "\<not> chatter c" "\<forall>w. c \<noteq> CallPoll w" using make_call [OF invE(5) [OF assms(4), unfolded MakeCall(2)]] by blast+
  then show ?thesis using MakeCall assms(3)
    by (auto simp: nearer_def proc_simps polls_def waits_def remaining_def)
next
  case (Fatal)
  then show ?thesis using assms(3)
    by (auto simp: nearer_def proc_simps polls_def waits_def remaining_def)
next
  case Shutdown
  then show ?thesis
    by (auto simp: nearer_def shutdown_def shut_down_def client_close_def in_phase_def heartbeat_stop_def polls_def waits_def remaining_def)
qed (use assms(2,3) in \<open>auto simp: nearer_def proc_simps polls_def waits_def remaining_def\<close>)

lemma stopped_progress:
  assumes "at_work d" "\<not> dm_running d"
  shows "\<exists>e. proc loads dump rnd proxy d e \<and> dm_phase e \<noteq> dm_phase d"
proof (cases "dm_phase d")
  case (Executing as)
  show ?thesis
  proof (cases as)
    case Nil
    show ?thesis using JobEnd [OF Executing [unfolded Nil]] Executing
      by (intro exI [of _ "in_phase Looping (d\<lparr>dm_job := None\<rparr>)"]) (simp add: proc_simps)
  next
    case (Cons x as')
    note ph = Executing [unfolded Cons]
    have advance: ?thesis if "proc loads dump rnd proxy d e" "dm_phase e = Executing as'" for e
      using that ph by (intro exI [of _ e]) simp
    show ?thesis
    proof (cases x)
      case (SetStatus a j)
      show ?thesis by (rule advance [OF Status [OF ph [unfolded SetStatus]]]) (simp_all add: proc_simps)
    next
      case (Pull m)
      show ?thesis by (rule advance [OF PullEnd [OF ph [unfolded Pull]]]) (simp_all add: proc_simps)
    next
      case (Pool n k r)
      show ?thesis by (rule advance [OF PoolRaise [OF ph [unfolded Pool]]]) (simp_all add: proc_simps)
    next
      case (Send c)
      show ?thesis by (rule advance [OF MakeCall [OF ph [unfolded Send]]]) (simp_all add: proc_simps)
    qed
  qed
next
  case Looping
  show ?thesis using LoopEnd [OF Looping assms(2)] Looping by (intro exI [of _ "in_phase Leaving d"]) (simp add: proc_simps)
next
  case Leaving
  show ?thesis using Shutdown [OF Leaving] Leaving by (intro exI [of _ "shutdown d"]) (simp add: shutdown_def proc_simps)
qed (use assms in \<open>auto simp: at_work_def\<close>)

lemma ended_stuck: "shut_down xs d \<Longrightarrow> \<not> proc loads dump rnd proxy d e"
  by (auto simp: shut_down_def elim: proc.cases)

lemma paced_nearer:
  assumes "paced loads dump rnd proxy d n e" "at_work d" "\<not> dm_running d" "daemon_inv d"
  shows "n + remaining e \<le> remaining d \<and> \<not> dm_running e \<and> polls e = polls d \<and> dm_executors e = dm_executors d \<and>
    (at_work e \<or> shut_down (dm_executors d) e) \<and> daemon_inv e"
  using assms
proof (induction rule: paced.induct)
  case (paced_wait n e f)
  then have "nearer e f" "daemon_inv f" using stopped_step ended_stuck inv_step by blast+
  then show ?case using paced_wait by (auto simp: nearer_def)
next
  case (paced_own n e f)
  then have "nearer e f" "daemon_inv f" using stopped_step ended_stuck inv_step by blast+
  then show ?case using paced_own by (auto simp: nearer_def)
qed simp

text \<open>So it does end.\<close>

lemma stopped_ends:
  assumes "at_work d" "\<not> dm_running d" "daemon_inv d"
  shows "\<exists>n e. paced loads dump rnd proxy d n e \<and> dm_phase e = Ended \<and> (\<nexists>f. proc loads dump rnd proxy e f)"
proof -
  have "\<exists>n e'. paced loads dump rnd proxy d n e' \<and> dm_phase e' = Ended \<and> (\<nexists>f. proc loads dump rnd proxy e' f)" if "paced loads dump rnd proxy d k e" for k e
    using that
  proof (induction "remaining e" arbitrary: k e rule: less_induct)
    case less
    note p = paced_nearer [OF less.prems assms]
    show ?case
    proof (cases "at_work e")
      case True
      then obtain f where f: "proc loads dump rnd proxy e f" "dm_phase f \<noteq> dm_phase e" using stopped_progress p by blast
      then have "\<not> waits e f" by (simp add: waits_def)
      moreover have "nearer e f" using stopped_step [OF f(1) True] p by blast
      ultimately show ?thesis using less.hyps [of f "Suc k"] paced_own [OF less.prems f(1)] by (simp add: nearer_def)
    next
      case False
      then have "shut_down (dm_executors d) e" using p by blast
      then show ?thesis using less.prems ended_stuck unfolding shut_down_def by blast
    qed
  qed
  then show ?thesis using paced_start by blast
qed

section \<open>Every request is understood\<close>

definition plain_id :: "string \<Rightarrow> bool" where
  "plain_id w \<longleftrightarrow> w \<noteq> [] \<and> CHR ''/'' \<notin> set w"

lemma live_statuses_ok: "list_all (\<lambda>(t, s). s = ''ready'' \<or> s = ''unavailable'') (live_statuses live)"
  by (auto simp: live_statuses_def get_runtime_statuses_def list_all_iff split: if_splits)

text \<open>Beats report what \<open>_get_runtime_statuses\<close> finds.\<close>

definition beats_ok :: "daemon \<Rightarrow> bool" where
  "beats_ok d \<longleftrightarrow> (\<forall>wid p. CallBeat wid p \<in> set (dm_log d) \<longrightarrow> list_all (\<lambda>(t, s). s = ''ready'' \<or> s = ''unavailable'') (hb_runtimes p))"

lemma beats_ok_step:
  assumes "proc loads dump rnd proxy d d'" "daemon_inv d" "beats_ok d"
  shows "beats_ok d'"
  using assms(1)
proof cases
  case (Beat pr p hm)
  then show ?thesis using assms(3) build_payload_reads(6) [OF Beat(3)] live_statuses_ok
    by (auto simp: beats_ok_def proc_simps)
next
  case (MakeCall c as)
  have "started d" using MakeCall by (simp add: started_def)
  then have "\<not> chatter c" using make_call [OF invE(5) [OF assms(2), unfolded MakeCall(2)]] by blast
  then show ?thesis using MakeCall assms(3) by (auto simp: beats_ok_def proc_simps)
qed (use assms(3) in \<open>auto simp: beats_ok_def proc_simps worker_start_def adopt_id_def worker_update_id_def shutdown_def split: if_splits\<close>)

lemma beats_ok_reachable:
  "(proc loads dump rnd proxy)\<^sup>*\<^sup>* (construct url placeholder key declared executors now) d \<Longrightarrow> beats_ok d"
proof (induction rule: rtranclp_induct)
  case base
  show ?case by (simp add: construct_def beats_ok_def)
next
  case (step y z)
  then show ?case using beats_ok_step inv_reachable by blast
qed

section \<open>Properties\<close>

text \<open>C7: The two ends of the wire agree: whatever requests a daemon makes in whatever run, the control plane routes
  each to the handler it is for, and its schema passes it and reads from it the very values the daemon
  put in - a registration its hardware and runtimes, a heartbeat its activity, memory, residence, inventory
  and liveness, an upload its counts - with no field dropped or defaulted on the way, as long as
  the ids of workers and files are no paths.\<close>

theorem daemon_understood:
  assumes "lax_ok lx" "(proc loads dump rnd proxy)\<^sup>*\<^sup>* (construct url placeholder key declared executors now) d"
    "c \<in> set (dm_log d)" "\<forall>wid. signed c = Some wid \<longrightarrow> plain_id wid" "\<forall>fid. c = CallDownload fid \<longrightarrow> plain_id fid"
  shows "route lx (sends c) = Some (meant c)"
proof (rule route_sends [OF assms(1)])
  have "beats_ok d" using assms(2) by (rule beats_ok_reachable)
  then show "call_ok c" using assms(3-5) by (cases c) (auto simp: beats_ok_def plain_id_def)
qed


text \<open>C12: A daemon that is told to stop stops, whatever it is doing and whatever happens: on every run after the
  signal it takes at most \<open>remaining\<close> steps besides heartbeats and the runtime's download reports - for each row of a
  pool that still runs two, one for every other action left of its job's plan, and three - and it never polls again. At
  every moment it can take such a step, until it has ended: then every runtime and its connection are closed and
  it makes no request any more. (A call, a download or a prompt is one step, so it is taken to return.)\<close>

theorem signal_ends_daemon:
  assumes "(proc loads dump rnd proxy)\<^sup>*\<^sup>* (construct url placeholder key declared executors now) d" "at_work d" "\<not> dm_running d"
    "paced loads dump rnd proxy d n e"
  shows "n \<le> remaining d \<and> \<not> dm_running e \<and>
    filter (\<lambda>c. \<exists>w. c = CallPoll w) (dm_log e) = filter (\<lambda>c. \<exists>w. c = CallPoll w) (dm_log d) \<and>
    ((\<exists>f. proc loads dump rnd proxy e f \<and> \<not> waits e f) \<or>
     (dm_phase e = Ended \<and> cs_open (dm_client e) = None \<and> set (dm_executors d) \<subseteq> set (dm_closed e) \<and>
      (\<nexists>f. proc loads dump rnd proxy e f)))"
proof -
  note p = paced_nearer [OF assms(4,2,3) inv_reachable [OF assms(1)]]
  have "\<exists>f. proc loads dump rnd proxy e f \<and> \<not> waits e f" if "at_work e"
    using stopped_progress [OF that, of loads dump rnd proxy] p by (auto simp: waits_def)
  moreover have "\<nexists>f. proc loads dump rnd proxy e f" if "shut_down (dm_executors d) e" using ended_stuck that by blast
  ultimately show ?thesis using p by (auto simp: polls_def shut_down_def)
qed

section \<open>A run\<close>

text \<open>A worker registers, sends a heartbeat, is handed a job whose input it is refused, and is told to stop.\<close>

definition sample_info :: worker_info where
  "sample_info = \<lparr>wi_worker_id = ''worker-host-1'', wi_hardware = None, wi_runtimes = []\<rparr>"

definition sample_probe :: probe where
  "sample_probe = \<lparr>pr_stats = \<lparr>st_utilization = 50, st_used_gb = Some 6, st_total_gb = 24\<rparr>, pr_ram = Some 32,
     pr_loaded = Some [''llama3:8b''], pr_inventory = None, pr_live = [(''ollama'', True)], pr_digests = None,
     pr_now = 160, pr_stamp = ''now''\<rparr>"

definition sample_job :: djob where
  "sample_job = \<lparr>dj_id = ''b1'', dj_model = ''llama3:8b'', dj_max_tokens = 512, dj_temperature = 7 / 10\<rparr>"

definition sample_env :: job_env where
  "sample_env = \<lparr>je_dir = True, je_routed = Some ''vllm'', je_pulled = None, je_managers = [''ollama''], je_ensured = None, je_input = None,
     je_run = (\<lambda>_. None), je_upload = True\<rparr>"

definition sample_start :: daemon where
  "sample_start = construct ''http://cp/'' ''worker-host-1'' ''k'' 0 [(''ollama'', True), (''vllm'', False)] 100"

definition sample_registered :: daemon where
  "sample_registered = worker_start (adopt_id ''w1'' (send None (CallRegister sample_info) sample_start))"

definition sample_beaten :: daemon where
  "sample_beaten = (case build_payload (\<lambda>_ x. x) sample_probe (dm_heartbeat sample_registered) of
     (p, hm) \<Rightarrow> send None (CallBeat ''w1'' p) (sample_registered\<lparr>dm_heartbeat := hm\<rparr>))"

definition sample_working :: daemon where
  "sample_working = in_phase (Executing (job_plan (\<lambda>_. DecodeError) (\<lambda>_. []) ''w1'' ''403'' sample_job ''f1'' sample_env))
     ((send None (CallPoll ''w1'') sample_beaten)\<lparr>dm_job := Some ''b1''\<rparr>)"

definition sample_told :: daemon where
  "sample_told = sample_working\<lparr>dm_running := False\<rparr>"

lemma registered_reads:
  "dm_phase sample_registered = Looping" "dm_running sample_registered" "hm_task (dm_heartbeat sample_registered)"
  "cs_worker_id (dm_client sample_registered) = ''w1''" "dm_managers sample_registered = [(''ollama'', ''w1'')]"
  "map chatter (dm_log sample_registered) = [False]"
  by (simp_all add: sample_registered_def worker_start_def adopt_id_def worker_update_id_def sample_start_def construct_def
      proc_simps)

lemma beaten_reads:
  "dm_phase sample_beaten = Looping" "dm_running sample_beaten" "cs_worker_id (dm_client sample_beaten) = ''w1''"
  "dm_managers sample_beaten = [(''ollama'', ''w1'')]"
  "dm_log sample_beaten = dm_log sample_registered @ [CallBeat ''w1'' (fst (build_payload (\<lambda>_ x. x) sample_probe (dm_heartbeat sample_registered)))]"
  using registered_reads by (simp_all add: sample_beaten_def proc_simps split: prod.split)

lemma sample_run: "(proc (\<lambda>_. DecodeError) (\<lambda>_. []) (\<lambda>_ x. x) None)\<^sup>*\<^sup>* sample_start sample_told"
proof -
  let ?proc = "proc (\<lambda>_. DecodeError) (\<lambda>_. []) (\<lambda>_ x. x) None"
  have "?proc sample_start sample_registered"
    using Register [of sample_start "Some (Some ''w1'')" True sample_info None "''w1''" "\<lambda>_. DecodeError" "\<lambda>_. []" "\<lambda>_ x. x" None]
    by (simp add: sample_registered_def sample_start_def construct_def new_client_def sample_info_def worker_id_of_def)
  moreover have "?proc sample_registered sample_beaten"
  proof -
    obtain p hm where b: "build_payload (\<lambda>_ x. x) sample_probe (dm_heartbeat sample_registered) = (p, hm)" by (rule prod.exhaust)
    show ?thesis using Beat [OF registered_reads(3) b] registered_reads(4) by (simp add: sample_beaten_def b)
  qed
  moreover have "?proc sample_beaten sample_working"
    using JobTurn [OF beaten_reads(1,2), of sample_env "\<lambda>_. DecodeError" "\<lambda>_. []" "\<lambda>_ x. x" None "''403''" sample_job "''f1''"] beaten_reads(3,4)
    by (simp add: sample_working_def sample_env_def sample_job_def)
  moreover have "?proc sample_working sample_told"
    using Signal [of sample_working] by (simp add: sample_told_def sample_working_def proc_simps)
  ultimately show ?thesis by (meson rtranclp.rtrancl_into_rtrancl rtranclp.rtrancl_refl)
qed

lemma told_reads:
  "at_work sample_told" "started sample_told" "\<not> dm_running sample_told"
  "dm_log sample_told = dm_log sample_beaten @ [CallPoll ''w1'']" "remaining sample_told = 6"
  "dm_executors sample_told = [''ollama'', ''vllm'']"
proof -
  have "job_plan (\<lambda>_. DecodeError) (\<lambda>_. []) ''w1'' ''403'' sample_job ''f1'' sample_env =
      [SetStatus Busy (Some ''b1''), Send (CallDownload ''f1''), Send (CallFailure ''w1'' ''b1'' ''403'')]"
    by (simp add: job_plan_def gate_plan_def run_plan_def sample_env_def sample_job_def)
  then have "dm_phase sample_told = Executing [SetStatus Busy (Some ''b1''), Send (CallDownload ''f1''), Send (CallFailure ''w1'' ''b1'' ''403'')]"
    by (simp add: sample_told_def sample_working_def proc_simps)
  then show "at_work sample_told" "started sample_told" "remaining sample_told = 6" by (simp_all add: started_def remaining_def)
  show "\<not> dm_running sample_told" "dm_log sample_told = dm_log sample_beaten @ [CallPoll ''w1'']"
    by (simp_all add: sample_told_def sample_working_def proc_simps)
  show "dm_executors sample_told = [''ollama'', ''vllm'']"
    by (simp add: sample_told_def sample_working_def sample_beaten_def sample_registered_def worker_start_def adopt_id_def
        worker_update_id_def sample_start_def construct_def proc_simps split: prod.split)
qed

theorem daemon_understood_witness:
  "\<exists>p. route strict_lax (sends (CallBeat ''w1'' p)) = Some (Heartbeat ''w1'' (heartbeat_request.truncate p)) \<and> hb_activity p = Idle"
proof -
  let ?p = "fst (build_payload (\<lambda>_ x. x) sample_probe (dm_heartbeat sample_registered))"
  have "CallBeat ''w1'' ?p \<in> set (dm_log sample_told)" by (simp add: told_reads beaten_reads)
  from daemon_understood [OF strict_lax_ok sample_run [unfolded sample_start_def] this]
  have "route strict_lax (sends (CallBeat ''w1'' ?p)) = Some (Heartbeat ''w1'' (heartbeat_request.truncate ?p))"
    by (simp only: signed.simps meant.simps) (simp add: plain_id_def)
  moreover have "hm_status (dm_heartbeat sample_registered) = Idle"
    by (simp add: sample_registered_def worker_start_def adopt_id_def worker_update_id_def sample_start_def construct_def
        new_heartbeat_def heartbeat_start_def heartbeat_worker_id_def in_phase_def send_def)
  ultimately show ?thesis by (intro exI [of _ ?p]) (simp add: build_payload_fst)
qed


theorem signal_ends_daemon_witness:
  "\<exists>n e. paced (\<lambda>_. DecodeError) (\<lambda>_. []) (\<lambda>_ x. x) None sample_told n e \<and> n \<le> 6 \<and> dm_phase e = Ended \<and>
     cs_open (dm_client e) = None \<and> ''vllm'' \<in> set (dm_closed e)"
proof -
  let ?paced = "paced (\<lambda>_. DecodeError) (\<lambda>_. []) (\<lambda>_ x. x) None"
  note run = sample_run [unfolded sample_start_def]
  obtain n e where e: "?paced sample_told n e" "dm_phase e = Ended" "\<nexists>f. proc (\<lambda>_. DecodeError) (\<lambda>_. []) (\<lambda>_ x. x) None e f"
    using stopped_ends [OF told_reads(1,3) inv_reachable [OF run]] by blast
  have "dm_executors sample_told = [''ollama'', ''vllm'']" by (simp add: told_reads(6))
  then show ?thesis
    using signal_ends_daemon [OF run told_reads(1,3) e(1)] told_reads(5) e
    by (intro exI [of _ n] exI [of _ e]) auto
qed

end
