(* ===== verification/Fleet_Keys.thy ===== *)
theory Fleet_Keys
  imports Fleet_Run Daemon_Life Org_Keys
begin

text \<open>
  A worker's activity from the daemon to the key it signs with: what \<open>_execute_job\<close> leaves in the heartbeat
  (\<open>daemon/daemon/worker.py\<close>, \<open>heartbeat.py\<close>), what the control plane stores of it (\<open>routers/workers.py\<close>) and what
  revoking an organization's worker key makes of that (\<open>routers/organizations.py\<close>).
\<close>

lemma report_failure_workers:
  "workers (client_report_failure l oid wid jid err now db) = workers db"
  "get_org_worker (client_report_failure l oid wid jid err now db) o' w' = get_org_worker db o' w'"
proof -
  show ws: "workers (client_report_failure l oid wid jid err now db) = workers db"
    by (auto simp: client_report_failure_def report_failure_def Let_def split_beta split: sum.split)
  show "get_org_worker (client_report_failure l oid wid jid err now db) o' w' = get_org_worker db o' w'"
    by (simp add: get_org_worker_def ws)
qed

text \<open>A beat stores the activity it carries with the worker's key.\<close>

lemma beat_stores_activity:
  assumes "worker_heartbeat oid wid req now db = Inr (i, db')" "get_org_worker db oid wid = Inr w"
  shows "(\<exists>w' \<in> set (workers db'). w_api_key_id w' = w_api_key_id w \<and> w_activity w' = hb_activity req) \<and>
    assignments db' = assignments db"
proof -
  obtain cat' w' where h: "heartbeat_update now req (catalog db) w = (cat', w')" by fastforce
  note w' = heartbeat_update_worker [OF h]
  have w: "w_id w = wid" "w \<in> set (workers db)" using find_SomeD [OF assms(2) [unfolded get_org_worker_iff]] by auto
  have "db' = (upd_worker wid (\<lambda>_. w') db)\<lparr>catalog := cat'\<rparr>" using assms h by (auto simp: worker_heartbeat_def)
  then have "w' \<in> set (workers db')" "assignments db' = assignments db"
    using w by (auto simp: upd_worker_def tbl_upd_def)
  then show ?thesis using w' by blast
qed

lemma busy_worker_locks_key:
  assumes "w \<in> set (workers db)" "w_api_key_id w = Some kid" "w_activity w = Busy"
    "require_membership db user oid [Owner, Admin] = Inr m" "find_org_key db oid kid = Some k" "ak_type k = WorkerKey"
  shows "revoke_api_key user oid kid now db = Inl (HTTP 409)"
proof -
  have "filter (\<lambda>w. w_api_key_id w = Some kid \<and> w_activity w = Busy) (workers db) \<noteq> []"
    using assms(1-3) by (auto simp: filter_empty_conv)
  then show ?thesis using assms(4-6) by (simp add: revoke_api_key_def)
qed

section \<open>Property\<close>


text \<open>The second batch over one file: its worker is refused the input, reports, and sends a heartbeat.\<close>

definition refused_turn :: "activity \<times> srv" where
  "refused_turn = finish_job demo_loads cr_id ''e'' deaf_link demo_org ''w1'' shared_job (demo_env shared_job) ''f2'' 990 Idle shared_db"

definition refused_heartbeat :: heartbeat_state where
  "refused_heartbeat = update_status (fst refused_turn) (Some ''b1'') None (new_heartbeat ''w1'' 0 [''ollama''] 100)"

definition refused_beat :: beat_payload where
  "refused_beat = fst (build_payload (\<lambda>_ x. x) sample_probe refused_heartbeat)"

definition locked_db :: srv where
  "locked_db = snd (projr (worker_heartbeat ''o1'' ''w1'' (heartbeat_request.truncate refused_beat) 1000 (snd refused_turn)))"


end
