(* ===== verification/Daemon_Config.thy ===== *)
theory Daemon_Config
  imports Wire
begin

text \<open>
  The daemon's configuration as an object: the command line (\<open>daemon/daemon/main.py\<close>), the fields of
  \<open>DaemonConfig\<close> with their defaults, types and bounds (\<open>daemon/daemon/config.py\<close>), and the loader that
  merges the layers. The merging of dictionaries is \<open>load_fields\<close> of theory Daemon_Control; Pydantic's
  conversions are the parameter \<open>lax\<close> of theory Wire.
\<close>

section \<open>The command line\<close>

text \<open>The namespace that \<open>argparse\<close> answers: None for an option that was not given.\<close>

record cli_args =
  ca_config :: "string option"
  ca_backend_url :: "string option"
  ca_vllm_url :: "string option"
  ca_ollama_url :: "string option"
  ca_llamacpp_url :: "string option"
  ca_worker_id :: "string option"
  ca_poll_interval :: "int option"
  ca_heartbeat_interval :: "int option"
  ca_log_level :: "string option"
  ca_work_dir :: "string option"
  ca_api_key :: "string option"
  ca_gpu_name :: "string option"
  ca_vram_gb :: "rat option"
  ca_models :: "string list option"
  ca_runtime :: "string list list option"
  ca_inference_timeout :: "rat option"
  ca_max_concurrent_prompts :: "int option"

definition strings :: "string list \<Rightarrow> json" where
  "strings xs = JArr (map JStr xs)"

definition cli_mapping :: "cli_args \<Rightarrow> jdict" where
  "cli_mapping a =
     [(''backend_url'', or_null JStr (ca_backend_url a)), (''vllm_url'', or_null JStr (ca_vllm_url a)),
      (''ollama_url'', or_null JStr (ca_ollama_url a)), (''llamacpp_url'', or_null JStr (ca_llamacpp_url a)),
      (''worker_id'', or_null JStr (ca_worker_id a)), (''poll_interval'', or_null JInt (ca_poll_interval a)),
      (''heartbeat_interval'', or_null JInt (ca_heartbeat_interval a)), (''log_level'', or_null JStr (ca_log_level a)),
      (''work_dir'', or_null JStr (ca_work_dir a)), (''api_key'', or_null JStr (ca_api_key a)),
      (''gpu_name'', or_null JStr (ca_gpu_name a)), (''vram_gb'', or_null JFloat (ca_vram_gb a)),
      (''models'', or_null strings (ca_models a)), (''runtime'', or_null strings (flatten_runtime (ca_runtime a))),
      (''inference_timeout'', or_null JFloat (ca_inference_timeout a)),
      (''max_concurrent_prompts'', or_null JInt (ca_max_concurrent_prompts a))]"

definition build_cli_overrides :: "cli_args \<Rightarrow> jdict" where
  "build_cli_overrides a = filter (\<lambda>e. snd e \<noteq> JNull) (cli_mapping a)"

section \<open>The configuration\<close>

record daemon_config =
  cf_worker_id :: string
  cf_backend_url :: string
  cf_vllm_url :: string
  cf_hf_hub_cache :: "string option"
  cf_ollama_url :: string
  cf_ollama_models_dir :: "string option"
  cf_llamacpp_models_dir :: "string option"
  cf_llamacpp_url :: string
  cf_poll_interval :: int
  cf_log_level :: string
  cf_work_dir :: string
  cf_credentials_path :: string
  cf_api_key :: "string option"
  cf_gpu_name :: string
  cf_vram_gb :: rat
  cf_models :: "string list"
  cf_runtime :: "string list"
  cf_inference_timeout :: rat
  cf_max_concurrent_prompts :: int
  cf_heartbeat_interval :: int
  cf_progress_interval_seconds :: rat

text \<open>The defaults that are computed: \<open>_generate_worker_id()\<close> from the host's name and eight hexadecimal digits, and
  the directories under the user's home.\<close>

definition generate_worker_id :: "string \<Rightarrow> string \<Rightarrow> string" where
  "generate_worker_id hostname short_uuid = ''worker-'' @ hostname @ ''-'' @ short_uuid"

definition default_config :: "string \<Rightarrow> string \<Rightarrow> daemon_config" where
  "default_config worker_id home = \<lparr>cf_worker_id = worker_id, cf_backend_url = ''http://localhost:8000'',
     cf_vllm_url = ''http://localhost:8100'', cf_hf_hub_cache = None, cf_ollama_url = ''http://localhost:11434'',
     cf_ollama_models_dir = None, cf_llamacpp_models_dir = None, cf_llamacpp_url = ''http://localhost:8080'',
     cf_poll_interval = 5, cf_log_level = ''INFO'', cf_work_dir = home @ ''/.gpu-daemon/jobs'',
     cf_credentials_path = home @ ''/.gpu-daemon/credentials'', cf_api_key = None, cf_gpu_name = ''unknown'',
     cf_vram_gb = 0, cf_models = [], cf_runtime = [''ollama''], cf_inference_timeout = 300,
     cf_max_concurrent_prompts = 8, cf_heartbeat_interval = 30, cf_progress_interval_seconds = 5\<rparr>"

text \<open>\<open>Field(gt=0)\<close> and \<open>Field(ge=0)\<close>.\<close>

definition positive :: "(json \<Rightarrow> 'a::linordered_idom option) \<Rightarrow> json \<Rightarrow> 'a option" where
  "positive dec v = Option.bind (dec v) (\<lambda>x. if 0 < x then Some x else None)"

definition nonnegative :: "(json \<Rightarrow> 'a::linordered_idom option) \<Rightarrow> json \<Rightarrow> 'a option" where
  "nonnegative dec v = Option.bind (dec v) (\<lambda>x. if 0 \<le> x then Some x else None)"

text \<open>The validator of \<open>runtime\<close> sees the raw value. An element that is no string turns into a text that is no
  runtime's name, which is refused all the same.\<close>

definition runtime_arg_of :: "json \<Rightarrow> runtime_arg" where
  "runtime_arg_of v = (case v of
       JStr s \<Rightarrow> RtString s
     | JArr xs \<Rightarrow> (case those (map jstr xs) of Some ss \<Rightarrow> RtList ss | None \<Rightarrow> RtOther)
     | _ \<Rightarrow> RtOther)"

definition runtimes_of :: "json \<Rightarrow> string list option" where
  "runtimes_of v = (case validate_runtime (runtime_arg_of v) of Inl _ \<Rightarrow> None | Inr rts \<Rightarrow> Some rts)"

text \<open>A field of the object: its default when no layer has it. \<open>look\<close> reads the merged fields; None is a
  \<open>ValidationError\<close>.\<close>

definition config_field :: "(json \<Rightarrow> 'a option) \<Rightarrow> 'a \<Rightarrow> string \<Rightarrow> (string \<Rightarrow> json option) \<Rightarrow> 'a option" where
  "config_field dec dflt k look = (case look k of None \<Rightarrow> Some dflt | Some v \<Rightarrow> dec v)"

definition config_of :: "lax \<Rightarrow> daemon_config \<Rightarrow> (string \<Rightarrow> json option) \<Rightarrow> daemon_config option" where
  "config_of lx df look = do {
     wid \<leftarrow> config_field jstr (cf_worker_id df) ''worker_id'' look;
     url \<leftarrow> config_field jstr (cf_backend_url df) ''backend_url'' look;
     vurl \<leftarrow> config_field jstr (cf_vllm_url df) ''vllm_url'' look;
     hub \<leftarrow> config_field (nullable jstr) (cf_hf_hub_cache df) ''hf_hub_cache'' look;
     ourl \<leftarrow> config_field jstr (cf_ollama_url df) ''ollama_url'' look;
     odir \<leftarrow> config_field (nullable jstr) (cf_ollama_models_dir df) ''ollama_models_dir'' look;
     ldir \<leftarrow> config_field (nullable jstr) (cf_llamacpp_models_dir df) ''llamacpp_models_dir'' look;
     lurl \<leftarrow> config_field jstr (cf_llamacpp_url df) ''llamacpp_url'' look;
     poll \<leftarrow> config_field (positive (lx_int lx)) (cf_poll_interval df) ''poll_interval'' look;
     level \<leftarrow> config_field jstr (cf_log_level df) ''log_level'' look;
     dir \<leftarrow> config_field jstr (cf_work_dir df) ''work_dir'' look;
     cred \<leftarrow> config_field jstr (cf_credentials_path df) ''credentials_path'' look;
     key \<leftarrow> config_field (nullable jstr) (cf_api_key df) ''api_key'' look;
     gpu \<leftarrow> config_field jstr (cf_gpu_name df) ''gpu_name'' look;
     vram \<leftarrow> config_field (nonnegative (lx_float lx)) (cf_vram_gb df) ''vram_gb'' look;
     models \<leftarrow> config_field (list_of jstr) (cf_models df) ''models'' look;
     rts \<leftarrow> config_field runtimes_of (cf_runtime df) ''runtime'' look;
     timeout \<leftarrow> config_field (positive (lx_float lx)) (cf_inference_timeout df) ''inference_timeout'' look;
     conc \<leftarrow> config_field (positive (lx_int lx)) (cf_max_concurrent_prompts df) ''max_concurrent_prompts'' look;
     beat \<leftarrow> config_field (positive (lx_int lx)) (cf_heartbeat_interval df) ''heartbeat_interval'' look;
     prog \<leftarrow> config_field (positive (lx_float lx)) (cf_progress_interval_seconds df) ''progress_interval_seconds'' look;
     Some \<lparr>cf_worker_id = wid, cf_backend_url = url, cf_vllm_url = vurl, cf_hf_hub_cache = hub, cf_ollama_url = ourl,
       cf_ollama_models_dir = odir, cf_llamacpp_models_dir = ldir, cf_llamacpp_url = lurl, cf_poll_interval = poll,
       cf_log_level = level, cf_work_dir = dir, cf_credentials_path = cred, cf_api_key = key, cf_gpu_name = gpu,
       cf_vram_gb = vram, cf_models = models, cf_runtime = rts, cf_inference_timeout = timeout,
       cf_max_concurrent_prompts = conc, cf_heartbeat_interval = beat, cf_progress_interval_seconds = prog\<rparr> }"

text \<open>\<open>DaemonConfig.load\<close>: \<open>yaml\<close> is the file's mapping, None when no file is given or there is none.\<close>

definition load_config :: "lax \<Rightarrow> py_float \<Rightarrow> daemon_config \<Rightarrow> jdict option \<Rightarrow> (string \<Rightarrow> string option) \<Rightarrow> jdict \<Rightarrow>
    daemon_config option" where
  "load_config lx flt df yaml env cli = (case load_fields flt yaml env cli of
       Inl _ \<Rightarrow> None
     | Inr d \<Rightarrow> config_of lx df (map_of d))"

text \<open>\<open>from_yaml\<close> and \<open>from_env\<close>: one layer alone. A missing file raises.\<close>

definition config_from_yaml :: "lax \<Rightarrow> daemon_config \<Rightarrow> jdict option option \<Rightarrow> daemon_config option" where
  "config_from_yaml lx df file = Option.bind file (\<lambda>raw. config_of lx df (map_of (case raw of None \<Rightarrow> [] | Some d \<Rightarrow> d)))"

definition config_from_env :: "lax \<Rightarrow> py_float \<Rightarrow> daemon_config \<Rightarrow> (string \<Rightarrow> string option) \<Rightarrow> daemon_config option" where
  "config_from_env lx flt df env = (case read_env flt env of Inl _ \<Rightarrow> None | Inr d \<Rightarrow> config_of lx df (map_of d))"

section \<open>The reference: the first layer that has the field\<close>

definition env_value :: "py_float \<Rightarrow> (string \<Rightarrow> string option) \<Rightarrow> string \<Rightarrow> json option" where
  "env_value flt env k =
     (if k = ''models'' then (if truthy (env ''DAEMON_MODELS'') then Some (comma_list (the (env ''DAEMON_MODELS''))) else None)
      else if k = ''runtime'' then map_option comma_list (env ''DAEMON_RUNTIME'')
      else (case Option.bind (map_of env_map k) env of
          None \<Rightarrow> None
        | Some s \<Rightarrow> (case coerce_field flt k s of Inl _ \<Rightarrow> None | Inr v \<Rightarrow> Some v)))"

definition first_layer :: "py_float \<Rightarrow> jdict option \<Rightarrow> (string \<Rightarrow> string option) \<Rightarrow> cli_args \<Rightarrow> string \<Rightarrow> json option" where
  "first_layer flt yaml env args k =
     (if jget k (cli_mapping args) \<noteq> JNull then Some (jget k (cli_mapping args))
      else (case env_value flt env k of
          Some v \<Rightarrow> Some v
        | None \<Rightarrow> Option.bind yaml (\<lambda>y. map_of y k)))"

section \<open>Lemmas\<close>

lemma env_fields_value:
  "env_fields flt env m = Inr d \<Longrightarrow> distinct (map fst m) \<Longrightarrow>
   map_of d k = (case Option.bind (map_of m k) env of
       None \<Rightarrow> None
     | Some s \<Rightarrow> (case coerce_field flt k s of Inl _ \<Rightarrow> None | Inr v \<Rightarrow> Some v))"
proof (induction m arbitrary: d)
  case (Cons e m)
  obtain f v where e: "e = (f, v)" by (rule prod.exhaust)
  show ?case
  proof (cases "env v")
    case None
    moreover have "map_of m f = None" using Cons.prems(2) e by (simp add: map_of_eq_None_iff)
    ultimately show ?thesis using Cons e by auto
  next
    case (Some s)
    then obtain x d' where d: "env_fields flt env m = Inr d'" "d = (f, x) # d'" "coerce_field flt f s = Inr x"
      using Cons.prems(1) e by (auto simp: ebind_eq_Inr)
    then show ?thesis using Cons.IH [OF d(1)] Cons.prems(2) e Some by simp
  qed
qed simp

lemma read_env_value:
  assumes "read_env flt env = Inr e"
  shows "distinct (map fst e) \<and> map_of e k = env_value flt env k"
proof -
  obtain d where d: "env_fields flt env env_map = Inr d"
    "e = d @ (if truthy (env ''DAEMON_MODELS'') then [(''models'', comma_list (the (env ''DAEMON_MODELS'')))] else []) @
          (case env ''DAEMON_RUNTIME'' of None \<Rightarrow> [] | Some r \<Rightarrow> [(''runtime'', comma_list r)])"
    using assms by (auto simp: read_env_def ebind_eq_Inr)
  note keys = env_fields_keys [OF d(1) env_map_distinct(1)]
  have fresh: "''models'' \<notin> fst ` set d" "''runtime'' \<notin> fst ` set d" using keys env_map_distinct(2,3) by blast+
  then have dist: "distinct (map fst e)" using keys d(2) by (auto split: option.split)
  have none: "map_of d ''models'' = None" "map_of d ''runtime'' = None" using fresh by (simp_all add: map_of_eq_None_iff)
  have "map_of e k = env_value flt env k"
  proof (cases "k = ''models'' \<or> k = ''runtime''")
    case True
    then show ?thesis using none by (elim disjE) (simp_all add: d(2) env_value_def map_add_def split: option.split)
  next
    case False
    then show ?thesis using env_fields_value [OF d(1) env_map_distinct(1), of k]
      by (simp add: d(2) env_value_def map_add_def split: option.split)
  qed
  with dist show ?thesis by blast
qed

lemma cli_distinct: "distinct (map fst (cli_mapping a))"
  by (simp add: cli_mapping_def)

lemma map_of_filter_values: "distinct (map fst d) \<Longrightarrow> map_of (filter (\<lambda>e. P (snd e)) d) k =
   (case map_of d k of None \<Rightarrow> None | Some v \<Rightarrow> if P v then Some v else None)"
  by (induction d) (auto simp: map_of_eq_None_iff split: option.splits)

text \<open>The merged fields are, field by field, those of the first layer that has one.\<close>

lemma load_fields_layers:
  assumes "load_fields flt yaml env (build_cli_overrides args) = Inr d" "\<forall>y. yaml = Some y \<longrightarrow> distinct (map fst y)"
  shows "map_of d = first_layer flt yaml env args"
proof
  fix k
  obtain e where e: "read_env flt env = Inr e"
    "d = dict_update (cli_given (build_cli_overrides args)) (dict_update e (case yaml of None \<Rightarrow> [] | Some y \<Rightarrow> dict_update y []))"
    using assms(1) by (auto simp: load_fields_def ebind_eq_Inr)
  have cli: "cli_given (build_cli_overrides args) = build_cli_overrides args"
    by (simp add: cli_given_def build_cli_overrides_def)
  have dist: "distinct (map fst (build_cli_overrides args))"
    unfolding build_cli_overrides_def by (rule distinct_map_filter [OF cli_distinct])
  have given: "map_of (build_cli_overrides args) k = (if jget k (cli_mapping args) \<noteq> JNull then Some (jget k (cli_mapping args)) else None)"
    using map_of_filter_values [OF cli_distinct, of "\<lambda>v. v \<noteq> JNull" args k]
    by (auto simp: build_cli_overrides_def jget_def split: option.split)
  have yaml: "map_of (case yaml of None \<Rightarrow> [] | Some y \<Rightarrow> dict_update y []) k = Option.bind yaml (\<lambda>y. map_of y k)"
    using assms(2) by (auto simp: map_of_dict_update split: option.split)
  show "map_of d k = first_layer flt yaml env args k"
    using read_env_value [OF e(1), of k] given yaml
    by (auto simp: e(2) cli first_layer_def map_of_dict_update dist split: option.split)
qed

lemma config_fieldD:
  "config_field (positive dec) dflt k look = Some x \<Longrightarrow> 0 < dflt \<Longrightarrow> 0 < x"
  "config_field (nonnegative dec) dflt k look = Some x \<Longrightarrow> 0 \<le> dflt \<Longrightarrow> 0 \<le> x"
  by (auto simp: config_field_def positive_def nonnegative_def bind_eq_Some_conv split: option.splits if_splits)

lemma runtimes_of_SomeD:
  "runtimes_of v = Some rts \<Longrightarrow> rts \<noteq> [] \<and> distinct rts \<and> set rts \<subseteq> set known_runtimes"
proof -
  assume "runtimes_of v = Some rts"
  then have v: "validate_runtime (runtime_arg_of v) = Inr rts" by (simp add: runtimes_of_def split: sum.splits)
  then have "normalize_runtime (runtime_arg_of v) = Inr rts" by (auto simp: validate_runtime_def split: if_splits)
  then show ?thesis using normalize_runtime_Inr v by (auto simp: validate_runtime_def list_all_iff split: if_splits)
qed

text \<open>What the constructor guarantees of any configuration.\<close>

definition config_ok :: "daemon_config \<Rightarrow> bool" where
  "config_ok cfg \<longleftrightarrow> 0 < cf_poll_interval cfg \<and> 0 < cf_heartbeat_interval cfg \<and> 0 < cf_max_concurrent_prompts cfg \<and>
     0 \<le> cf_vram_gb cfg \<and> 0 < cf_inference_timeout cfg \<and> 0 < cf_progress_interval_seconds cfg \<and>
     cf_runtime cfg \<noteq> [] \<and> distinct (cf_runtime cfg) \<and> set (cf_runtime cfg) \<subseteq> set known_runtimes"

lemma config_of_ok:
  assumes "config_of lx df look = Some cfg" "config_ok df"
  shows "config_ok cfg"
proof -
  have num: "config_field (positive (lx_int lx)) (cf_poll_interval df) ''poll_interval'' look = Some (cf_poll_interval cfg)"
    "config_field (positive (lx_int lx)) (cf_heartbeat_interval df) ''heartbeat_interval'' look = Some (cf_heartbeat_interval cfg)"
    "config_field (positive (lx_int lx)) (cf_max_concurrent_prompts df) ''max_concurrent_prompts'' look = Some (cf_max_concurrent_prompts cfg)"
    "config_field (nonnegative (lx_float lx)) (cf_vram_gb df) ''vram_gb'' look = Some (cf_vram_gb cfg)"
    "config_field (positive (lx_float lx)) (cf_inference_timeout df) ''inference_timeout'' look = Some (cf_inference_timeout cfg)"
    "config_field (positive (lx_float lx)) (cf_progress_interval_seconds df) ''progress_interval_seconds'' look = Some (cf_progress_interval_seconds cfg)"
    and rt: "config_field runtimes_of (cf_runtime df) ''runtime'' look = Some (cf_runtime cfg)"
    using assms(1) by (auto simp: config_of_def bind_eq_Some_conv)
  have "cf_runtime cfg \<noteq> [] \<and> distinct (cf_runtime cfg) \<and> set (cf_runtime cfg) \<subseteq> set known_runtimes"
    using rt assms(2) runtimes_of_SomeD by (auto simp: config_field_def config_ok_def split: option.splits)
  moreover note num(1-3,5,6) [THEN config_fieldD(1)] num(4) [THEN config_fieldD(2)]
  ultimately show ?thesis using assms(2) by (simp add: config_ok_def)
qed

section \<open>Property\<close>

text \<open>C40: What the daemon is configured to do is well-defined and can be done. A loaded configuration takes each
  field, whatever its type, from the first layer that gives it - command line, environment, file - and else its
  default; its intervals, time-outs and concurrency are positive, the lent memory is not negative,
  the runtimes are at least one, pairwise different and known, and each of them gets its executor. (Its numbers are
  finite: the model has no \<open>inf\<close> or \<open>nan\<close>.)\<close>

theorem configuration_sound:
  assumes "load_config lx flt (default_config wid home) yaml env (build_cli_overrides args) = Some cfg"
    "\<forall>y. yaml = Some y \<longrightarrow> distinct (map fst y)"
  shows "config_of lx (default_config wid home) (first_layer flt yaml env args) = Some cfg \<and>
    0 < cf_poll_interval cfg \<and> 0 < cf_heartbeat_interval cfg \<and> 0 < cf_max_concurrent_prompts cfg \<and>
    0 \<le> cf_vram_gb cfg \<and> 0 < cf_inference_timeout cfg \<and> 0 < cf_progress_interval_seconds cfg \<and>
    cf_runtime cfg \<noteq> [] \<and> distinct (cf_runtime cfg) \<and> set (cf_runtime cfg) \<subseteq> {''ollama'', ''vllm'', ''llamacpp''} \<and>
    (\<exists>xs. create_executors (cf_models cfg) (cf_runtime cfg) (cf_runtime cfg) = Inr xs \<and> map fst xs = cf_runtime cfg)"
proof -
  obtain d where d: "load_fields flt yaml env (build_cli_overrides args) = Inr d" "config_of lx (default_config wid home) (map_of d) = Some cfg"
    using assms(1) by (auto simp: load_config_def split: sum.splits)
  then have layers: "config_of lx (default_config wid home) (first_layer flt yaml env args) = Some cfg"
    using load_fields_layers [OF d(1) assms(2)] by simp
  have "config_ok (default_config wid home)" by (simp add: config_ok_def default_config_def known_runtimes_def)
  then have ok: "config_ok cfg" using config_of_ok [OF d(2)] by blast
  then have "list_all (\<lambda>r. r \<in> set known_runtimes) (cf_runtime cfg)" by (auto simp: config_ok_def list_all_iff)
  then have "\<exists>xs. create_executors (cf_models cfg) (cf_runtime cfg) (cf_runtime cfg) = Inr xs \<and> map fst xs = cf_runtime cfg"
    by (rule create_executors_total)
  then show ?thesis using layers ok by (auto simp: config_ok_def known_runtimes_def)
qed

text \<open>A mixed node: the interval comes from the environment over the file, the runtimes from two flags.\<close>

definition sample_args :: cli_args where
  "sample_args = \<lparr>ca_config = None, ca_backend_url = None, ca_vllm_url = None, ca_ollama_url = None, ca_llamacpp_url = None,
     ca_worker_id = None, ca_poll_interval = None, ca_heartbeat_interval = Some 20, ca_log_level = None, ca_work_dir = None,
     ca_api_key = None, ca_gpu_name = None, ca_vram_gb = None, ca_models = None, ca_runtime = Some [[''vllm''], [''ollama'']],
     ca_inference_timeout = None, ca_max_concurrent_prompts = None\<rparr>"

definition sample_environ :: "string \<Rightarrow> string option" where
  "sample_environ v = (if v = ''DAEMON_POLL_INTERVAL'' then Some ''15'' else None)"

theorem configuration_sound_witness:
  "\<exists>cfg. load_config strict_lax (\<lambda>_. None) (default_config ''w'' ''/root'') (Some [(''poll_interval'', JInt 60), (''api_key'', JStr ''k'')])
      sample_environ (build_cli_overrides sample_args) = Some cfg \<and> 0 < cf_poll_interval cfg \<and>
    map_option cf_poll_interval (config_of strict_lax (default_config ''w'' ''/root'')
      (first_layer (\<lambda>_. None) (Some [(''poll_interval'', JInt 60), (''api_key'', JStr ''k'')]) sample_environ sample_args)) = Some 15 \<and>
    cf_runtime cfg = [''vllm'', ''ollama'']"
proof -
  let ?y = "Some [(''poll_interval'', JInt 60), (''api_key'', JStr ''k'')]"
  let ?c = "load_config strict_lax (\<lambda>_. None) (default_config ''w'' ''/root'') ?y sample_environ (build_cli_overrides sample_args)"
  have ev: "map_option (\<lambda>c. (cf_poll_interval c, cf_runtime c)) ?c = Some (15, [''vllm'', ''ollama''])" by code_simp
  then obtain cfg where c: "?c = Some cfg" "cf_poll_interval cfg = 15" "cf_runtime cfg = [''vllm'', ''ollama'']" by auto
  have "\<forall>y. ?y = Some y \<longrightarrow> distinct (map fst y)" by simp
  from configuration_sound [OF c(1) this] c show ?thesis by auto
qed

end
