(* ===== verification/Migrations.thy ===== *)
theory Migrations
  imports Data_Model
begin

text \<open>
  \<open>backend/migrations.py\<close> and the first lines of \<open>backend/main.py\<close>: how a start-up brings the schema of a
  deployed database up to the models. A schema is the list of its tables with the names of their columns,
  in order; column types are left to the database. The tables and columns of \<open>backend/models.py\<close> are
  written out as \<open>metadata\<close>.
\<close>

section \<open>Schemas\<close>

type_synonym schema = "(string \<times> string list) list"

definition columns_of :: "schema \<Rightarrow> string \<Rightarrow> string list" where
  "columns_of live t = (case map_of live t of None \<Rightarrow> [] | Some cs \<Rightarrow> cs)"

definition metadata :: schema where
  "metadata = [
     (''users'', [''id'', ''email'', ''password_hash'', ''full_name'', ''platform_role'', ''is_active'',
        ''must_change_password'', ''google_id'', ''auth_provider'', ''created_at'']),
     (''allowed_email_domains'', [''id'', ''domain'', ''include_subdomains'', ''note'', ''created_by_id'', ''created_at'']),
     (''organizations'', [''id'', ''name'', ''created_at'']),
     (''organization_memberships'', [''id'', ''org_id'', ''user_id'', ''role'', ''created_at'']),
     (''organization_invites'', [''id'', ''org_id'', ''inviter_id'', ''invitee_email'', ''invitee_user_id'', ''role'', ''token'',
        ''expires_at'', ''accepted'', ''created_at'']),
     (''api_keys'', [''id'', ''org_id'', ''key_type'', ''created_by_user_id'', ''name'', ''key_prefix'', ''key_hash'', ''status'',
        ''last_used_at'', ''expires_at'', ''created_at'', ''revoked_at'']),
     (''workers'', [''id'', ''org_id'', ''api_key_id'', ''hostname'', ''os'', ''cpu_cores'', ''ram_total_gb'',
        ''ram_available_gb'', ''status'', ''activity'', ''vram_total_gb'', ''vram_available_gb'',
        ''window_start_min'', ''window_end_min'', ''window_tz'', ''max_batch_prompts'', ''last_heartbeat'',
        ''created_at'']),
     (''worker_runtimes'', [''id'', ''worker_id'', ''engine'', ''base_url'', ''api_protocol'', ''capabilities'', ''version'', ''status'',
        ''empty_inventory_beats'', ''position'', ''max_concurrent_requests'', ''request_timeout_seconds'',
        ''created_at'', ''updated_at'']),
     (''runtime_models'', [''id'', ''runtime_id'', ''name'', ''runtime_model_id'', ''digest'', ''catalog_id'', ''status'', ''loaded'',
        ''details'', ''size_bytes'', ''files'', ''last_used_at'', ''created_at'', ''updated_at'']),
     (''worker_gpus'', [''id'', ''worker_id'', ''gpu_index'', ''vendor'', ''name'', ''vram_gb'', ''driver'', ''cuda'', ''rocm'',
        ''updated_at'']),
     (''model_catalog'', [''id'', ''display_name'', ''runtime'', ''runtime_model_id'', ''digest'', ''quantization'', ''vram_gb'',
        ''size_gb'', ''task_type'', ''parameter_size'', ''context_length'', ''capabilities'', ''lineage'',
        ''source_type'', ''source_ref'', ''source_revision'', ''homepage_url'', ''org_id'', ''status'', ''enabled'',
        ''created_at'', ''adopted_by'']),
     (''serving_profiles'', [''id'', ''catalog_id'', ''runtime'', ''runtime_model_id'', ''runtime_model_ids'', ''params'', ''created_at'',
        ''updated_at'']),
     (''catalog_artifact_files'', [''id'', ''catalog_id'', ''file'', ''role'', ''sha256'', ''size_bytes'', ''created_at'']),
     (''files'', [''id'', ''user_id'', ''filename'', ''purpose'', ''bytes'', ''filepath'', ''created_at'']),
     (''batches'', [''id'', ''user_id'', ''api_key_id'', ''endpoint'', ''model'', ''input_file_id'', ''completion_window'',
        ''status'', ''output_file_id'', ''error_file_id'', ''created_at'', ''expires_at'', ''requested_at'',
        ''completed_at'', ''request_counts_total'', ''request_counts_completed'', ''request_counts_failed'',
        ''error_details'', ''attempts'', ''metadata'', ''required_capabilities'', ''prompt_tokens'',
        ''completion_tokens'', ''total_tokens'', ''usage_ingestion_pending'', ''usage_ingestion_attempts'']),
     (''usage_records'', [''id'', ''batch_id'', ''custom_id'', ''model'', ''prompt_tokens'', ''completion_tokens'', ''total_tokens'',
        ''created_at'']),
     (''batch_assignments'', [''batch_id'', ''worker_id'', ''org_id'', ''worker_hostname'', ''assigned_at'']),
     (''password_reset_tokens'', [''id'', ''user_id'', ''token'', ''expires_at'', ''used'', ''created_at''])]"

text \<open>\<open>Base.metadata.create_all\<close> makes the tables that are missing and leaves the others as they are.\<close>

definition create_all :: "schema \<Rightarrow> schema" where
  "create_all live = live @ filter (\<lambda>(t, cs). t \<notin> fst ` set live) metadata"

section \<open>Migrations\<close>

datatype migration = Migration (mg_table: string) (mg_column: string)

datatype dialect = Postgres | Sqlite

definition migrations :: "migration list" where
  "migrations = [
     Migration ''batches'' ''prompt_tokens'', Migration ''batches'' ''completion_tokens'',
     Migration ''batches'' ''total_tokens'', Migration ''batch_assignments'' ''org_id'',
     Migration ''batch_assignments'' ''worker_hostname'', Migration ''batches'' ''metadata'',
     Migration ''worker_runtimes'' ''capabilities'', Migration ''worker_runtimes'' ''version'',
     Migration ''worker_runtimes'' ''empty_inventory_beats'', Migration ''batches'' ''required_capabilities'',
     Migration ''model_catalog'' ''capabilities'', Migration ''model_catalog'' ''lineage'',
     Migration ''runtime_models'' ''catalog_id'', Migration ''runtime_models'' ''details'',
     Migration ''runtime_models'' ''size_bytes'', Migration ''model_catalog'' ''adopted_by'',
     Migration ''runtime_models'' ''files'', Migration ''serving_profiles'' ''runtime_model_ids'',
     Migration ''worker_runtimes'' ''position'', Migration ''workers'' ''ram_available_gb'',
     Migration ''workers'' ''window_start_min'', Migration ''workers'' ''window_end_min'',
     Migration ''workers'' ''window_tz'', Migration ''workers'' ''max_batch_prompts'',
     Migration ''batches'' ''usage_ingestion_pending'', Migration ''batches'' ''usage_ingestion_attempts'']"

definition add_column :: "migration \<Rightarrow> schema \<Rightarrow> schema" where
  "add_column m live = map (\<lambda>(t, cs). if t = mg_table m then (t, cs @ [mg_column m]) else (t, cs)) live"

text \<open>One migration; \<open>seen\<close> are the columns that SQLite's check read before the statement runs. None: the
  statement fails, since the column exists.\<close>

definition apply_migration :: "dialect \<Rightarrow> string list \<Rightarrow> migration \<Rightarrow> schema \<Rightarrow> schema option" where
  "apply_migration d seen m live =
     (let present = mg_column m \<in> set (columns_of live (mg_table m)) in
      case d of
        Postgres \<Rightarrow> Some (if present then live else add_column m live)
      | Sqlite \<Rightarrow> if mg_column m \<in> set seen then Some live
          else if present then None else Some (add_column m live))"

datatype schema_error = MigrationFailed string | SchemaDrift "string list" "string list"

definition dotted :: "string \<Rightarrow> string \<Rightarrow> string" where
  "dotted t c = t @ CHR ''.'' # c"

text \<open>The migrations of the existing tables, each in a transaction of its own; the first that fails ends the
  start-up. \<open>fails\<close>: whether the database refuses the statement for a reason of its own.\<close>

fun ensure_columns :: "dialect \<Rightarrow> (migration \<Rightarrow> bool) \<Rightarrow> string list \<Rightarrow> migration list \<Rightarrow> schema \<Rightarrow>
    schema_error option \<times> schema" where
  "ensure_columns d fails tables [] live = (None, live)"
| "ensure_columns d fails tables (m # ms) live =
     (if mg_table m \<notin> set tables then ensure_columns d fails tables ms live
      else (case if fails m then None else apply_migration d (columns_of live (mg_table m)) m live of
          None \<Rightarrow> (Some (MigrationFailed (dotted (mg_table m) (mg_column m))), live)
        | Some live' \<Rightarrow> ensure_columns d fails tables ms live'))"

definition schema_drift :: "schema \<Rightarrow> string list \<times> string list" where
  "schema_drift live =
     (sort (map fst (filter (\<lambda>(t, cs). t \<notin> fst ` set live) metadata)),
      sort (concat (map (\<lambda>(t, cs). map (dotted t) (filter (\<lambda>c. c \<notin> set (columns_of live t)) cs))
        (filter (\<lambda>(t, cs). t \<in> fst ` set live) metadata))))"

definition verify_schema :: "schema \<Rightarrow> schema_error + unit" where
  "verify_schema live = (case schema_drift live of
       (missing_tables, missing_columns) \<Rightarrow>
         if missing_tables = [] \<and> missing_columns = [] then Inr ()
         else Inl (SchemaDrift missing_tables missing_columns))"

definition ensure_schema :: "dialect \<Rightarrow> (migration \<Rightarrow> bool) \<Rightarrow> schema \<Rightarrow> (schema_error + unit) \<times> schema" where
  "ensure_schema d fails live = (case ensure_columns d fails (map fst live) migrations live of
       (Some err, live') \<Rightarrow> (Inl err, live')
     | (None, live') \<Rightarrow> (verify_schema live', live'))"

text \<open>The start-up: \<open>create_all\<close>, then \<open>ensure_schema\<close>.\<close>

definition boot_schema :: "dialect \<Rightarrow> (migration \<Rightarrow> bool) \<Rightarrow> schema \<Rightarrow> (schema_error + unit) \<times> schema" where
  "boot_schema d fails live = ensure_schema d fails (create_all live)"

section \<open>Lemmas\<close>

definition put_column :: "migration \<Rightarrow> schema \<Rightarrow> schema" where
  "put_column m live = (if mg_column m \<in> set (columns_of live (mg_table m)) then live else add_column m live)"

lemma columns_add [simp]: "columns_of (add_column m live) t =
   (if t = mg_table m \<and> t \<in> fst ` set live then columns_of live t @ [mg_column m] else columns_of live t)"
proof -
  have m: "map_of (add_column m live) t = map_option (\<lambda>cs. if t = mg_table m then cs @ [mg_column m] else cs) (map_of live t)"
    by (induction live) (auto simp: add_column_def)
  show ?thesis
  proof (cases "map_of live t")
    case None
    then have "t \<notin> fst ` set live" by (simp add: map_of_eq_None_iff)
    then show ?thesis using None by (simp add: columns_of_def m)
  next
    case (Some cs)
    then have "t \<in> fst ` set live" by (force dest: map_of_SomeD)
    then show ?thesis using Some by (auto simp: columns_of_def m)
  qed
qed

lemma tables_add [simp]: "map fst (add_column m live) = map fst live"
  by (induction live) (auto simp: add_column_def)

lemma tables_put [simp]: "map fst (put_column m live) = map fst live"
  by (simp add: put_column_def)

lemma apply_fresh: "apply_migration d (columns_of live (mg_table m)) m live = Some (put_column m live)"
  by (cases d) (simp_all add: apply_migration_def put_column_def)

text \<open>Racing starts on Postgres: whatever was read before, the statement succeeds.\<close>

lemma postgres_never_fails: "apply_migration Postgres seen m live = Some (put_column m live)"
  by (simp add: apply_migration_def put_column_def)

lemma ensure_columns_fold:
  "ensure_columns d (\<lambda>_. False) tables ms live = (None, fold put_column (filter (\<lambda>m. mg_table m \<in> set tables) ms) live)"
  by (induction ms arbitrary: live) (auto simp: apply_fresh)

lemma put_prefix: "prefix (columns_of live t) (columns_of (put_column m live) t)"
  by (simp add: put_column_def)

lemma puts_frame:
  "prefix (columns_of live t) (columns_of (fold put_column ms live) t) \<and> map fst (fold put_column ms live) = map fst live"
proof (induction ms arbitrary: live)
  case (Cons m ms)
  have "prefix (columns_of live t) (columns_of (fold put_column ms (put_column m live)) t)"
    using prefix_order.trans [OF put_prefix] Cons.IH by blast
  then show ?case using Cons.IH [of "put_column m live"] by simp
qed simp

lemma puts_present:
  "m \<in> set ms \<Longrightarrow> mg_table m \<in> fst ` set live \<Longrightarrow> mg_column m \<in> set (columns_of (fold put_column ms live) (mg_table m))"
proof (induction ms arbitrary: live)
  case (Cons x ms)
  have tabs: "fst ` set (put_column x live) = fst ` set live"
    by (metis tables_put list.set_map)
  show ?case
  proof (cases "m = x")
    case True
    have "mg_column m \<in> set (columns_of (put_column m live) (mg_table m))"
      using Cons.prems(2) by (simp add: put_column_def)
    then show ?thesis using True puts_frame [of "put_column m live" "mg_table m" ms] by (auto dest: set_mono_prefix)
  next
    case False
    then show ?thesis using Cons.IH [of "put_column x live"] Cons.prems tabs by simp
  qed
qed simp

lemma puts_idle: "\<forall>m \<in> set ms. mg_column m \<in> set (columns_of live (mg_table m)) \<Longrightarrow> fold put_column ms live = live"
  by (induction ms) (simp_all add: put_column_def)

lemma verify_ok: "verify_schema live = Inr () \<longleftrightarrow>
  list_all (\<lambda>(t, cs). t \<in> fst ` set live \<and> set cs \<subseteq> set (columns_of live t)) metadata"
proof -
  have nil: "sort xs = [] \<longleftrightarrow> xs = []" for xs :: "string list"
    by (metis length_0_conv length_sort)
  have "map fst (filter (\<lambda>(t, cs). t \<notin> fst ` set live) xs) = [] \<and>
      concat (map (\<lambda>(t, cs). map (dotted t) (filter (\<lambda>c. c \<notin> set (columns_of live t)) cs))
        (filter (\<lambda>(t, cs). t \<in> fst ` set live) xs)) = [] \<longleftrightarrow>
      list_all (\<lambda>(t, cs). t \<in> fst ` set live \<and> set cs \<subseteq> set (columns_of live t)) xs" for xs :: schema
    by (induction xs) (auto simp: filter_empty_conv)
  then have "schema_drift live = ([], []) \<longleftrightarrow>
      list_all (\<lambda>(t, cs). t \<in> fst ` set live \<and> set cs \<subseteq> set (columns_of live t)) metadata"
    unfolding schema_drift_def prod.inject nil .
  then show ?thesis by (auto simp: verify_schema_def split: prod.split)
qed

lemma create_all_tables: "fst ` set metadata \<subseteq> fst ` set (create_all live)"
proof
  fix t
  assume "t \<in> fst ` set metadata"
  then obtain cs where "(t, cs) \<in> set metadata" by auto
  then show "t \<in> fst ` set (create_all live)"
    by (cases "t \<in> fst ` set live") (force simp: create_all_def)+
qed

lemma create_all_columns:
  "columns_of (create_all live) t = (if t \<in> fst ` set live then columns_of live t else columns_of metadata t)"
proof -
  have gone: "map_of (filter (\<lambda>(u, cs). u \<notin> S) xs) t = (if t \<in> S then None else map_of xs t)"
    for S and xs :: schema
    by (induction xs) auto
  have "t \<in> fst ` set live \<longleftrightarrow> map_of live t \<noteq> None" by (simp add: map_of_eq_None_iff)
  then show ?thesis
    by (cases "map_of live t") (simp_all add: columns_of_def create_all_def map_add_def gone)
qed

lemma metadata_distinct: "distinct (map fst metadata)"
  by code_simp

lemma metadata_columns: "(t, cs) \<in> set metadata \<Longrightarrow> columns_of metadata t = cs"
  using metadata_distinct by (simp add: columns_of_def)

text \<open>Every migration adds a column that the models declare.\<close>

lemma migrations_declared: "list_all (\<lambda>m. mg_column m \<in> set (columns_of metadata (mg_table m))) migrations"
  by code_simp

lemma ensure_columns_adds:
  "ensure_columns d fails tables ms live = (r, live') \<Longrightarrow> map fst live' = map fst live \<and>
   set (columns_of live' t) \<subseteq> set (columns_of live t) \<union> {c. Migration t c \<in> set ms}"
proof (induction ms arbitrary: live)
  case (Cons m ms)
  show ?case
  proof (cases "mg_table m \<in> set tables \<and> \<not> fails m")
    case True
    then have "ensure_columns d fails tables ms (put_column m live) = (r, live')"
      using Cons.prems by (simp add: apply_fresh)
    moreover have "set (columns_of (put_column m live) t) \<subseteq> set (columns_of live t) \<union> {c. Migration t c = m}"
      by (cases m) (auto simp: put_column_def)
    ultimately show ?thesis using Cons.IH [of "put_column m live"] by fastforce
  next
    case False
    then have "live' = live \<or> ensure_columns d fails tables ms live = (r, live')"
      using Cons.prems by (auto split: if_splits)
    then show ?thesis using Cons.IH [of live] by auto
  qed
qed simp

definition up_to_date :: "schema \<Rightarrow> bool" where
  "up_to_date live = list_all (\<lambda>(t, cs). t \<in> fst ` set live \<and> set cs \<subseteq> set (columns_of live t)) metadata"

text \<open>What a deployed table lacks is what a migration adds.\<close>

definition upgradable :: "schema \<Rightarrow> bool" where
  "upgradable live = list_all (\<lambda>(t, cs). t \<notin> fst ` set live \<or>
     list_all (\<lambda>c. c \<in> set (columns_of live t) \<or> Migration t c \<in> set migrations) cs) metadata"

lemma upgradable_column:
  "upgradable live \<Longrightarrow> (t, cs) \<in> set metadata \<Longrightarrow> c \<in> set cs \<Longrightarrow>
   c \<in> set (columns_of (create_all live) t) \<or> Migration t c \<in> set migrations"
  using metadata_columns [of t cs] by (auto simp: upgradable_def list_all_iff create_all_columns)

lemma boot_result:
  assumes "upgradable live"
  defines "live' \<equiv> fold put_column (filter (\<lambda>m. mg_table m \<in> fst ` set (create_all live)) migrations) (create_all live)"
  shows "boot_schema d (\<lambda>_. False) live = (Inr (), live')" "up_to_date live'"
    "boot_schema d (\<lambda>_. False) live' = (Inr (), live')"
proof -
  let ?ms = "filter (\<lambda>m. mg_table m \<in> fst ` set (create_all live)) migrations"
  have tabs: "fst ` set live' = fst ` set (create_all live)"
    using puts_frame [of "create_all live" _ ?ms] unfolding live'_def by (metis list.set_map)
  have col: "c \<in> set (columns_of live' t)" if "(t, cs) \<in> set metadata" "c \<in> set cs" for t cs c
    using upgradable_column [OF assms(1) that]
  proof
    assume "c \<in> set (columns_of (create_all live) t)"
    then show ?thesis using puts_frame [of "create_all live" t ?ms] unfolding live'_def by (auto dest: set_mono_prefix)
  next
    assume "Migration t c \<in> set migrations"
    moreover have "t \<in> fst ` set (create_all live)" using create_all_tables that(1) by force
    ultimately show ?thesis using puts_present [of "Migration t c" ?ms "create_all live"] unfolding live'_def by simp
  qed
  have meta: "fst ` set metadata \<subseteq> fst ` set live'" using create_all_tables tabs by blast
  then show ok: "up_to_date live'" using col by (force simp: up_to_date_def list_all_iff)
  show "boot_schema d (\<lambda>_. False) live = (Inr (), live')"
    using ok verify_ok [of live'] unfolding live'_def
    by (simp add: boot_schema_def ensure_schema_def ensure_columns_fold up_to_date_def)
  have same: "create_all live' = live'" using meta by (force simp: create_all_def filter_empty_conv)
  have "mg_column m \<in> set (columns_of live' (mg_table m))" if "m \<in> set ?ms" for m
    using puts_present [OF that] that unfolding live'_def by simp
  then have "fold put_column ?ms live' = live'" by (intro puts_idle) blast
  then have "ensure_columns d (\<lambda>_. False) (map fst live') migrations live' = (None, live')"
    using tabs by (simp add: ensure_columns_fold)
  then show "boot_schema d (\<lambda>_. False) live' = (Inr (), live')"
    using ok verify_ok [of live'] by (simp add: boot_schema_def ensure_schema_def same up_to_date_def)
qed

section \<open>Property\<close>

text \<open>C23: A start-up brings an older database up to the models, or does not come up. When every column that a
  deployed table lacks has its migration, the start-up succeeds on either dialect, the schema after it has
  every table and column that the models declare, each table's new columns follow the ones it had, and
  starting again changes nothing. When one has none, no start-up succeeds, whatever the database
  does, so no process serves requests over a schema behind the models.\<close>

theorem boot_upgrades_schema:
  "if upgradable live
   then \<exists>live'. boot_schema d (\<lambda>_. False) live = (Inr (), live') \<and> up_to_date live' \<and>
       list_all (\<lambda>(t, cs). prefix (columns_of live t) (columns_of live' t)) live \<and>
       boot_schema d (\<lambda>_. False) live' = (Inr (), live')
   else isl (fst (boot_schema d fails live))"
proof (cases "upgradable live")
  case True
  have "prefix (columns_of live t) (columns_of (fold put_column ms (create_all live)) t)" if "t \<in> fst ` set live" for t ms
    using puts_frame [of "create_all live" t ms] that by (simp add: create_all_columns)
  then have "list_all (\<lambda>(t, cs). prefix (columns_of live t) (columns_of (fold put_column ms (create_all live)) t)) live" for ms
    by (force simp: list_all_iff)
  then show ?thesis using True boot_result [OF True] by (simp only: if_True) blast
next
  case False
  then obtain t cs c where c: "(t, cs) \<in> set metadata" "t \<in> fst ` set live" "c \<in> set cs" "c \<notin> set (columns_of live t)"
    "Migration t c \<notin> set migrations" by (auto simp: upgradable_def list_all_iff)
  obtain r live' where run: "ensure_columns d fails (map fst (create_all live)) migrations (create_all live) = (r, live')"
    by (rule prod.exhaust)
  have "c \<notin> set (columns_of live' t)"
    using ensure_columns_adds [OF run, of t] c(2,4,5) by (auto simp: create_all_columns)
  then have "verify_schema live' \<noteq> Inr ()" using c(1,3) by (auto simp: verify_ok list_all_iff)
  then have "isl (fst (boot_schema d fails live))"
    using run by (cases "verify_schema live'") (auto simp: boot_schema_def ensure_schema_def split: option.split)
  then show ?thesis using False by simp
qed

text \<open>Two tables as an older database has them: no token counts, no metadata, no outbox.\<close>

definition first_release :: schema where
  "first_release = [(''organizations'', [''id'', ''name'', ''created_at'']),
     (''batches'', [''id'', ''user_id'', ''api_key_id'', ''endpoint'', ''model'', ''input_file_id'', ''completion_window'',
       ''status'', ''output_file_id'', ''error_file_id'', ''created_at'', ''expires_at'', ''requested_at'', ''completed_at'',
       ''request_counts_total'', ''request_counts_completed'', ''request_counts_failed'', ''error_details'', ''attempts''])]"

theorem boot_upgrades_schema_witness:
  "upgradable first_release \<and> (\<exists>live'. boot_schema Sqlite (\<lambda>_. False) first_release = (Inr (), live') \<and> up_to_date live') \<and>
   isl (fst (boot_schema Postgres (\<lambda>_. False) [(''organizations'', [''id''])]))"
proof -
  have u: "upgradable first_release" "\<not> upgradable [(''organizations'', [''id''])]" by code_simp+
  show ?thesis
    using boot_upgrades_schema [of first_release Sqlite "\<lambda>_. False"]
      boot_upgrades_schema [of "[(''organizations'', [''id''])]" Postgres "\<lambda>_. False"] u by auto
qed

end
