(* ===== verification/Boot.thy ===== *)
theory Boot
  imports Startup Catalog_Seed Migrations
begin

text \<open>
  The start of the control plane as \<open>backend/main.py\<close> strings it together: the engine of
  \<open>backend/database.py\<close>, the schema, the seeding of the catalogue, the origins of the CORS middleware, and the
  start-up handlers in the order they are registered. The schema and the rows of one database are two
  arguments, as the theories of the parts have them. Creating the engine connects to nothing, but raises for a URL that
  SQLAlchemy cannot parse or has no driver for (\<open>creates\<close>);
  the sweeper's task is created between the handlers and takes its first turn after them.
\<close>

section \<open>The engine and its sessions\<close>

text \<open>The two globals of the module: the URL of the engine that was built, and that of the factory's
  engine. An unset or empty \<open>DATABASE_URL\<close> raises.\<close>

record db_module =
  dm_engine :: "string option"
  dm_factory :: "string option"

definition no_engine :: db_module where
  "no_engine = \<lparr>dm_engine = None, dm_factory = None\<rparr>"

datatype boot_error = NoDatabaseUrl | BadDatabaseUrl | SchemaFailed schema_error | SeedFailed seed_error

definition database_url :: "string option \<Rightarrow> boot_error + string" where
  "database_url env = (if truthy env then Inr (the env) else Inl NoDatabaseUrl)"

definition get_engine :: "(string \<Rightarrow> bool) \<Rightarrow> string option \<Rightarrow> db_module \<Rightarrow> boot_error + string \<times> db_module" where
  "get_engine creates env m = (case dm_engine m of
       Some e \<Rightarrow> Inr (e, m)
     | None \<Rightarrow> ebind (database_url env) (\<lambda>url.
         if creates url then Inr (url, m\<lparr>dm_engine := Some url\<rparr>) else Inl BadDatabaseUrl))"

text \<open>The database a new session is on.\<close>

definition open_session :: "(string \<Rightarrow> bool) \<Rightarrow> string option \<Rightarrow> db_module \<Rightarrow> boot_error + string \<times> db_module" where
  "open_session creates env m = (case dm_factory m of
       Some e \<Rightarrow> Inr (e, m)
     | None \<Rightarrow> ebind (get_engine creates env m) (\<lambda>(e, m1). Inr (e, m1\<lparr>dm_factory := Some e\<rparr>)))"

section \<open>Cross-origin requests\<close>

definition cors_origins :: "string option \<Rightarrow> string list" where
  "cors_origins setting =
     (let os = filter (\<lambda>o1. o1 \<noteq> []) (map strip (split_on (CHR '','') (case setting of None \<Rightarrow> ''*'' | Some s \<Rightarrow> s)))
      in if os = [] then [''*''] else os)"

definition allow_credentials :: "string option \<Rightarrow> bool" where
  "allow_credentials setting \<longleftrightarrow> ''*'' \<notin> set (cors_origins setting)"

section \<open>The start\<close>

text \<open>\<open>be_manifest\<close> is empty when there is no manifest file.\<close>

record boot_env =
  be_url :: "string option"
  be_creates :: "string \<Rightarrow> bool"
  be_dialect :: dialect
  be_fails :: "migration \<Rightarrow> bool"
  be_manifest :: "manifest_entry option list"
  be_loads :: loads
  be_bhash :: "nat list \<Rightarrow> string"
  be_ids :: fresh_ids
  be_now :: seconds

text \<open>The handlers run at start-up; none of them ends the start.\<close>

definition startup_handlers :: "('b) boot_env_scheme \<Rightarrow> srv \<Rightarrow> srv" where
  "startup_handlers env db =
     create_default_admin (be_bhash env) (be_ids env) (be_now env) (snd (backfill_required_capabilities (be_loads env) db))"

text \<open>What the process serves from, or what ended it, and the schema and rows of the database. The schema
  changes of a start that fails stay.\<close>

definition boot :: "('b) boot_env_scheme \<Rightarrow> db_module \<Rightarrow> schema \<times> srv \<Rightarrow> (boot_error + db_module) \<times> schema \<times> srv" where
  "boot env m s = (case s of (live, db) \<Rightarrow>
     case get_engine (be_creates env) (be_url env) m of
       Inl e \<Rightarrow> (Inl e, live, db)
     | Inr (_, m1) \<Rightarrow> (case boot_schema (be_dialect env) (be_fails env) live of
           (Inl e, live1) \<Rightarrow> (Inl (SchemaFailed e), live1, db)
         | (Inr _, live1) \<Rightarrow> (case seed_model_catalog (be_manifest env) db of
               (Inl e, db1) \<Rightarrow> (Inl (SeedFailed e), live1, db1)
             | (Inr _, db1) \<Rightarrow> (case open_session (be_creates env) (be_url env) m1 of
                   Inl e \<Rightarrow> (Inl e, live1, db1)
                 | Inr (_, m2) \<Rightarrow> (Inr m2, live1, startup_handlers env db1)))))"

section \<open>Lemmas\<close>

text \<open>The session is always on the first engine, whatever the environment says later.\<close>

definition one_engine :: "db_module \<Rightarrow> bool" where
  "one_engine m \<longleftrightarrow> (dm_factory m \<noteq> None \<longrightarrow> dm_engine m = dm_factory m)"

lemma get_engine_kept:
  "get_engine creates env m = Inr (url, m') \<Longrightarrow> one_engine m \<Longrightarrow>
   dm_engine m' = Some url \<and> one_engine m' \<and> (\<forall>env'. get_engine creates env' m' = Inr (url, m'))"
  by (auto simp: get_engine_def one_engine_def ebind_eq_Inr split: option.splits if_splits)

lemma open_session_kept:
  "open_session creates env m = Inr (url, m') \<Longrightarrow> one_engine m \<Longrightarrow>
   dm_engine m' = Some url \<and> one_engine m' \<and> (\<forall>env'. open_session creates env' m' = Inr (url, m'))"
  by (auto simp: open_session_def one_engine_def ebind_eq_Inr dest!: get_engine_kept split: option.splits)

lemma cors_safe: "cors_origins setting \<noteq> [] \<and> \<not> (''*'' \<in> set (cors_origins setting) \<and> allow_credentials setting)"
  by (simp add: cors_origins_def allow_credentials_def Let_def)

text \<open>The stamp: a row is passed over when its file is not there, and stamped otherwise.\<close>

definition stampable :: "srv \<Rightarrow> batch \<Rightarrow> bool" where
  "stampable db b \<longleftrightarrow> (case get_file_row db (b_input_file_id b) of
       None \<Rightarrow> False | Some f \<Rightarrow> f_filepath f \<noteq> [] \<and> disk db (f_filepath f) \<noteq> None)"

definition unstamped :: "srv \<Rightarrow> batch list" where
  "unstamped db = filter (\<lambda>b. b_status b = Validated \<and> b_required_capabilities b = None) (batches db)"

text \<open>Every row of that id says what it needs.\<close>

definition stamped :: "string \<Rightarrow> srv \<Rightarrow> bool" where
  "stamped i db \<longleftrightarrow> (\<forall>b \<in> set (batches db). b_id b = i \<longrightarrow> b_required_capabilities b \<noteq> None)"

lemma stampable_batches [simp]: "stampable (db\<lparr>batches := bs\<rparr>) b = stampable db b"
  by (simp add: stampable_def split: option.split)

definition with_needs :: "string list \<Rightarrow> batch \<Rightarrow> batch" where
  "with_needs needs b = b\<lparr>b_required_capabilities := Some needs\<rparr>"

lemma with_needs_simps [simp]:
  "b_id (with_needs needs b) = b_id b" "b_required_capabilities (with_needs needs b) = Some needs"
  by (simp_all add: with_needs_def)

lemma stamp_row:
  assumes "b \<in> set (batches (upd_batch i (with_needs needs) db))"
  obtains c where "c \<in> set (batches db)" "b_id c = b_id b" "b = (if b_id b = i then with_needs needs c else c)"
proof -
  have "batches (upd_batch i (with_needs needs) db) = map (\<lambda>c. if b_id c = i then with_needs needs c else c) (batches db)"
    by (simp add: upd_batch_def tbl_upd_def)
  then obtain c where "c \<in> set (batches db)" "b = (if b_id c = i then with_needs needs c else c)"
    using assms by (simp only: set_map image_iff) blast
  moreover then have "b_id c = b_id b" by (metis with_needs_simps(1))
  ultimately show thesis using that by metis
qed

lemma stamp_one:
  "stamped i (upd_batch i (with_needs needs) db)"
  "stamped j db \<Longrightarrow> stamped j (upd_batch i (with_needs needs) db)"
  "b \<in> set (batches (upd_batch i (with_needs needs) db)) \<Longrightarrow>
   b \<in> set (batches db) \<or> b_required_capabilities b \<noteq> None"
  unfolding stamped_def by (metis stamp_row with_needs_simps(2) option.distinct(1))+

lemma stamp_rows:
  "backfill_rows loads bs db = (Inr db', n) \<Longrightarrow> (\<exists>bs'. db' = db\<lparr>batches := bs'\<rparr>) \<and>
   (\<forall>b \<in> set (batches db'). b \<in> set (batches db) \<or> b_required_capabilities b \<noteq> None) \<and>
   (\<forall>i. stamped i db \<longrightarrow> stamped i db') \<and> (\<forall>b \<in> set bs. stampable db b \<longrightarrow> stamped (b_id b) db')"
proof (induction bs arbitrary: db n)
  case (Cons b bs)
  show ?case
  proof (cases "stampable db b")
    case False
    then have "backfill_rows loads bs db = (Inr db', n)"
      using Cons.prems by (auto simp: stampable_def split: option.splits if_splits)
    from Cons.IH [OF this] False show ?thesis by auto
  next
    case True
    then obtain needs k where rest:
      "backfill_rows loads bs (upd_batch (b_id b) (with_needs needs) db) = (Inr db', k)"
      using Cons.prems True by (auto simp: stampable_def with_needs_def [abs_def] split: option.splits if_splits sum.splits prod.splits)
    let ?d = "upd_batch (b_id b) (with_needs needs) db"
    have d: "?d = db\<lparr>batches := batches ?d\<rparr>" by (simp add: upd_batch_def)
    have "stampable ?d c = stampable db c" for c by (subst d) simp
    note ih = Cons.IH [OF rest]
    then obtain bs' where "db' = ?d\<lparr>batches := bs'\<rparr>" by blast
    also have "\<dots> = db\<lparr>batches := bs'\<rparr>" by (simp add: upd_batch_def)
    finally have frame: "db' = db\<lparr>batches := bs'\<rparr>" .
    have "stampable ?d c = stampable db c" for c by (subst d) simp
    then have "\<forall>c \<in> set (b # bs). stampable db c \<longrightarrow> stamped (b_id c) db'"
      using ih stamp_one(1) [of "b_id b" needs db] by simp
    moreover have "\<forall>i. stamped i db \<longrightarrow> stamped i db'" using ih stamp_one(2) by blast
    moreover have "\<forall>c \<in> set (batches db'). c \<in> set (batches db) \<or> b_required_capabilities c \<noteq> None"
      using ih stamp_one(3) by blast
    ultimately show ?thesis using frame by blast
  qed
qed (auto intro: exI [of _ "batches db'"])

lemma stamp_idle: "list_all (\<lambda>b. \<not> stampable db b) bs \<Longrightarrow> backfill_rows loads bs db = (Inr db, 0)"
  by (induction bs) (auto simp: stampable_def split: option.splits)

lemma backfill_settles:
  fixes loads :: loads
  defines "stamp \<equiv> \<lambda>db. snd (backfill_required_capabilities loads db)"
  shows "\<exists>bs. stamp db = db\<lparr>batches := bs\<rparr>" "stamp (stamp db) = stamp db"
    "stamp db = db \<or> (\<forall>b \<in> set (unstamped (stamp db)). \<not> stampable (stamp db) b)"
proof -
  consider (failed) n where "stamp db = db" "backfill_required_capabilities loads db = (n, db)"
    | (ran) n where "backfill_rows loads (unstamped db) db = (Inr (stamp db), n)"
  proof (cases "backfill_rows loads (unstamped db) db")
    case (Pair res n)
    then show thesis
      using that by (cases res) (auto simp: stamp_def backfill_required_capabilities_def unstamped_def)
  qed
  then have all: "(\<exists>bs. stamp db = db\<lparr>batches := bs\<rparr>) \<and> stamp (stamp db) = stamp db \<and>
      (stamp db = db \<or> (\<forall>b \<in> set (unstamped (stamp db)). \<not> stampable (stamp db) b))"
  proof cases
    case failed
    then show ?thesis by (metis srv.surjective srv.update_convs(9))
  next
    case ran
    note s = stamp_rows [OF ran]
    then obtain bs where bs: "stamp db = db\<lparr>batches := bs\<rparr>" by blast
    have idle: "\<not> stampable (stamp db) b" if "b \<in> set (unstamped (stamp db))" for b
    proof
      assume "stampable (stamp db) b"
      moreover have b: "b \<in> set (batches (stamp db))" "b_required_capabilities b = None" "b_status b = Validated"
        using that by (auto simp: unstamped_def)
      then have "b \<in> set (unstamped db)" using s by (auto simp: unstamped_def)
      ultimately have "stamped (b_id b) (stamp db)" using s bs by auto
      then show False using b by (auto simp: stamped_def)
    qed
    then have "backfill_rows loads (unstamped (stamp db)) (stamp db) = (Inr (stamp db), 0)"
      by (intro stamp_idle) (simp add: list_all_iff)
    then have "stamp (stamp db) = stamp db"
      by (simp add: stamp_def backfill_required_capabilities_def unstamped_def)
    then show ?thesis using bs idle by blast
  qed
  then show "\<exists>bs. stamp db = db\<lparr>batches := bs\<rparr>" "stamp (stamp db) = stamp db"
    "stamp db = db \<or> (\<forall>b \<in> set (unstamped (stamp db)). \<not> stampable (stamp db) b)" by blast+
qed

text \<open>A schema with all the models declare stays as it is.\<close>

lemma boot_schema_settles:
  assumes "boot_schema d fails live = (Inr (), live')"
  shows "up_to_date live'" "boot_schema d' (\<lambda>_. False) live' = (Inr (), live')"
proof -
  have "verify_schema live' = Inr ()"
    using assms by (auto simp: boot_schema_def ensure_schema_def split: prod.splits option.splits)
  then show ok: "up_to_date live'" by (simp add: verify_ok up_to_date_def)
  have tables: "fst ` set metadata \<subseteq> fst ` set live'"
    using ok by (force simp: up_to_date_def list_all_iff)
  have columns: "c \<in> set (columns_of live' t)" if "c \<in> set (columns_of metadata t)" for t c
  proof -
    obtain cs where "map_of metadata t = Some cs" "c \<in> set cs"
      using \<open>c \<in> set (columns_of metadata t)\<close> by (cases "map_of metadata t") (auto simp: columns_of_def)
    then show ?thesis using ok map_of_SomeD by (fastforce simp: up_to_date_def list_all_iff)
  qed
  have "create_all live' = live'" using tables by (force simp: create_all_def filter_empty_conv)
  moreover have "fold put_column (filter P migrations) live' = live'" for P
    using migrations_declared columns by (intro puts_idle) (auto simp: list_all_iff)
  moreover have "upgradable live'"
    using ok by (auto simp: upgradable_def up_to_date_def list_all_iff)
  ultimately show "boot_schema d' (\<lambda>_. False) live' = (Inr (), live')"
    using boot_result(1) [of live' d'] by simp
qed

text \<open>What seeding leaves of the other tables.\<close>

lemma seed_entry_accounts:
  assumes "seed_entry e db = Inr (db', x)"
  shows "users db' = users db \<and> memberships db' = memberships db \<and> orgs db' = orgs db"
  using assms
proof (cases rule: seed_entry_cases)
  case (written fs)
  let ?d = "apply_rename (the (me_id e)) (me_renamed_from e) db"
  have "users ?d = users db \<and> memberships ?d = memberships db \<and> orgs ?d = orgs db"
    by (simp add: apply_rename_def split: option.split)
  moreover have "users db' = users ?d \<and> memberships db' = memberships ?d \<and> orgs db' = orgs ?d"
    using written(2-4) by (cases "tbl_get c_id (the (me_id e)) (catalog ?d)") (auto simp: upsert_entry_def Let_def)
  ultimately show ?thesis by simp
qed simp

lemma seed_all_accounts:
  "seed_all es db = Inr (db', xs) \<Longrightarrow> users db' = users db \<and> memberships db' = memberships db \<and> orgs db' = orgs db"
proof (induction es arbitrary: db xs)
  case (Cons m es)
  then obtain e where m: "m = Some e" by (cases m) auto
  then obtain db1 x ys where "seed_entry e db = Inr (db1, x)" "seed_all es db1 = Inr (db', ys)"
    using Cons.prems by (blast elim: seed_all_Cons)
  then show ?case using Cons.IH seed_entry_accounts by metis
qed simp

text \<open>The stamp looks at no account, and the administrator's accounts are all the last handler writes.\<close>

definition put_accounts :: "user_row list \<Rightarrow> membership_row list \<Rightarrow> org_row list \<Rightarrow> srv \<Rightarrow> srv" where
  "put_accounts us ms os db = db\<lparr>users := us, memberships := ms, orgs := os\<rparr>"

lemma put_accounts_simps [simp]:
  "batches (put_accounts us ms os db) = batches db" "files (put_accounts us ms os db) = files db"
  "disk (put_accounts us ms os db) = disk db" "catalog (put_accounts us ms os db) = catalog db"
  "upd_batch i f (put_accounts us ms os db) = put_accounts us ms os (upd_batch i f db)"
  by (simp_all add: put_accounts_def upd_batch_def)

lemma admin_writes_accounts:
  fixes db :: srv and ids :: fresh_ids and now :: seconds and bhash :: "nat list \<Rightarrow> string"
  defines "db' \<equiv> create_default_admin bhash ids now db"
  shows "db' = put_accounts (users db') (memberships db') (orgs db') db"
  unfolding db'_def by (cases "user_by_email admin_email db")
    (simp_all add: create_default_admin_def add_membership_def put_accounts_def Let_def)

lemma backfill_rows_accounts:
  "backfill_rows loads bs (put_accounts us ms os db) =
   map_prod (map_sum id (put_accounts us ms os)) id (backfill_rows loads bs db)"
  by (induction loads bs db rule: backfill_rows.induct) (auto split: option.split sum.split prod.split)

lemma backfill_accounts:
  "snd (backfill_required_capabilities loads (put_accounts us ms os db)) =
   put_accounts us ms os (snd (backfill_required_capabilities loads db))"
  by (auto simp: backfill_required_capabilities_def backfill_rows_accounts split: prod.split sum.split)

lemma synced_same_catalog: "catalog db' = catalog db \<Longrightarrow> synced e db' = synced e db"
  by (simp add: synced_def)

text \<open>A process that came up has the engine of its own URL.\<close>

lemma boot_InrD:
  assumes "boot env no_engine (live, db) = (Inr m, live', db')"
  obtains db1 effects where "boot_schema (be_dialect env) (be_fails env) live = (Inr (), live')"
    "seed_model_catalog (be_manifest env) db = (Inr effects, db1)" "db' = startup_handlers env db1"
    "truthy (be_url env)" "be_creates env (the (be_url env))" "m = \<lparr>dm_engine = be_url env, dm_factory = be_url env\<rparr>"
proof -
  have "truthy (be_url env)" "be_creates env (the (be_url env))"
    using assms by (auto simp: boot_def get_engine_def no_engine_def database_url_def split: if_splits)
  then show thesis
    using assms that by (auto simp: boot_def get_engine_def open_session_def no_engine_def database_url_def truthy_def
        split: option.splits sum.splits prod.splits)
qed

section \<open>Property\<close>

text \<open>C24: A start settles. When a process comes up over a deployment with consistent accounts, its sessions are on
  the database of \<open>DATABASE_URL\<close>, the schema has all the models declare, every usable entry of the manifest is
  in the catalogue as the manifest has it, and there is an administrator who owns an organization; and each later
  start of the same release over what it left, whatever dialect, clock and identifiers it has, comes up and changes
  neither the schema nor a row: the schema, the seeding, the stamp of queued batches and the administrator do not
  disturb one another. (Hypotheses: a tidy manifest, distinct catalogue ids, fresh identifiers.)\<close>

theorem boot_settles:
  assumes "boot env no_engine (live, db) = (Inr m, live', db')" "tidy (be_manifest env)"
    "distinct (map c_id (catalog db))" "accounts_ok db" "ids_fresh (be_ids env) db"
    "fr_user (be_ids env) \<notin> mb_user_id ` set (memberships db)"
  shows "m = \<lparr>dm_engine = be_url env, dm_factory = be_url env\<rparr> \<and> truthy (be_url env) \<and> up_to_date live' \<and>
    (\<forall>e. Some e \<in> set (be_manifest env) \<longrightarrow> synced e db') \<and> admin_present db' \<and> accounts_ok db' \<and>
    (\<forall>d ids now bhash. boot (env\<lparr>be_dialect := d, be_fails := \<lambda>_. False, be_ids := ids, be_now := now, be_bhash := bhash\<rparr>)
       no_engine (live', db') = (Inr m, live', db'))"
proof -
  obtain db1 effects where b: "boot_schema (be_dialect env) (be_fails env) live = (Inr (), live')"
    "seed_model_catalog (be_manifest env) db = (Inr effects, db1)" "db' = startup_handlers env db1"
    "truthy (be_url env)" "be_creates env (the (be_url env))" "m = \<lparr>dm_engine = be_url env, dm_factory = be_url env\<rparr>"
    using assms(1) by (rule boot_InrD)
  have seed: "seed_all (be_manifest env) db = Inr (db1, effects)"
    using b(2) by (auto simp: seed_model_catalog_def split: sum.splits prod.splits)
  let ?stamp = "\<lambda>db. snd (backfill_required_capabilities (be_loads env) db)"
  have stamp: "\<exists>bs. ?stamp db1 = db1\<lparr>batches := bs\<rparr>" "?stamp (?stamp db1) = ?stamp db1"
    using backfill_settles by blast+
  have accounts: "users (?stamp db1) = users db" "memberships (?stamp db1) = memberships db" "orgs (?stamp db1) = orgs db"
    "catalog (?stamp db1) = catalog db1"
    using stamp(1) seed_all_accounts [OF seed] by auto
  then have ok: "accounts_ok (?stamp db1)" "ids_fresh (be_ids env) (?stamp db1)"
    "fr_user (be_ids env) \<notin> mb_user_id ` set (memberships (?stamp db1))"
    using assms(4-6) by (simp_all add: accounts_ok_def owned_def google_ids_def ids_fresh_def)
  have db': "db' = create_default_admin (be_bhash env) (be_ids env) (be_now env) (?stamp db1)"
    using b(3) by (simp add: startup_handlers_def)
  note admin = admin_ready [OF ok, of "be_bhash env" "be_now env", folded db']
  have put: "db' = put_accounts (users db') (memberships db') (orgs db') (?stamp db1)"
    unfolding db' by (rule admin_writes_accounts)
  then have cat: "catalog db' = catalog db1" using accounts(4) by (metis put_accounts_simps(4))
  have entries: "\<forall>e. Some e \<in> set (be_manifest env) \<longrightarrow> synced e db'"
    using seed_all_synced [OF seed assms(2)] synced_same_catalog [OF cat] by blast
  have seeded: "\<exists>again. seed_model_catalog (be_manifest env) db' = (Inr again, db')"
    using seed_all_fixed [OF entries seed_all_mappings [OF seed]] seed_all_distinct [OF seed assms(3)] cat
    by (auto simp: seed_model_catalog_def)
  have "?stamp db' = put_accounts (users db') (memberships db') (orgs db') (?stamp (?stamp db1))"
    by (subst put) (simp only: backfill_accounts)
  then have stamped_again: "?stamp db' = db'" using stamp(2) put by simp
  have admin_again: "create_default_admin h i n db' = db'" for h i n
    using admin by (intro admin_present_fixed) blast
  have "boot (env\<lparr>be_dialect := d, be_fails := \<lambda>_. False, be_ids := ids, be_now := now, be_bhash := h\<rparr>)
      no_engine (live', db') = (Inr m, live', db')" for d ids now h
    using boot_schema_settles(2) [OF b(1), of d] seeded stamped_again admin_again b(4-6)
    by (cases "be_url env")
      (auto simp: boot_def get_engine_def open_session_def no_engine_def database_url_def startup_handlers_def)
  then show ?thesis using b(4,6) boot_schema_settles(1) [OF b(1)] entries admin by blast
qed

text \<open>An older database, with a batch queued before its needs were recorded.\<close>

definition first_boot :: boot_env where
  "first_boot = \<lparr>be_url = Some ''postgresql://db'', be_creates = prefix ''postgresql://'', be_dialect = Sqlite, be_fails = (\<lambda>_. False),
     be_manifest = shipped_manifest, be_loads = (\<lambda>_. DecodeError), be_bhash = (\<lambda>_. ''h''), be_ids = sample_ids, be_now = 5\<rparr>"

definition queued_db :: srv where
  "queued_db = raced_db\<lparr>batches := [sample_batch Validated]\<rparr>"

lemma queued_db_ok: "accounts_ok queued_db" "ids_fresh sample_ids queued_db"
  "fr_user sample_ids \<notin> mb_user_id ` set (memberships queued_db)" "distinct (map c_id (catalog queued_db))"
  "tidy shipped_manifest" "truthy (be_url first_boot)"
  by code_simp+

theorem boot_settles_witness:
  "\<exists>m live' db'. boot first_boot no_engine (first_release, queued_db) = (Inr m, live', db') \<and>
    up_to_date live' \<and> admin_present db' \<and> \<not> admin_present queued_db \<and>
    map b_required_capabilities (batches db') = [Some []] \<and> map b_required_capabilities (batches queued_db) = [None] \<and>
    boot first_boot no_engine (live', db') = (Inr m, live', db')"
proof -
  let ?r = "boot first_boot no_engine (first_release, queued_db)"
  obtain x live' db' where r: "?r = (x, live', db')" by (metis prod.exhaust)
  have "map_sum (\<lambda>_. ()) (\<lambda>_. ()) (fst ?r) = Inr ()" by code_simp
  then obtain m where m: "x = Inr m" using r by (cases x) auto
  have "map b_required_capabilities (batches (snd (snd ?r))) = [Some []]" by code_simp
  then have stamped: "map b_required_capabilities (batches db') = [Some []]" using r by simp
  have before: "\<not> admin_present queued_db" "map b_required_capabilities (batches queued_db) = [None]" by code_simp+
  have same: "first_boot\<lparr>be_dialect := Sqlite, be_fails := \<lambda>_. False, be_ids := sample_ids, be_now := 5, be_bhash := \<lambda>_. ''h''\<rparr>
      = first_boot" by (simp add: first_boot_def)
  have "be_ids first_boot = sample_ids" "be_manifest first_boot = shipped_manifest" by (simp_all add: first_boot_def)
  with boot_settles [of first_boot first_release queued_db m live' db'] r m queued_db_ok
  have "up_to_date live' \<and> admin_present db' \<and> boot first_boot no_engine (live', db') = (Inr m, live', db')"
    using same by metis
  then show ?thesis using r m stamped before by (intro exI [of _ m] exI [of _ live'] exI [of _ db']) simp
qed

end
