(* ===== verification/Mail.thy ===== *)
theory Mail
  imports Accounts Org_Members
begin

text \<open>
  \<open>backend/services/email_service.py\<close> and its two callers: the forgotten password of \<open>routers/auth.py\<close> and the
  invitation of \<open>routers/organizations.py\<close>. Text is UTF-8 bytes. Mailgun is the parameter \<open>post\<close>: the status it
  answers a request with, None when the request raises. What is logged is left out.
\<close>

section \<open>Sending\<close>

text \<open>\<open>MAILGUN_API_KEY\<close>, \<open>MAILGUN_DOMAIN\<close> and \<open>MAILGUN_FROM\<close>, read when the module is imported.\<close>

record mail_settings =
  ms_api_key :: "string option"
  ms_domain :: "string option"
  ms_from :: string

definition mail_settings_of :: "(string \<Rightarrow> string option) \<Rightarrow> mail_settings" where
  "mail_settings_of env = \<lparr>ms_api_key = env ''MAILGUN_API_KEY'', ms_domain = env ''MAILGUN_DOMAIN'',
     ms_from = (case env ''MAILGUN_FROM'' of None \<Rightarrow> ''Sheshnag support <noreply@sheshnag.io>'' | Some f \<Rightarrow> f)\<rparr>"

record mail =
  ml_url :: string
  ml_auth :: "string \<times> string"
  ml_from :: string
  ml_to :: string
  ml_subject :: string
  ml_text :: string

type_synonym mailgun = "mail \<Rightarrow> int option"

text \<open>Whether it was sent, and the requests made.\<close>

definition send_email :: "mail_settings \<Rightarrow> mailgun \<Rightarrow> string \<Rightarrow> string \<Rightarrow> string \<Rightarrow> bool \<times> mail list" where
  "send_email ms post to subject body =
     (if \<not> truthy (ms_api_key ms) \<or> \<not> truthy (ms_domain ms) then (False, [])
      else let m = \<lparr>ml_url = ''https://api.mailgun.net/v3/'' @ the (ms_domain ms) @ ''/messages'',
                    ml_auth = (''api'', the (ms_api_key ms)), ml_from = ms_from ms, ml_to = to,
                    ml_subject = subject, ml_text = body\<rparr>
           in (post m = Some 200, [m]))"

section \<open>The forgotten password\<close>

definition newline :: string where "newline = [CHR 0x0A]"

definition frontend_url :: "(string \<Rightarrow> string option) \<Rightarrow> string" where
  "frontend_url env = (case env ''FRONTEND_URL'' of None \<Rightarrow> ''http://localhost:3000'' | Some u \<Rightarrow> u)"

definition reset_link :: "string \<Rightarrow> string \<Rightarrow> string" where
  "reset_link front token = front @ ''/reset-password?token='' @ token"

definition send_password_reset_email :: "mail_settings \<Rightarrow> mailgun \<Rightarrow> (string \<Rightarrow> string option) \<Rightarrow> string \<Rightarrow>
    string \<Rightarrow> string option \<Rightarrow> bool \<times> mail list" where
  "send_password_reset_email ms post env to token front =
     (let base = (if truthy front then the front else frontend_url env) in
      send_email ms post to (''Password Reset '' @ em_dash @ '' Sheshnag Platform'')
        (''You requested a password reset for your Sheshnag account.'' @ newline @ newline @
         ''Click the link below to reset your password:'' @ newline @
         reset_link base token @ newline @ newline @
         ''This link expires in 1 hour.'' @ newline @
         ''If you didn't request this, ignore this email.'' @ newline))"

definition forgot_detail :: string where
  "forgot_detail = ''If that email is registered, a reset link has been sent.''"

text \<open>The answer, the requests to Mailgun, and the database.\<close>

definition forgot_endpoint :: "mail_settings \<Rightarrow> mailgun \<Rightarrow> (string \<Rightarrow> string option) \<Rightarrow> string \<Rightarrow> string \<Rightarrow> string \<Rightarrow>
    seconds \<Rightarrow> srv \<Rightarrow> string \<times> mail list \<times> srv" where
  "forgot_endpoint ms post env raw_email rid token now db =
     (case forgot_password raw_email rid token now db of
        (None, db') \<Rightarrow> (forgot_detail, [], db')
      | (Some (to, tok), db') \<Rightarrow> (forgot_detail, snd (send_password_reset_email ms post env to tok None), db'))"

section \<open>Invitations\<close>

definition join_link :: "string \<Rightarrow> string \<Rightarrow> string" where
  "join_link front token = front @ ''/join?token='' @ token"

definition invite_email :: "mail_settings \<Rightarrow> mailgun \<Rightarrow> (string \<Rightarrow> string option) \<Rightarrow> user_row \<Rightarrow> string \<Rightarrow> string \<Rightarrow>
    string \<Rightarrow> string \<Rightarrow> srv \<Rightarrow> bool \<times> mail list" where
  "invite_email ms post env user oid email wanted_role token db =
     (let org = (case tbl_get org_id oid (orgs db) of None \<Rightarrow> ''an organization'' | Some row \<Rightarrow> org_name row) in
      send_email ms post email (''You're invited to join '' @ org @ '' on Sheshnag'')
        (usr_full_name user @ '' invited you to join '' @ CHR 0x27 # org @ CHR 0x27 # '' as '' @ wanted_role @ ''.'' @
         newline @ newline @ ''Click here to accept: '' @ join_link (frontend_url env) token @ newline @ newline @
         ''This invite expires in 7 days.'' @ newline @
         ''If you don't have an account, sign up first, then use the link above.''))"

text \<open>The answer is the one of the invitation, whatever becomes of the mail.\<close>

definition invite_endpoint :: "mail_settings \<Rightarrow> mailgun \<Rightarrow> (string \<Rightarrow> string option) \<Rightarrow> user_row \<Rightarrow> string \<Rightarrow> string \<Rightarrow>
    string \<Rightarrow> string \<Rightarrow> string \<Rightarrow> string \<Rightarrow> seconds \<Rightarrow> srv \<Rightarrow> (invite_outcome \<times> srv) api \<times> mail list" where
  "invite_endpoint ms post env user oid raw_email wanted_role new_mid new_iid token now db =
     (let res = invite_member user oid raw_email wanted_role new_mid new_iid token now db in
      case res of
        Inr (InviteSent _ tok _ _, db') \<Rightarrow>
          (res, snd (invite_email ms post env user oid (lower (strip raw_email)) wanted_role tok db'))
      | _ \<Rightarrow> (res, []))"

section \<open>Lemmas\<close>

definition has_link :: "string \<Rightarrow> mail \<Rightarrow> bool" where
  "has_link link m \<longleftrightarrow> (\<exists>u v. ml_text m = u @ link @ newline @ v)"

lemma reset_mail:
  assumes "truthy (ms_api_key ms)" "truthy (ms_domain ms)"
  shows "\<exists>m. snd (send_password_reset_email ms post env to token None) = [m] \<and> ml_to m = to \<and>
    has_link (reset_link (frontend_url env) token) m"
proof -
  let ?m = "hd (snd (send_password_reset_email ms post env to token None))"
  have one: "snd (send_password_reset_email ms post env to token None) = [?m]" "ml_to ?m = to"
    using assms by (simp_all add: send_password_reset_email_def send_email_def Let_def)
  have "ml_text ?m = (''You requested a password reset for your Sheshnag account.'' @ newline @ newline @
      ''Click the link below to reset your password:'' @ newline) @ reset_link (frontend_url env) token @ newline @
      (newline @ ''This link expires in 1 hour.'' @ newline @ ''If you didn't request this, ignore this email.'' @ newline)"
    using assms by (simp add: send_password_reset_email_def send_email_def Let_def)
  then have "has_link (reset_link (frontend_url env) token) ?m" unfolding has_link_def by blast
  then show ?thesis using one by blast
qed

lemma tokens_after_request:
  assumes "forgot_password raw_email rid token now db = (Some (to, tok), db')" "prt_token ` set (reset_tokens db) \<inter> {token} = {}"
  obtains u where "user_by_email (normalize_email raw_email) db = Some u" "to = usr_email u" "tok = token"
    "users db' = users db"
    "open_token token db' = Some \<lparr>prt_id = rid, prt_user_id = usr_id u, prt_token = token,
       prt_expires_at = now + reset_token_expiry, prt_used = False\<rparr>"
    "\<forall>r \<in> set (reset_tokens db'). prt_user_id r = usr_id u \<and> \<not> prt_used r \<longrightarrow> prt_token r = token"
proof -
  obtain u where u: "user_by_email (normalize_email raw_email) db = Some u" "to = usr_email u" "tok = token"
    and db': "db' = db\<lparr>reset_tokens := tbl_add \<lparr>prt_id = rid, prt_user_id = usr_id u, prt_token = token,
        prt_expires_at = now + reset_token_expiry, prt_used = False\<rparr>
      (map (\<lambda>r. if prt_user_id r = usr_id u \<and> \<not> prt_used r then use_token r else r) (reset_tokens db))\<rparr>"
    using assms(1) by (auto simp: forgot_password_def split: option.splits)
  let ?old = "map (\<lambda>r. if prt_user_id r = usr_id u \<and> \<not> prt_used r then use_token r else r) (reset_tokens db)"
  have "prt_token (use_token r) = prt_token r" for r by (simp add: use_token_def)
  then have "find (\<lambda>r. prt_token r = token \<and> \<not> prt_used r) ?old = None"
    using assms(2) by (auto simp: find_None_iff)
  then have "open_token token db' = Some \<lparr>prt_id = rid, prt_user_id = usr_id u, prt_token = token,
       prt_expires_at = now + reset_token_expiry, prt_used = False\<rparr>"
    by (simp add: open_token_def db' tbl_add_def find_append)
  moreover have "\<forall>r \<in> set (reset_tokens db'). prt_user_id r = usr_id u \<and> \<not> prt_used r \<longrightarrow> prt_token r = token"
    by (auto simp: db' tbl_add_def use_token_def)
  ultimately show thesis using u that db' by simp
qed

section \<open>Property\<close>

text \<open>C35: The mailed link is the way back in, and the caller learns nothing. Whatever becomes of the mail, the answer
  to a forgotten password is one and the same, for registered and unregistered addresses, and no mail is sent
  and nothing stored for an address that is not registered. For a registered one, with Mailgun configured, one
  mail is posted, to the registered spelling of the address, with the link of the token on a line of its own;
  no other token of that user is open, and a reset with the token of the link within the hour succeeds for
  every password that bcrypt can hash and stores its hash for that user. (Hypotheses: the token is new, and the
  user ids are unique.)\<close>

theorem reset_mail_works:
  assumes "forgot_endpoint ms post env raw_email rid token now db = (detail, mails, db')"
    "token \<notin> prt_token ` set (reset_tokens db)" "distinct (map usr_id (users db))"
  shows "detail = forgot_detail \<and>
    (case user_by_email (normalize_email raw_email) db of
       None \<Rightarrow> mails = [] \<and> db' = db
     | Some u \<Rightarrow>
         (truthy (ms_api_key ms) \<and> truthy (ms_domain ms) \<longrightarrow>
            (\<exists>m. mails = [m] \<and> ml_to m = usr_email u \<and> has_link (reset_link (frontend_url env) token) m)) \<and>
         (\<forall>r \<in> set (reset_tokens db'). prt_user_id r = usr_id u \<and> \<not> prt_used r \<longrightarrow> prt_token r = token) \<and>
         (\<forall>bhash new later. length new \<le> 72 \<and> later \<le> now + 3600 \<longrightarrow>
            (\<exists>db''. reset_password bhash token new later db' = (Inr (), db'') \<and>
               (\<exists>v \<in> set (users db''). usr_id v = usr_id u \<and> usr_password_hash v = Some (bhash new)))))"
proof (cases "user_by_email (normalize_email raw_email) db")
  case None
  then show ?thesis using assms(1) by (auto simp: forgot_endpoint_def forgot_password_def)
next
  case (Some u)
  obtain to tok db1 where f: "forgot_password raw_email rid token now db = (Some (to, tok), db1)"
    using Some by (auto simp: forgot_password_def)
  then have e: "detail = forgot_detail" "mails = snd (send_password_reset_email ms post env to tok None)" "db' = db1"
    using assms(1) by (simp_all add: forgot_endpoint_def)
  from f assms(2) obtain u' where t: "user_by_email (normalize_email raw_email) db = Some u'" "to = usr_email u'" "tok = token"
    "users db1 = users db"
    "open_token token db1 = Some \<lparr>prt_id = rid, prt_user_id = usr_id u', prt_token = token,
       prt_expires_at = now + reset_token_expiry, prt_used = False\<rparr>"
    "\<forall>r \<in> set (reset_tokens db1). prt_user_id r = usr_id u' \<and> \<not> prt_used r \<longrightarrow> prt_token r = token"
    by (elim tokens_after_request) auto
  have u: "u' = u" using t(1) Some by simp
  have mem: "u \<in> set (users db)" using Some by (auto simp: user_by_email_def dest: find_SomeD)
  then have get: "tbl_get usr_id (usr_id u) (users db1) = Some u"
    using tbl_get_distinct [OF assms(3)] t(4) by simp
  have "\<exists>db''. reset_password bhash token new later db' = (Inr (), db'') \<and>
      (\<exists>v \<in> set (users db''). usr_id v = usr_id u \<and> usr_password_hash v = Some (bhash new))"
    if "length new \<le> 72" "later \<le> now + 3600" for bhash new later
  proof -
    let ?db = "spend_token rid (upd_user (usr_id u) (set_password (bhash new)) db1)"
    have "reset_password bhash token new later db1 = (Inr (), ?db)"
      using that t(5) get by (simp add: reset_password_def u hash_password_def reset_token_expiry_def get_or_def)
    moreover have "set_password (bhash new) u \<in> set (users ?db)"
      using mem t(4) by (force simp: spend_token_def upd_user_def tbl_upd_def)
    moreover have "usr_id (set_password (bhash new) u) = usr_id u \<and>
        usr_password_hash (set_password (bhash new) u) = Some (bhash new)" by (simp add: set_password_def)
    ultimately show ?thesis unfolding e(3) by blast
  qed
  then show ?thesis using e t(2,3,6) u Some reset_mail [of ms post env "usr_email u" token] by simp
qed

definition mail_env :: "string \<Rightarrow> string option" where
  "mail_env = map_of [(''MAILGUN_API_KEY'', ''k''), (''MAILGUN_DOMAIN'', ''mg.sheshnag.io''), (''FRONTEND_URL'', ''https://s.io'')]"

theorem reset_mail_works_witness:
  "\<exists>m db' db''. forgot_endpoint (mail_settings_of mail_env) (\<lambda>_. None) mail_env '' A@x.org'' ''rst1'' ''tok'' 100 sample_base =
      (forgot_detail, [m], db') \<and> ml_to m = ''a@x.org'' \<and> has_link ''https://s.io/reset-password?token=tok'' m \<and>
    reset_password (\<lambda>_. ''h2'') ''tok'' [7] 200 db' = (Inr (), db'')"
proof -
  let ?r = "forgot_endpoint (mail_settings_of mail_env) (\<lambda>_. None) mail_env '' A@x.org'' ''rst1'' ''tok'' 100 sample_base"
  obtain detail mails db' where r: "?r = (detail, mails, db')" by (metis prod.exhaust)
  have pre: "''tok'' \<notin> prt_token ` set (reset_tokens sample_base)" "distinct (map usr_id (users sample_base))"
    "user_by_email (normalize_email '' A@x.org'') sample_base = Some sample_user" "usr_email sample_user = ''a@x.org''"
    "truthy (ms_api_key (mail_settings_of mail_env))" "truthy (ms_domain (mail_settings_of mail_env))"
    "reset_link (frontend_url mail_env) ''tok'' = ''https://s.io/reset-password?token=tok''" by code_simp+
  note works = reset_mail_works [OF r pre(1,2), unfolded pre(3) option.case]
  then obtain m where m: "mails = [m]" "ml_to m = ''a@x.org''" "has_link ''https://s.io/reset-password?token=tok'' m"
    using pre(4-7) by auto
  have "length [7] \<le> (72 :: nat) \<and> 200 \<le> 100 + (3600 :: seconds)" by simp
  then have "\<exists>db''. reset_password (\<lambda>_. ''h2'') ''tok'' [7] 200 db' = (Inr (), db'')" using works by blast
  then show ?thesis using r m works by blast
qed

end
