(* ===== verification/Fleet_Time.thy ===== *)
theory Fleet_Time
  imports Fleet_Run Boot Daemon_Config
begin

text \<open>
  The control plane over time: the steps of theory Lifecycle with the clock of the process that takes them, and
  what a heartbeat is for. \<open>at_time\<close> labels a step with what it is to a running batch: a turn of the sweeper
  over the workers, a heartbeat, the answer of a worker to its job, or any other request or task.
\<close>

section \<open>Timed steps\<close>

datatype event = Sweeping | Beat string | Answered string string | Request

text \<open>The handlers of \<open>step\<close>, each at the time \<open>t\<close>. \<open>at_admin\<close> stands for the requests that write no
  batch, no assignment and no time of a heartbeat.\<close>

definition beat_times :: "srv \<Rightarrow> (string \<times> seconds) list" where
  "beat_times db = map (\<lambda>w. (w_id w, w_last_heartbeat w)) (workers db)"

inductive at_time :: "wall_clock \<Rightarrow> seconds \<Rightarrow> sys \<Rightarrow> event \<Rightarrow> sys \<Rightarrow> bool" for wall t where
  at_create: "create_batch ctx req bid t (sdb s) = Inr ((out, bid', path), db') \<Longrightarrow>
      get_batch_row (sdb s) bid = None \<Longrightarrow> at_time wall t s Request \<lparr>sdb = db', pend = insert bid (pend s)\<rparr>"
| at_verdict: "bid \<in> pend s \<Longrightarrow> persist_result commit_ok m2s t bid r (sdb s) = (ok, db') \<Longrightarrow>
      at_time wall t s Request \<lparr>sdb = db', pend = pend s - {bid}\<rparr>"
| at_lost: "p \<subseteq> pend s \<Longrightarrow> at_time wall t s Request (s\<lparr>pend := p\<rparr>)"
| at_poll: "poll_job wall oid wid t (sdb s) = Inr (j, db') \<Longrightarrow> at_time wall t s Request (set_db db' s)"
| at_progress: "report_progress oid wid jid c f (sdb s) = Inr (i, db') \<Longrightarrow> at_time wall t s Request (set_db db' s)"
| at_download: "report_model_download oid wid t (sdb s) = Inr (i, db') \<Longrightarrow> at_time wall t s Request (set_db db' s)"
| at_upload: "upload_results oid wid jid content n c f fid t (sdb s) = Inr (a, db') \<Longrightarrow>
      at_time wall t s (Answered wid jid) (set_db db' s)"
| at_failure: "report_failure oid wid jid err t (sdb s) = Inr (a, db') \<Longrightarrow>
      at_time wall t s (Answered wid jid) (set_db db' s)"
| at_sweep: "at_time wall t s Sweeping (set_db (fst (sweep_stale_workers t (sdb s))) s)"
| at_ingest: "at_time wall t s Request (set_db (ingest_usage_records loads repr t new_id crash bid path (sdb s)) s)"
| at_ingest_sweep: "at_time wall t s Request
      (set_db (fst (sweep_pending_ingestions loads repr t new_ids crashes (sdb s))) s)"
| at_backfill: "at_time wall t s Request (set_db (snd (backfill_required_capabilities loads (sdb s))) s)"
| at_register: "at_time wall t s Request (set_db (snd (register_worker key_id oid rr wid rids t (sdb s))) s)"
| at_beat: "worker_heartbeat oid wid hb t (sdb s) = Inr (i, db') \<Longrightarrow> at_time wall t s (Beat wid) (set_db db' s)"
| at_file_upload: "at_time wall t s Request (set_db (snd (upload_file ctx fid name purpose content n t (sdb s))) s)"
| at_file_delete: "delete_file ctx fid removed (sdb s) = Inr (i, db') \<Longrightarrow> at_time wall t s Request (set_db db' s)"
| at_drain: "drain_worker user oid wid (sdb s) = Inr (st, db') \<Longrightarrow> at_time wall t s Request (set_db db' s)"
| at_undrain: "undrain_worker user oid wid (sdb s) = Inr (st, db') \<Longrightarrow> at_time wall t s Request (set_db db' s)"
| at_remove: "remove_worker user oid wid (sdb s) = Inr (i, db') \<Longrightarrow> at_time wall t s Request (set_db db' s)"
| at_adopt: "adopt ar (sdb s) = Inr (r, db') \<Longrightarrow> at_time wall t s Request (set_db db' s)"
| at_admin: "batches db' = batches (sdb s) \<Longrightarrow> assignments db' = assignments (sdb s) \<Longrightarrow>
      beat_times db' = beat_times (sdb s) \<Longrightarrow> at_time wall t s Request (set_db db' s)"

inductive timed_run :: "wall_clock \<Rightarrow> seconds \<Rightarrow> sys \<Rightarrow> (seconds \<times> event) list \<Rightarrow> seconds \<Rightarrow> sys \<Rightarrow> bool" for wall t0 s0 where
  here: "timed_run wall t0 s0 [] t0 s0"
| there: "timed_run wall t0 s0 tr t s \<Longrightarrow> t \<le> u \<Longrightarrow> at_time wall u s e s' \<Longrightarrow> timed_run wall t0 s0 (tr @ [(u, e)]) u s'"

lemma at_time_step: "at_time wall t s e s' \<Longrightarrow> step wall s s'"
  by (cases rule: at_time.cases) (auto intro: step.intros)

section \<open>When a worker was last heard\<close>

definition heard :: "string \<Rightarrow> seconds \<Rightarrow> srv \<Rightarrow> bool" where
  "heard wid u db \<longleftrightarrow> (\<forall>p \<in> set (beat_times db). fst p = wid \<longrightarrow> u \<le> snd p)"

text \<open>A change of the table of workers that only moves times forward, to \<open>t\<close>.\<close>

definition forward :: "seconds \<Rightarrow> srv \<Rightarrow> srv \<Rightarrow> bool" where
  "forward t db db' \<longleftrightarrow> (\<forall>p \<in> set (beat_times db'). snd p = t \<or> p \<in> set (beat_times db))"

lemma forward_heard: "forward t db db' \<Longrightarrow> heard wid u db \<Longrightarrow> u \<le> t \<Longrightarrow> heard wid u db'"
  by (fastforce simp: forward_def heard_def)

lemma forward_same: "beat_times db' = beat_times db \<Longrightarrow> forward t db db'"
  by (simp add: forward_def)

lemma beat_times_workers: "workers db' = workers db \<Longrightarrow> beat_times db' = beat_times db"
  by (simp add: beat_times_def)

lemma beat_times_upd_batch [simp]: "beat_times (upd_batch i f db) = beat_times db"
  by (simp add: beat_times_def upd_batch_def)

lemma forward_upd_worker:
  assumes "\<And>w. w_id w = i \<Longrightarrow> w_last_heartbeat (f w) = t \<or> (w_id (f w), w_last_heartbeat (f w)) = (w_id w, w_last_heartbeat w)"
  shows "forward t db (upd_worker i f db)"
proof -
  have "w_last_heartbeat (f w) = t \<or> (w_id (f w), w_last_heartbeat (f w)) \<in> set (beat_times db)"
    if "w \<in> set (workers db)" "w_id w = i" for w
    using that assms [of w] by (auto simp: beat_times_def)
  then show ?thesis by (auto simp: forward_def beat_times_def upd_worker_def tbl_upd_def)
qed

lemma reclassify_beat_times [simp]:
  "map (\<lambda>w. (w_id w, w_last_heartbeat w)) (fst (snd (reclassify_workers d ws cat))) =
   map (\<lambda>w. (w_id w, w_last_heartbeat w)) ws"
  using arg_cong [OF reclassify_workers_frame [of d ws cat], of "map (\<lambda>w. (w_id w, w_last_heartbeat w))"]
  by (simp add: comp_def)

lemma forward_sweep: "forward t db (fst (sweep_stale_workers u db))"
proof -
  have "beat_times (fst (sweep_stale_workers u db)) = beat_times db"
    by (simp add: beat_times_def sweep_stale_fst sweep_workers_mono_status comp_def if_distrib cong: if_cong)
  then show ?thesis by (rule forward_same)
qed

lemma forward_workers: "workers db' = workers db \<Longrightarrow> forward t db db'"
  by (rule forward_same, rule beat_times_workers)

lemma forward_register: "forward t db (snd (register_worker key_id oid rr wid rids t db))"
proof (cases "find (\<lambda>w. w_org_id w = oid \<and> w_hostname w = rr_hostname rr) (workers db)")
  case None
  then show ?thesis by (auto simp: register_worker_def Let_def forward_def beat_times_def tbl_add_def)
next
  case (Some w)
  then show ?thesis by (simp add: register_worker_def Let_def forward_upd_worker)
qed

lemma forward_beat:
  assumes "worker_heartbeat oid wid hb t db = Inr (i, db')"
  shows "forward t db db'" "heard wid t db'"
proof -
  obtain w where w: "get_org_worker db oid wid = Inr w" using assms by (auto simp: worker_heartbeat_def)
  obtain cat' w' where u: "heartbeat_update t hb (catalog db) w = (cat', w')" by (rule prod.exhaust)
  then have h: "get_org_worker db oid wid = Inr w" "heartbeat_update t hb (catalog db) w = (cat', w')"
    "db' = (upd_worker wid (\<lambda>_. w') db)\<lparr>catalog := cat'\<rparr>"
    using assms w by (auto simp: worker_heartbeat_def)
  have w': "w_id w' = wid" "w_last_heartbeat w' = t"
    using heartbeat_update_worker [OF h(2)] get_org_worker_iff [of db oid wid w] h(1) by (auto dest: find_SomeD)
  have times: "beat_times db' = beat_times (upd_worker wid (\<lambda>_. w') db)" by (rule beat_times_workers) (simp add: h(3))
  show "forward t db db'"
    using forward_upd_worker [of wid "\<lambda>_. w'" t db] w'(2) by (simp add: forward_def times)
  show "heard wid t db'"
    unfolding heard_def times by (auto simp: beat_times_def upd_worker_def tbl_upd_def w')
qed

lemma forward_adopt: "adopt ar db = Inr (r, db') \<Longrightarrow> forward t db db'"
proof (rule forward_same)
  assume "adopt ar db = Inr (r, db')"
  then have "db' = fst (reclassify_hash (db\<lparr>catalog := tbl_add (adopted_entry ar) (catalog db)\<rparr>) (adopt_digest (ad_sha256 ar)))"
    by (auto simp: adopt_def Let_def split: prod.splits)
  then show "beat_times db' = beat_times db"
    by (simp add: beat_times_def reclassify_hash_def Let_def split_beta)
qed

lemma workers_verdict:
  assumes "persist_result commit_ok m2s t bid r db = (ok, db')"
  shows "workers db' = workers db"
proof -
  have "workers (snd (persist_result commit_ok m2s t bid r db)) = workers db"
    by (simp add: persist_result_def upd_batch_def Let_def split: option.split)
  then show ?thesis using assms by simp
qed

lemma workers_poll:
  assumes "poll_job wall oid wid t db = Inr (jb, db')"
  shows "workers db' = workers db"
proof (cases jb)
  case None
  then show ?thesis using assms by (auto simp: poll_job_eq split: if_splits option.splits)
next
  case (Some x)
  then obtain w c where "db' = dispatch oid t w c db"
    using assms by (auto simp: poll_job_eq split: if_splits option.splits)
  then show ?thesis by (simp add: dispatch_def upd_batch_def)
qed

lemma workers_frame:
  "create_batch ctx req bid t db = Inr (x, db') \<Longrightarrow> workers db' = workers db"
  "report_progress oid wid jid c f db = Inr (i, db') \<Longrightarrow> workers db' = workers db"
  "workers (snd (upload_file ctx fid name purpose content n t db)) = workers db"
  "delete_file ctx fid removed db = Inr (i, db') \<Longrightarrow> workers db' = workers db"
  by (auto simp: create_batch_def report_progress_def upload_file_def delete_file_def upd_batch_def Let_def)

lemma workers_frame_answers:
  "upload_results oid wid jid content n c' f' fid t db = Inr (a, db') \<Longrightarrow> workers db' = workers db"
  "report_failure oid wid jid err t db = Inr (b, db') \<Longrightarrow> workers db' = workers db"
  by (auto simp: upload_results_def report_failure_def store_upload_def upd_batch_def Let_def split_beta split: if_splits)

lemma workers_backfill: "workers (snd (backfill_required_capabilities loads db)) = workers db"
  using backfill_settles(1) [of loads db] by auto

lemma forward_providers:
  "report_model_download oid wid t db = Inr (i, db') \<Longrightarrow> forward t db db'"
  "drain_worker user oid wid db = Inr (st, db') \<Longrightarrow> forward t db db'"
  "undrain_worker user oid wid db = Inr (st, db') \<Longrightarrow> forward t db db'"
  by (auto simp: report_model_download_def drain_worker_def undrain_worker_def intro!: forward_upd_worker)

lemma forward_remove: "remove_worker user oid wid db = Inr (i, db') \<Longrightarrow> forward t db db'"
  by (auto simp: remove_worker_def forward_def beat_times_def tbl_del_def)

lemma forward_step:
  assumes "at_time wall t s e s'"
  shows "forward t (sdb s) (sdb s')"
  using assms
proof cases
  case (at_ingest_sweep loads repr new_ids crashes)
  then show ?thesis by (simp add: set_db_def sweep_pending_ingestions_def forward_workers)
qed (simp_all add: set_db_def forward_workers workers_verdict workers_poll workers_frame workers_frame_answers workers_backfill forward_providers forward_remove
    forward_sweep forward_register forward_beat forward_adopt forward_same)

section \<open>A running batch\<close>

definition runs_on :: "string \<Rightarrow> string \<Rightarrow> srv \<Rightarrow> bool" where
  "runs_on j wid db \<longleftrightarrow> map_option b_status (get_batch_row db j) = Some InProgress \<and>
     map_option a_worker_id (get_assignment db j) = Some wid"

lemma runs_onI: "get_batch_row db j = Some b \<Longrightarrow> b_status b = InProgress \<Longrightarrow> get_assignment db j = Some a \<Longrightarrow>
   a_worker_id a = wid \<Longrightarrow> runs_on j wid db"
  by (simp add: runs_on_def)

lemma runs_onE:
  assumes "runs_on j wid db"
  obtains b a where "get_batch_row db j = Some b" "b_status b = InProgress" "get_assignment db j = Some a" "a_worker_id a = wid"
  using assms by (auto simp: runs_on_def)

lemma runs_on_core: "same_core db db' \<Longrightarrow> runs_on j wid db \<Longrightarrow> runs_on j wid db'"
  using same_core_row [of db db' j]
  by (auto simp: runs_on_def core_def same_core_def)

lemma fresh_not_stale: "heard wid u db \<Longrightarrow> t \<le> u + heartbeat_timeout_seconds \<Longrightarrow>
   \<forall>w \<in> set (workers db). w_id w = wid \<longrightarrow> \<not> is_stale t w"
  by (auto simp: heard_def beat_times_def is_stale_def)

text \<open>A sweep leaves the batch of a worker it heard in time, and no request but its worker's answer ends its run.\<close>

lemma runs_on_step:
  assumes "at_time wall t s e s'" "life_inv s" "runs_on j wid (sdb s)" "e \<noteq> Answered wid j"
    "e = Sweeping \<longrightarrow> (\<forall>w \<in> set (workers (sdb s)). w_id w = wid \<longrightarrow> \<not> is_stale t w)"
  shows "runs_on j wid (sdb s')"
proof -
  obtain b a where r: "get_batch_row (sdb s) j = Some b" "b_status b = InProgress" "get_assignment (sdb s) j = Some a" "a_worker_id a = wid"
    using assms(3) by (rule runs_onE)
  have ids: "distinct (map b_id (batches (sdb s)))" "distinct (map a_batch_id (assignments (sdb s)))"
    using inv_ids [OF assms(2)] by (simp_all add: ids_ok_def)
  note kept = runs_onI [OF _ r(2) _ r(4)]
  have core: "runs_on j wid (sdb s')" if "same_core (sdb s) (sdb s')" using runs_on_core [OF that assms(3)] .
  from assms(1) show ?thesis
  proof cases
    case (at_create ctx req bid out bid' path db')
    then show ?thesis using create_other_row [OF at_create(3,4) r(1)] r(3) by (auto intro: kept)
  next
    case (at_verdict bid commit_ok m2s r' ok db')
    have "bid \<noteq> j" using at_verdict(3) inv_row [OF assms(2) r(1)] r(2) by (auto simp: row_ok_def)
    then show ?thesis using verdict_other_row [OF at_verdict(4) _ r(1)] at_verdict(2) r(3) by (auto intro: kept)
  next
    case (at_poll oid w x db')
    have "get_batch_row db' j = Some b" by (rule poll_other_row [OF at_poll(3) r(1,2) ids(1)])
    moreover have "get_assignment db' j = Some a"
      using poll_assignment [OF at_poll(3) r(3)] .
    ultimately show ?thesis using at_poll(2) by (auto simp: set_db_def intro: kept)
  next
    case (at_upload oid w jid content n c f fid x db')
    then have "(w, jid) \<noteq> (a_worker_id a, j)" using assms(4) r(4) by auto
    from upload_other_row [OF at_upload(3) r(1,3) this] show ?thesis using at_upload(2) kept by (simp add: set_db_def)
  next
    case (at_failure oid w jid err x db')
    then have "(w, jid) \<noteq> (a_worker_id a, j)" using assms(4) r(4) by auto
    from failure_other_row [OF at_failure(3) r(1,3) this] show ?thesis using at_failure(2) kept by (simp add: set_db_def)
  next
    case at_sweep
    then have "\<forall>w \<in> set (workers (sdb s)). w_id w = a_worker_id a \<longrightarrow> \<not> is_stale t w" using assms(5) r(4) by blast
    then have "get_batch_row (sdb s') j = Some b" "get_assignment (sdb s') j = Some a"
      using sweep_running_row [OF ids(2) r(1,3)] at_sweep by (simp_all add: set_db_def)
    then show ?thesis by (rule kept)
  qed (use core in \<open>auto simp: set_db_def sweep_pending_ingestions_def same_core_refl intro: quiet_steps\<close>)
qed

text \<open>What a run keeps: the times of the heartbeats it has accepted.\<close>

lemma timed_run_reachable: "timed_run wall t0 s tr t s' \<Longrightarrow> reachable wall s \<Longrightarrow> reachable wall s'"
  by (induction rule: timed_run.induct) (auto intro: reachable.more at_time_step)

lemma timed_run_times: "timed_run wall t0 s tr t s' \<Longrightarrow> t0 \<le> t \<and> (\<forall>u e. (u, e) \<in> set tr \<longrightarrow> t0 \<le> u \<and> u \<le> t)"
  by (induction rule: timed_run.induct) fastforce+

lemma timed_run_heard:
  "timed_run wall t0 s tr t s' \<Longrightarrow> heard wid t0 (sdb s) \<Longrightarrow> u = t0 \<or> (u, Beat wid) \<in> set tr \<Longrightarrow> heard wid u (sdb s')"
proof (induction arbitrary: u rule: timed_run.induct)
  case (there tr t s1 v e s2)
  note times = timed_run_times [OF there.hyps(1)]
  show ?case
  proof (cases "(u, Beat wid) = (v, e)")
    case True
    then have "at_time wall u s1 (Beat wid) s2" using there.hyps(3) by simp
    then show ?thesis by cases (auto simp: set_db_def dest: forward_beat(2))
  next
    case False
    then have prem: "u = t0 \<or> (u, Beat wid) \<in> set tr" using there.prems(2) by auto
    then have "u \<le> v" using times there.hyps(2) by fastforce
    then show ?thesis using forward_heard [OF forward_step [OF there.hyps(3)]] there.IH [OF there.prems(1) prem] by blast
  qed
qed simp

section \<open>Property\<close>

text \<open>The sweeps of a run come no later than \<open>gap\<close> after a heartbeat of the worker that was accepted before them.\<close>

definition beats_within :: "seconds \<Rightarrow> string \<Rightarrow> seconds \<Rightarrow> (seconds \<times> event) list \<Rightarrow> bool" where
  "beats_within gap wid t0 tr \<longleftrightarrow> (\<forall>i < length tr. snd (tr ! i) = Sweeping \<longrightarrow>
     (\<exists>u \<in> insert t0 (fst ` set (filter (\<lambda>p. snd p = Beat wid) (take i tr))). fst (tr ! i) \<le> u + gap))"

text \<open>C14: A daemon that keeps its heartbeat keeps its job. Take a running batch, the daemon of the worker it is
  assigned to, and any sequence of requests, tasks and sweeps of the control plane in the order of their times.
  If the worker had been heard when the sequence starts, and each sweep finds a heartbeat of it that is no older
  than the configured interval and a delay, which together do not exceed the control plane's timeout of 120
  seconds, then the batch still runs on it at the end, and its results are still accepted from it, unless the
  worker itself has answered the job - however long that takes and whatever all others do meanwhile.\<close>

theorem beats_keep_job:
  assumes "reachable wall s" "timed_run wall t0 s tr t s'" "runs_on j wid (sdb s)" "heard wid t0 (sdb s)"
    "beats_within (cf_heartbeat_interval cfg + delay) wid t0 tr"
    "cf_heartbeat_interval cfg + delay \<le> heartbeat_timeout_seconds" "Answered wid j \<notin> snd ` set tr"
  shows "runs_on j wid (sdb s') \<and> (\<exists>b. get_assigned_batch (sdb s') j wid = Inr b)"
proof -
  have "runs_on j wid (sdb s')"
    using assms(2-5,7)
  proof (induction rule: timed_run.induct)
    case (there tr t s1 v e s2)
    let ?gap = "cf_heartbeat_interval cfg + delay"
    have within: "beats_within ?gap wid t0 tr"
      using there.prems(3) by (auto simp: beats_within_def nth_append less_Suc_eq split: if_splits)
    then have runs: "runs_on j wid (sdb s1)" using there.IH there.prems by auto
    have inv: "life_inv s1" using reachable_life timed_run_reachable [OF there.hyps(1) assms(1)] by blast
    have "\<forall>w \<in> set (workers (sdb s1)). w_id w = wid \<longrightarrow> \<not> is_stale v w" if sweep: "e = Sweeping"
    proof -
      have "\<exists>u \<in> insert t0 (fst ` set (filter (\<lambda>p. snd p = Beat wid) tr)). v \<le> u + ?gap"
        using there.prems(3) sweep unfolding beats_within_def by (force dest: spec [of _ "length tr"])
      then obtain u where m: "u \<in> insert t0 (fst ` set (filter (\<lambda>p. snd p = Beat wid) tr))" and le: "v \<le> u + ?gap" by blast
      have u: "u = t0 \<or> (u, Beat wid) \<in> set tr" using m by force
      have "heard wid u (sdb s1)" by (rule timed_run_heard [OF there.hyps(1) there.prems(2) u])
      moreover have "v \<le> u + heartbeat_timeout_seconds" using le assms(6) by linarith
      ultimately show ?thesis by (rule fresh_not_stale)
    qed
    then show ?case using runs_on_step [OF there.hyps(3) inv runs] there.prems(4) by force
  qed simp
  then show ?thesis by (auto elim!: runs_onE simp: get_assigned_batch_iff)
qed

text \<open>At an instance: the batch runs on a worker that was heard at 1000 and beats at 1030, and the sweep at
  1140 - which would have taken the batch without that heartbeat - leaves it where it is.\<close>

definition demo_beaten :: srv where
  "demo_beaten = snd (projr (worker_heartbeat ''o1'' ''w1'' sample_beat 1030 demo_running))"

lemma demo_time:
  "\<not> isl (worker_heartbeat ''o1'' ''w1'' sample_beat 1030 demo_running)" "heard ''w1'' 1000 demo_running"
  "runs_on ''b1'' ''w1'' demo_running" "\<not> runs_on ''b1'' ''w1'' (fst (sweep_stale_workers 1140 demo_running))"
  unfolding runs_on_def by code_simp+

lemma demo_timed_run:
  "timed_run sample_wall 1000 \<lparr>sdb = demo_running, pend = {}\<rparr> [(1030, Beat ''w1''), (1140, Sweeping)] 1140
     \<lparr>sdb = fst (sweep_stale_workers 1140 demo_beaten), pend = {}\<rparr>"
proof -
  let ?s = "\<lparr>sdb = demo_running, pend = {}\<rparr>" and ?s1 = "\<lparr>sdb = demo_beaten, pend = {}\<rparr>"
  let ?b = "worker_heartbeat ''o1'' ''w1'' sample_beat 1030 demo_running"
  have "worker_heartbeat ''o1'' ''w1'' sample_beat 1030 (sdb ?s) = Inr (fst (projr ?b), demo_beaten)"
    using api_value [OF demo_time(1)] by (simp add: demo_beaten_def)
  from at_beat [OF this] have "at_time sample_wall 1030 ?s (Beat ''w1'') ?s1" by (simp add: set_db_eq)
  from there [OF here _ this] have "timed_run sample_wall 1000 ?s [(1030, Beat ''w1'')] 1030 ?s1" by simp
  from there [OF this _ at_sweep, of 1140] show ?thesis by (simp add: set_db_eq)
qed

theorem beats_keep_job_witness:
  "runs_on ''b1'' ''w1'' (fst (sweep_stale_workers 1140 demo_beaten)) \<and>
   \<not> runs_on ''b1'' ''w1'' (fst (sweep_stale_workers 1140 demo_running))"
proof -
  have "beats_within (cf_heartbeat_interval (default_config ''w1'' ''/root'') + 90) ''w1'' 1000 [(1030, Beat ''w1''), (1140, Sweeping)]"
    by (simp add: beats_within_def default_config_def less_Suc_eq)
  note beats_keep_job [OF demo_running_reachable demo_timed_run _ _ this, of "''b1''"]
  then show ?thesis using demo_time by (simp add: default_config_def heartbeat_timeout_seconds_def)
qed

end
